(* ===== verification/Krunc_Prelude.thy ===== *)
theory Krunc_Prelude
  imports Main "HOL-Library.Word"
begin

unbundle bit_operations_syntax

text \<open>
  Shared vocabulary of the development: the machine integers of the Rust sources,
  \<open>Result\<close> with its \<open>?\<close> operator, little-endian byte strings, Rust's \<open>String\<close> as
  the list of its UTF-8 bytes, and the generic facts the component theories use.
\<close>

section \<open>Machine integers\<close>

text \<open>
  Rust's \<open>u8\<close> to \<open>u64\<close> are words. An \<open>i32\<close> is the same 32 bits read with \<open>sint\<close>, so
  the casts \<open>as u32\<close> and \<open>as i32\<close> are the identity on it. \<open>usize\<close> (lengths, offsets)
  is \<open>nat\<close>: every value of that type is the length of a buffer in memory.
\<close>

type_synonym u8 = "8 word"
type_synonym u16 = "16 word"
type_synonym u32 = "32 word"
type_synonym u64 = "64 word"
type_synonym i32 = "32 word"

section \<open>Result values and the question-mark operator\<close>

abbreviation Err :: "'e \<Rightarrow> 'e + 'a" where "Err \<equiv> Inl"
abbreviation Ok :: "'a \<Rightarrow> 'e + 'a" where "Ok \<equiv> Inr"

definition and_then :: "'e + 'a \<Rightarrow> ('a \<Rightarrow> 'e + 'b) \<Rightarrow> 'e + 'b" where
  "and_then m f = (case m of Err e \<Rightarrow> Err e | Ok x \<Rightarrow> f x)"

definition ok_or :: "'a option \<Rightarrow> 'e \<Rightarrow> 'e + 'a" where
  "ok_or m e = (case m of None \<Rightarrow> Err e | Some x \<Rightarrow> Ok x)"

named_theorems result_simps \<open>inversion of successful and failing results\<close>

lemma and_then_Ok [simp]: "and_then (Ok x) f = f x"
  by (simp add: and_then_def)

lemma and_then_Err [simp]: "and_then (Err e) f = Err e"
  by (simp add: and_then_def)

lemma and_then_eq_Ok [result_simps]: "and_then m f = Ok y \<longleftrightarrow> (\<exists>x. m = Ok x \<and> f x = Ok y)"
  by (cases m) (simp_all add: and_then_def)

lemma and_then_OkE:
  assumes "and_then m f = Ok y"
  obtains x where "m = Ok x" "f x = Ok y"
  using assms by (cases m) simp_all

lemma and_then_eq_Err [result_simps]:
  "and_then m f = Err e \<longleftrightarrow> m = Err e \<or> (\<exists>x. m = Ok x \<and> f x = Err e)"
  by (cases m) (simp_all add: and_then_def)

lemma and_then_cong [fundef_cong]:
  "m = m' \<Longrightarrow> (\<And>x. m' = Ok x \<Longrightarrow> f x = f' x) \<Longrightarrow> and_then m f = and_then m' f'"
  by (cases m') (simp_all add: and_then_def)

lemma and_then_assoc: "and_then (and_then m f) g = and_then m (\<lambda>x. and_then (f x) g)"
  by (cases m) simp_all

lemma ok_or_simps [simp]: "ok_or (Some x) e = Ok x" "ok_or None e = Err e"
  by (simp_all add: ok_or_def)

lemma ok_or_eq_Ok [result_simps]: "ok_or m e = Ok x \<longleftrightarrow> m = Some x"
  by (cases m) simp_all

lemma ok_or_eq_Err [result_simps]: "ok_or m e = Err e' \<longleftrightarrow> m = None \<and> e' = e"
  by (cases m) auto

definition is_ok :: "'e + 'a \<Rightarrow> bool" where
  "is_ok r \<longleftrightarrow> (case r of Ok _ \<Rightarrow> True | Err _ \<Rightarrow> False)"

lemma is_ok_simps [simp]: "is_ok (Ok x)" "\<not> is_ok (Err e)"
  by (simp_all add: is_ok_def)

text \<open>A loop that stops at the first error: \<open>for x in xs { f(x)?; }\<close>.\<close>

fun for_each :: "('a \<Rightarrow> 'e + 'b) \<Rightarrow> 'a list \<Rightarrow> 'e + 'b list" where
  "for_each f [] = Ok []"
| "for_each f (x # xs) = and_then (f x) (\<lambda>y. and_then (for_each f xs) (\<lambda>ys. Ok (y # ys)))"

lemma for_each_Ok_iff [result_simps]:
  "for_each f xs = Ok ys \<longleftrightarrow> list_all2 (\<lambda>x y. f x = Ok y) xs ys"
  by (induction xs arbitrary: ys) (auto simp: result_simps list_all2_Cons1)

lemma for_each_length: "for_each f xs = Ok ys \<Longrightarrow> length ys = length xs"
  by (auto simp: result_simps dest: list_all2_lengthD)

lemma list_all2_Ok_mem1:
  "list_all2 (\<lambda>x y. f x = Ok y) xs ys \<Longrightarrow> x \<in> set xs \<Longrightarrow> \<exists>y\<in>set ys. f x = Ok y"
  by (induction rule: list_all2_induct) auto

lemma list_all2_Ok_mem2:
  "list_all2 (\<lambda>x y. f x = Ok y) xs ys \<Longrightarrow> y \<in> set ys \<Longrightarrow> \<exists>x\<in>set xs. f x = Ok y"
  by (induction rule: list_all2_induct) auto

section \<open>Little-endian byte strings\<close>

text \<open>\<open>to_le_bytes\<close> of an integer of \<open>n\<close> bytes, and \<open>from_le_bytes\<close>.\<close>

fun le_bytes :: "nat \<Rightarrow> 'a::len word \<Rightarrow> u8 list" where
  "le_bytes 0 w = []"
| "le_bytes (Suc n) w = ucast w # le_bytes n (drop_bit 8 w)"

fun le_word :: "u8 list \<Rightarrow> 'a::len word" where
  "le_word [] = 0"
| "le_word (b # bs) = ucast b OR push_bit 8 (le_word bs)"

lemma length_le_bytes [simp]: "length (le_bytes n w) = n"
  by (induction n arbitrary: w) simp_all

lemma le_word_le_bytes: "le_word (le_bytes n w) = take_bit (8 * n) w"
proof (induction n arbitrary: w)
  case 0
  then show ?case by simp
next
  case (Suc n)
  show ?case
    by (rule bit_word_eqI)
       (auto simp: Suc.IH bit_simps not_less)
qed

abbreviation put_u16 :: "u16 \<Rightarrow> u8 list" where "put_u16 \<equiv> le_bytes 2"
abbreviation put_u32 :: "u32 \<Rightarrow> u8 list" where "put_u32 \<equiv> le_bytes 4"
abbreviation put_u64 :: "u64 \<Rightarrow> u8 list" where "put_u64 \<equiv> le_bytes 8"

lemma le_word_put [simp]:
  "le_word (put_u16 a) = a" "le_word (put_u32 b) = b" "le_word (put_u64 c) = c"
  by (simp_all only: le_word_le_bytes)
     (simp_all add: take_bit_word_eq_self)

lemma bit_le_word:
  "bit (le_word bs :: 'a::len word) i \<longleftrightarrow>
     i < LENGTH('a) \<and> i div 8 < length bs \<and> bit (bs ! (i div 8)) (i mod 8)"
proof (induction bs arbitrary: i)
  case Nil
  then show ?case by simp
next
  case (Cons b bs)
  show ?case
  proof (cases "i < 8")
    case True
    then show ?thesis
      by (auto simp: bit_or_iff bit_ucast_iff bit_push_bit_iff dest: bit_imp_le_length)
  next
    case False
    then obtain j where j: "i = j + 8" by (metis add.commute le_Suc_ex not_less)
    have "\<not> bit b (j + 8)" using bit_imp_le_length [of b "j + 8"] by auto
    moreover have "(j + 8) div 8 = Suc (j div 8)" by simp
    ultimately show ?thesis
      by (auto simp: j bit_or_iff bit_ucast_iff bit_push_bit_iff Cons.IH)
  qed
qed

lemma nth_le_bytes: "i < n \<Longrightarrow> le_bytes n w ! i = ucast (drop_bit (8 * i) w)"
proof (induction n arbitrary: i w)
  case 0
  then show ?case by simp
next
  case (Suc n)
  then show ?case by (cases i) (simp_all add: ac_simps)
qed

lemma le_bytes_le_word:
  assumes "length bs = n" "8 * n \<le> LENGTH('a::len)"
  shows "le_bytes n (le_word bs :: 'a word) = bs"
proof (rule nth_equalityI)
  fix i assume "i < length (le_bytes n (le_word bs :: 'a word))"
  then have i: "i < n" by simp
  show "le_bytes n (le_word bs :: 'a word) ! i = bs ! i"
  proof (rule bit_word_eqI)
    fix k assume "k < LENGTH(8)"
    then show "bit (le_bytes n (le_word bs :: 'a word) ! i) k = bit (bs ! i) k"
      using i assms by (auto simp: nth_le_bytes bit_ucast_iff bit_drop_bit_eq bit_le_word)
  qed
qed (simp add: assms)
section \<open>Rust strings\<close>

text \<open>
  A Rust \<open>String\<close> is the list of its UTF-8 bytes, held as an Isabelle \<open>string\<close> (one
  \<open>char\<close> per byte), so that literals read as in the source; \<open>len()\<close> is \<open>length\<close>.
  Rust's type invariant, that the bytes are valid UTF-8, is \<open>wf_str\<close>.
\<close>

definition as_bytes :: "string \<Rightarrow> u8 list" where
  "as_bytes s = map (\<lambda>c. word_of_nat (of_char c)) s"

definition of_bytes :: "u8 list \<Rightarrow> string" where
  "of_bytes bs = map (\<lambda>b. char_of (unat b)) bs"

lemma length_as_bytes [simp]: "length (as_bytes s) = length s"
  by (simp add: as_bytes_def)

lemma as_bytes_Nil_iff [simp]: "as_bytes s = [] \<longleftrightarrow> s = []"
  by (simp add: as_bytes_def)

lemma as_bytes_append [simp]: "as_bytes (s @ t) = as_bytes s @ as_bytes t"
  by (simp add: as_bytes_def)

lemma length_of_bytes [simp]: "length (of_bytes bs) = length bs"
  by (simp add: of_bytes_def)

lemma of_bytes_as_bytes [simp]: "of_bytes (as_bytes s) = s"
proof -
  have "char_of (unat (word_of_nat (of_char c) :: u8)) = c" for c
  proof -
    have "of_char c < (256::nat)" using nat_of_char_less_256 [of c] by simp
    then show ?thesis by (simp add: unat_of_nat take_bit_eq_mod)
  qed
  then show ?thesis by (simp add: as_bytes_def of_bytes_def comp_def)
qed

lemma as_bytes_of_bytes [simp]: "as_bytes (of_bytes bs) = bs"
proof -
  have "word_of_nat (of_char (char_of (unat b) :: char)) = b" for b :: u8
  proof -
    have "unat b < 256" using unsigned_less [of b, where ?'a = nat] by simp
    then show ?thesis by simp
  qed
  then show ?thesis by (simp add: as_bytes_def of_bytes_def comp_def)
qed

lemma as_bytes_inject [simp]: "as_bytes s = as_bytes t \<longleftrightarrow> s = t"
  by (metis of_bytes_as_bytes)

text \<open>
  \<open>String::from_utf8\<close> accepts exactly the well-formed UTF-8 byte sequences (shortest
  forms, no surrogates, at most U+10FFFF).
\<close>

definition cont :: "u8 \<Rightarrow> bool" where
  "cont b \<longleftrightarrow> 0x80 \<le> b \<and> b \<le> 0xBF"

text \<open>\<open>utf8_tail b bs\<close>: what follows the character that starts with \<open>b\<close>, if it is well formed.\<close>

definition utf8_tail :: "u8 \<Rightarrow> u8 list \<Rightarrow> u8 list option" where
  "utf8_tail b bs =
     (if b < 0x80 then Some bs
      else if 0xC2 \<le> b \<and> b \<le> 0xDF then
        (case bs of c1 # r \<Rightarrow> if cont c1 then Some r else None | _ \<Rightarrow> None)
      else if 0xE0 \<le> b \<and> b \<le> 0xEF then
        (case bs of c1 # c2 # r \<Rightarrow>
           if cont c1 \<and> cont c2 \<and> (b = 0xE0 \<longrightarrow> 0xA0 \<le> c1) \<and> (b = 0xED \<longrightarrow> c1 \<le> 0x9F)
           then Some r else None
         | _ \<Rightarrow> None)
      else if 0xF0 \<le> b \<and> b \<le> 0xF4 then
        (case bs of c1 # c2 # c3 # r \<Rightarrow>
           if cont c1 \<and> cont c2 \<and> cont c3 \<and> (b = 0xF0 \<longrightarrow> 0x90 \<le> c1)
             \<and> (b = 0xF4 \<longrightarrow> c1 \<le> 0x8F)
           then Some r else None
         | _ \<Rightarrow> None)
      else None)"

lemma utf8_tail_shorter: "utf8_tail b bs = Some r \<Longrightarrow> length r \<le> length bs"
  by (auto simp: utf8_tail_def split: if_splits list.splits)

lemma utf8_tail_append: "utf8_tail b bs = Some r \<Longrightarrow> utf8_tail b (bs @ ys) = Some (r @ ys)"
  by (auto simp: utf8_tail_def split: if_splits list.splits)

function utf8_valid :: "u8 list \<Rightarrow> bool" where
  "utf8_valid [] = True"
| "utf8_valid (b # bs) =
     (case utf8_tail b bs of None \<Rightarrow> False | Some r \<Rightarrow> utf8_valid r)"
by pat_completeness auto
termination
  by (relation "measure length") (auto dest!: utf8_tail_shorter)

definition wf_str :: "string \<Rightarrow> bool" where
  "wf_str s \<longleftrightarrow> utf8_valid (as_bytes s)"

lemma utf8_valid_ascii: "\<forall>b\<in>set bs. b < 0x80 \<Longrightarrow> utf8_valid bs"
  by (induction bs) (simp_all add: utf8_tail_def)

lemma utf8_valid_append: "utf8_valid xs \<Longrightarrow> utf8_valid ys \<Longrightarrow> utf8_valid (xs @ ys)"
proof (induction xs rule: utf8_valid.induct)
  case 1
  then show ?case by simp
next
  case (2 b bs)
  then show ?case
    by (auto simp: utf8_tail_append split: option.splits)
qed

lemma wf_str_Nil [simp]: "wf_str []"
  by (simp add: wf_str_def as_bytes_def)

lemma wf_str_append: "wf_str s \<Longrightarrow> wf_str t \<Longrightarrow> wf_str (s @ t)"
  by (simp add: wf_str_def utf8_valid_append)

section \<open>Decimal numbers\<close>

text \<open>An integer as \<open>{}\<close> prints it.\<close>

fun dec_nat :: "nat \<Rightarrow> u8 list" where
  "dec_nat n = (if n < 10 then [word_of_nat (48 + n)]
     else dec_nat (n div 10) @ [word_of_nat (48 + n mod 10)])"

declare dec_nat.simps [simp del]

definition dec_int :: "int \<Rightarrow> u8 list" where
  "dec_int v = (if v < 0 then 0x2d # dec_nat (nat (- v)) else dec_nat (nat v))"

definition dec_str :: "int \<Rightarrow> string" where
  "dec_str v = of_bytes (dec_int v)"

lemma dec_nat_digits: "b \<in> set (dec_nat n) \<Longrightarrow> b \<noteq> 0"
proof (induction n rule: dec_nat.induct)
  case (1 n)
  have "(word_of_nat (48 + k) :: u8) \<noteq> 0" if "k < 10" for k
  proof
    assume "(word_of_nat (48 + k) :: u8) = 0"
    then have "unat (word_of_nat (48 + k) :: u8) = 0" by simp
    then show False using that by (simp only: unat_of_nat) (simp add: take_bit_nat_eq_self)
  qed
  then show ?case
    using 1 by (subst (asm) dec_nat.simps) (auto split: if_splits)
qed

end
