(* ===== verification/Abi_Spec.thy ===== *)
theory Abi_Spec
  imports Krunc_Prelude
begin

text \<open>
  \<open>userspace/krunc-abi/src/lib.rs\<close>, the data model: the wire constants, the lifecycle
  operation, the \<open>DomainSpec\<close> with its parts, the error type and the size checks, as
  the encoder and the decoder share them.
\<close>

section \<open>Constants of the wire format\<close>

definition MAGIC :: "u8 list" where "MAGIC = as_bytes ''KRNC''"
lemma length_MAGIC [simp]: "length MAGIC = 4"
  by (simp add: MAGIC_def)

definition ABI_VERSION :: u32 where "ABI_VERSION = 1"

definition MAX_SPEC :: nat where "MAX_SPEC = 256 * 1024"
definition MAX_STR :: nat where "MAX_STR = 4096"
definition MAX_ARGV :: nat where "MAX_ARGV = 1024"
definition MAX_ENV :: nat where "MAX_ENV = 1024"
definition MAX_MAPS :: nat where "MAX_MAPS = 340"
definition MAX_PATHS :: nat where "MAX_PATHS = 256"
definition MAX_RLIMITS :: nat where "MAX_RLIMITS = 32"
definition MAX_MOUNTS :: nat where "MAX_MOUNTS = 64"
definition MAX_SYSCTLS :: nat where "MAX_SYSCTLS = 64"

lemmas abi_max_defs = MAX_SPEC_def MAX_STR_def MAX_ARGV_def MAX_ENV_def MAX_MAPS_def
  MAX_PATHS_def MAX_RLIMITS_def MAX_MOUNTS_def MAX_SYSCTLS_def

definition NS_MOUNT :: u32 where "NS_MOUNT = 0x00020000"
definition NS_UTS :: u32 where "NS_UTS = 0x04000000"
definition NS_IPC :: u32 where "NS_IPC = 0x08000000"
definition NS_USER :: u32 where "NS_USER = 0x10000000"
definition NS_PID :: u32 where "NS_PID = 0x20000000"
definition NS_NET :: u32 where "NS_NET = 0x40000000"
definition NS_CGROUP :: u32 where "NS_CGROUP = 0x02000000"

lemmas ns_defs = NS_MOUNT_def NS_UTS_def NS_IPC_def NS_USER_def NS_PID_def NS_NET_def
  NS_CGROUP_def

definition OPT_NO_NEW_PRIVS :: u64 where "OPT_NO_NEW_PRIVS = push_bit 0 1"
definition OPT_ROOTFS_RO :: u64 where "OPT_ROOTFS_RO = push_bit 1 1"

lemmas opt_defs = OPT_NO_NEW_PRIVS_def OPT_ROOTFS_RO_def

text \<open>Section tags.\<close>

definition TAG_ROOTFS :: u16 where "TAG_ROOTFS = 1"
definition TAG_HOSTNAME :: u16 where "TAG_HOSTNAME = 2"
definition TAG_ARGV :: u16 where "TAG_ARGV = 3"
definition TAG_ENV :: u16 where "TAG_ENV = 4"
definition TAG_NAMESPACES :: u16 where "TAG_NAMESPACES = 5"
definition TAG_UID_MAPS :: u16 where "TAG_UID_MAPS = 6"
definition TAG_GID_MAPS :: u16 where "TAG_GID_MAPS = 7"
definition TAG_FLAGS :: u16 where "TAG_FLAGS = 8"
definition TAG_CAP_BOUNDING :: u16 where "TAG_CAP_BOUNDING = 9"
definition TAG_MASKED_PATHS :: u16 where "TAG_MASKED_PATHS = 11"
definition TAG_RO_PATHS :: u16 where "TAG_RO_PATHS = 12"
definition TAG_RLIMITS :: u16 where "TAG_RLIMITS = 13"
definition TAG_OOM_SCORE_ADJ :: u16 where "TAG_OOM_SCORE_ADJ = 14"
definition TAG_CAP_SETS :: u16 where "TAG_CAP_SETS = 15"
definition TAG_USER :: u16 where "TAG_USER = 16"
definition TAG_MOUNTS :: u16 where "TAG_MOUNTS = 17"
definition TAG_SYSCTLS :: u16 where "TAG_SYSCTLS = 18"

lemmas tag_defs = TAG_ROOTFS_def TAG_HOSTNAME_def TAG_ARGV_def TAG_ENV_def
  TAG_NAMESPACES_def TAG_UID_MAPS_def TAG_GID_MAPS_def TAG_FLAGS_def TAG_CAP_BOUNDING_def
  TAG_MASKED_PATHS_def TAG_RO_PATHS_def TAG_RLIMITS_def TAG_OOM_SCORE_ADJ_def
  TAG_CAP_SETS_def TAG_USER_def TAG_MOUNTS_def TAG_SYSCTLS_def

section \<open>Operations and errors\<close>

datatype op = Create | Start | State | Kill | Delete

text \<open>The discriminants of \<open>#[repr(u32)] enum Op\<close>: the cast \<open>op as u32\<close>.\<close>

fun op_code :: "op \<Rightarrow> u32" where
  "op_code Create = 1"
| "op_code Start = 2"
| "op_code State = 3"
| "op_code Kill = 4"
| "op_code Delete = 5"

datatype abi_error =
    BadMagic
  | UnsupportedVersion u32
  | BadOp u32
  | Truncated
  | TooLarge string nat nat
  | Duplicate u16
  | Missing string
  | Utf8
  | TrailingBytes

definition abi_error_str :: "abi_error \<Rightarrow> string" where
  "abi_error_str err =
     (case err of
        BadMagic \<Rightarrow> ''bad magic''
      | UnsupportedVersion v \<Rightarrow> ''unsupported abi version '' @ dec_str (uint v)
      | BadOp v \<Rightarrow> ''invalid op '' @ dec_str (uint v)
      | Truncated \<Rightarrow> ''truncated buffer''
      | TooLarge what v limit \<Rightarrow>
          what @ '' too large: '' @ dec_str (int v) @ '' > '' @ dec_str (int limit)
      | Duplicate t \<Rightarrow> ''duplicate section tag '' @ dec_str (uint t)
      | Missing s \<Rightarrow> ''missing required section '' @ s
      | Utf8 \<Rightarrow> ''invalid utf-8 in string field''
      | TrailingBytes \<Rightarrow> ''trailing bytes after sections'')"

definition op_from_u32 :: "u32 \<Rightarrow> abi_error + op" where
  "op_from_u32 v =
     (if v = 1 then Ok Create
      else if v = 2 then Ok Start
      else if v = 3 then Ok State
      else if v = 4 then Ok Kill
      else if v = 5 then Ok Delete
      else Err (BadOp v))"

lemma op_from_u32_op_code [simp]: "op_from_u32 (op_code p) = Ok p"
  by (cases p) (simp_all add: op_from_u32_def)

lemma op_from_u32_Ok: "op_from_u32 v = Ok p \<Longrightarrow> v = op_code p"
  by (auto simp: op_from_u32_def split: if_splits)

section \<open>The domain specification\<close>

record id_map =
  im_container_id :: u32
  im_host_id :: u32
  im_size :: u32

record rlimit =
  rl_resource :: u32
  rl_soft :: u64
  rl_hard :: u64

record mount =
  mt_destination :: string
  mt_fs_type :: string
  mt_source :: string
  mt_flags :: u64

record domain_spec =
  sp_rootfs :: string
  sp_hostname :: string
  sp_argv :: "string list"
  sp_env :: "string list"
  sp_namespaces :: u32
  sp_uid_maps :: "id_map list"
  sp_gid_maps :: "id_map list"
  sp_flags :: u64
  sp_caps_present :: bool
  sp_cap_bounding :: u64
  sp_cap_effective :: u64
  sp_cap_permitted :: u64
  sp_cap_inheritable :: u64
  sp_cap_ambient :: u64
  sp_masked_paths :: "string list"
  sp_readonly_paths :: "string list"
  sp_rlimits :: "rlimit list"
  sp_oom_score_adj :: "i32 option"
  sp_uid :: u32
  sp_gid :: u32
  sp_mounts :: "mount list"
  sp_sysctls :: "string list"

text \<open>\<open>#[derive(Default)]\<close>.\<close>

definition default_spec :: domain_spec where
  "default_spec = \<lparr>sp_rootfs = [], sp_hostname = [], sp_argv = [], sp_env = [],
     sp_namespaces = 0, sp_uid_maps = [], sp_gid_maps = [], sp_flags = 0,
     sp_caps_present = False, sp_cap_bounding = 0, sp_cap_effective = 0,
     sp_cap_permitted = 0, sp_cap_inheritable = 0, sp_cap_ambient = 0,
     sp_masked_paths = [], sp_readonly_paths = [], sp_rlimits = [],
     sp_oom_score_adj = None, sp_uid = 0, sp_gid = 0, sp_mounts = [], sp_sysctls = []\<rparr>"

text \<open>Rust's type invariant: every \<open>String\<close> of the specification is valid UTF-8.\<close>

definition wf_mount :: "mount \<Rightarrow> bool" where
  "wf_mount m \<longleftrightarrow> wf_str (mt_destination m) \<and> wf_str (mt_fs_type m) \<and> wf_str (mt_source m)"

definition wf_spec :: "domain_spec \<Rightarrow> bool" where
  "wf_spec s \<longleftrightarrow> wf_str (sp_rootfs s) \<and> wf_str (sp_hostname s)
     \<and> list_all wf_str (sp_argv s) \<and> list_all wf_str (sp_env s)
     \<and> list_all wf_str (sp_masked_paths s) \<and> list_all wf_str (sp_readonly_paths s)
     \<and> list_all wf_mount (sp_mounts s) \<and> list_all wf_str (sp_sysctls s)"

section \<open>Size checks\<close>

definition check_len :: "string \<Rightarrow> nat \<Rightarrow> nat \<Rightarrow> abi_error + unit" where
  "check_len what val limit = (if val > limit then Err (TooLarge what val limit) else Ok ())"

lemma check_len_Ok [result_simps]: "check_len what v l = Ok u \<longleftrightarrow> v \<le> l"
  by (auto simp: check_len_def)

lemma check_len_Err: "check_len what v l = Err e \<longleftrightarrow> l < v \<and> e = TooLarge what v l"
  by (auto simp: check_len_def)

lemma check_len_simps [simp]:
  "v \<le> l \<Longrightarrow> check_len what v l = Ok ()"
  "l < v \<Longrightarrow> check_len what v l = Err (TooLarge what v l)"
  by (simp_all add: check_len_def)

definition validate :: "domain_spec \<Rightarrow> abi_error + unit" where
  "validate s =
     and_then (check_len ''rootfs'' (length (sp_rootfs s)) MAX_STR) (\<lambda>_.
     and_then (check_len ''hostname'' (length (sp_hostname s)) MAX_STR) (\<lambda>_.
     and_then (check_len ''argv'' (length (sp_argv s)) MAX_ARGV) (\<lambda>_.
     and_then (for_each (\<lambda>a. check_len ''arg'' (length a) MAX_STR) (sp_argv s)) (\<lambda>_.
     and_then (check_len ''env'' (length (sp_env s)) MAX_ENV) (\<lambda>_.
     and_then (for_each (\<lambda>e. check_len ''env-entry'' (length e) MAX_STR) (sp_env s)) (\<lambda>_.
     and_then (check_len ''uid_maps'' (length (sp_uid_maps s)) MAX_MAPS) (\<lambda>_.
     and_then (check_len ''gid_maps'' (length (sp_gid_maps s)) MAX_MAPS) (\<lambda>_.
     and_then (check_len ''masked_paths'' (length (sp_masked_paths s)) MAX_PATHS) (\<lambda>_.
     and_then (check_len ''readonly_paths'' (length (sp_readonly_paths s)) MAX_PATHS) (\<lambda>_.
     and_then (check_len ''rlimits'' (length (sp_rlimits s)) MAX_RLIMITS) (\<lambda>_.
     and_then (check_len ''mounts'' (length (sp_mounts s)) MAX_MOUNTS) (\<lambda>_.
     and_then (check_len ''sysctls'' (length (sp_sysctls s)) MAX_SYSCTLS) (\<lambda>_.
     Ok ())))))))))))))"

text \<open>What \<open>validate\<close> checks, and the entry lengths the decoder checks besides.\<close>

definition checked_bounds :: "domain_spec \<Rightarrow> bool" where
  "checked_bounds s \<longleftrightarrow> length (sp_rootfs s) \<le> MAX_STR \<and> length (sp_hostname s) \<le> MAX_STR
     \<and> length (sp_argv s) \<le> MAX_ARGV \<and> list_all (\<lambda>a. length a \<le> MAX_STR) (sp_argv s)
     \<and> length (sp_env s) \<le> MAX_ENV \<and> list_all (\<lambda>a. length a \<le> MAX_STR) (sp_env s)
     \<and> length (sp_uid_maps s) \<le> MAX_MAPS \<and> length (sp_gid_maps s) \<le> MAX_MAPS
     \<and> length (sp_masked_paths s) \<le> MAX_PATHS \<and> length (sp_readonly_paths s) \<le> MAX_PATHS
     \<and> length (sp_rlimits s) \<le> MAX_RLIMITS \<and> length (sp_mounts s) \<le> MAX_MOUNTS
     \<and> length (sp_sysctls s) \<le> MAX_SYSCTLS"

definition short_mount :: "mount \<Rightarrow> bool" where
  "short_mount m \<longleftrightarrow> length (mt_destination m) \<le> MAX_STR \<and> length (mt_fs_type m) \<le> MAX_STR
     \<and> length (mt_source m) \<le> MAX_STR"

definition entry_bounds :: "domain_spec \<Rightarrow> bool" where
  "entry_bounds s \<longleftrightarrow> list_all (\<lambda>a. length a \<le> MAX_STR) (sp_masked_paths s)
     \<and> list_all (\<lambda>a. length a \<le> MAX_STR) (sp_readonly_paths s)
     \<and> list_all short_mount (sp_mounts s)
     \<and> list_all (\<lambda>a. length a \<le> MAX_STR) (sp_sysctls s)"

lemma for_each_check_len:
  "for_each (\<lambda>a. check_len what (length a) l) xs = Ok us \<Longrightarrow> list_all (\<lambda>a. length a \<le> l) xs"
  by (induction xs arbitrary: us) (auto simp: and_then_eq_Ok check_len_Ok)

lemma for_each_check_len_Ok:
  "list_all (\<lambda>a. length a \<le> l) xs \<Longrightarrow>
   \<exists>us. for_each (\<lambda>a. check_len what (length a) l) xs = Ok us"
  by (induction xs) (auto simp: and_then_eq_Ok)

lemma validate_Ok_iff: "validate s = Ok () \<longleftrightarrow> checked_bounds s"
proof
  assume "validate s = Ok ()"
  then show "checked_bounds s"
    by (auto simp: validate_def checked_bounds_def and_then_eq_Ok check_len_Ok
        dest: for_each_check_len)
next
  assume b: "checked_bounds s"
  obtain us where "for_each (\<lambda>a. check_len ''arg'' (length a) MAX_STR) (sp_argv s) = Ok us"
    using b for_each_check_len_Ok [of MAX_STR "sp_argv s" "''arg''"]
    by (auto simp: checked_bounds_def)
  moreover obtain vs where
    "for_each (\<lambda>e. check_len ''env-entry'' (length e) MAX_STR) (sp_env s) = Ok vs"
    using b for_each_check_len_Ok [of MAX_STR "sp_env s" "''env-entry''"]
    by (auto simp: checked_bounds_def)
  ultimately show "validate s = Ok ()" using b
    by (simp add: validate_def checked_bounds_def)
qed

end
