(* ===== verification/Byte_Reader.thy ===== *)
theory Byte_Reader
  imports Krunc_Prelude
begin

text \<open>
  The cursor both decoders read through: \<open>Reader\<close> of \<open>userspace/krunc-abi/src/lib.rs\<close> and
  \<open>BReader\<close> of \<open>module/krunc.rs\<close> are the same structure, a buffer and a position. This
  theory holds the record, what is left to read, the contract of \<open>take\<close> (locale
  \<open>byte_source\<close>), the contract of an element codec (locale \<open>item_codec\<close>) and what follows
  from them for the counted vectors of the wire format.
\<close>

record reader =
  rd_buf :: "u8 list"
  rd_pos :: nat

definition reader_new :: "u8 list \<Rightarrow> reader" where
  "reader_new buf = \<lparr>rd_buf = buf, rd_pos = 0\<rparr>"

definition remaining :: "reader \<Rightarrow> nat" where
  "remaining r = length (rd_buf r) - rd_pos r"

text \<open>The bytes not read yet, and the cursor moved forward.\<close>

definition unread :: "reader \<Rightarrow> u8 list" where
  "unread r = drop (rd_pos r) (rd_buf r)"

definition adv :: "nat \<Rightarrow> reader \<Rightarrow> reader" where
  "adv n r = r\<lparr>rd_pos := rd_pos r + n\<rparr>"

lemma unread_new [simp]: "unread (reader_new buf) = buf"
  by (simp add: unread_def reader_new_def)

lemma unread_adv [simp]: "unread (adv n r) = drop n (unread r)"
  by (simp add: unread_def adv_def add.commute)

lemma adv_adv [simp]: "adv m (adv n r) = adv (n + m) r"
  by (simp add: adv_def add.assoc)

lemma adv_0 [simp]: "adv 0 r = r"
  by (simp add: adv_def)

lemma length_unread: "length (unread r) = remaining r"
  by (simp add: unread_def remaining_def)

lemma remaining_new [simp]: "remaining (reader_new buf) = length buf"
  by (simp add: remaining_def reader_new_def)

lemma remaining_adv [simp]: "remaining (adv n r) = remaining r - n"
  by (simp add: remaining_def adv_def)

text \<open>
  \<open>remaining\<close> is a \<open>usize\<close> subtraction and \<open>take\<close> a slice: neither can panic on a cursor
  within its buffer.
\<close>

definition in_bounds :: "reader \<Rightarrow> bool" where
  "in_bounds r \<longleftrightarrow> rd_pos r \<le> length (rd_buf r)"

lemma in_bounds_new [simp]: "in_bounds (reader_new buf)"
  by (simp add: in_bounds_def reader_new_def)

lemma in_bounds_adv: "in_bounds r \<Longrightarrow> n \<le> remaining r \<Longrightarrow> in_bounds (adv n r)"
  by (simp add: in_bounds_def adv_def remaining_def)

text \<open>The same cursor over a buffer that goes on after its end.\<close>

definition prolong :: "u8 list \<Rightarrow> reader \<Rightarrow> reader" where
  "prolong ms r = r\<lparr>rd_buf := rd_buf r @ ms\<rparr>"

lemma prolong_adv: "prolong ms (adv n r) = adv n (prolong ms r)"
  by (simp add: prolong_def adv_def)

lemma prolong_new: "prolong ms (reader_new buf) = reader_new (buf @ ms)"
  by (simp add: prolong_def reader_new_def)

lemma unread_prolong: "in_bounds r \<Longrightarrow> unread (prolong ms r) = unread r @ ms"
  by (simp add: unread_def prolong_def in_bounds_def)

lemma remaining_prolong: "in_bounds r \<Longrightarrow> remaining (prolong ms r) = remaining r + length ms"
  by (simp add: remaining_def prolong_def in_bounds_def)

section \<open>The contract of take\<close>

type_synonym ('e, 'a) parser = "reader \<Rightarrow> 'e + 'a \<times> reader"

locale byte_source =
  fixes tk :: "nat \<Rightarrow> ('e, u8 list) parser" and short :: 'e
  assumes tk_eq: "tk n r =
    (if n > remaining r then Err short else Ok (take n (unread r), adv n r))"
begin

lemma tk_ok: "n \<le> remaining r \<Longrightarrow> tk n r = Ok (take n (unread r), adv n r)"
  by (simp add: tk_eq)

lemma tk_short: "n > remaining r \<Longrightarrow> tk n r = Err short"
  by (simp add: tk_eq)

lemma tk_Ok_iff: "tk n r = Ok (bs, r') \<longleftrightarrow>
    n \<le> remaining r \<and> bs = take n (unread r) \<and> r' = adv n r"
  by (auto simp: tk_eq)

lemmas tk_OkD = tk_Ok_iff [THEN iffD1]

lemma tk_length: "tk n r = Ok (bs, r') \<Longrightarrow> length bs = n"
  by (auto dest!: tk_OkD simp: length_unread)

lemma tk_append: "unread r = xs @ ys \<Longrightarrow> tk (length xs) r = Ok (xs, adv (length xs) r)"
  using length_unread [of r] by (simp add: tk_ok)

lemma tk_prolong: "tk n r = Ok (bs, r') \<Longrightarrow> in_bounds r \<Longrightarrow>
    tk n (prolong ms r) = Ok (bs, prolong ms r')"
  using tk_OkD [of n r bs r']
  by (auto simp: tk_ok remaining_prolong unread_prolong length_unread prolong_adv)

lemma tk_in_bounds: "tk n r = Ok (bs, r') \<Longrightarrow> in_bounds r \<Longrightarrow> in_bounds r'"
  by (auto dest!: tk_OkD intro: in_bounds_adv)

text \<open>Fixed-width integers, read by \<open>from_le_bytes(self.take(n)?)\<close>.\<close>

lemma word_append:
  assumes "unread r = le_bytes n v @ ys" "le_word (le_bytes n v) = v"
  shows "and_then (tk n r) (\<lambda>(bs, r). Ok (le_word bs, r)) = Ok (v, adv n r)"
  using tk_append [OF assms(1)] assms(2) by simp

lemma word_prolong:
  "and_then (tk n r) (\<lambda>(bs, r). Ok (le_word bs, r)) = Ok (v, r') \<Longrightarrow> in_bounds r \<Longrightarrow>
   and_then (tk n (prolong ms r)) (\<lambda>(bs, r). Ok (le_word bs, r)) = Ok (v, prolong ms r')"
  by (auto simp: and_then_eq_Ok dest: tk_prolong)

lemma word_Ok_iff:
  "and_then (tk n r) (\<lambda>(bs, r). Ok (le_word bs, r)) = Ok (v, r') \<longleftrightarrow>
   n \<le> remaining r \<and> v = le_word (take n (unread r)) \<and> r' = adv n r"
  by (auto simp: and_then_eq_Ok tk_Ok_iff)

end

section \<open>Reading a number of elements\<close>

text \<open>\<open>for _ in 0..n { v.push(get(r)?); }\<close>\<close>

fun read_n :: "('e, 'a) parser \<Rightarrow> nat \<Rightarrow> ('e, 'a list) parser" where
  "read_n get 0 r = Ok ([], r)"
| "read_n get (Suc n) r =
     and_then (get r) (\<lambda>(x, r). and_then (read_n get n r) (\<lambda>(xs, r). Ok (x # xs, r)))"

lemma read_n_good:
  assumes "\<And>r x r'. get r = Ok (x, r') \<Longrightarrow> good x" "read_n get n r = Ok (xs, r')"
  shows "list_all good xs \<and> length xs = n"
  using assms(2)
proof (induction n arbitrary: r xs)
  case 0
  then show ?case by simp
next
  case (Suc n)
  then show ?case using assms(1) by (fastforce simp: and_then_eq_Ok)
qed

text \<open>
  A loop that keeps only the first \<open>cap\<close> elements but reads them all, as the kernel's
  \<open>if v.len() < CAP { v.push(x) }\<close> does.
\<close>

fun read_n_cap :: "nat \<Rightarrow> ('e, 'a) parser \<Rightarrow> nat \<Rightarrow> 'a list \<Rightarrow> ('e, 'a list) parser" where
  "read_n_cap cap get 0 v r = Ok (v, r)"
| "read_n_cap cap get (Suc n) v r =
     and_then (get r) (\<lambda>(x, r).
       read_n_cap cap get n (if length v < cap then v @ [x] else v) r)"

lemma read_n_cap_eq:
  "length v \<le> cap \<Longrightarrow> read_n_cap cap get n v r =
     and_then (read_n get n r) (\<lambda>(xs, r). Ok (take cap (v @ xs), r))"
proof (induction n arbitrary: v r)
  case 0
  then show ?case by simp
next
  case (Suc n)
  have step: "read_n_cap cap get n (if length v < cap then v @ [x] else v) r' =
      and_then (read_n get n r') (\<lambda>(xs, r). Ok (take cap (v @ x # xs), r))" for x r'
    using Suc.prems by (subst Suc.IH) (auto simp: take_Cons')
  show ?case
    by (cases "get r") (auto simp: step and_then_assoc split_def)
qed

lemma read_n_cap_good:
  assumes "\<And>r x r'. get r = Ok (x, r') \<Longrightarrow> good x" "read_n_cap cap get n [] r = Ok (xs, r')"
  shows "list_all good xs \<and> length xs \<le> cap"
proof -
  obtain ys where ys: "read_n get n r = Ok (ys, r')" and xs: "xs = take cap ys"
    using assms(2) by (auto simp: read_n_cap_eq and_then_eq_Ok)
  have "list_all good ys \<and> length ys = n" by (rule read_n_good [OF _ ys]) (rule assms(1))
  then show ?thesis using xs by (auto simp: list_all_iff dest: in_set_takeD)
qed

section \<open>Element codecs\<close>

text \<open>
  What a reader and a writer of one element promise each other: an element that fits is
  read back from its bytes, whatever follows them.
\<close>

locale item_codec =
  fixes put :: "'a \<Rightarrow> u8 list" and get :: "('e, 'a) parser" and fits :: "'a \<Rightarrow> bool"
  assumes get_put: "fits x \<Longrightarrow> unread r = put x @ ys \<Longrightarrow> get r = Ok (x, adv (length (put x)) r)"
begin

lemma read_n_put:
  "list_all fits xs \<Longrightarrow> unread r = concat (map put xs) @ ys \<Longrightarrow>
   read_n get (length xs) r = Ok (xs, adv (length (concat (map put xs))) r)"
proof (induction xs arbitrary: r)
  case Nil
  then show ?case by simp
next
  case (Cons x xs)
  have "get r = Ok (x, adv (length (put x)) r)"
    using Cons.prems by (intro get_put [of x r "concat (map put xs) @ ys"]) simp_all
  moreover have "unread (adv (length (put x)) r) = concat (map put xs) @ ys"
    using Cons.prems by simp
  ultimately show ?case using Cons by simp
qed

lemma get_put_last: "fits x \<Longrightarrow> unread r = put x \<Longrightarrow> get r = Ok (x, adv (length (put x)) r)"
  using get_put [of x r "[]"] by simp

lemma read_n_put_last:
  "list_all fits xs \<Longrightarrow> unread r = concat (map put xs) \<Longrightarrow>
   read_n get (length xs) r = Ok (xs, adv (length (concat (map put xs))) r)"
  using read_n_put [of xs r "[]"] by simp

end

end
