(* ===== verification/Section_Loop.thy ===== *)
theory Section_Loop
  imports Byte_Reader
begin

text \<open>
  The section loop both decoders run (\<open>decode\<close> in \<open>krunc-abi\<close> and \<open>decode_spec\<close> in
  \<open>module/krunc.rs\<close>): its contract as the locale \<open>section_loop\<close>, and what follows from the
  contract for any decoder that meets it: the loop computes a fold over the framed sections,
  accepts nothing but framed sections without a repeated tag, keeps every invariant its arms
  keep, and reads the same from a buffer that goes on.
\<close>

section \<open>The set of seen tags\<close>

definition unseen :: "u16 \<Rightarrow> u64 \<Rightarrow> bool" where
  "unseen t seen \<longleftrightarrow> \<not> bit seen (unat t)"

lemma unseen_0 [simp]: "unseen t 0"
  by (simp add: unseen_def)

lemma and_push_bit_one: "(seen AND push_bit n 1 \<noteq> 0) = bit seen n" for seen :: u64
proof -
  have "seen AND push_bit n 1 = of_bool (bit seen n) * push_bit n 1"
    by (rule bit_word_eqI) (auto simp: bit_simps)
  moreover have "push_bit n (1 :: u64) \<noteq> 0" if "bit seen n"
    using bit_imp_le_length [OF that] by simp
  ultimately show ?thesis by auto
qed

lemma unseen_mark:
  "t < 64 \<Longrightarrow> unseen t' (seen OR push_bit (unat t) 1) \<longleftrightarrow> unseen t' seen \<and> t' \<noteq> t"
proof -
  assume "t < 64"
  then have "unat t < 64" by (simp add: word_less_nat_alt)
  then show ?thesis by (auto simp: unseen_def bit_simps dest: word_unat_eq_iff [THEN iffD2])
qed

section \<open>Framed sections\<close>

text \<open>A section in a buffer: tag, a pad field that may hold anything, length and payload.\<close>

definition frame :: "u16 \<times> u16 \<times> u8 list \<Rightarrow> u8 list" where
  "frame f = (case f of (t, pad, p) \<Rightarrow>
     put_u16 t @ put_u16 pad @ put_u32 (word_of_nat (length p)) @ p)"

abbreviation frames :: "(u16 \<times> u16 \<times> u8 list) list \<Rightarrow> u8 list" where
  "frames fs \<equiv> concat (map frame fs)"

lemma length_frame [simp]: "length (frame (t, pad, p)) = 8 + length p"
  by (simp add: frame_def)

lemma length_frames: "8 * length fs \<le> length (frames fs)"
proof (induction fs)
  case (Cons f fs)
  then show ?case by (cases f) simp
qed simp

lemma payload_le_frames: "(t, pad, p) \<in> set fs \<Longrightarrow> 8 + length p \<le> length (frames fs)"
proof (induction fs)
  case (Cons f fs)
  then show ?case by (cases f) auto
qed simp

text \<open>The loop over a list of sections instead of over their bytes.\<close>

fun run_sections ::
  "(u16 \<Rightarrow> u8 list \<Rightarrow> 's \<Rightarrow> 'e + 's) \<Rightarrow> (u16 \<Rightarrow> u64 \<Rightarrow> 'e + u64) \<Rightarrow>
   (u16 \<times> u16 \<times> u8 list) list \<Rightarrow> u64 \<Rightarrow> 's \<Rightarrow> 'e + 's" where
  "run_sections arm mark [] seen s = Ok s"
| "run_sections arm mark ((t, pad, p) # fs) seen s =
     and_then (mark t seen) (\<lambda>seen.
     and_then (arm t p s) (\<lambda>s. run_sections arm mark fs seen s))"

fun apply_sections ::
  "(u16 \<Rightarrow> u8 list \<Rightarrow> 's \<Rightarrow> 'e + 's) \<Rightarrow> (u16 \<times> u16 \<times> u8 list) list \<Rightarrow> 's \<Rightarrow> 'e + 's" where
  "apply_sections arm [] s = Ok s"
| "apply_sections arm ((t, pad, p) # fs) s = and_then (arm t p s) (apply_sections arm fs)"

definition small_payloads :: "(u16 \<times> u16 \<times> u8 list) list \<Rightarrow> bool" where
  "small_payloads fs \<longleftrightarrow> (\<forall>(t, pad, p)\<in>set fs. length p < 2 ^ 32)"

lemma small_frames: "length (frames fs) < 2 ^ 32 \<Longrightarrow> small_payloads fs"
  by (fastforce simp: small_payloads_def dest: payload_le_frames)

lemma unat_of_nat_len: "n < 2 ^ 32 \<Longrightarrow> unat (word_of_nat n :: u32) = n"
  by (simp add: unat_of_nat take_bit_nat_eq_self)

section \<open>The contract of the loop\<close>

locale section_loop = byte_source tk short
  for tk :: "nat \<Rightarrow> ('e, u8 list) parser" and short :: 'e +
  fixes loop :: "nat \<Rightarrow> u64 \<Rightarrow> 's \<Rightarrow> ('e, 's) parser"
    and arm :: "u16 \<Rightarrow> u8 list \<Rightarrow> 's \<Rightarrow> 'e + 's"
    and mark :: "u16 \<Rightarrow> u64 \<Rightarrow> 'e + u64"
    and dup :: "u16 \<Rightarrow> 'e"
  assumes loop_0: "loop 0 seen s r = Ok (s, r)"
    and loop_Suc: "loop (Suc k) seen s r =
      and_then (and_then (tk 2 r) (\<lambda>(bs, r). Ok (le_word bs :: u16, r))) (\<lambda>(t, r).
      and_then (and_then (tk 2 r) (\<lambda>(bs, r). Ok (le_word bs :: u16, r))) (\<lambda>(_, r).
      and_then (and_then (tk 4 r) (\<lambda>(bs, r). Ok (le_word bs :: u32, r))) (\<lambda>(len, r).
      if unat len > remaining r then Err short
      else
        and_then (tk (unat len) r) (\<lambda>(payload, r).
        and_then (mark t seen) (\<lambda>seen.
        and_then (arm t payload s) (\<lambda>s. loop k seen s r))))))"
    and mark_eq: "mark t seen =
      (if t < 64 \<and> \<not> unseen t seen then Err (dup t)
       else Ok (if t < 64 then seen OR push_bit (unat t) 1 else seen))"
begin

lemma unread_word:
  "2 \<le> remaining r \<Longrightarrow> unread r = put_u16 (le_word (take 2 (unread r))) @ unread (adv 2 r)"
  "4 \<le> remaining r \<Longrightarrow> unread r = put_u32 (le_word (take 4 (unread r))) @ unread (adv 4 r)"
  by (simp_all add: le_bytes_le_word length_unread)

text \<open>One successful iteration, in terms of the bytes it reads.\<close>

lemma loop_SucE:
  assumes "loop (Suc k) seen s r = Ok (s', r')"
  obtains t pad p seen1 s1 where
    "unread r = frame (t, pad, p) @ unread (adv (8 + length p) r)"
    "length p < 2 ^ 32" "8 + length p \<le> remaining r" "mark t seen = Ok seen1" "arm t p s = Ok s1"
    "loop k seen1 s1 (adv (8 + length p) r) = Ok (s', r')"
proof -
  define w16 where "w16 = (\<lambda>r. and_then (tk 2 r) (\<lambda>(bs, r). Ok (le_word bs :: u16, r)))"
  define w32 where "w32 = (\<lambda>r. and_then (tk 4 r) (\<lambda>(bs, r). Ok (le_word bs :: u32, r)))"
  have unfold: "loop (Suc k) seen s r =
      and_then (w16 r) (\<lambda>(t, r). and_then (w16 r) (\<lambda>(_, r). and_then (w32 r) (\<lambda>(len, r).
      if unat len > remaining r then Err short
      else and_then (tk (unat len) r) (\<lambda>(payload, r). and_then (mark t seen) (\<lambda>seen.
        and_then (arm t payload s) (\<lambda>s. loop k seen s r))))))"
    unfolding loop_Suc w16_def w32_def ..
  obtain t r1 pad r2 len r3 p r4 seen1 s1 where raw:
    "w16 r = Ok (t, r1)" "w16 r1 = Ok (pad, r2)" "w32 r2 = Ok (len, r3)"
    "tk (unat len) r3 = Ok (p, r4)" "mark t seen = Ok seen1" "arm t p s = Ok s1"
    "loop k seen1 s1 r4 = Ok (s', r')"
    using assms unfolding unfold by (fastforce simp: and_then_eq_Ok split: if_splits)
  then have t: "2 \<le> remaining r" "t = le_word (take 2 (unread r))"
    and pad: "2 \<le> remaining (adv 2 r)" "pad = le_word (take 2 (unread (adv 2 r)))"
    and len: "4 \<le> remaining (adv 4 r)" "len = le_word (take 4 (unread (adv 4 r)))"
    and p: "tk (unat len) (adv 8 r) = Ok (p, adv (8 + unat len) r)"
    and step: "mark t seen = Ok seen1" "arm t p s = Ok s1"
      "loop k seen1 s1 (adv (8 + unat len) r) = Ok (s', r')"
    by (simp_all add: w16_def w32_def word_Ok_iff tk_Ok_iff)
  have plen: "length p = unat len" using tk_length [OF p] .
  have lenp: "len = word_of_nat (length p)" using plen by simp
  have "unread (adv 8 r) = p @ unread (adv (8 + unat len) r)" "unat len \<le> remaining (adv 8 r)"
    using p append_take_drop_id [of "unat len" "drop 8 (unread r)"]
    by (simp_all add: tk_Ok_iff add.commute)
  moreover have "unread r = put_u16 t @ unread (adv 2 r)"
    "unread (adv 2 r) = put_u16 pad @ unread (adv 4 r)"
    "unread (adv 4 r) = put_u32 len @ unread (adv 8 r)"
    using unread_word(1) [of r] unread_word(1) [of "adv 2 r"] unread_word(2) [of "adv 4 r"]
      t pad len by (simp_all only: adv_adv arith_simps)
  ultimately have "unread r = frame (t, pad, p) @ unread (adv (8 + unat len) r)"
    by (simp only: frame_def lenp prod.case append_assoc)
  moreover have "length p < 2 ^ 32"
    using unsigned_less [of len, where 'a = nat] by (simp add: plen)
  moreover have "8 + length p \<le> remaining r"
    using \<open>unat len \<le> remaining (adv 8 r)\<close> len(1) plen by simp
  ultimately show thesis
    using step by (intro that [of t pad p seen1 s1]) (simp_all only: plen)
qed

text \<open>One iteration over a framed section.\<close>

lemma loop_frame:
  assumes "unread r = frame (t, pad, p) @ ys" "length p < 2 ^ 32"
  shows "loop (Suc k) seen s r =
    and_then (mark t seen) (\<lambda>seen. and_then (arm t p s) (\<lambda>s.
      loop k seen s (adv (8 + length p) r)))"
    "unread (adv (8 + length p) r) = ys"
proof -
  have u: "unread r = put_u16 t @ put_u16 pad @ put_u32 (word_of_nat (length p)) @ p @ ys"
    using assms(1) by (simp add: frame_def)
  have "\<not> length p > remaining (adv 8 r)"
    using u length_unread [of "adv 8 r"] by simp
  moreover have "tk (length p) (adv 8 r) = Ok (p, adv (8 + length p) r)"
    using tk_append [of "adv 8 r" p ys] u by simp
  ultimately show "loop (Suc k) seen s r =
    and_then (mark t seen) (\<lambda>seen. and_then (arm t p s) (\<lambda>s.
      loop k seen s (adv (8 + length p) r)))"
    using u assms(2)
    by (simp add: loop_Suc word_append [of r 2 t] word_append [of "adv 2 r" 2 pad]
        word_append [of "adv 4 r" 4 "word_of_nat (length p) :: u32"] unat_of_nat_len)
  show "unread (adv (8 + length p) r) = ys" using u by simp
qed

lemma loop_frames:
  "unread r = frames fs @ ys \<Longrightarrow> small_payloads fs \<Longrightarrow>
   loop (length fs) seen s r =
     and_then (run_sections arm mark fs seen s) (\<lambda>s. Ok (s, adv (length (frames fs)) r))"
proof (induction fs arbitrary: r seen s)
  case Nil
  then show ?case by (simp add: loop_0)
next
  case (Cons f fs)
  obtain t pad p where f: "f = (t, pad, p)" by (cases f)
  have small: "length p < 2 ^ 32" "small_payloads fs"
    using Cons.prems(2) f by (auto simp: small_payloads_def)
  have "unread r = frame (t, pad, p) @ (frames fs @ ys)" using Cons.prems(1) f by simp
  note one = loop_frame [OF this small(1)]
  note IH = Cons.IH [OF one(2) small(2)]
  show ?case by (simp add: f one(1) IH and_then_assoc add.assoc)
qed

text \<open>What the loop accepts is framed, and no tag below 64 comes twice.\<close>

lemma loop_accepts_frames:
  "loop k seen s r = Ok (s', r') \<Longrightarrow>
   \<exists>fs. length fs = k \<and> unread r = frames fs @ unread r' \<and> small_payloads fs
     \<and> distinct (filter (\<lambda>t. t < 64) (map fst fs))
     \<and> (\<forall>t\<in>fst ` set fs. t < 64 \<longrightarrow> unseen t seen)"
proof (induction k arbitrary: seen s r)
  case 0
  then show ?case by (simp add: loop_0 small_payloads_def)
next
  case (Suc k)
  from Suc.prems show ?case
  proof (rule loop_SucE)
    fix t pad p seen1 s1
    assume u: "unread r = frame (t, pad, p) @ unread (adv (8 + length p) r)" "length p < 2 ^ 32"
      and mark: "mark t seen = Ok seen1"
      and rest: "loop k seen1 s1 (adv (8 + length p) r) = Ok (s', r')"
    obtain fs where fs: "length fs = k"
        "unread (adv (8 + length p) r) = frames fs @ unread r'" "small_payloads fs"
        "distinct (filter (\<lambda>t. t < 64) (map fst fs))"
        "\<forall>t\<in>fst ` set fs. t < 64 \<longrightarrow> unseen t seen1"
      using Suc.IH [OF rest] by blast
    have bytes: "unread r = frames ((t, pad, p) # fs) @ unread r'"
      using u(1) unfolding fs(2) by simp
    have seen1: "unseen t' seen1 \<longleftrightarrow> unseen t' seen \<and> (t < 64 \<longrightarrow> t' \<noteq> t)" for t'
      using mark by (auto simp: mark_eq unseen_mark simp del: push_bit_of_1 split: if_splits)
    have t: "t < 64 \<longrightarrow> unseen t seen"
      using mark by (simp add: mark_eq split: if_splits)
    have old: "\<forall>t'\<in>fst ` set fs. t' < 64 \<longrightarrow> unseen t' seen \<and> t' \<noteq> t"
      using fs(5) seen1 by blast
    then have "t < 64 \<longrightarrow> t \<notin> set (filter (\<lambda>t. t < 64) (map fst fs))"
      by force
    with fs(4) have "distinct (filter (\<lambda>t. t < 64) (map fst ((t, pad, p) # fs)))"
      by simp
    moreover have "small_payloads ((t, pad, p) # fs)"
      using fs(3) u(2) by (simp add: small_payloads_def)
    ultimately show ?thesis
      using bytes t old fs(1) by (intro exI [of _ "(t, pad, p) # fs"]) simp
  qed
qed

text \<open>Invariants of the arms are invariants of the loop.\<close>

lemma loop_invariant:
  assumes "\<And>t p s s'. arm t p s = Ok s' \<Longrightarrow> P s \<Longrightarrow> P s'"
  shows "loop k seen s r = Ok (s', r') \<Longrightarrow> P s \<Longrightarrow> P s'"
proof (induction k arbitrary: seen s r)
  case 0
  then show ?case by (simp add: loop_0)
next
  case (Suc k)
  from Suc.prems(1) show ?case
    by (rule loop_SucE) (blast intro: Suc.IH assms Suc.prems(2))
qed

text \<open>A buffer that goes on is read in the same way.\<close>

lemma loop_prolong:
  "loop k seen s r = Ok (s', r') \<Longrightarrow> in_bounds r \<Longrightarrow>
   loop k seen s (prolong ms r) = Ok (s', prolong ms r') \<and> in_bounds r'"
proof (induction k arbitrary: seen s r)
  case 0
  then show ?case by (simp add: loop_0)
next
  case (Suc k)
  from Suc.prems(1) show ?case
  proof (rule loop_SucE)
    fix t pad p seen1 s1
    assume u: "unread r = frame (t, pad, p) @ unread (adv (8 + length p) r)"
        "length p < 2 ^ 32" "8 + length p \<le> remaining r"
      and step: "mark t seen = Ok seen1" "arm t p s = Ok s1"
      and rest: "loop k seen1 s1 (adv (8 + length p) r) = Ok (s', r')"
    have ib: "in_bounds (adv (8 + length p) r)"
      using Suc.prems(2) u(3) by (rule in_bounds_adv)
    have "unread (prolong ms r) = frame (t, pad, p) @ (unread (adv (8 + length p) r) @ ms)"
      using unread_prolong [OF Suc.prems(2), of ms] u(1) by (simp del: unread_adv)
    note one = loop_frame(1) [OF this u(2)]
    show ?thesis
      using Suc.IH [OF rest ib] by (simp add: one step prolong_adv)
  qed
qed

lemma run_sections_distinct:
  "distinct (map fst fs) \<Longrightarrow> \<forall>t\<in>fst ` set fs. unseen t seen \<Longrightarrow>
   run_sections arm mark fs seen s = apply_sections arm fs s"
proof (induction fs arbitrary: seen s)
  case Nil
  then show ?case by simp
next
  case (Cons f fs)
  obtain t pad p where f: "f = (t, pad, p)" by (cases f)
  define seen1 where "seen1 = (if t < 64 then seen OR push_bit (unat t) 1 else seen)"
  have mark: "mark t seen = Ok seen1"
    using Cons.prems(2) by (simp add: mark_eq f seen1_def)
  have rest: "\<forall>t'\<in>fst ` set fs. unseen t' seen1"
    using Cons.prems by (auto simp: unseen_mark f seen1_def simp del: push_bit_of_1)
  have dist: "distinct (map fst fs)" using Cons.prems(1) by simp
  have "run_sections arm mark fs seen1 = apply_sections arm fs"
    by (intro ext Cons.IH dist rest)
  then show ?case by (simp add: f mark)
qed

text \<open>A section whose tag is 64 or more and whose arm does nothing can be left out.\<close>

lemma run_sections_skip:
  assumes "\<And>s. arm t p s = Ok s" "64 \<le> t"
  shows "run_sections arm mark (xs @ (t, pad, p) # ys) = run_sections arm mark (xs @ ys)"
proof (intro ext)
  fix seen s
  show "run_sections arm mark (xs @ (t, pad, p) # ys) seen s = run_sections arm mark (xs @ ys) seen s"
  proof (induction xs arbitrary: seen s)
    case Nil
    have "\<not> t < 64" using assms(2) by simp
    then show ?case by (simp add: assms(1) mark_eq)
  next
    case (Cons x xs)
    then have "run_sections arm mark (xs @ (t, pad, p) # ys) = run_sections arm mark (xs @ ys)"
      by (intro ext)
    then show ?case by (cases x) simp
  qed
qed

end

end
