(* ===== verification/Abi_Encode.thy ===== *)
theory Abi_Encode
  imports Abi_Spec Section_Loop
begin

text \<open>
  \<open>userspace/krunc-abi/src/lib.rs\<close>, the encoder: \<open>Writer::section\<close>, the \<open>write_*\<close>
  functions and \<open>DomainSpec::encode\<close>. A \<open>Writer\<close> is the byte list it has written.
\<close>

definition section_bytes :: "u16 \<Rightarrow> u8 list \<Rightarrow> u8 list" where
  "section_bytes t inner =
     put_u16 t @ put_u16 0 @ put_u32 (word_of_nat (length inner)) @ inner"

definition write_str :: "string \<Rightarrow> u8 list" where
  "write_str s = put_u32 (word_of_nat (length s)) @ as_bytes s"

definition write_strvec :: "string list \<Rightarrow> u8 list" where
  "write_strvec items = put_u32 (word_of_nat (length items))
     @ concat (map (\<lambda>s. put_u32 (word_of_nat (length s)) @ as_bytes s) items)"

definition write_mounts :: "mount list \<Rightarrow> u8 list" where
  "write_mounts ms = put_u32 (word_of_nat (length ms))
     @ concat (map (\<lambda>m. write_str (mt_destination m) @ write_str (mt_fs_type m)
         @ write_str (mt_source m) @ put_u64 (mt_flags m)) ms)"

definition write_maps :: "id_map list \<Rightarrow> u8 list" where
  "write_maps ms = put_u32 (word_of_nat (length ms))
     @ concat (map (\<lambda>m. put_u32 (im_container_id m) @ put_u32 (im_host_id m)
         @ put_u32 (im_size m)) ms)"

definition write_rlimits :: "rlimit list \<Rightarrow> u8 list" where
  "write_rlimits ls = put_u32 (word_of_nat (length ls))
     @ concat (map (\<lambda>l. put_u32 (rl_resource l) @ put_u64 (rl_soft l) @ put_u64 (rl_hard l)) ls)"

text \<open>
  The closure \<open>emit\<close> appends a section to the body and counts it. \<open>emit_when c\<close> is
  \<open>if c { emit(..) }\<close>.
\<close>

definition emit :: "u16 \<Rightarrow> u8 list \<Rightarrow> u8 list \<times> u32 \<Rightarrow> u8 list \<times> u32" where
  "emit t payload st = (fst st @ section_bytes t payload, snd st + 1)"

definition emit_when :: "bool \<Rightarrow> u16 \<Rightarrow> u8 list \<Rightarrow> u8 list \<times> u32 \<Rightarrow> u8 list \<times> u32" where
  "emit_when c t payload st = (if c then emit t payload st else st)"

definition encode_sections :: "domain_spec \<Rightarrow> u8 list \<times> u32" where
  "encode_sections s =
     (let st = ([], 0);
          st = emit_when (sp_rootfs s \<noteq> []) TAG_ROOTFS (as_bytes (sp_rootfs s)) st;
          st = emit_when (sp_hostname s \<noteq> []) TAG_HOSTNAME (as_bytes (sp_hostname s)) st;
          st = emit_when (sp_argv s \<noteq> []) TAG_ARGV (write_strvec (sp_argv s)) st;
          st = emit_when (sp_env s \<noteq> []) TAG_ENV (write_strvec (sp_env s)) st;
          st = emit_when (sp_namespaces s \<noteq> 0) TAG_NAMESPACES (put_u32 (sp_namespaces s)) st;
          st = emit_when (sp_uid_maps s \<noteq> []) TAG_UID_MAPS (write_maps (sp_uid_maps s)) st;
          st = emit_when (sp_gid_maps s \<noteq> []) TAG_GID_MAPS (write_maps (sp_gid_maps s)) st;
          st = emit_when (sp_flags s \<noteq> 0) TAG_FLAGS (put_u64 (sp_flags s)) st;
          st = emit_when (sp_caps_present s) TAG_CAP_BOUNDING (put_u64 (sp_cap_bounding s)) st;
          st = emit_when (sp_caps_present s) TAG_CAP_SETS
                 (put_u64 (sp_cap_effective s) @ put_u64 (sp_cap_permitted s)
                  @ put_u64 (sp_cap_inheritable s) @ put_u64 (sp_cap_ambient s)) st;
          st = emit_when (sp_masked_paths s \<noteq> []) TAG_MASKED_PATHS
                 (write_strvec (sp_masked_paths s)) st;
          st = emit_when (sp_readonly_paths s \<noteq> []) TAG_RO_PATHS
                 (write_strvec (sp_readonly_paths s)) st;
          st = emit_when (sp_rlimits s \<noteq> []) TAG_RLIMITS (write_rlimits (sp_rlimits s)) st;
          st = (case sp_oom_score_adj s of
                  Some adj \<Rightarrow> emit TAG_OOM_SCORE_ADJ (put_u32 adj) st | None \<Rightarrow> st);
          st = emit_when (sp_uid s \<noteq> 0 \<or> sp_gid s \<noteq> 0) TAG_USER
                 (put_u32 (sp_uid s) @ put_u32 (sp_gid s)) st;
          st = emit_when (sp_mounts s \<noteq> []) TAG_MOUNTS (write_mounts (sp_mounts s)) st;
          st = emit_when (sp_sysctls s \<noteq> []) TAG_SYSCTLS (write_strvec (sp_sysctls s)) st
      in st)"

definition encode :: "domain_spec \<Rightarrow> op \<Rightarrow> abi_error + u8 list" where
  "encode s p =
     and_then (validate s) (\<lambda>_.
       let w = MAGIC @ put_u32 ABI_VERSION @ put_u32 (op_code p);
           (body, count) = encode_sections s;
           w = w @ put_u32 count @ body
       in if length w > MAX_SPEC then Err (TooLarge ''spec'' (length w) MAX_SPEC) else Ok w)"

section \<open>The sections an encoding consists of\<close>

type_synonym wire_section = "u16 \<times> u16 \<times> u8 list"

lemma section_bytes_frame: "section_bytes t p = frame (t, 0, p)"
  by (simp add: section_bytes_def frame_def)

definition opt_section :: "bool \<Rightarrow> u16 \<Rightarrow> u8 list \<Rightarrow> wire_section list" where
  "opt_section c t p = (if c then [(t, 0, p)] else [])"

definition spec_sections :: "domain_spec \<Rightarrow> wire_section list" where
  "spec_sections s =
     opt_section (sp_rootfs s \<noteq> []) TAG_ROOTFS (as_bytes (sp_rootfs s))
     @ opt_section (sp_hostname s \<noteq> []) TAG_HOSTNAME (as_bytes (sp_hostname s))
     @ opt_section (sp_argv s \<noteq> []) TAG_ARGV (write_strvec (sp_argv s))
     @ opt_section (sp_env s \<noteq> []) TAG_ENV (write_strvec (sp_env s))
     @ opt_section (sp_namespaces s \<noteq> 0) TAG_NAMESPACES (put_u32 (sp_namespaces s))
     @ opt_section (sp_uid_maps s \<noteq> []) TAG_UID_MAPS (write_maps (sp_uid_maps s))
     @ opt_section (sp_gid_maps s \<noteq> []) TAG_GID_MAPS (write_maps (sp_gid_maps s))
     @ opt_section (sp_flags s \<noteq> 0) TAG_FLAGS (put_u64 (sp_flags s))
     @ opt_section (sp_caps_present s) TAG_CAP_BOUNDING (put_u64 (sp_cap_bounding s))
     @ opt_section (sp_caps_present s) TAG_CAP_SETS
         (put_u64 (sp_cap_effective s) @ put_u64 (sp_cap_permitted s)
          @ put_u64 (sp_cap_inheritable s) @ put_u64 (sp_cap_ambient s))
     @ opt_section (sp_masked_paths s \<noteq> []) TAG_MASKED_PATHS (write_strvec (sp_masked_paths s))
     @ opt_section (sp_readonly_paths s \<noteq> []) TAG_RO_PATHS (write_strvec (sp_readonly_paths s))
     @ opt_section (sp_rlimits s \<noteq> []) TAG_RLIMITS (write_rlimits (sp_rlimits s))
     @ opt_section (sp_oom_score_adj s \<noteq> None) TAG_OOM_SCORE_ADJ
         (put_u32 (case sp_oom_score_adj s of Some adj \<Rightarrow> adj | None \<Rightarrow> 0))
     @ opt_section (sp_uid s \<noteq> 0 \<or> sp_gid s \<noteq> 0) TAG_USER
         (put_u32 (sp_uid s) @ put_u32 (sp_gid s))
     @ opt_section (sp_mounts s \<noteq> []) TAG_MOUNTS (write_mounts (sp_mounts s))
     @ opt_section (sp_sysctls s \<noteq> []) TAG_SYSCTLS (write_strvec (sp_sysctls s))"

lemma emit_when_sections:
  "emit_when c t p (frames xs, word_of_nat (length xs)) =
     (frames (xs @ opt_section c t p), word_of_nat (length (xs @ opt_section c t p)))"
  by (simp add: emit_when_def emit_def opt_section_def section_bytes_frame)

lemma emit_oom_sections:
  "(case v of Some adj \<Rightarrow> emit t (put_u32 adj) st | None \<Rightarrow> st) =
     emit_when (v \<noteq> None) t (put_u32 (case v of Some adj \<Rightarrow> adj | None \<Rightarrow> 0)) st"
  by (simp add: emit_when_def split: option.splits)

lemma encode_sections_eq:
  "encode_sections s =
     (frames (spec_sections s), word_of_nat (length (spec_sections s)))"
proof -
  have start: "([], 0) = (frames [], word_of_nat (length ([] :: wire_section list)) :: u32)"
    by simp
  show ?thesis
    unfolding encode_sections_def Let_def emit_oom_sections
    unfolding start emit_when_sections spec_sections_def
    by (simp only: append_assoc append_Nil)
qed

definition wire :: "u32 \<Rightarrow> wire_section list \<Rightarrow> u8 list" where
  "wire opc secs = MAGIC @ put_u32 ABI_VERSION @ put_u32 opc
     @ put_u32 (word_of_nat (length secs)) @ frames secs"

lemma length_wire [simp]: "length (wire opc secs) = 16 + length (frames secs)"
  by (simp add: wire_def MAGIC_def)

lemma encode_Ok_iff:
  "encode s p = Ok buf \<longleftrightarrow>
     checked_bounds s \<and> buf = wire (op_code p) (spec_sections s) \<and> length buf \<le> MAX_SPEC"
  by (auto simp: encode_def and_then_eq_Ok encode_sections_eq wire_def validate_Ok_iff [symmetric]
      Let_def split: if_splits)

end
