(* ===== verification/Abi_Decode.thy ===== *)
theory Abi_Decode
  imports Abi_Spec Byte_Reader
begin

text \<open>
  \<open>userspace/krunc-abi/src/lib.rs\<close>, the decoder: the methods of \<open>Reader\<close>, the \<open>read_*\<close>
  functions and \<open>decode\<close> with its section loop.
\<close>

section \<open>Reader\<close>

definition r_take :: "nat \<Rightarrow> (abi_error, u8 list) parser" where
  "r_take n r =
     (if n > remaining r then Err Truncated
      else Ok (take n (drop (rd_pos r) (rd_buf r)), r\<lparr>rd_pos := rd_pos r + n\<rparr>))"

definition r_u16 :: "(abi_error, u16) parser" where
  "r_u16 r = and_then (r_take 2 r) (\<lambda>(bs, r). Ok (le_word bs, r))"

definition r_u32 :: "(abi_error, u32) parser" where
  "r_u32 r = and_then (r_take 4 r) (\<lambda>(bs, r). Ok (le_word bs, r))"

definition r_u64 :: "(abi_error, u64) parser" where
  "r_u64 r = and_then (r_take 8 r) (\<lambda>(bs, r). Ok (le_word bs, r))"

interpretation abi: byte_source r_take Truncated
  by unfold_locales (simp add: r_take_def adv_def unread_def)

lemma r_word_Ok_iff:
  "r_u16 r = Ok (v16, r') \<longleftrightarrow> 2 \<le> remaining r \<and> v16 = le_word (take 2 (unread r)) \<and> r' = adv 2 r"
  "r_u32 r = Ok (v32, r') \<longleftrightarrow> 4 \<le> remaining r \<and> v32 = le_word (take 4 (unread r)) \<and> r' = adv 4 r"
  "r_u64 r = Ok (v64, r') \<longleftrightarrow> 8 \<le> remaining r \<and> v64 = le_word (take 8 (unread r)) \<and> r' = adv 8 r"
  by (simp_all only: r_u16_def r_u32_def r_u64_def abi.word_Ok_iff)

lemmas r_Ok_iff = abi.tk_Ok_iff r_word_Ok_iff

section \<open>Composite fields\<close>

definition from_utf8 :: "u8 list \<Rightarrow> abi_error + string" where
  "from_utf8 bs = (if utf8_valid bs then Ok (of_bytes bs) else Err Utf8)"

definition read_string :: "string \<Rightarrow> nat \<Rightarrow> (abi_error, string) parser" where
  "read_string what limit r =
     and_then (r_u32 r) (\<lambda>(len, r).
     and_then (check_len what (unat len) limit) (\<lambda>_.
     and_then (r_take (unat len) r) (\<lambda>(bs, r).
     and_then (from_utf8 bs) (\<lambda>s. Ok (s, r)))))"

definition read_strvec :: "string \<Rightarrow> nat \<Rightarrow> (abi_error, string list) parser" where
  "read_strvec what limit r =
     and_then (r_u32 r) (\<lambda>(n, r).
     and_then (check_len what (unat n) limit) (\<lambda>_.
     read_n (read_string ''string'' MAX_STR) (unat n) r))"

definition read_map :: "(abi_error, id_map) parser" where
  "read_map r =
     and_then (r_u32 r) (\<lambda>(c, r). and_then (r_u32 r) (\<lambda>(h, r). and_then (r_u32 r) (\<lambda>(s, r).
       Ok (\<lparr>im_container_id = c, im_host_id = h, im_size = s\<rparr>, r))))"

definition read_maps :: "string \<Rightarrow> (abi_error, id_map list) parser" where
  "read_maps what r =
     and_then (r_u32 r) (\<lambda>(n, r).
     and_then (check_len what (unat n) MAX_MAPS) (\<lambda>_. read_n read_map (unat n) r))"

definition read_rlimit :: "(abi_error, rlimit) parser" where
  "read_rlimit r =
     and_then (r_u32 r) (\<lambda>(res, r). and_then (r_u64 r) (\<lambda>(s, r). and_then (r_u64 r) (\<lambda>(h, r).
       Ok (\<lparr>rl_resource = res, rl_soft = s, rl_hard = h\<rparr>, r))))"

definition read_rlimits :: "string \<Rightarrow> (abi_error, rlimit list) parser" where
  "read_rlimits what r =
     and_then (r_u32 r) (\<lambda>(n, r).
     and_then (check_len what (unat n) MAX_RLIMITS) (\<lambda>_. read_n read_rlimit (unat n) r))"

definition read_mount :: "(abi_error, mount) parser" where
  "read_mount r =
     and_then (read_string ''mount.destination'' MAX_STR r) (\<lambda>(d, r).
     and_then (read_string ''mount.type'' MAX_STR r) (\<lambda>(t, r).
     and_then (read_string ''mount.source'' MAX_STR r) (\<lambda>(s, r).
     and_then (r_u64 r) (\<lambda>(f, r).
       Ok (\<lparr>mt_destination = d, mt_fs_type = t, mt_source = s, mt_flags = f\<rparr>, r)))))"

definition read_mounts :: "string \<Rightarrow> (abi_error, mount list) parser" where
  "read_mounts what r =
     and_then (r_u32 r) (\<lambda>(n, r).
     and_then (check_len what (unat n) MAX_MOUNTS) (\<lambda>_. read_n read_mount (unat n) r))"

definition utf8 :: "u8 list \<Rightarrow> nat \<Rightarrow> string \<Rightarrow> abi_error + string" where
  "utf8 b limit what = and_then (check_len what (length b) limit) (\<lambda>_. from_utf8 b)"

section \<open>The section loop\<close>

text \<open>
  One arm of \<open>match t\<close>: the payload has a reader of its own, and what it leaves unread is
  ignored.
\<close>

definition decode_section :: "u16 \<Rightarrow> u8 list \<Rightarrow> domain_spec \<Rightarrow> abi_error + domain_spec" where
  "decode_section t payload spec =
     (let sr = reader_new payload in
      if t = TAG_ROOTFS then
        and_then (utf8 payload MAX_STR ''rootfs'') (\<lambda>x. Ok (spec\<lparr>sp_rootfs := x\<rparr>))
      else if t = TAG_HOSTNAME then
        and_then (utf8 payload MAX_STR ''hostname'') (\<lambda>x. Ok (spec\<lparr>sp_hostname := x\<rparr>))
      else if t = TAG_ARGV then
        and_then (read_strvec ''argv'' MAX_ARGV sr) (\<lambda>(x, _). Ok (spec\<lparr>sp_argv := x\<rparr>))
      else if t = TAG_ENV then
        and_then (read_strvec ''env'' MAX_ENV sr) (\<lambda>(x, _). Ok (spec\<lparr>sp_env := x\<rparr>))
      else if t = TAG_NAMESPACES then
        and_then (r_u32 sr) (\<lambda>(x, _). Ok (spec\<lparr>sp_namespaces := x\<rparr>))
      else if t = TAG_UID_MAPS then
        and_then (read_maps ''uid_maps'' sr) (\<lambda>(x, _). Ok (spec\<lparr>sp_uid_maps := x\<rparr>))
      else if t = TAG_GID_MAPS then
        and_then (read_maps ''gid_maps'' sr) (\<lambda>(x, _). Ok (spec\<lparr>sp_gid_maps := x\<rparr>))
      else if t = TAG_FLAGS then
        and_then (r_u64 sr) (\<lambda>(x, _). Ok (spec\<lparr>sp_flags := x\<rparr>))
      else if t = TAG_CAP_BOUNDING then
        and_then (r_u64 sr) (\<lambda>(x, _).
          Ok (spec\<lparr>sp_caps_present := True, sp_cap_bounding := x\<rparr>))
      else if t = TAG_CAP_SETS then
        and_then (r_u64 sr) (\<lambda>(e, sr). and_then (r_u64 sr) (\<lambda>(p, sr).
        and_then (r_u64 sr) (\<lambda>(i, sr). and_then (r_u64 sr) (\<lambda>(a, sr).
          Ok (spec\<lparr>sp_cap_effective := e, sp_cap_permitted := p,
                   sp_cap_inheritable := i, sp_cap_ambient := a\<rparr>)))))
      else if t = TAG_MASKED_PATHS then
        and_then (read_strvec ''masked_paths'' MAX_PATHS sr) (\<lambda>(x, _).
          Ok (spec\<lparr>sp_masked_paths := x\<rparr>))
      else if t = TAG_RO_PATHS then
        and_then (read_strvec ''readonly_paths'' MAX_PATHS sr) (\<lambda>(x, _).
          Ok (spec\<lparr>sp_readonly_paths := x\<rparr>))
      else if t = TAG_RLIMITS then
        and_then (read_rlimits ''rlimits'' sr) (\<lambda>(x, _). Ok (spec\<lparr>sp_rlimits := x\<rparr>))
      else if t = TAG_OOM_SCORE_ADJ then
        and_then (r_u32 sr) (\<lambda>(x, _). Ok (spec\<lparr>sp_oom_score_adj := Some x\<rparr>))
      else if t = TAG_USER then
        and_then (r_u32 sr) (\<lambda>(u, sr). and_then (r_u32 sr) (\<lambda>(g, sr).
          Ok (spec\<lparr>sp_uid := u, sp_gid := g\<rparr>)))
      else if t = TAG_MOUNTS then
        and_then (read_mounts ''mounts'' sr) (\<lambda>(x, _). Ok (spec\<lparr>sp_mounts := x\<rparr>))
      else if t = TAG_SYSCTLS then
        and_then (read_strvec ''sysctls'' MAX_SYSCTLS sr) (\<lambda>(x, _).
          Ok (spec\<lparr>sp_sysctls := x\<rparr>))
      else Ok spec)"

text \<open>The duplicate check: a bit set of the tags below 64.\<close>

definition mark_seen :: "u16 \<Rightarrow> u64 \<Rightarrow> abi_error + u64" where
  "mark_seen t seen =
     (if t < 64 then
        (let b = push_bit (unat t) 1 in
         if seen AND b \<noteq> 0 then Err (Duplicate t) else Ok (seen OR b))
      else Ok seen)"

fun decode_loop :: "nat \<Rightarrow> u64 \<Rightarrow> domain_spec \<Rightarrow> (abi_error, domain_spec) parser" where
  "decode_loop 0 seen spec r = Ok (spec, r)"
| "decode_loop (Suc k) seen spec r =
     and_then (r_u16 r) (\<lambda>(t, r).
     and_then (r_u16 r) (\<lambda>(_, r).
     and_then (r_u32 r) (\<lambda>(len, r).
     if unat len > remaining r then Err Truncated
     else
       and_then (r_take (unat len) r) (\<lambda>(payload, r).
       and_then (mark_seen t seen) (\<lambda>seen.
       and_then (decode_section t payload spec) (\<lambda>spec.
       decode_loop k seen spec r))))))"

text \<open>The sections a \<open>create\<close> must carry.\<close>

definition check_required :: "op \<Rightarrow> domain_spec \<Rightarrow> abi_error + op \<times> domain_spec" where
  "check_required p spec =
     (if p = Create \<and> sp_rootfs spec = [] then Err (Missing ''rootfs'')
      else if p = Create \<and> sp_argv spec = [] then Err (Missing ''argv'')
      else Ok (p, spec))"

text \<open>The fixed header: magic, version, operation and section count.\<close>

definition decode_header :: "u8 list \<Rightarrow> abi_error + (op \<times> u32) \<times> reader" where
  "decode_header buf =
     (if length buf > MAX_SPEC then Err (TooLarge ''spec'' (length buf) MAX_SPEC)
      else
        and_then (r_take 4 (reader_new buf)) (\<lambda>(magic, r).
        if magic \<noteq> MAGIC then Err BadMagic
        else
          and_then (r_u32 r) (\<lambda>(version, r).
          if version \<noteq> ABI_VERSION then Err (UnsupportedVersion version)
          else
            and_then (r_u32 r) (\<lambda>(opc, r).
            and_then (op_from_u32 opc) (\<lambda>p.
            and_then (r_u32 r) (\<lambda>(count, r).
            and_then (check_len ''section_count'' (unat count) (MAX_SPEC div 8)) (\<lambda>_.
            Ok ((p, count), r))))))))"

definition decode :: "u8 list \<Rightarrow> abi_error + op \<times> domain_spec" where
  "decode buf =
     and_then (decode_header buf) (\<lambda>((p, count), r).
     and_then (decode_loop (unat count) 0 default_spec r) (\<lambda>(spec, r).
     if remaining r \<noteq> 0 then Err TrailingBytes
     else check_required p spec))"

end
