(* ===== verification/Abi_Roundtrip.thy ===== *)
theory Abi_Roundtrip
  imports Abi_Encode Abi_Decode
begin

text \<open>
  What the encoder and the decoder of \<open>krunc-abi\<close> promise each other: every element codec
  is an \<open>item_codec\<close>, every section payload is read back, and \<open>decode\<close> inverts \<open>encode\<close> on
  every specification whose entries are within the decoder's bounds.
\<close>

section \<open>Element codecs\<close>

named_theorems read_back \<open>a reader applied to the bytes its writer produced\<close>

lemma r_u16_put [read_back]: "unread r = put_u16 v @ ys \<Longrightarrow> r_u16 r = Ok (v, adv 2 r)"
  by (simp add: r_u16_def abi.word_append)

lemma r_u32_put [read_back]: "unread r = put_u32 v @ ys \<Longrightarrow> r_u32 r = Ok (v, adv 4 r)"
  by (simp add: r_u32_def abi.word_append)

lemma r_u64_put [read_back]: "unread r = put_u64 v @ ys \<Longrightarrow> r_u64 r = Ok (v, adv 8 r)"
  by (simp add: r_u64_def abi.word_append)

lemma r_word_put_last [read_back]:
  "unread r = put_u32 v \<Longrightarrow> r_u32 r = Ok (v, adv 4 r)"
  "unread r = put_u64 w \<Longrightarrow> r_u64 r = Ok (w, adv 8 r)"
  using r_u32_put [of r v "[]"] r_u64_put [of r w "[]"] by simp_all

lemma r_take_put [read_back]: "unread r = xs @ ys \<Longrightarrow> r_take (length xs) r = Ok (xs, adv (length xs) r)"
  by (rule abi.tk_append)

lemma from_utf8_as_bytes [simp]: "wf_str s \<Longrightarrow> from_utf8 (as_bytes s) = Ok s"
  by (simp add: from_utf8_def wf_str_def)

definition short_str :: "string \<Rightarrow> bool" where
  "short_str s \<longleftrightarrow> wf_str s \<and> length s \<le> MAX_STR"

lemma read_string_put:
  assumes "short_str s" "unread r = write_str s @ ys"
  shows "read_string what MAX_STR r = Ok (s, adv (length (write_str s)) r)"
proof -
  have len: "unat (word_of_nat (length s) :: u32) = length s"
    using assms(1) by (intro unat_of_nat_len) (simp add: short_str_def MAX_STR_def)
  have 1: "r_u32 r = Ok (word_of_nat (length s), adv 4 r)"
    using assms(2) by (intro r_u32_put) (simp add: write_str_def)
  have 2: "r_take (length s) (adv 4 r) = Ok (as_bytes s, adv (length s) (adv 4 r))"
    using assms(2) r_take_put [of "adv 4 r" "as_bytes s" ys] by (simp add: write_str_def)
  show ?thesis
    using assms(1) by (simp add: read_string_def 1 2 len short_str_def write_str_def)
qed

interpretation string_codec: item_codec write_str "read_string what MAX_STR" short_str
  for what
  by unfold_locales (rule read_string_put)

interpretation map_codec: item_codec
  "\<lambda>m. put_u32 (im_container_id m) @ put_u32 (im_host_id m) @ put_u32 (im_size m)"
  read_map "\<lambda>_. True"
  by unfold_locales (simp add: read_map_def read_back)

interpretation rlimit_codec: item_codec
  "\<lambda>l. put_u32 (rl_resource l) @ put_u64 (rl_soft l) @ put_u64 (rl_hard l)"
  read_rlimit "\<lambda>_. True"
  by unfold_locales (simp add: read_rlimit_def read_back)

definition fit_mount :: "mount \<Rightarrow> bool" where
  "fit_mount m \<longleftrightarrow> wf_mount m \<and> short_mount m"

lemma read_mount_put:
  assumes "fit_mount m"
    and "unread r = (write_str (mt_destination m) @ write_str (mt_fs_type m)
           @ write_str (mt_source m) @ put_u64 (mt_flags m)) @ ys"
  shows "read_mount r = Ok (m, adv (length (write_str (mt_destination m)
           @ write_str (mt_fs_type m) @ write_str (mt_source m) @ put_u64 (mt_flags m))) r)"
proof -
  have fit: "short_str (mt_destination m)" "short_str (mt_fs_type m)" "short_str (mt_source m)"
    using assms(1) by (simp_all add: fit_mount_def wf_mount_def short_mount_def short_str_def)
  show ?thesis
    using assms(2)
    by (simp add: read_mount_def read_back string_codec.get_put [OF fit(1)]
        string_codec.get_put [OF fit(2)] string_codec.get_put [OF fit(3)] ac_simps)
qed

interpretation mount_codec: item_codec
  "\<lambda>m. write_str (mt_destination m) @ write_str (mt_fs_type m) @ write_str (mt_source m)
     @ put_u64 (mt_flags m)" read_mount fit_mount
  by unfold_locales (rule read_mount_put)

section \<open>Counted vectors\<close>

lemma write_strvec_eq: "write_strvec xs = put_u32 (word_of_nat (length xs)) @ concat (map write_str xs)"
  by (simp add: write_strvec_def write_str_def [abs_def])

lemma read_strvec_put:
  assumes "list_all short_str xs" "length xs \<le> limit" "limit < 2 ^ 32"
    "unread r = write_strvec xs"
  shows "\<exists>r'. read_strvec what limit r = Ok (xs, r')"
  using assms by (simp add: read_strvec_def read_back write_strvec_eq unat_of_nat_len
      string_codec.read_n_put_last)

lemma read_maps_put:
  assumes "length xs \<le> MAX_MAPS" "unread r = write_maps xs"
  shows "\<exists>r'. read_maps what r = Ok (xs, r')"
  using assms by (simp add: read_maps_def read_back write_maps_def unat_of_nat_len MAX_MAPS_def
      map_codec.read_n_put_last list_all_iff)

lemma read_rlimits_put:
  assumes "length xs \<le> MAX_RLIMITS" "unread r = write_rlimits xs"
  shows "\<exists>r'. read_rlimits what r = Ok (xs, r')"
  using assms by (simp add: read_rlimits_def read_back write_rlimits_def unat_of_nat_len
      MAX_RLIMITS_def rlimit_codec.read_n_put_last list_all_iff)

lemma read_mounts_put:
  assumes "list_all fit_mount xs" "length xs \<le> MAX_MOUNTS" "unread r = write_mounts xs"
  shows "\<exists>r'. read_mounts what r = Ok (xs, r')"
  using assms by (simp add: read_mounts_def read_back write_mounts_def unat_of_nat_len
      MAX_MOUNTS_def mount_codec.read_n_put_last)

section \<open>The section loop on encoded sections\<close>

lemma mark_seen_eq:
  "mark_seen t seen =
     (if t < 64 \<and> \<not> unseen t seen then Err (Duplicate t)
      else Ok (if t < 64 then seen OR push_bit (unat t) 1 else seen))"
  using and_push_bit_one [of seen "unat t"] by (simp add: mark_seen_def unseen_def Let_def)

interpretation abi_loop: section_loop r_take Truncated decode_loop decode_section mark_seen Duplicate
  by unfold_locales (simp_all add: r_u16_def r_u32_def mark_seen_eq)

text \<open>Encoded sections never repeat a tag.\<close>

lemma opt_section_tags [simp]:
  "x \<in> fst ` set (opt_section c t p @ rest) \<longleftrightarrow> c \<and> x = t \<or> x \<in> fst ` set rest"
  "x \<in> fst ` set (opt_section c t p) \<longleftrightarrow> c \<and> x = t"
  by (auto simp: opt_section_def)

lemma distinct_opt_section:
  "distinct (map fst (opt_section c t p @ rest)) \<longleftrightarrow>
     distinct (map fst rest) \<and> (c \<longrightarrow> t \<notin> fst ` set rest)"
  "distinct (map fst (opt_section c t p))"
  by (auto simp: opt_section_def)

lemma distinct_spec_sections: "distinct (map fst (spec_sections s))"
  unfolding spec_sections_def
  by (simp only: distinct_opt_section opt_section_tags) (simp add: tag_defs)

text \<open>One optional section: present, it sets its field; absent, the field has its default.\<close>

lemma apply_opt_section:
  assumes "c \<Longrightarrow> decode_section t p d = Ok d'" "\<not> c \<Longrightarrow> d' = d"
  shows "apply_sections decode_section (opt_section c t p @ rest) d = apply_sections decode_section rest d'"
  using assms by (cases c) (simp_all add: opt_section_def)

lemma apply_opt_section_last:
  assumes "c \<Longrightarrow> decode_section t p d = Ok d'" "\<not> c \<Longrightarrow> d' = d"
  shows "apply_sections decode_section (opt_section c t p) d = Ok d'"
  using apply_opt_section [OF assms, where rest = "[]"] by simp

definition fits_spec :: "domain_spec \<Rightarrow> bool" where
  "fits_spec s \<longleftrightarrow> wf_spec s \<and> checked_bounds s \<and> entry_bounds s"

definition canonical_caps :: "domain_spec \<Rightarrow> bool" where
  "canonical_caps s \<longleftrightarrow> (\<not> sp_caps_present s \<longrightarrow>
     sp_cap_bounding s = 0 \<and> sp_cap_effective s = 0 \<and> sp_cap_permitted s = 0
     \<and> sp_cap_inheritable s = 0 \<and> sp_cap_ambient s = 0)"

text \<open>The arms of the match, one equation per known tag.\<close>

lemma decode_section_arms:
  "decode_section TAG_ROOTFS p d =
     and_then (utf8 p MAX_STR ''rootfs'') (\<lambda>x. Ok (d\<lparr>sp_rootfs := x\<rparr>))"
  "decode_section TAG_HOSTNAME p d =
     and_then (utf8 p MAX_STR ''hostname'') (\<lambda>x. Ok (d\<lparr>sp_hostname := x\<rparr>))"
  "decode_section TAG_ARGV p d =
     and_then (read_strvec ''argv'' MAX_ARGV (reader_new p)) (\<lambda>(x, _). Ok (d\<lparr>sp_argv := x\<rparr>))"
  "decode_section TAG_ENV p d =
     and_then (read_strvec ''env'' MAX_ENV (reader_new p)) (\<lambda>(x, _). Ok (d\<lparr>sp_env := x\<rparr>))"
  "decode_section TAG_NAMESPACES p d =
     and_then (r_u32 (reader_new p)) (\<lambda>(x, _). Ok (d\<lparr>sp_namespaces := x\<rparr>))"
  "decode_section TAG_UID_MAPS p d =
     and_then (read_maps ''uid_maps'' (reader_new p)) (\<lambda>(x, _). Ok (d\<lparr>sp_uid_maps := x\<rparr>))"
  "decode_section TAG_GID_MAPS p d =
     and_then (read_maps ''gid_maps'' (reader_new p)) (\<lambda>(x, _). Ok (d\<lparr>sp_gid_maps := x\<rparr>))"
  "decode_section TAG_FLAGS p d =
     and_then (r_u64 (reader_new p)) (\<lambda>(x, _). Ok (d\<lparr>sp_flags := x\<rparr>))"
  "decode_section TAG_CAP_BOUNDING p d =
     and_then (r_u64 (reader_new p)) (\<lambda>(x, _).
       Ok (d\<lparr>sp_caps_present := True, sp_cap_bounding := x\<rparr>))"
  "decode_section TAG_CAP_SETS p d =
     and_then (r_u64 (reader_new p)) (\<lambda>(e, sr). and_then (r_u64 sr) (\<lambda>(pm, sr).
     and_then (r_u64 sr) (\<lambda>(i, sr). and_then (r_u64 sr) (\<lambda>(a, sr).
       Ok (d\<lparr>sp_cap_effective := e, sp_cap_permitted := pm,
             sp_cap_inheritable := i, sp_cap_ambient := a\<rparr>)))))"
  "decode_section TAG_MASKED_PATHS p d =
     and_then (read_strvec ''masked_paths'' MAX_PATHS (reader_new p)) (\<lambda>(x, _).
       Ok (d\<lparr>sp_masked_paths := x\<rparr>))"
  "decode_section TAG_RO_PATHS p d =
     and_then (read_strvec ''readonly_paths'' MAX_PATHS (reader_new p)) (\<lambda>(x, _).
       Ok (d\<lparr>sp_readonly_paths := x\<rparr>))"
  "decode_section TAG_RLIMITS p d =
     and_then (read_rlimits ''rlimits'' (reader_new p)) (\<lambda>(x, _). Ok (d\<lparr>sp_rlimits := x\<rparr>))"
  "decode_section TAG_OOM_SCORE_ADJ p d =
     and_then (r_u32 (reader_new p)) (\<lambda>(x, _). Ok (d\<lparr>sp_oom_score_adj := Some x\<rparr>))"
  "decode_section TAG_USER p d =
     and_then (r_u32 (reader_new p)) (\<lambda>(u, sr). and_then (r_u32 sr) (\<lambda>(g, sr).
       Ok (d\<lparr>sp_uid := u, sp_gid := g\<rparr>)))"
  "decode_section TAG_MOUNTS p d =
     and_then (read_mounts ''mounts'' (reader_new p)) (\<lambda>(x, _). Ok (d\<lparr>sp_mounts := x\<rparr>))"
  "decode_section TAG_SYSCTLS p d =
     and_then (read_strvec ''sysctls'' MAX_SYSCTLS (reader_new p)) (\<lambda>(x, _).
       Ok (d\<lparr>sp_sysctls := x\<rparr>))"
  by (simp_all add: decode_section_def tag_defs)

lemma and_then_fst: "\<exists>r'. m = Ok (x, r') \<Longrightarrow> and_then m (\<lambda>(x, _). f x) = f x"
  by auto

lemma list_all_short_str:
  "list_all wf_str xs \<Longrightarrow> list_all (\<lambda>a. length a \<le> MAX_STR) xs \<Longrightarrow> list_all short_str xs"
  by (simp add: list_all_iff short_str_def)

lemma list_all_fit_mount:
  "list_all wf_mount xs \<Longrightarrow> list_all short_mount xs \<Longrightarrow> list_all fit_mount xs"
  by (simp add: list_all_iff fit_mount_def)

lemma utf8_as_bytes: "wf_str x \<Longrightarrow> length x \<le> MAX_STR \<Longrightarrow> utf8 (as_bytes x) MAX_STR what = Ok x"
  by (simp add: utf8_def)

lemma strvec_section:
  assumes "list_all wf_str xs" "list_all (\<lambda>a. length a \<le> MAX_STR) xs" "length xs \<le> l" "l < 2 ^ 32"
  shows "and_then (read_strvec what l (reader_new (write_strvec xs))) (\<lambda>(x, _). f x) = f xs"
  using assms by (intro and_then_fst read_strvec_put list_all_short_str) simp_all

lemma maps_section:
  "length xs \<le> MAX_MAPS \<Longrightarrow>
   and_then (read_maps what (reader_new (write_maps xs))) (\<lambda>(x, _). f x) = f xs"
  by (intro and_then_fst read_maps_put) simp_all

lemma rlimits_section:
  "length xs \<le> MAX_RLIMITS \<Longrightarrow>
   and_then (read_rlimits what (reader_new (write_rlimits xs))) (\<lambda>(x, _). f x) = f xs"
  by (intro and_then_fst read_rlimits_put) simp_all

lemma mounts_section:
  "list_all fit_mount xs \<Longrightarrow> length xs \<le> MAX_MOUNTS \<Longrightarrow>
   and_then (read_mounts what (reader_new (write_mounts xs))) (\<lambda>(x, _). f x) = f xs"
  by (intro and_then_fst read_mounts_put) simp_all

text \<open>
  Each optional section of an encoding sets its field to the encoded value, on a
  specification where the field still has its default.
\<close>

lemma spec_section_arms:
  assumes "fits_spec s"
  shows
  "sp_rootfs s \<noteq> [] \<Longrightarrow>
     decode_section TAG_ROOTFS (as_bytes (sp_rootfs s)) d =
       Ok (d\<lparr>sp_rootfs := sp_rootfs s\<rparr>)"
  "sp_hostname s \<noteq> [] \<Longrightarrow>
     decode_section TAG_HOSTNAME (as_bytes (sp_hostname s)) d =
       Ok (d\<lparr>sp_hostname := sp_hostname s\<rparr>)"
  "sp_argv s \<noteq> [] \<Longrightarrow>
     decode_section TAG_ARGV (write_strvec (sp_argv s)) d =
       Ok (d\<lparr>sp_argv := sp_argv s\<rparr>)"
  "sp_env s \<noteq> [] \<Longrightarrow>
     decode_section TAG_ENV (write_strvec (sp_env s)) d =
       Ok (d\<lparr>sp_env := sp_env s\<rparr>)"
  "sp_namespaces s \<noteq> 0 \<Longrightarrow>
     decode_section TAG_NAMESPACES (put_u32 (sp_namespaces s)) d =
       Ok (d\<lparr>sp_namespaces := sp_namespaces s\<rparr>)"
  "sp_uid_maps s \<noteq> [] \<Longrightarrow>
     decode_section TAG_UID_MAPS (write_maps (sp_uid_maps s)) d =
       Ok (d\<lparr>sp_uid_maps := sp_uid_maps s\<rparr>)"
  "sp_gid_maps s \<noteq> [] \<Longrightarrow>
     decode_section TAG_GID_MAPS (write_maps (sp_gid_maps s)) d =
       Ok (d\<lparr>sp_gid_maps := sp_gid_maps s\<rparr>)"
  "sp_flags s \<noteq> 0 \<Longrightarrow>
     decode_section TAG_FLAGS (put_u64 (sp_flags s)) d =
       Ok (d\<lparr>sp_flags := sp_flags s\<rparr>)"
  "sp_caps_present s \<Longrightarrow>
     decode_section TAG_CAP_BOUNDING (put_u64 (sp_cap_bounding s)) d =
       Ok (d\<lparr>sp_caps_present := True, sp_cap_bounding := sp_cap_bounding s\<rparr>)"
  "sp_caps_present s \<Longrightarrow>
     decode_section TAG_CAP_SETS (put_u64 (sp_cap_effective s) @ put_u64 (sp_cap_permitted s)
       @ put_u64 (sp_cap_inheritable s) @ put_u64 (sp_cap_ambient s)) d =
       Ok (d\<lparr>sp_cap_effective := sp_cap_effective s, sp_cap_permitted := sp_cap_permitted s, sp_cap_inheritable := sp_cap_inheritable s, sp_cap_ambient := sp_cap_ambient s\<rparr>)"
  "sp_masked_paths s \<noteq> [] \<Longrightarrow>
     decode_section TAG_MASKED_PATHS (write_strvec (sp_masked_paths s)) d =
       Ok (d\<lparr>sp_masked_paths := sp_masked_paths s\<rparr>)"
  "sp_readonly_paths s \<noteq> [] \<Longrightarrow>
     decode_section TAG_RO_PATHS (write_strvec (sp_readonly_paths s)) d =
       Ok (d\<lparr>sp_readonly_paths := sp_readonly_paths s\<rparr>)"
  "sp_rlimits s \<noteq> [] \<Longrightarrow>
     decode_section TAG_RLIMITS (write_rlimits (sp_rlimits s)) d =
       Ok (d\<lparr>sp_rlimits := sp_rlimits s\<rparr>)"
  "sp_oom_score_adj s \<noteq> None \<Longrightarrow>
     decode_section TAG_OOM_SCORE_ADJ (put_u32 (case sp_oom_score_adj s of Some adj \<Rightarrow> adj | None \<Rightarrow> 0)) d =
       Ok (d\<lparr>sp_oom_score_adj := sp_oom_score_adj s\<rparr>)"
  "sp_uid s \<noteq> 0 \<or> sp_gid s \<noteq> 0 \<Longrightarrow>
     decode_section TAG_USER (put_u32 (sp_uid s) @ put_u32 (sp_gid s)) d =
       Ok (d\<lparr>sp_uid := sp_uid s, sp_gid := sp_gid s\<rparr>)"
  "sp_mounts s \<noteq> [] \<Longrightarrow>
     decode_section TAG_MOUNTS (write_mounts (sp_mounts s)) d =
       Ok (d\<lparr>sp_mounts := sp_mounts s\<rparr>)"
  "sp_sysctls s \<noteq> [] \<Longrightarrow>
     decode_section TAG_SYSCTLS (write_strvec (sp_sysctls s)) d =
       Ok (d\<lparr>sp_sysctls := sp_sysctls s\<rparr>)"
  using assms
  by (auto simp: fits_spec_def wf_spec_def checked_bounds_def entry_bounds_def
      decode_section_arms utf8_as_bytes strvec_section read_back list_all_fit_mount
      MAX_ARGV_def MAX_ENV_def MAX_PATHS_def MAX_SYSCTLS_def
      maps_section rlimits_section mounts_section)

lemma apply_spec_section:
  assumes "fits_spec s" "canonical_caps s"
  shows
  "sp_rootfs d = [] \<Longrightarrow>
     apply_sections decode_section (opt_section (sp_rootfs s \<noteq> []) TAG_ROOTFS
       (as_bytes (sp_rootfs s)) @ rest) d
     = apply_sections decode_section rest (d\<lparr>sp_rootfs := sp_rootfs s\<rparr>)"
  "sp_hostname d = [] \<Longrightarrow>
     apply_sections decode_section (opt_section (sp_hostname s \<noteq> []) TAG_HOSTNAME
       (as_bytes (sp_hostname s)) @ rest) d
     = apply_sections decode_section rest (d\<lparr>sp_hostname := sp_hostname s\<rparr>)"
  "sp_argv d = [] \<Longrightarrow>
     apply_sections decode_section (opt_section (sp_argv s \<noteq> []) TAG_ARGV
       (write_strvec (sp_argv s)) @ rest) d
     = apply_sections decode_section rest (d\<lparr>sp_argv := sp_argv s\<rparr>)"
  "sp_env d = [] \<Longrightarrow>
     apply_sections decode_section (opt_section (sp_env s \<noteq> []) TAG_ENV
       (write_strvec (sp_env s)) @ rest) d
     = apply_sections decode_section rest (d\<lparr>sp_env := sp_env s\<rparr>)"
  "sp_namespaces d = 0 \<Longrightarrow>
     apply_sections decode_section (opt_section (sp_namespaces s \<noteq> 0) TAG_NAMESPACES
       (put_u32 (sp_namespaces s)) @ rest) d
     = apply_sections decode_section rest (d\<lparr>sp_namespaces := sp_namespaces s\<rparr>)"
  "sp_uid_maps d = [] \<Longrightarrow>
     apply_sections decode_section (opt_section (sp_uid_maps s \<noteq> []) TAG_UID_MAPS
       (write_maps (sp_uid_maps s)) @ rest) d
     = apply_sections decode_section rest (d\<lparr>sp_uid_maps := sp_uid_maps s\<rparr>)"
  "sp_gid_maps d = [] \<Longrightarrow>
     apply_sections decode_section (opt_section (sp_gid_maps s \<noteq> []) TAG_GID_MAPS
       (write_maps (sp_gid_maps s)) @ rest) d
     = apply_sections decode_section rest (d\<lparr>sp_gid_maps := sp_gid_maps s\<rparr>)"
  "sp_flags d = 0 \<Longrightarrow>
     apply_sections decode_section (opt_section (sp_flags s \<noteq> 0) TAG_FLAGS
       (put_u64 (sp_flags s)) @ rest) d
     = apply_sections decode_section rest (d\<lparr>sp_flags := sp_flags s\<rparr>)"
  "\<not> sp_caps_present d \<Longrightarrow> sp_cap_bounding d = 0 \<Longrightarrow>
     apply_sections decode_section (opt_section (sp_caps_present s) TAG_CAP_BOUNDING
       (put_u64 (sp_cap_bounding s)) @ rest) d
     = apply_sections decode_section rest (d\<lparr>sp_caps_present := sp_caps_present s, sp_cap_bounding := sp_cap_bounding s\<rparr>)"
  "sp_cap_effective d = 0 \<Longrightarrow> sp_cap_permitted d = 0 \<Longrightarrow> sp_cap_inheritable d = 0 \<Longrightarrow> sp_cap_ambient d = 0 \<Longrightarrow>
     apply_sections decode_section (opt_section (sp_caps_present s) TAG_CAP_SETS
       (put_u64 (sp_cap_effective s) @ put_u64 (sp_cap_permitted s)
       @ put_u64 (sp_cap_inheritable s) @ put_u64 (sp_cap_ambient s)) @ rest) d
     = apply_sections decode_section rest (d\<lparr>sp_cap_effective := sp_cap_effective s, sp_cap_permitted := sp_cap_permitted s, sp_cap_inheritable := sp_cap_inheritable s, sp_cap_ambient := sp_cap_ambient s\<rparr>)"
  "sp_masked_paths d = [] \<Longrightarrow>
     apply_sections decode_section (opt_section (sp_masked_paths s \<noteq> []) TAG_MASKED_PATHS
       (write_strvec (sp_masked_paths s)) @ rest) d
     = apply_sections decode_section rest (d\<lparr>sp_masked_paths := sp_masked_paths s\<rparr>)"
  "sp_readonly_paths d = [] \<Longrightarrow>
     apply_sections decode_section (opt_section (sp_readonly_paths s \<noteq> []) TAG_RO_PATHS
       (write_strvec (sp_readonly_paths s)) @ rest) d
     = apply_sections decode_section rest (d\<lparr>sp_readonly_paths := sp_readonly_paths s\<rparr>)"
  "sp_rlimits d = [] \<Longrightarrow>
     apply_sections decode_section (opt_section (sp_rlimits s \<noteq> []) TAG_RLIMITS
       (write_rlimits (sp_rlimits s)) @ rest) d
     = apply_sections decode_section rest (d\<lparr>sp_rlimits := sp_rlimits s\<rparr>)"
  "sp_oom_score_adj d = None \<Longrightarrow>
     apply_sections decode_section (opt_section (sp_oom_score_adj s \<noteq> None) TAG_OOM_SCORE_ADJ
       (put_u32 (case sp_oom_score_adj s of Some adj \<Rightarrow> adj | None \<Rightarrow> 0)) @ rest) d
     = apply_sections decode_section rest (d\<lparr>sp_oom_score_adj := sp_oom_score_adj s\<rparr>)"
  "sp_uid d = 0 \<Longrightarrow> sp_gid d = 0 \<Longrightarrow>
     apply_sections decode_section (opt_section (sp_uid s \<noteq> 0 \<or> sp_gid s \<noteq> 0) TAG_USER
       (put_u32 (sp_uid s) @ put_u32 (sp_gid s)) @ rest) d
     = apply_sections decode_section rest (d\<lparr>sp_uid := sp_uid s, sp_gid := sp_gid s\<rparr>)"
  "sp_mounts d = [] \<Longrightarrow>
     apply_sections decode_section (opt_section (sp_mounts s \<noteq> []) TAG_MOUNTS
       (write_mounts (sp_mounts s)) @ rest) d
     = apply_sections decode_section rest (d\<lparr>sp_mounts := sp_mounts s\<rparr>)"
  "sp_sysctls d = [] \<Longrightarrow>
     apply_sections decode_section (opt_section (sp_sysctls s \<noteq> []) TAG_SYSCTLS
       (write_strvec (sp_sysctls s))) d
     = Ok (d\<lparr>sp_sysctls := sp_sysctls s\<rparr>)"
  by ((rule apply_opt_section apply_opt_section_last),
      simp add: spec_section_arms [OF assms(1)],
      use assms(2) in \<open>cases d, simp add: canonical_caps_def\<close>)+

lemma apply_spec_sections:
  assumes "fits_spec s" "canonical_caps s"
  shows "apply_sections decode_section (spec_sections s) default_spec = Ok s"
  unfolding spec_sections_def
  by (simp add: apply_spec_section [OF assms] default_spec_def del: not_None_eq disj_not1)

end
