(* ===== verification/Abi_Properties.thy ===== *)
theory Abi_Properties
  imports Abi_Roundtrip
begin

text \<open>
  What \<open>decode\<close> guarantees of a buffer it accepts: the bounds of every field, the exact
  framing, and that no proper prefix of an accepted buffer is accepted.
\<close>

section \<open>Decoding a well-formed wire image\<close>

lemma decode_header_wire:
  assumes "length (wire opc secs) \<le> MAX_SPEC"
  shows "decode_header (wire opc secs) =
     and_then (op_from_u32 opc) (\<lambda>p.
       Ok ((p, word_of_nat (length secs)), adv 16 (reader_new (wire opc secs))))"
proof -
  have n: "unat (word_of_nat (length secs) :: u32) = length secs" "length secs \<le> MAX_SPEC div 8"
    using length_frames [of secs] assms by (simp_all add: unat_of_nat_len MAX_SPEC_def)
  define r where "r = reader_new (wire opc secs)"
  have magic: "r_take 4 r = Ok (MAGIC, adv 4 r)"
    using r_take_put [of r MAGIC] by (simp add: r_def wire_def)
  have hdr: "r_u32 (adv 4 r) = Ok (ABI_VERSION, adv 8 r)" "r_u32 (adv 8 r) = Ok (opc, adv 12 r)"
    "r_u32 (adv 12 r) = Ok (word_of_nat (length secs), adv 16 r)"
    by (simp_all add: read_back r_def wire_def)
  have len: "\<not> length (wire opc secs) > MAX_SPEC" using assms by simp
  show ?thesis
    unfolding decode_header_def r_def [symmetric] if_not_P [OF len]
    by (simp add: magic hdr n)
qed

lemma decode_wire:
  assumes "length (wire opc secs) \<le> MAX_SPEC"
  shows "decode (wire opc secs) =
     and_then (op_from_u32 opc) (\<lambda>p.
     and_then (run_sections decode_section mark_seen secs 0 default_spec) (check_required p))"
proof -
  let ?r = "reader_new (wire opc secs)"
  have bytes: "16 + length (frames secs) \<le> MAX_SPEC" using assms by simp
  then have n: "unat (word_of_nat (length secs) :: u32) = length secs"
    using length_frames [of secs] by (simp add: unat_of_nat_len MAX_SPEC_def)
  have sm: "small_payloads secs" using bytes by (intro small_frames) (simp add: MAX_SPEC_def)
  have loop: "decode_loop (length secs) 0 default_spec (adv 16 ?r) =
      and_then (run_sections decode_section mark_seen secs 0 default_spec)
        (\<lambda>spec. Ok (spec, adv (length (frames secs)) (adv 16 ?r)))"
    by (rule abi_loop.loop_frames [of _ _ "[]", OF _ sm]) (simp add: wire_def)
  show ?thesis
    unfolding decode_def decode_header_wire [OF assms]
    by (cases "op_from_u32 opc"; cases "run_sections decode_section mark_seen secs 0 default_spec")
       (simp_all add: n loop)
qed

lemma run_spec_sections:
  "run_sections decode_section mark_seen (spec_sections s) 0 spec =
     apply_sections decode_section (spec_sections s) spec"
  by (rule abi_loop.run_sections_distinct) (simp_all add: distinct_spec_sections)

lemma decode_encoded:
  assumes "encode s p = Ok buf"
  shows "decode buf = and_then (apply_sections decode_section (spec_sections s) default_spec) (check_required p)"
  using assms decode_wire [of "op_code p" "spec_sections s"]
  by (auto simp: encode_Ok_iff run_spec_sections)

section \<open>Bounds of an accepted specification\<close>

lemma read_string_Ok: "read_string what l r = Ok (s, r') \<Longrightarrow> wf_str s \<and> length s \<le> l"
  by (auto simp: read_string_def and_then_eq_Ok check_len_Ok from_utf8_def wf_str_def
      dest: abi.tk_length split: if_splits)

lemma read_strvec_Ok:
  assumes "read_strvec what l r = Ok (xs, r')"
  shows "list_all wf_str xs \<and> list_all (\<lambda>a. length a \<le> MAX_STR) xs \<and> length xs \<le> l"
proof -
  obtain n :: nat and r1 where n: "n \<le> l" and xs: "read_n (read_string ''string'' MAX_STR) n r1 = Ok (xs, r')"
    using assms by (auto simp: read_strvec_def and_then_eq_Ok check_len_Ok)
  have "list_all (\<lambda>s. wf_str s \<and> length s \<le> MAX_STR) xs \<and> length xs = n"
    by (rule read_n_good [OF _ xs]) (rule read_string_Ok)
  with n show ?thesis by (auto simp: list_all_iff)
qed

lemma read_maps_Ok:
  assumes "read_maps what r = Ok (xs, r')"
  shows "length xs \<le> MAX_MAPS"
proof -
  obtain n :: nat and r1 where n: "n \<le> MAX_MAPS" and xs: "read_n (read_map) n r1 = Ok (xs, r')"
    using assms by (auto simp: read_maps_def and_then_eq_Ok check_len_Ok)
  have "list_all (\<lambda>_. True) xs \<and> length xs = n"
    by (rule read_n_good [OF _ xs]) simp
  with n show ?thesis by (auto simp: list_all_iff)
qed

lemma read_rlimits_Ok:
  assumes "read_rlimits what r = Ok (xs, r')"
  shows "length xs \<le> MAX_RLIMITS"
proof -
  obtain n :: nat and r1 where n: "n \<le> MAX_RLIMITS" and xs: "read_n (read_rlimit) n r1 = Ok (xs, r')"
    using assms by (auto simp: read_rlimits_def and_then_eq_Ok check_len_Ok)
  have "list_all (\<lambda>_. True) xs \<and> length xs = n"
    by (rule read_n_good [OF _ xs]) simp
  with n show ?thesis by (auto simp: list_all_iff)
qed

lemma read_mount_Ok: "read_mount r = Ok (m, r') \<Longrightarrow> wf_mount m \<and> short_mount m"
  by (auto simp: read_mount_def and_then_eq_Ok wf_mount_def short_mount_def dest: read_string_Ok)

lemma read_mounts_Ok:
  assumes "read_mounts what r = Ok (xs, r')"
  shows "list_all wf_mount xs \<and> list_all short_mount xs \<and> length xs \<le> MAX_MOUNTS"
proof -
  obtain n :: nat and r1 where n: "n \<le> MAX_MOUNTS" and xs: "read_n (read_mount) n r1 = Ok (xs, r')"
    using assms by (auto simp: read_mounts_def and_then_eq_Ok check_len_Ok)
  have "list_all (\<lambda>m. wf_mount m \<and> short_mount m) xs \<and> length xs = n"
    by (rule read_n_good [OF _ xs]) (rule read_mount_Ok)
  with n show ?thesis by (auto simp: list_all_iff)
qed

lemma utf8_Ok: "utf8 b l what = Ok s \<Longrightarrow> wf_str s \<and> length s \<le> l"
  by (auto simp: utf8_def and_then_eq_Ok check_len_Ok from_utf8_def wf_str_def split: if_splits)

lemmas field_Ok = utf8_Ok read_strvec_Ok read_maps_Ok read_rlimits_Ok read_mounts_Ok

lemma fits_default: "fits_spec default_spec"
  by (simp add: fits_spec_def wf_spec_def checked_bounds_def entry_bounds_def default_spec_def)

lemma fits_update:
  assumes "fits_spec s"
  shows
    "wf_str x \<and> length x \<le> MAX_STR \<Longrightarrow> fits_spec (s\<lparr>sp_rootfs := x\<rparr>)"
    "wf_str x \<and> length x \<le> MAX_STR \<Longrightarrow> fits_spec (s\<lparr>sp_hostname := x\<rparr>)"
    "list_all wf_str xs \<and> list_all (\<lambda>a. length a \<le> MAX_STR) xs \<and> length xs \<le> MAX_ARGV \<Longrightarrow>
       fits_spec (s\<lparr>sp_argv := xs\<rparr>)"
    "list_all wf_str xs \<and> list_all (\<lambda>a. length a \<le> MAX_STR) xs \<and> length xs \<le> MAX_ENV \<Longrightarrow>
       fits_spec (s\<lparr>sp_env := xs\<rparr>)"
    "list_all wf_str xs \<and> list_all (\<lambda>a. length a \<le> MAX_STR) xs \<and> length xs \<le> MAX_PATHS \<Longrightarrow>
       fits_spec (s\<lparr>sp_masked_paths := xs\<rparr>)"
    "list_all wf_str xs \<and> list_all (\<lambda>a. length a \<le> MAX_STR) xs \<and> length xs \<le> MAX_PATHS \<Longrightarrow>
       fits_spec (s\<lparr>sp_readonly_paths := xs\<rparr>)"
    "list_all wf_str xs \<and> list_all (\<lambda>a. length a \<le> MAX_STR) xs \<and> length xs \<le> MAX_SYSCTLS \<Longrightarrow>
       fits_spec (s\<lparr>sp_sysctls := xs\<rparr>)"
    "length ms \<le> MAX_MAPS \<Longrightarrow> fits_spec (s\<lparr>sp_uid_maps := ms\<rparr>)"
    "length ms \<le> MAX_MAPS \<Longrightarrow> fits_spec (s\<lparr>sp_gid_maps := ms\<rparr>)"
    "length ls \<le> MAX_RLIMITS \<Longrightarrow> fits_spec (s\<lparr>sp_rlimits := ls\<rparr>)"
    "list_all wf_mount mts \<and> list_all short_mount mts \<and> length mts \<le> MAX_MOUNTS \<Longrightarrow>
       fits_spec (s\<lparr>sp_mounts := mts\<rparr>)"
    "fits_spec (s\<lparr>sp_namespaces := n\<rparr>)"
    "fits_spec (s\<lparr>sp_flags := f\<rparr>)"
    "fits_spec (s\<lparr>sp_caps_present := True, sp_cap_bounding := b\<rparr>)"
    "fits_spec (s\<lparr>sp_cap_effective := c1, sp_cap_permitted := c2,
       sp_cap_inheritable := c3, sp_cap_ambient := c4\<rparr>)"
    "fits_spec (s\<lparr>sp_oom_score_adj := v\<rparr>)"
    "fits_spec (s\<lparr>sp_uid := u, sp_gid := g\<rparr>)"
  using assms
  by (simp_all add: fits_spec_def wf_spec_def checked_bounds_def entry_bounds_def)

text \<open>The tag decides the arm; any other tag leaves the specification as it is.\<close>

definition known_tags :: "u16 set" where
  "known_tags = {TAG_ROOTFS, TAG_HOSTNAME, TAG_ARGV, TAG_ENV, TAG_NAMESPACES, TAG_UID_MAPS,
    TAG_GID_MAPS, TAG_FLAGS, TAG_CAP_BOUNDING, TAG_CAP_SETS, TAG_MASKED_PATHS,
    TAG_RO_PATHS, TAG_RLIMITS, TAG_OOM_SCORE_ADJ, TAG_USER, TAG_MOUNTS, TAG_SYSCTLS}"

lemma decode_section_unknown: "t \<notin> known_tags \<Longrightarrow> decode_section t p spec = Ok spec"
  by (simp add: known_tags_def decode_section_def)

lemma decode_section_fits:
  assumes "decode_section t p spec = Ok spec'" "fits_spec spec"
  shows "fits_spec spec'"
proof (cases "t \<in> known_tags")
  case True
  then show ?thesis
    using assms unfolding known_tags_def
    by (elim insertE emptyE)
       (auto simp: decode_section_arms and_then_eq_Ok intro!: fits_update dest: field_Ok)
next
  case False
  then show ?thesis using assms by (simp add: decode_section_unknown)
qed

lemma decode_loop_fits:
  "decode_loop k seen spec r = Ok (spec', r') \<Longrightarrow> fits_spec spec \<Longrightarrow> fits_spec spec'"
  by (rule abi_loop.loop_invariant [where P = fits_spec]) (rule decode_section_fits)

lemma check_required_Ok:
  "check_required p spec = Ok x \<longleftrightarrow>
     x = (p, spec) \<and> (p = Create \<longrightarrow> sp_rootfs spec \<noteq> [] \<and> sp_argv spec \<noteq> [])"
  by (auto simp: check_required_def)

lemma decode_header_Ok_iff:
  "decode_header buf = Ok ((p, k), r) \<longleftrightarrow>
     16 \<le> length buf \<and> length buf \<le> MAX_SPEC \<and> take 4 buf = MAGIC
     \<and> le_word (take 4 (drop 4 buf)) = ABI_VERSION
     \<and> op_from_u32 (le_word (take 4 (drop 8 buf))) = Ok p
     \<and> k = le_word (take 4 (drop 12 buf)) \<and> unat k \<le> MAX_SPEC div 8
     \<and> r = adv 16 (reader_new buf)"
  unfolding decode_header_def
  by (auto simp: and_then_eq_Ok check_len_Ok r_Ok_iff)

lemma decode_Ok_iff:
  "decode buf = Ok (p, s) \<longleftrightarrow>
     (\<exists>k r r'. decode_header buf = Ok ((p, k), r)
        \<and> decode_loop (unat k) 0 default_spec r = Ok (s, r') \<and> remaining r' = 0
        \<and> (p = Create \<longrightarrow> sp_rootfs s \<noteq> [] \<and> sp_argv s \<noteq> []))"
  by (auto simp: decode_def and_then_eq_Ok check_required_Ok split: if_splits)
     (auto simp: check_required_def split: if_splits)

lemma decode_empty_start: "decode (wire 2 []) = Ok (Start, default_spec)"
  using decode_wire [of 2 "[]"] by (simp add: MAX_SPEC_def op_from_u32_def check_required_Ok)

text \<open>The bytes of a header and of the sections after it make up the wire image.\<close>

lemma wire_of_header:
  assumes "16 \<le> length buf" "take 4 buf = MAGIC" "le_word (take 4 (drop 4 buf)) = ABI_VERSION"
    and "le_word (take 4 (drop 8 buf)) = opc"
    and "le_word (take 4 (drop 12 buf)) = (word_of_nat (length fs) :: u32)"
    and "drop 16 buf = frames fs"
  shows "buf = wire opc fs"
proof -
  have word: "n + 4 \<le> length buf \<Longrightarrow> put_u32 (le_word (take 4 (drop n buf))) = take 4 (drop n buf)"
    for n by (simp add: le_bytes_le_word)
  have words: "take 4 (drop 4 buf) = put_u32 ABI_VERSION" "take 4 (drop 8 buf) = put_u32 opc"
      "take 4 (drop 12 buf) = put_u32 (word_of_nat (length fs))"
    using word [of 4] word [of 8] word [of 12] assms(1) unfolding assms(3-5) by simp_all
  have "take 4 buf @ take 4 (drop 4 buf) @ take 4 (drop 8 buf) @ take 4 (drop 12 buf)
      @ drop 16 buf = buf"
    using append_take_drop_id [of 4 buf] append_take_drop_id [of 4 "drop 4 buf"]
      append_take_drop_id [of 4 "drop 8 buf"] append_take_drop_id [of 4 "drop 12 buf"]
    by simp
  then show ?thesis by (simp add: wire_def words assms(2,6))
qed

section \<open>Longer buffers\<close>

lemma decode_header_prolong:
  "decode_header buf = Ok ((p, k), r) \<Longrightarrow> length (buf @ ms) \<le> MAX_SPEC \<Longrightarrow>
   decode_header (buf @ ms) = Ok ((p, k), prolong ms r)"
  by (auto simp: decode_header_Ok_iff prolong_adv prolong_new)

lemma decode_prolong:
  assumes "decode buf = Ok x" "ms \<noteq> []"
  shows "decode (buf @ ms) =
    Err (if length (buf @ ms) > MAX_SPEC then TooLarge ''spec'' (length (buf @ ms)) MAX_SPEC
         else TrailingBytes)"
proof (cases "length (buf @ ms) > MAX_SPEC")
  case True
  then show ?thesis by (simp add: decode_def decode_header_def)
next
  case False
  obtain p s where x: "x = (p, s)" by (cases x)
  obtain k r r' where *: "decode_header buf = Ok ((p, k), r)"
      "decode_loop (unat k) 0 default_spec r = Ok (s, r')" "remaining r' = 0"
    using assms(1) by (auto simp: x decode_Ok_iff)
  have "in_bounds r"
    using *(1) by (auto simp: decode_header_Ok_iff intro!: in_bounds_adv)
  then have "decode_loop (unat k) 0 default_spec (prolong ms r) = Ok (s, prolong ms r')"
      "in_bounds r'"
    using abi_loop.loop_prolong [OF *(2)] by simp_all
  then show ?thesis
    using False *(3) assms(2) decode_header_prolong [OF *(1), of ms]
    by (simp add: decode_def remaining_prolong)
qed

section \<open>Properties of the wire format\<close>

text \<open>A specification with every kind of section, as the crate's tests use it.\<close>

definition sample_spec :: domain_spec where
  "sample_spec = default_spec\<lparr>
     sp_rootfs := ''/containers/demo/rootfs'', sp_hostname := ''oci-demo'',
     sp_argv := [''/bin/sh'', ''/init.sh''], sp_env := [''PATH=/bin'', ''TERM=linux''],
     sp_namespaces := NS_USER OR NS_PID,
     sp_uid_maps := [\<lparr>im_container_id = 0, im_host_id = 100000, im_size = 65536\<rparr>],
     sp_flags := OPT_NO_NEW_PRIVS, sp_caps_present := True, sp_cap_bounding := 0xa80c25fb,
     sp_masked_paths := [''/proc/kcore''], sp_readonly_paths := [''/proc/sys''],
     sp_rlimits := [\<lparr>rl_resource = 7, rl_soft = 1024, rl_hard = 4096\<rparr>],
     sp_oom_score_adj := Some (- 500), sp_uid := 65534, sp_gid := 65534,
     sp_mounts := [\<lparr>mt_destination = ''/tmp'', mt_fs_type = ''tmpfs'',
                     mt_source = ''tmpfs'', mt_flags = 14\<rparr>],
     sp_sysctls := [''net/ipv4/ip_forward=1'']\<rparr>"

lemma wf_str_ascii: "list_all (\<lambda>c. of_char c < (128 :: nat)) s \<Longrightarrow> wf_str s"
proof -
  assume a: "list_all (\<lambda>c. of_char c < (128 :: nat)) s"
  have "(word_of_nat (of_char c) :: u8) < 0x80" if "c \<in> set s" for c
  proof -
    have "of_char c < (128 :: nat)" using a that by (simp add: list_all_iff)
    then show ?thesis by (simp add: word_less_nat_alt unat_of_nat take_bit_nat_eq_self)
  qed
  then show ?thesis by (auto simp: wf_str_def as_bytes_def intro!: utf8_valid_ascii)
qed

lemma sample_spec_ok:
  "wf_spec sample_spec" "canonical_caps sample_spec" "entry_bounds sample_spec"
  "\<exists>buf. encode sample_spec Create = Ok buf"
proof -
  show "wf_spec sample_spec"
    by (simp add: wf_spec_def sample_spec_def default_spec_def wf_mount_def wf_str_ascii)
  show "canonical_caps sample_spec"
    by (simp add: canonical_caps_def sample_spec_def)
  show "entry_bounds sample_spec"
    by (simp add: entry_bounds_def sample_spec_def default_spec_def short_mount_def abi_max_defs)
  show "\<exists>buf. encode sample_spec Create = Ok buf"
    by (simp add: encode_Ok_iff checked_bounds_def sample_spec_def default_spec_def abi_max_defs
        spec_sections_def opt_section_def write_strvec_def write_maps_def write_rlimits_def
        write_mounts_def write_str_def)
qed

text \<open>
C8 (round trip). Decoding what \<open>encode\<close> produced gives back the operation and exactly the
same specification if and only if every entry of the path, sysctl and mount lists is at most
\<open>MAX_STR\<close> bytes long and, for a create, the rootfs and argv are present.
\<close>

theorem abi_roundtrip:
  assumes "wf_spec s" "canonical_caps s" "encode s p = Ok buf"
  shows "decode buf = Ok (p, s) \<longleftrightarrow>
    entry_bounds s \<and> (p = Create \<longrightarrow> sp_rootfs s \<noteq> [] \<and> sp_argv s \<noteq> [])"
proof
  assume "decode buf = Ok (p, s)"
  then show "entry_bounds s \<and> (p = Create \<longrightarrow> sp_rootfs s \<noteq> [] \<and> sp_argv s \<noteq> [])"
    using decode_loop_fits [OF _ fits_default] by (auto simp: decode_Ok_iff fits_spec_def)
next
  assume e: "entry_bounds s \<and> (p = Create \<longrightarrow> sp_rootfs s \<noteq> [] \<and> sp_argv s \<noteq> [])"
  then have "fits_spec s"
    using assms by (simp add: fits_spec_def encode_Ok_iff)
  then show "decode buf = Ok (p, s)"
    using e assms by (simp add: decode_encoded apply_spec_sections check_required_Ok)
qed

theorem abi_roundtrip_witness:
  "\<exists>buf. encode sample_spec Create = Ok buf \<and> decode buf = Ok (Create, sample_spec)"
proof -
  obtain buf where buf: "encode sample_spec Create = Ok buf"
    using sample_spec_ok(4) by blast
  have "decode buf = Ok (Create, sample_spec)"
    unfolding abi_roundtrip [OF sample_spec_ok(1,2) buf]
    by (simp add: sample_spec_ok) (simp add: sample_spec_def)
  with buf show ?thesis by blast
qed

text \<open>
C28 (bounds of what is accepted). Every specification \<open>decode\<close> returns, from any buffer
whatever, has valid UTF-8 strings and keeps every count and every entry length within its
\<open>MAX_*\<close> bound; a create has a rootfs and an argv, and the buffer was at most \<open>MAX_SPEC\<close> long.
\<close>

theorem decode_bounds:
  assumes "decode buf = Ok (p, s)"
  shows "length buf \<le> MAX_SPEC \<and> wf_spec s \<and> checked_bounds s \<and> entry_bounds s
    \<and> (p = Create \<longrightarrow> sp_rootfs s \<noteq> [] \<and> sp_argv s \<noteq> [])"
  using assms decode_loop_fits [OF _ fits_default]
  by (auto simp: decode_Ok_iff decode_header_Ok_iff fits_spec_def)

theorem decode_bounds_witness:
  "\<exists>buf p s. decode buf = Ok (p, s) \<and> length buf \<le> MAX_SPEC \<and> checked_bounds s"
proof -
  show ?thesis using decode_bounds [OF decode_empty_start] decode_empty_start by blast
qed

text \<open>
C15 (framing). An accepted buffer is exactly the magic, the version, the operation code, the
section count and that many framed sections, with no byte before, between or after them, and
no tag below 64 occurs twice.
\<close>

theorem decode_framing:
  assumes "decode buf = Ok (p, s)"
  shows "\<exists>secs. buf = wire (op_code p) secs \<and> length secs \<le> MAX_SPEC div 8
    \<and> distinct (filter (\<lambda>t. t < 64) (map fst secs))"
proof -
  obtain k r r' where h: "decode_header buf = Ok ((p, k), r)"
    and l: "decode_loop (unat k) 0 default_spec r = Ok (s, r')" and e: "remaining r' = 0"
    using assms by (auto simp: decode_Ok_iff)
  obtain secs where secs: "length secs = unat k" "unread r = frames secs @ unread r'"
      "distinct (filter (\<lambda>t. t < 64) (map fst secs))"
    using abi_loop.loop_accepts_frames [OF l] by blast
  have "unread r' = []" using e length_unread [of r'] by simp
  moreover have "k = word_of_nat (length secs)" using secs(1) by simp
  ultimately have "drop 16 buf = frames secs"
      "le_word (take 4 (drop 12 buf)) = (word_of_nat (length secs) :: u32)"
    using secs(2) h by (auto simp: decode_header_Ok_iff)
  moreover have "le_word (take 4 (drop 8 buf)) = op_code p"
    using h by (auto simp: decode_header_Ok_iff dest: op_from_u32_Ok)
  ultimately have "buf = wire (op_code p) secs"
    using h by (intro wire_of_header) (simp_all add: decode_header_Ok_iff)
  then show ?thesis
    using secs h by (auto simp: decode_header_Ok_iff)
qed

theorem decode_framing_witness:
  "\<exists>buf secs. encode sample_spec Create = Ok buf \<and> buf = wire (op_code Create) secs
     \<and> secs \<noteq> [] \<and> distinct (filter (\<lambda>t. t < 64) (map fst secs))"
proof -
  obtain buf where buf: "encode sample_spec Create = Ok buf" using sample_spec_ok(4) by blast
  have "fits_spec sample_spec"
    using sample_spec_ok(1-3) buf by (simp add: fits_spec_def encode_Ok_iff)
  then have d: "decode buf = Ok (Create, sample_spec)"
    using sample_spec_ok(2) buf
    by (simp add: decode_encoded apply_spec_sections check_required_Ok) (simp add: sample_spec_def)
  obtain secs where secs: "buf = wire (op_code Create) secs"
      "distinct (filter (\<lambda>t. t < 64) (map fst secs))"
    using decode_framing [OF d] by blast
  moreover have "secs \<noteq> []"
  proof
    assume "secs = []"
    then have "buf = wire (op_code Create) []" using secs(1) by simp
    then have "decode (wire (op_code Create) []) = Ok (Create, sample_spec)" using d by simp
    then show False
      by (simp add: decode_Ok_iff decode_header_Ok_iff wire_def check_required_Ok)
         (simp add: sample_spec_def default_spec_def)
  qed
  ultimately show ?thesis using buf by blast
qed

text \<open>
No byte too many. An accepted buffer followed by anything is rejected: as trailing bytes,
or as too large when it then exceeds \<open>MAX_SPEC\<close>.
\<close>

theorem decode_trailing:
  assumes "decode buf = Ok x" "ms \<noteq> []"
  shows "decode (buf @ ms) =
    Err (if length (buf @ ms) > MAX_SPEC then TooLarge ''spec'' (length (buf @ ms)) MAX_SPEC
         else TrailingBytes)"
  using assms by (rule decode_prolong)

theorem decode_trailing_witness: "decode (wire 2 [] @ [0]) = Err TrailingBytes"
  using decode_trailing [OF decode_empty_start, of "[0]"] by (simp add: MAX_SPEC_def)

text \<open>
Every truncation is rejected. No proper prefix of an accepted buffer is accepted: what
the crate's test checks for one buffer, for all of them.
\<close>

theorem decode_truncated:
  assumes "decode buf = Ok x" "n < length buf"
  shows "\<not> is_ok (decode (take n buf))"
proof
  assume "is_ok (decode (take n buf))"
  then obtain y where "decode (take n buf) = Ok y"
    by (cases "decode (take n buf)") auto
  then have "decode (take n buf @ drop n buf) = Err (if length (take n buf @ drop n buf) > MAX_SPEC
      then TooLarge ''spec'' (length (take n buf @ drop n buf)) MAX_SPEC else TrailingBytes)"
    using assms(2) by (intro decode_prolong) simp_all
  with assms(1) show False by simp
qed

theorem decode_truncated_witness: "\<not> is_ok (decode (take 15 (wire 2 [])))"
  using decode_truncated [OF decode_empty_start, of 15] by simp

text \<open>
Forward compatibility. A section whose tag the decoder does not know is skipped, wherever
it stands, whatever its payload, even when it is repeated: the result is the one without it.
\<close>

theorem decode_forward_compat:
  assumes "t \<notin> known_tags" "64 \<le> t" "length (wire opc (xs @ (t, pad, p) # ys)) \<le> MAX_SPEC"
  shows "decode (wire opc (xs @ (t, pad, p) # ys)) = decode (wire opc (xs @ ys))"
proof -
  have "length (wire opc (xs @ ys)) \<le> MAX_SPEC" using assms(3) by simp
  then show ?thesis
    using assms(3) by (simp only: decode_wire
        abi_loop.run_sections_skip [OF decode_section_unknown [OF assms(1)] assms(2)])
qed

theorem decode_forward_compat_witness:
  "decode (wire 2 ([] @ (0xfff0, 7, [1, 2, 3]) # [])) = decode (wire 2 ([] @ []))"
  by (rule decode_forward_compat) (simp_all add: known_tags_def tag_defs MAX_SPEC_def)

definition long_path_spec :: domain_spec where
  "long_path_spec = default_spec\<lparr>sp_rootfs := ''/r'', sp_argv := [''/bin/true''],
     sp_masked_paths := [replicate 4097 CHR ''x'']\<rparr>"

lemma read_strvec_long:
  assumes "unread r = write_strvec [s]" "MAX_STR < length s" "length s < 2 ^ 32" "0 < limit"
  shows "read_strvec what limit r = Err (TooLarge ''string'' (length s) MAX_STR)"
  using assms
  by (simp add: read_strvec_def read_string_def write_strvec_def read_back unat_of_nat_len)

text \<open>
The size checks have a gap. \<open>validate\<close> promises that \<open>encode\<close> never produces a buffer
the decoder rejects, but it does not look at the entries of the path, sysctl and mount lists:
a specification with one masked path of 4097 bytes encodes, and its encoding is rejected.
\<close>

theorem encode_accepts_what_decode_rejects:
  "wf_spec long_path_spec \<and> validate long_path_spec = Ok () \<and>
   (\<exists>buf. encode long_path_spec Create = Ok buf \<and>
      decode buf = Err (TooLarge ''string'' 4097 MAX_STR))"
proof (intro conjI exI)
  show "wf_spec long_path_spec"
    by (simp add: wf_spec_def long_path_spec_def default_spec_def wf_str_ascii list_all_iff)
  show "validate long_path_spec = Ok ()"
    by (simp add: validate_Ok_iff checked_bounds_def long_path_spec_def default_spec_def abi_max_defs)
  let ?buf = "wire (op_code Create) (spec_sections long_path_spec)"
  have secs: "spec_sections long_path_spec = [(TAG_ROOTFS, 0, as_bytes ''/r''),
      (TAG_ARGV, 0, write_strvec [''/bin/true'']),
      (TAG_MASKED_PATHS, 0, write_strvec [replicate 4097 CHR ''x''])]"
    by (simp add: spec_sections_def opt_section_def long_path_spec_def default_spec_def)
  show enc: "encode long_path_spec Create = Ok ?buf"
    by (simp add: encode_Ok_iff validate_Ok_iff [symmetric] \<open>validate long_path_spec = Ok ()\<close>
        secs write_strvec_def MAX_SPEC_def)
  have ascii: "wf_str ''/r''" "wf_str ''/bin/true''" by (simp_all add: wf_str_ascii)
  have lims: "length ''/r'' \<le> MAX_STR" "length ''/bin/true'' \<le> MAX_STR" "1 \<le> MAX_ARGV"
      "MAX_ARGV < 2 ^ 32" "0 < MAX_PATHS" "MAX_STR < 4097"
    by (simp_all add: abi_max_defs)
  have "apply_sections decode_section (spec_sections long_path_spec) default_spec =
      Err (TooLarge ''string'' 4097 MAX_STR)"
    using lims unfolding secs
    by (simp add: decode_section_arms utf8_as_bytes strvec_section read_strvec_long ascii)
  then show "decode ?buf = Err (TooLarge ''string'' 4097 MAX_STR)"
    using decode_encoded [OF enc] by simp
qed

end
