(* ===== verification/Crate_Tests.thy ===== *)
theory Crate_Tests
  imports Krunc_Prelude "HOL-Library.State_Monad"
begin

text \<open>
  What the \<open>#[cfg(test)]\<close> modules of the crates share: the shape of a test that unwraps a
  result and asserts something of it, and the pseudo-random generator splitmix64 their
  randomized tests draw from, as a computation that threads the generator's state.
\<close>

section \<open>Assertions\<close>

text \<open>
  \<open>let x = r.unwrap(); assert!(p(x))\<close>: an error panics, so the test fails. \<open>fails_with\<close> is
  \<open>assert!(matches!(r, Err(..)))\<close>.
\<close>

definition unwraps :: "'e + 'a \<Rightarrow> ('a \<Rightarrow> bool) \<Rightarrow> bool" where
  "unwraps r p = (case r of Ok x \<Rightarrow> p x | Err _ \<Rightarrow> False)"

definition fails_with :: "'e + 'a \<Rightarrow> ('e \<Rightarrow> bool) \<Rightarrow> bool" where
  "fails_with r p = (case r of Ok _ \<Rightarrow> False | Err e \<Rightarrow> p e)"

lemma unwraps_simps [simp]: "unwraps (Ok x) p = p x" "\<not> unwraps (Err e) p"
  by (simp_all add: unwraps_def)

lemma fails_with_simps [simp]: "fails_with (Err e) p = p e" "\<not> fails_with (Ok x) p"
  by (simp_all add: fails_with_def)

lemma unwraps_iff: "unwraps r p \<longleftrightarrow> (\<exists>x. r = Ok x \<and> p x)"
  by (cases r) simp_all

section \<open>The generator\<close>

definition sm64 :: "(u64, u64) state" where
  "sm64 = do {
     s \<leftarrow> State_Monad.get;
     let s = s + 0x9E3779B97F4A7C15;
     State_Monad.set s;
     let z = s;
     let z = (z XOR drop_bit 30 z) * 0xBF58476D1CE4E5B9;
     let z = (z XOR drop_bit 27 z) * 0x94D049BB133111EB;
     State_Monad.return (z XOR drop_bit 31 z)
   }"

text \<open>\<open>(0..n).map(|_| m).collect()\<close>.\<close>

fun times :: "nat \<Rightarrow> ('s, 'a) state \<Rightarrow> ('s, 'a list) state" where
  "times 0 m = State_Monad.return []"
| "times (Suc n) m = do { x \<leftarrow> m; xs \<leftarrow> times n m; State_Monad.return (x # xs) }"

text \<open>\<open>if c { m } else { x }\<close>.\<close>

definition m_or :: "bool \<Rightarrow> ('s, 'a) state \<Rightarrow> 'a \<Rightarrow> ('s, 'a) state" where
  "m_or c m x = (if c then m else State_Monad.return x)"

section \<open>What every run yields\<close>

definition yields :: "('s, 'a) state \<Rightarrow> ('a \<Rightarrow> bool) \<Rightarrow> bool" where
  "yields m p \<longleftrightarrow> (\<forall>s. p (fst (run_state m s)))"

named_theorems yields_rules \<open>what a computation on the generator can yield\<close>

lemma yields_True [yields_rules]: "yields m (\<lambda>_. True)"
  by (simp add: yields_def)

lemma yields_return [yields_rules]: "p x \<Longrightarrow> yields (State_Monad.return x) p"
  by (simp add: yields_def)

lemma yields_bind:
  assumes "yields m q" "\<And>x. q x \<Longrightarrow> yields (f x) p"
  shows "yields (State_Monad.bind m f) p"
  using assms by (auto simp: yields_def split: prod.splits) (metis fst_conv)

lemma yields_mono: "yields m p \<Longrightarrow> (\<And>x. p x \<Longrightarrow> q x) \<Longrightarrow> yields m q"
  by (simp add: yields_def)

lemma yields_or: "(c \<Longrightarrow> yields m p) \<Longrightarrow> (\<not> c \<Longrightarrow> p x) \<Longrightarrow> yields (m_or c m x) p"
  by (simp add: m_or_def yields_return)

lemma yields_times:
  assumes "yields m p"
  shows "yields (times n m) (\<lambda>xs. length xs = n \<and> list_all p xs)"
proof (induction n)
  case 0
  show ?case by (simp add: yields_return)
next
  case (Suc n)
  show ?case
    by (simp, rule yields_bind [OF assms], rule yields_bind [OF Suc], rule yields_return) simp
qed

text \<open>What the draws before a step were, as hypotheses of the goal.\<close>

definition outcome :: "('s, 'a) state \<Rightarrow> 'a \<Rightarrow> bool" where
  "outcome m x \<longleftrightarrow> (\<exists>s s'. run_state m s = (x, s'))"

lemma outcomeD: "yields m p \<Longrightarrow> outcome m x \<Longrightarrow> p x"
  by (auto simp: yields_def outcome_def) (metis fst_conv)

lemma yields_step:
  assumes "\<And>x. outcome m x \<Longrightarrow> yields (f x) p"
  shows "yields (State_Monad.bind m f) p"
proof (rule yields_bind [of m "outcome m"])
  show "yields m (outcome m)" unfolding yields_def outcome_def by (metis prod.collapse)
qed (rule assms)

end
