(* ===== verification/Abi_Tests.thy ===== *)
theory Abi_Tests
  imports Abi_Properties Crate_Tests
begin

text \<open>
  \<open>userspace/krunc-abi/src/lib.rs\<close>, the module \<open>tests\<close>: the crate's own unit tests as
  predicates of the model, and the randomized round trip over specifications drawn from
  splitmix64. The tests that only look for a panic on arbitrary bytes are left out: a model
  function is total, and that it never reads past its buffer is the guard of \<open>r_take\<close>.
\<close>

section \<open>The sample specification\<close>

definition NS_DEFAULT :: u32 where
  "NS_DEFAULT = NS_MOUNT OR NS_UTS OR NS_IPC OR NS_PID OR NS_NET"

definition sample :: domain_spec where
  "sample = \<lparr>
     sp_rootfs = ''/containers/demo/rootfs'',
     sp_hostname = ''oci-demo'',
     sp_argv = [''/bin/sh'', ''/init.sh''],
     sp_env = [''PATH=/bin'', ''TERM=linux''],
     sp_namespaces = NS_DEFAULT OR NS_USER,
     sp_uid_maps = [\<lparr>im_container_id = 0, im_host_id = 100000, im_size = 65536\<rparr>],
     sp_gid_maps = [\<lparr>im_container_id = 0, im_host_id = 100000, im_size = 65536\<rparr>],
     sp_flags = OPT_NO_NEW_PRIVS OR OPT_ROOTFS_RO,
     sp_caps_present = True,
     sp_cap_bounding = 0x00000000a80c25fb,
     sp_cap_effective = 0x0000000000000001,
     sp_cap_permitted = 0x00000000a80c25fb,
     sp_cap_inheritable = 0,
     sp_cap_ambient = 0,
     sp_masked_paths = [''/proc/kcore'', ''/proc/sysrq-trigger''],
     sp_readonly_paths = [''/proc/sys'', ''/bin''],
     sp_rlimits = [\<lparr>rl_resource = 7, rl_soft = 1024, rl_hard = 4096\<rparr>,
                   \<lparr>rl_resource = 4, rl_soft = 0, rl_hard = 0\<rparr>],
     sp_oom_score_adj = Some (- 500),
     sp_uid = 65534,
     sp_gid = 65534,
     sp_mounts = [\<lparr>mt_destination = ''/proc'', mt_fs_type = ''proc'', mt_source = ''proc'',
                    mt_flags = 0\<rparr>,
                  \<lparr>mt_destination = ''/tmp'', mt_fs_type = ''tmpfs'', mt_source = ''tmpfs'',
                    mt_flags = 0x0000000e\<rparr>],
     sp_sysctls = [''net/ipv4/ip_forward=1'']\<rparr>"

section \<open>The unit tests\<close>

definition round_trip_full :: bool where
  "round_trip_full =
     unwraps (encode sample Create) (\<lambda>buf.
     unwraps (decode buf) (\<lambda>(p, decoded). p = Create \<and> decoded = sample))"

definition round_trip_minimal :: bool where
  "round_trip_minimal =
     (let s = default_spec\<lparr>sp_rootfs := ''/r'', sp_argv := [''/bin/true''],
                sp_namespaces := NS_DEFAULT\<rparr> in
      unwraps (encode s Create) (\<lambda>buf. unwraps (decode buf) (\<lambda>(_, d). d = s)))"

definition all_ops_round_trip :: bool where
  "all_ops_round_trip =
     list_all (\<lambda>p.
       let s = (if p = Create then sample else default_spec) in
       unwraps (encode s p) (\<lambda>buf. unwraps (decode buf) (\<lambda>(got, _). got = p)))
       [Create, Start, op.State, Kill, Delete]"

definition rejects_bad_magic :: bool where
  "rejects_bad_magic =
     unwraps (encode sample Create) (\<lambda>buf.
       let buf = buf[0 := buf ! 0 XOR 0xff] in decode buf = Err BadMagic)"

definition rejects_bad_version :: bool where
  "rejects_bad_version =
     unwraps (encode sample Create) (\<lambda>buf.
       let buf = buf[4 := 0xff] in
       fails_with (decode buf) (\<lambda>e. case e of UnsupportedVersion _ \<Rightarrow> True | _ \<Rightarrow> False))"

definition rejects_bad_op :: bool where
  "rejects_bad_op =
     unwraps (encode sample Create) (\<lambda>buf.
       let buf = buf[8 := 99] in
       fails_with (decode buf) (\<lambda>e. case e of BadOp _ \<Rightarrow> True | _ \<Rightarrow> False))"

definition rejects_every_truncation :: bool where
  "rejects_every_truncation =
     unwraps (encode sample Create) (\<lambda>buf.
       list_all (\<lambda>n. \<not> is_ok (decode (take n buf))) [0..<length buf])"

definition rejects_create_without_rootfs :: bool where
  "rejects_create_without_rootfs =
     (let s = default_spec\<lparr>sp_argv := [''/bin/true'']\<rparr> in
      and_then (encode s Create) (\<lambda>b. and_then (decode b) (\<lambda>_. Ok ())) = Err (Missing ''rootfs''))"

definition rejects_create_without_argv :: bool where
  "rejects_create_without_argv =
     (let s = default_spec\<lparr>sp_rootfs := ''/r''\<rparr> in
      unwraps (encode s Create) (\<lambda>b. decode b = Err (Missing ''argv'')))"

definition is_too_large :: "abi_error \<Rightarrow> bool" where
  "is_too_large e = (case e of TooLarge _ _ _ \<Rightarrow> True | _ \<Rightarrow> False)"

definition validate_rejects_oversized_argv :: bool where
  "validate_rejects_oversized_argv =
     (let s = default_spec\<lparr>sp_rootfs := ''/r'', sp_argv := replicate (MAX_ARGV + 1) ''x''\<rparr> in
      fails_with (encode s Create) is_too_large)"

definition validate_rejects_oversized_string :: bool where
  "validate_rejects_oversized_string =
     (let s = default_spec\<lparr>sp_rootfs := replicate (MAX_STR + 1) CHR ''x'',
                sp_argv := [''/bin/true'']\<rparr> in
      fails_with (encode s Create) is_too_large)"

definition trailing_bytes_rejected :: bool where
  "trailing_bytes_rejected =
     unwraps (encode sample Create) (\<lambda>buf.
       let buf = buf @ [0] in decode buf = Err TrailingBytes)"

text \<open>The hand-made buffer; the first, unused writer of the test is left out.\<close>

definition unknown_tag_ignored_forward_compat :: bool where
  "unknown_tag_ignored_forward_compat =
     (let body = section_bytes TAG_ROOTFS (as_bytes ''/r'')
            @ section_bytes TAG_ARGV (write_strvec [''/bin/true''])
            @ section_bytes 0xfff0 (as_bytes ''future'');
          w2 = MAGIC @ put_u32 ABI_VERSION @ put_u32 (op_code Create) @ put_u32 3 @ body in
      unwraps (decode w2) (\<lambda>(_, d). sp_rootfs d = ''/r'' \<and> sp_argv d = [''/bin/true'']))"

definition abi_unit_tests :: "bool list" where
  "abi_unit_tests = [round_trip_full, round_trip_minimal, all_ops_round_trip,
     rejects_bad_magic, rejects_bad_version, rejects_bad_op, rejects_every_truncation,
     rejects_create_without_rootfs, rejects_create_without_argv,
     validate_rejects_oversized_argv, validate_rejects_oversized_string,
     trailing_bytes_rejected, unknown_tag_ignored_forward_compat]"

section \<open>Random specifications\<close>

definition rand_str :: "nat \<Rightarrow> (u64, string) state" where
  "rand_str maxlen = do {
     n \<leftarrow> sm64;
     let n = unat n mod maxlen + 1;
     times n (do { c \<leftarrow> sm64; State_Monad.return (char_of (unat (c mod 26) + 97)) })
   }"

definition rand_strvec :: "nat \<Rightarrow> nat \<Rightarrow> (u64, string list) state" where
  "rand_strvec maxn maxlen = do {
     n \<leftarrow> sm64;
     let n = unat n mod (maxn + 1);
     times n (rand_str maxlen)
   }"

text \<open>\<open>sm64(..) as u32\<close>.\<close>

definition rand32 :: "(u64, u32) state" where
  "rand32 = do { v \<leftarrow> sm64; State_Monad.return (ucast v) }"

definition rand_coin :: "(u64, bool) state" where
  "rand_coin = do { v \<leftarrow> sm64; State_Monad.return (v AND 1 = 0) }"

definition rand_below :: "nat \<Rightarrow> (u64, nat) state" where
  "rand_below k = do { v \<leftarrow> sm64; State_Monad.return (unat v mod k) }"

definition rand_map :: "(u64, id_map) state" where
  "rand_map = do {
     c \<leftarrow> rand32; h \<leftarrow> rand32; s \<leftarrow> rand32;
     State_Monad.return \<lparr>im_container_id = c, im_host_id = h, im_size = s\<rparr>
   }"

definition rand_rlimit :: "(u64, rlimit) state" where
  "rand_rlimit = do {
     r \<leftarrow> rand32; s \<leftarrow> sm64; h \<leftarrow> sm64;
     State_Monad.return \<lparr>rl_resource = r mod 16, rl_soft = s, rl_hard = h\<rparr>
   }"

definition rand_mount :: "(u64, mount) state" where
  "rand_mount = do {
     d \<leftarrow> rand_str 16; t \<leftarrow> rand_str 8; s \<leftarrow> rand_str 16; f \<leftarrow> sm64;
     State_Monad.return \<lparr>mt_destination = d, mt_fs_type = t, mt_source = s, mt_flags = f\<rparr>
   }"

text \<open>The fields of the literal are drawn in the order it writes them.\<close>

definition rand_spec :: "(u64, domain_spec) state" where
  "rand_spec = do {
     caps_present \<leftarrow> rand_coin;
     coin \<leftarrow> rand_coin;
     oom \<leftarrow> m_or coin (do { v \<leftarrow> rand32; State_Monad.return (Some v) }) None;
     n_maps \<leftarrow> rand_below 3;
     n_rl \<leftarrow> rand_below 3;
     n_mounts \<leftarrow> rand_below 3;
     rootfs \<leftarrow> rand_str 24;
     coin \<leftarrow> rand_coin;
     hostname \<leftarrow> m_or coin (rand_str 16) [];
     arg \<leftarrow> rand_str 16;
     args \<leftarrow> rand_strvec 3 16;
     env \<leftarrow> rand_strvec 4 16;
     namespaces \<leftarrow> rand32;
     uid_maps \<leftarrow> times n_maps rand_map;
     gid_maps \<leftarrow> times n_maps rand_map;
     flags \<leftarrow> sm64;
     bounding \<leftarrow> m_or caps_present sm64 0;
     effective \<leftarrow> m_or caps_present sm64 0;
     permitted \<leftarrow> m_or caps_present sm64 0;
     inheritable \<leftarrow> m_or caps_present sm64 0;
     ambient \<leftarrow> m_or caps_present sm64 0;
     masked_paths \<leftarrow> rand_strvec 4 16;
     readonly_paths \<leftarrow> rand_strvec 4 16;
     rlimits \<leftarrow> times n_rl rand_rlimit;
     uid \<leftarrow> rand32;
     gid \<leftarrow> rand32;
     mounts \<leftarrow> times n_mounts rand_mount;
     sysctls \<leftarrow> rand_strvec 3 16;
     State_Monad.return \<lparr>sp_rootfs = rootfs, sp_hostname = hostname, sp_argv = arg # args,
       sp_env = env, sp_namespaces = namespaces, sp_uid_maps = uid_maps,
       sp_gid_maps = gid_maps, sp_flags = flags, sp_caps_present = caps_present,
       sp_cap_bounding = bounding, sp_cap_effective = effective, sp_cap_permitted = permitted,
       sp_cap_inheritable = inheritable, sp_cap_ambient = ambient,
       sp_masked_paths = masked_paths, sp_readonly_paths = readonly_paths,
       sp_rlimits = rlimits, sp_oom_score_adj = oom, sp_uid = uid, sp_gid = gid,
       sp_mounts = mounts, sp_sysctls = sysctls\<rparr>
   }"

text \<open>The body of the loop, and \<open>for _ in 0..n\<close> from a given state of the generator.\<close>

definition spec_round_trips :: "domain_spec \<Rightarrow> bool" where
  "spec_round_trips spec =
     unwraps (encode spec Create) (\<lambda>buf.
     unwraps (decode buf) (\<lambda>(p, decoded). p = Create \<and> decoded = spec))"

definition encode_decode_round_trips_random_specs :: "nat \<Rightarrow> u64 \<Rightarrow> bool" where
  "encode_decode_round_trips_random_specs n seed =
     list_all spec_round_trips (fst (run_state (times n rand_spec) seed))"

section \<open>Encoding and decoding a small specification\<close>

lemma decode_encode:
  assumes "fits_spec s" "canonical_caps s" "encode s p = Ok buf"
    "p = Create \<Longrightarrow> sp_rootfs s \<noteq> [] \<and> sp_argv s \<noteq> []"
  shows "decode buf = Ok (p, s)"
  using assms by (simp add: decode_encoded apply_spec_sections check_required_Ok)

lemma length_frame_opt: "length (frames (opt_section c t p)) \<le> 8 + length p"
  by (simp add: opt_section_def frame_def)

lemma sum_list_le: "list_all (\<lambda>a. f a \<le> k) xs \<Longrightarrow> sum_list (map f xs) \<le> length xs * (k :: nat)"
  by (induction xs) auto

lemma length_write_strvec:
  assumes "list_all (\<lambda>a. length a \<le> k) xs" "length xs \<le> n"
  shows "length (write_strvec xs) \<le> 4 + n * (4 + k)"
proof -
  have "list_all (\<lambda>a. 4 + length a \<le> 4 + k) xs" using assms(1) by (simp add: list_all_iff)
  then have "sum_list (map (\<lambda>a. 4 + length a) xs) \<le> length xs * (4 + k)" by (rule sum_list_le)
  also have "\<dots> \<le> n * (4 + k)" using assms(2) by (rule mult_le_mono1)
  finally show ?thesis by (simp add: write_strvec_def length_concat comp_def)
qed

definition small_mount :: "mount \<Rightarrow> bool" where
  "small_mount m \<longleftrightarrow> wf_mount m \<and> length (mt_destination m) \<le> 24
     \<and> length (mt_fs_type m) \<le> 24 \<and> length (mt_source m) \<le> 24"

lemma length_write_mounts:
  assumes "list_all small_mount ms" "length ms \<le> n"
  shows "length (write_mounts ms) \<le> 4 + n * 92"
proof -
  let ?f = "\<lambda>m. length (mt_destination m) + (length (mt_fs_type m) + (length (mt_source m) + 20))"
  have "list_all (\<lambda>m. ?f m \<le> 92) ms" using assms(1) by (auto simp: list_all_iff small_mount_def)
  then have "sum_list (map ?f ms) \<le> length ms * 92" by (rule sum_list_le)
  also have "\<dots> \<le> n * 92" using assms(2) by (rule mult_le_mono1)
  finally have "sum_list (map ?f ms) \<le> n * 92" .
  moreover have "length (write_mounts ms) = 4 + sum_list (map ?f ms)"
    by (simp add: write_mounts_def write_str_def length_concat comp_def add_ac)
  ultimately show ?thesis by simp
qed

text \<open>Few short strings and lists: what the tests use.\<close>

definition small_strings :: "string list \<Rightarrow> bool" where
  "small_strings xs \<longleftrightarrow> length xs \<le> 4 \<and> list_all (\<lambda>a. wf_str a \<and> length a \<le> 24) xs"

definition small_spec :: "domain_spec \<Rightarrow> bool" where
  "small_spec s \<longleftrightarrow> canonical_caps s \<and> sp_rootfs s \<noteq> [] \<and> sp_argv s \<noteq> []
     \<and> wf_str (sp_rootfs s) \<and> length (sp_rootfs s) \<le> 24
     \<and> wf_str (sp_hostname s) \<and> length (sp_hostname s) \<le> 24
     \<and> small_strings (sp_argv s) \<and> small_strings (sp_env s)
     \<and> small_strings (sp_masked_paths s) \<and> small_strings (sp_readonly_paths s)
     \<and> small_strings (sp_sysctls s)
     \<and> length (sp_uid_maps s) \<le> 2 \<and> length (sp_gid_maps s) \<le> 2 \<and> length (sp_rlimits s) \<le> 2
     \<and> length (sp_mounts s) \<le> 4 \<and> list_all small_mount (sp_mounts s)"

lemma small_stringsD:
  assumes "small_strings xs"
  shows "length xs \<le> 4" "list_all wf_str xs" "list_all (\<lambda>a. length a \<le> 24) xs"
    "list_all (\<lambda>a. length a \<le> MAX_STR) xs"
  using assms by (auto simp: small_strings_def list_all_iff MAX_STR_def)

lemma small_fits:
  assumes "small_spec s"
  shows "fits_spec s"
proof -
  have strs: "list_all wf_str xs \<and> list_all (\<lambda>a. length a \<le> MAX_STR) xs \<and> length xs \<le> 4"
    if "small_strings xs" for xs
    using small_stringsD [OF that] by simp
  have lists: "small_strings (sp_argv s)" "small_strings (sp_env s)"
      "small_strings (sp_masked_paths s)" "small_strings (sp_readonly_paths s)"
      "small_strings (sp_sysctls s)"
    using assms by (simp_all add: small_spec_def)
  note * = lists [THEN strs]
  have "list_all wf_mount (sp_mounts s) \<and> list_all short_mount (sp_mounts s)"
    using assms by (auto simp: small_spec_def list_all_iff small_mount_def short_mount_def MAX_STR_def)
  then show ?thesis
    using assms * by (simp add: small_spec_def fits_spec_def wf_spec_def checked_bounds_def
        entry_bounds_def abi_max_defs)
qed

lemma length_spec_sections:
  "length (frames (spec_sections s)) \<le>
     (8 + length (sp_rootfs s)) + ((8 + length (sp_hostname s)) + (
      (8 + length (write_strvec (sp_argv s))) + ((8 + length (write_strvec (sp_env s))) + (
      12 + ((8 + length (write_maps (sp_uid_maps s))) + (
      (8 + length (write_maps (sp_gid_maps s))) + (16 + (
      16 + (40 + (
      (8 + length (write_strvec (sp_masked_paths s))) + ((8 + length (write_strvec (sp_readonly_paths s))) + (
      (8 + length (write_rlimits (sp_rlimits s))) + (12 + (
      16 + ((8 + length (write_mounts (sp_mounts s))) + (
      (8 + length (write_strvec (sp_sysctls s)))))))))))))))))))"
  unfolding spec_sections_def map_append concat_append length_append
  by (intro add_mono order_trans [OF length_frame_opt]) simp_all

lemma small_encodes:
  assumes "small_spec s"
  shows "\<exists>buf. encode s p = Ok buf"
proof -
  have strs: "length (write_strvec xs) \<le> 116" if "small_strings xs" for xs
    using length_write_strvec [of 24 xs 4] small_stringsD [OF that] by simp
  have parts: "length (write_strvec (sp_argv s)) \<le> 116" "length (write_strvec (sp_env s)) \<le> 116"
      "length (write_strvec (sp_masked_paths s)) \<le> 116"
      "length (write_strvec (sp_readonly_paths s)) \<le> 116"
      "length (write_strvec (sp_sysctls s)) \<le> 116"
      "length (write_mounts (sp_mounts s)) \<le> 372"
      "length (write_maps (sp_uid_maps s)) \<le> 28" "length (write_maps (sp_gid_maps s)) \<le> 28"
      "length (write_rlimits (sp_rlimits s)) \<le> 44"
      "length (sp_rootfs s) \<le> 24" "length (sp_hostname s) \<le> 24"
    using assms length_write_mounts [of "sp_mounts s" 4]
    by (simp_all add: small_spec_def strs write_maps_def write_rlimits_def length_concat comp_def
        sum_list_triv)
  have "length (wire (op_code p) (spec_sections s)) \<le> MAX_SPEC"
    using length_spec_sections [of s] parts by (simp add: MAX_SPEC_def)
  moreover have "checked_bounds s" using small_fits [OF assms] by (simp add: fits_spec_def)
  ultimately show ?thesis by (auto simp: encode_Ok_iff)
qed

lemma small_round_trips:
  assumes "small_spec s"
  obtains buf where "encode s p = Ok buf" "decode buf = Ok (p, s)"
proof -
  obtain buf where buf: "encode s p = Ok buf" using small_encodes [OF assms] by blast
  moreover have "decode buf = Ok (p, s)"
    using assms by (intro decode_encode [OF small_fits [OF assms] _ buf]) (simp_all add: small_spec_def)
  ultimately show ?thesis using that by blast
qed

section \<open>What the generator yields\<close>

lemma yields_rand_str: "0 < k \<Longrightarrow> yields (rand_str k) (\<lambda>s. s \<noteq> [] \<and> wf_str s \<and> length s \<le> k)"
proof -
  assume k: "0 < k"
  let ?chr = "do { c \<leftarrow> sm64; State_Monad.return (char_of (unat (c mod 26) + 97) :: char) }"
  have c: "yields ?chr (\<lambda>c. of_char c < (128 :: nat))"
  proof (rule yields_bind [OF yields_True], rule yields_return)
    fix c :: u64
    have "unat (c mod 26) < 26" by (simp add: unat_mod)
    then show "of_char (char_of (unat (c mod 26) + 97) :: char) < (128 :: nat)" by simp
  qed
  show ?thesis
    unfolding rand_str_def Let_def
  proof (rule yields_bind [OF yields_True], rule yields_mono [OF yields_times [OF c]])
    fix n :: u64 and s :: string
    assume "length s = unat n mod k + 1 \<and> list_all (\<lambda>c. of_char c < (128 :: nat)) s"
    moreover have "unat n mod k < k" using k by simp
    ultimately show "s \<noteq> [] \<and> wf_str s \<and> length s \<le> k"
      by (auto simp: wf_str_ascii)
  qed
qed

lemma yields_rand_strvec:
  assumes "0 < k" "k \<le> 24" "m \<le> 4"
  shows "yields (rand_strvec m k) (\<lambda>xs. small_strings xs \<and> length xs \<le> m)"
  unfolding rand_strvec_def Let_def
proof (rule yields_bind [OF yields_True], rule yields_mono [OF yields_times [OF yields_rand_str [OF assms(1)]]])
  fix n :: u64 and xs :: "string list"
  assume *: "length xs = unat n mod (m + 1) \<and> list_all (\<lambda>s. s \<noteq> [] \<and> wf_str s \<and> length s \<le> k) xs"
  then have "list_all (\<lambda>s. wf_str s \<and> length s \<le> 24) xs"
    using assms(2) by (elim conjE list.pred_mono_strong) simp
  moreover have "length xs \<le> m" using * by simp
  ultimately show "small_strings xs \<and> length xs \<le> m"
    using assms(3) by (simp add: small_strings_def)
qed

lemma yields_rand_below: "0 < k \<Longrightarrow> yields (rand_below k) (\<lambda>n. n < k)"
  unfolding rand_below_def by (rule yields_bind [OF yields_True], rule yields_return) simp

lemma yields_rand_mount: "yields rand_mount small_mount"
  unfolding rand_mount_def
  by (rule yields_bind [OF yields_rand_str], simp, rule yields_bind [OF yields_rand_str], simp,
      rule yields_bind [OF yields_rand_str], simp, rule yields_bind [OF yields_True],
      rule yields_return) (simp add: small_mount_def wf_mount_def)

lemma yields_rand_spec: "yields rand_spec small_spec"
proof -
  have str: "yields (rand_str 24) (\<lambda>s. s \<noteq> [] \<and> wf_str s \<and> length s \<le> 24)"
      "yields (rand_str 16) (\<lambda>s. s \<noteq> [] \<and> wf_str s \<and> length s \<le> 16)"
    by (simp_all add: yields_rand_str)
  have host: "yields (m_or c (rand_str 16) []) (\<lambda>s. wf_str s \<and> length s \<le> 16)" for c
    by (rule yields_or, rule yields_mono [OF str(2)]) (simp_all add: wf_str_ascii)
  have vec: "yields (rand_strvec 3 16) (\<lambda>xs. small_strings xs \<and> length xs \<le> 3)"
      "yields (rand_strvec 4 16) (\<lambda>xs. small_strings xs \<and> length xs \<le> 4)"
    by (simp_all add: yields_rand_strvec)
  have len: "yields (times n m) (\<lambda>xs. length xs = n)" for n and m :: "(u64, 'a) state"
    by (rule yields_mono [OF yields_times [OF yields_True]]) simp
  have mask: "yields (m_or c sm64 0) (\<lambda>v. \<not> c \<longrightarrow> v = 0)" for c
    by (rule yields_or) (simp_all add: yields_mono [OF yields_True])
  have below: "yields (rand_below 3) (\<lambda>n. n \<le> 2)"
    by (rule yields_mono [OF yields_rand_below]) simp_all
  have mounts: "yields (times n rand_mount) (\<lambda>xs. length xs = n \<and> list_all small_mount xs)" for n
    by (rule yields_times [OF yields_rand_mount])
  show ?thesis
    unfolding rand_spec_def
  proof (intro yields_step yields_return)
    fix caps_present coin oom n_maps n_rl n_mounts rootfs coin2 hostname arg args env namespaces uid_maps gid_maps flags bounding effective permitted inheritable ambient masked_paths readonly_paths rlimits uid gid mounts sysctls
    assume o: "outcome (rand_coin) caps_present"
      "outcome (rand_coin) coin"
      "outcome (m_or coin (do { v \<leftarrow> rand32; State_Monad.return (Some v) }) None) oom"
      "outcome (rand_below 3) n_maps"
      "outcome (rand_below 3) n_rl"
      "outcome (rand_below 3) n_mounts"
      "outcome (rand_str 24) rootfs"
      "outcome (rand_coin) coin2"
      "outcome (m_or coin2 (rand_str 16) []) hostname"
      "outcome (rand_str 16) arg"
      "outcome (rand_strvec 3 16) args"
      "outcome (rand_strvec 4 16) env"
      "outcome (rand32) namespaces"
      "outcome (times n_maps rand_map) uid_maps"
      "outcome (times n_maps rand_map) gid_maps"
      "outcome (sm64) flags"
      "outcome (m_or caps_present sm64 0) bounding"
      "outcome (m_or caps_present sm64 0) effective"
      "outcome (m_or caps_present sm64 0) permitted"
      "outcome (m_or caps_present sm64 0) inheritable"
      "outcome (m_or caps_present sm64 0) ambient"
      "outcome (rand_strvec 4 16) masked_paths"
      "outcome (rand_strvec 4 16) readonly_paths"
      "outcome (times n_rl rand_rlimit) rlimits"
      "outcome (rand32) uid"
      "outcome (rand32) gid"
      "outcome (times n_mounts rand_mount) mounts"
      "outcome (rand_strvec 3 16) sysctls"
    note drawn = outcomeD [OF below o(4)]
      outcomeD [OF below o(5)]
      outcomeD [OF below o(6)]
      outcomeD [OF str(1) o(7)]
      outcomeD [OF host o(9)]
      outcomeD [OF str(2) o(10)]
      outcomeD [OF vec(1) o(11)]
      outcomeD [OF vec(2) o(12)]
      outcomeD [OF len o(14)]
      outcomeD [OF len o(15)]
      outcomeD [OF mask o(17)]
      outcomeD [OF mask o(18)]
      outcomeD [OF mask o(19)]
      outcomeD [OF mask o(20)]
      outcomeD [OF mask o(21)]
      outcomeD [OF vec(2) o(22)]
      outcomeD [OF vec(2) o(23)]
      outcomeD [OF len o(24)]
      outcomeD [OF mounts o(27)]
      outcomeD [OF vec(1) o(28)]
    show "small_spec \<lparr>sp_rootfs = rootfs, sp_hostname = hostname, sp_argv = arg # args,
       sp_env = env, sp_namespaces = namespaces, sp_uid_maps = uid_maps,
       sp_gid_maps = gid_maps, sp_flags = flags, sp_caps_present = caps_present,
       sp_cap_bounding = bounding, sp_cap_effective = effective, sp_cap_permitted = permitted,
       sp_cap_inheritable = inheritable, sp_cap_ambient = ambient,
       sp_masked_paths = masked_paths, sp_readonly_paths = readonly_paths,
       sp_rlimits = rlimits, sp_oom_score_adj = oom, sp_uid = uid, sp_gid = gid,
       sp_mounts = mounts, sp_sysctls = sysctls\<rparr>"
      using drawn by (simp add: small_spec_def canonical_caps_def small_strings_def)
  qed
qed

section \<open>The tests pass\<close>

lemma decode_bad_header:
  assumes "16 \<le> length b" "length b \<le> MAX_SPEC"
  shows "take 4 b \<noteq> MAGIC \<Longrightarrow> decode b = Err BadMagic"
    and "take 4 b = MAGIC \<Longrightarrow> le_word (take 4 (drop 4 b)) = v \<Longrightarrow> v \<noteq> ABI_VERSION \<Longrightarrow>
      decode b = Err (UnsupportedVersion v)"
    and "take 4 b = MAGIC \<Longrightarrow> le_word (take 4 (drop 4 b)) = ABI_VERSION \<Longrightarrow>
      op_from_u32 (le_word (take 4 (drop 8 b))) = Err e \<Longrightarrow> decode b = Err e"
proof -
  have m: "r_take 4 (reader_new b) = Ok (take 4 b, adv 4 (reader_new b))"
    using assms by (simp add: abi.tk_Ok_iff)
  have w: "r_u32 (adv 4 (reader_new b)) = Ok (le_word (take 4 (drop 4 b)), adv 8 (reader_new b))"
      "r_u32 (adv 8 (reader_new b)) = Ok (le_word (take 4 (drop 8 b)), adv 12 (reader_new b))"
    using assms by (simp_all add: r_word_Ok_iff)
  show "take 4 b \<noteq> MAGIC \<Longrightarrow> decode b = Err BadMagic"
    "take 4 b = MAGIC \<Longrightarrow> le_word (take 4 (drop 4 b)) = v \<Longrightarrow> v \<noteq> ABI_VERSION \<Longrightarrow>
      decode b = Err (UnsupportedVersion v)"
    "take 4 b = MAGIC \<Longrightarrow> le_word (take 4 (drop 4 b)) = ABI_VERSION \<Longrightarrow>
      op_from_u32 (le_word (take 4 (drop 8 b))) = Err e \<Longrightarrow> decode b = Err e"
    using assms(2) by (simp_all add: decode_def decode_header_def m w)
qed

lemma sample_small: "small_spec sample"
  by (simp add: small_spec_def sample_def canonical_caps_def small_strings_def wf_str_ascii
      small_mount_def wf_mount_def)

text \<open>The encoded sample: its length and its first sixteen bytes.\<close>

lemma sample_encoded:
  obtains k ys where "encode sample Create = Ok (MAGIC @ put_u32 ABI_VERSION @ put_u32 1 @ put_u32 k @ ys)"
    "decode (MAGIC @ put_u32 ABI_VERSION @ put_u32 1 @ put_u32 k @ ys) = Ok (Create, sample)"
    "length ys + 16 \<le> 262000"
proof -
  obtain buf where buf: "encode sample Create = Ok buf" "decode buf = Ok (Create, sample)"
    using small_round_trips [OF sample_small] by blast
  have "length (frames (spec_sections sample)) \<le> 261984"
    using length_spec_sections [of sample]
    by (simp add: sample_def write_strvec_def write_maps_def write_rlimits_def write_mounts_def
        write_str_def)
  then show ?thesis
    using buf by (intro that [of "word_of_nat (length (spec_sections sample))" "frames (spec_sections sample)"])
      (simp_all add: encode_Ok_iff wire_def MAX_SPEC_def)
qed

lemma unit_round_trip_full: "round_trip_full"
  unfolding round_trip_full_def by (rule small_round_trips [OF sample_small, of Create]) simp

lemma unit_round_trip_minimal: "round_trip_minimal"
proof -
  have "small_spec (default_spec\<lparr>sp_rootfs := ''/r'', sp_argv := [''/bin/true''],
      sp_namespaces := NS_DEFAULT\<rparr>)"
    by (simp add: small_spec_def default_spec_def canonical_caps_def small_strings_def wf_str_ascii)
  then show ?thesis unfolding round_trip_minimal_def Let_def
    by (rule small_round_trips [of _ Create]) simp
qed

lemma unit_all_ops: "all_ops_round_trip"
proof -
  have "unwraps (encode default_spec p) (\<lambda>buf. unwraps (decode buf) (\<lambda>(got, _). got = p))"
    if "p \<noteq> Create" for p
  proof -
    have "checked_bounds default_spec" "spec_sections default_spec = []" "canonical_caps default_spec"
      using fits_default by (simp_all add: fits_spec_def spec_sections_def opt_section_def
          default_spec_def canonical_caps_def)
    then have buf: "encode default_spec p = Ok (wire (op_code p) [])"
      by (simp add: encode_Ok_iff MAX_SPEC_def)
    have "decode (wire (op_code p) []) = Ok (p, default_spec)"
      using that by (intro decode_encode [OF fits_default \<open>canonical_caps default_spec\<close> buf]) simp
    with buf show ?thesis by simp
  qed
  moreover have "unwraps (encode sample Create) (\<lambda>buf. unwraps (decode buf) (\<lambda>(got, _). got = Create))"
    by (rule small_round_trips [OF sample_small, of Create]) simp
  ultimately show ?thesis by (simp add: all_ops_round_trip_def)
qed

lemma unit_bad_magic: "rejects_bad_magic"
proof -
  obtain k ys where enc: "encode sample Create = Ok (MAGIC @ put_u32 ABI_VERSION @ put_u32 1 @ put_u32 k @ ys)"
    and len: "length ys + 16 \<le> 262000" by (rule sample_encoded)
  let ?b = "(MAGIC @ put_u32 ABI_VERSION @ put_u32 1 @ put_u32 k @ ys)[0 := MAGIC ! 0 XOR 0xff]"
  have "take 4 ?b = MAGIC[0 := MAGIC ! 0 XOR 0xff]" by (simp add: list_update_append)
  also have "\<dots> \<noteq> MAGIC" by (simp add: MAGIC_def as_bytes_def)
  finally have "decode ?b = Err BadMagic"
    using len by (intro decode_bad_header(1)) (simp_all add: MAX_SPEC_def)
  then show ?thesis by (simp add: rejects_bad_magic_def enc nth_append)
qed

lemma unit_bad_version: "rejects_bad_version"
proof -
  obtain k ys where enc: "encode sample Create = Ok (MAGIC @ put_u32 ABI_VERSION @ put_u32 1 @ put_u32 k @ ys)"
    and len: "length ys + 16 \<le> 262000" by (rule sample_encoded)
  let ?b = "(MAGIC @ put_u32 ABI_VERSION @ put_u32 1 @ put_u32 k @ ys)[4 := 0xff]"
  have "put_u32 ABI_VERSION = [1, 0, 0, 0]" by (simp add: ABI_VERSION_def numeral_eq_Suc)
  then have b: "?b = MAGIC @ [0xff, 0, 0, 0] @ put_u32 1 @ put_u32 k @ ys"
    by (simp add: list_update_append)
  have "le_word (take 4 (drop 4 ?b)) = (255 :: u32)" unfolding b by simp
  then have "decode ?b = Err (UnsupportedVersion 255)"
    using len by (intro decode_bad_header(2)) (simp_all add: MAX_SPEC_def b ABI_VERSION_def)
  then show ?thesis by (simp add: rejects_bad_version_def enc)
qed

lemma unit_bad_op: "rejects_bad_op"
proof -
  obtain k ys where enc: "encode sample Create = Ok (MAGIC @ put_u32 ABI_VERSION @ put_u32 1 @ put_u32 k @ ys)"
    and len: "length ys + 16 \<le> 262000" by (rule sample_encoded)
  let ?b = "(MAGIC @ put_u32 ABI_VERSION @ put_u32 1 @ put_u32 k @ ys)[8 := 99]"
  have "put_u32 1 = [1, 0, 0, 0]" by (simp add: numeral_eq_Suc)
  then have b: "?b = MAGIC @ put_u32 ABI_VERSION @ [99, 0, 0, 0] @ put_u32 k @ ys"
    by (simp add: list_update_append)
  have "le_word (take 4 (drop 8 ?b)) = (99 :: u32)" unfolding b by simp
  then have "decode ?b = Err (BadOp 99)"
    using len by (intro decode_bad_header(3)) (simp_all add: MAX_SPEC_def b op_from_u32_def)
  then show ?thesis by (simp add: rejects_bad_op_def enc)
qed

lemma unit_truncation: "rejects_every_truncation"
proof -
  obtain buf where buf: "encode sample Create = Ok buf" "decode buf = Ok (Create, sample)"
    by (rule small_round_trips [OF sample_small])
  have "\<not> is_ok (decode (take n buf))" if n: "n < length buf" for n
  proof
    assume "is_ok (decode (take n buf))"
    then obtain y where "decode (take n buf) = Ok y" by (cases "decode (take n buf)") auto
    then have "\<exists>e. decode (take n buf @ drop n buf) = Err e"
      using n decode_prolong [of "take n buf" y "drop n buf"] by simp
    then show False using buf(2) by simp
  qed
  then show ?thesis by (simp add: rejects_every_truncation_def buf(1) list_all_iff)
qed

lemma unit_trailing: "trailing_bytes_rejected"
proof -
  obtain k ys where enc: "encode sample Create = Ok (MAGIC @ put_u32 ABI_VERSION @ put_u32 1 @ put_u32 k @ ys)"
    and dec: "decode (MAGIC @ put_u32 ABI_VERSION @ put_u32 1 @ put_u32 k @ ys) = Ok (Create, sample)"
    and len: "length ys + 16 \<le> 262000" by (rule sample_encoded)
  show ?thesis
    using decode_prolong [OF dec, of "[0]"] len by (simp add: trailing_bytes_rejected_def enc MAX_SPEC_def)
qed

lemma default_spec_fields:
  "sp_rootfs default_spec = []" "sp_hostname default_spec = []" "sp_argv default_spec = []"
  "sp_env default_spec = []" "sp_namespaces default_spec = 0" "sp_uid_maps default_spec = []"
  "sp_gid_maps default_spec = []" "sp_flags default_spec = 0" "\<not> sp_caps_present default_spec"
  "sp_cap_bounding default_spec = 0" "sp_cap_effective default_spec = 0"
  "sp_cap_permitted default_spec = 0" "sp_cap_inheritable default_spec = 0"
  "sp_cap_ambient default_spec = 0" "sp_masked_paths default_spec = []"
  "sp_readonly_paths default_spec = []" "sp_rlimits default_spec = []"
  "sp_oom_score_adj default_spec = None" "sp_uid default_spec = 0" "sp_gid default_spec = 0"
  "sp_mounts default_spec = []" "sp_sysctls default_spec = []"
  by (simp_all add: default_spec_def)

text \<open>What decodes to a create without a section that is required.\<close>

lemma missing_section:
  assumes "fits_spec s" "canonical_caps s" "length (frames (spec_sections s)) \<le> 200000"
  shows "\<exists>b. encode s Create = Ok b \<and> decode b = check_required Create s"
proof -
  have "encode s Create = Ok (wire (op_code Create) (spec_sections s))"
    using assms by (simp add: encode_Ok_iff fits_spec_def MAX_SPEC_def)
  then show ?thesis
    using assms(1,2) by (simp add: decode_encoded apply_spec_sections)
qed

lemma unit_missing: "rejects_create_without_rootfs" "rejects_create_without_argv"
proof -
  have ascii: "wf_str ''/bin/true''" "wf_str ''/r''" by (simp_all add: wf_str_ascii)
  have "\<exists>b. encode (default_spec\<lparr>sp_argv := [''/bin/true'']\<rparr>) Create = Ok b \<and>
      decode b = check_required Create (default_spec\<lparr>sp_argv := [''/bin/true'']\<rparr>)"
    by (rule missing_section)
       (simp_all add: fits_update fits_default ascii MAX_STR_def MAX_ARGV_def canonical_caps_def
         spec_sections_def opt_section_def frame_def write_strvec_def default_spec_fields)
  then show "rejects_create_without_rootfs"
    by (auto simp: rejects_create_without_rootfs_def check_required_def default_spec_def)
  have "\<exists>b. encode (default_spec\<lparr>sp_rootfs := ''/r''\<rparr>) Create = Ok b \<and>
      decode b = check_required Create (default_spec\<lparr>sp_rootfs := ''/r''\<rparr>)"
    by (rule missing_section)
       (simp_all add: fits_update fits_default ascii MAX_STR_def canonical_caps_def
         spec_sections_def opt_section_def frame_def default_spec_fields)
  then show "rejects_create_without_argv"
    by (auto simp: rejects_create_without_argv_def check_required_def default_spec_def)
qed

lemma unit_oversized: "validate_rejects_oversized_argv" "validate_rejects_oversized_string"
  by (simp_all add: validate_rejects_oversized_argv_def validate_rejects_oversized_string_def
      encode_def validate_def default_spec_def is_too_large_def abi_max_defs)

lemma unit_unknown_tag: "unknown_tag_ignored_forward_compat"
proof -
  let ?s = "default_spec\<lparr>sp_rootfs := ''/r'', sp_argv := [''/bin/true'']\<rparr>"
  let ?secs = "[(TAG_ROOTFS, 0, as_bytes ''/r''), (TAG_ARGV, 0, write_strvec [''/bin/true''])]"
  have ascii: "wf_str ''/bin/true''" "wf_str ''/r''" by (simp_all add: wf_str_ascii)
  have secs: "spec_sections ?s = ?secs"
    by (simp add: spec_sections_def opt_section_def default_spec_def)
  have "run_sections decode_section mark_seen (?secs @ [(0xfff0, 0, as_bytes ''future'')]) 0 default_spec =
      run_sections decode_section mark_seen (?secs @ []) 0 default_spec"
    by (rule fun_cong [OF fun_cong [OF abi_loop.run_sections_skip [OF decode_section_unknown]]])
       (simp_all add: known_tags_def tag_defs)
  also have "\<dots> = Ok ?s"
    unfolding append_Nil2 secs [symmetric] run_spec_sections
    by (rule apply_spec_sections)
       (simp_all add: fits_update fits_default ascii MAX_STR_def MAX_ARGV_def canonical_caps_def
         default_spec_fields)
  finally have run: "run_sections decode_section mark_seen
      (?secs @ [(0xfff0, 0, as_bytes ''future'')]) 0 default_spec = Ok ?s" .
  have "decode (wire 1 (?secs @ [(0xfff0, 0, as_bytes ''future'')])) = check_required Create ?s"
    using run by (subst decode_wire)
      (simp_all add: frame_def write_strvec_def MAX_SPEC_def op_from_u32_def)
  then have "decode (wire 1 (?secs @ [(0xfff0, 0, as_bytes ''future'')])) = Ok (Create, ?s)"
    by (simp add: check_required_def default_spec_def)
  moreover have "wire 1 (?secs @ [(0xfff0, 0, as_bytes ''future'')]) =
      MAGIC @ put_u32 ABI_VERSION @ put_u32 1 @ put_u32 3
      @ section_bytes TAG_ROOTFS (as_bytes ''/r'')
      @ section_bytes TAG_ARGV (write_strvec [''/bin/true''])
      @ section_bytes 0xfff0 (as_bytes ''future'')"
    by (simp add: wire_def section_bytes_frame)
  ultimately show ?thesis
    by (simp add: unknown_tag_ignored_forward_compat_def)
qed

text \<open>
The crate's unit tests. Each of the thirteen deterministic unit tests of the ABI crate,
written over the model as the test module writes it over the code, passes.
\<close>

theorem abi_unit_tests_pass: "list_all (\<lambda>t. t) abi_unit_tests"
  unfolding abi_unit_tests_def
  by (simp add: unit_round_trip_full unit_round_trip_minimal
      unit_all_ops unit_bad_magic unit_bad_version unit_bad_op unit_truncation unit_trailing
      unit_missing unit_oversized unit_unknown_tag)

text \<open>
Randomized round trip. The randomized test of the crate passes for every seed of the
generator and every number of rounds, not only for the 5000 rounds from the seed it fixes: each
drawn specification encodes and is decoded to itself.
\<close>

theorem random_specs_round_trip: "encode_decode_round_trips_random_specs n seed"
proof -
  have trip: "spec_round_trips s" if "small_spec s" for s
    unfolding spec_round_trips_def by (rule small_round_trips [OF that, of Create]) simp
  have "list_all small_spec (fst (run_state (times n rand_spec) seed))"
    using yields_times [OF yields_rand_spec, of n] by (simp add: yields_def)
  then show ?thesis
    unfolding encode_decode_round_trips_random_specs_def
    by (rule list.pred_mono_strong) (rule trip)
qed

end
