(* ===== verification/Kernel_Decode.thy ===== *)
theory Kernel_Decode
  imports Abi_Spec Section_Loop
begin

text \<open>
  \<open>module/krunc.rs\<close>, the kernel's own parser of the wire format: \<open>BReader\<close>, the \<open>read_*\<close>
  functions, \<open>decode_spec\<close>, and what it guarantees of a buffer it accepts. Allocations with
  \<open>GFP_KERNEL\<close> are taken to succeed.
\<close>

section \<open>Errors and bounds\<close>

text \<open>The kernel's \<open>Error\<close> is a negative errno.\<close>

type_synonym errno = int

definition ENOENT :: errno where "ENOENT = - 2"
definition EEXIST :: errno where "EEXIST = - 17"
definition EINVAL :: errno where "EINVAL = - 22"
definition ENOTTY :: errno where "ENOTTY = - 25"

text \<open>\<open>Error::from_errno\<close>: anything that is not an errno becomes \<open>EINVAL\<close>.\<close>

definition from_errno :: "int \<Rightarrow> errno" where
  "from_errno rc = (if - 4095 \<le> rc \<and> rc < 0 then rc else EINVAL)"

definition K_MAX_ARGS :: nat where "K_MAX_ARGS = 32"
definition K_MAX_SPEC :: nat where "K_MAX_SPEC = 16 * 1024"
definition K_MAX_RLIMITS :: nat where "K_MAX_RLIMITS = 32"
definition K_MAX_MOUNTS :: nat where "K_MAX_MOUNTS = 64"
definition K_MAX_STR :: nat where "K_MAX_STR = 4096"
definition K_ABI_VERSION :: u32 where "K_ABI_VERSION = 1"
definition K_OPT_NO_NEW_PRIVS :: u64 where "K_OPT_NO_NEW_PRIVS = 1"
definition K_OPT_ROOTFS_RO :: u64 where "K_OPT_ROOTFS_RO = 2"

lemmas k_max_defs = K_MAX_ARGS_def K_MAX_SPEC_def K_MAX_RLIMITS_def K_MAX_MOUNTS_def K_MAX_STR_def

text \<open>A byte string as a C string: the bytes before the first NUL are what C code sees.\<close>

definition to_cvec :: "u8 list \<Rightarrow> u8 list" where
  "to_cvec s = s @ [0]"

definition c_str :: "u8 list \<Rightarrow> u8 list" where
  "c_str b = takeWhile (\<lambda>x. x \<noteq> 0) b"

definition nul_terminated :: "u8 list \<Rightarrow> bool" where
  "nul_terminated b \<longleftrightarrow> b \<noteq> [] \<and> last b = 0"

lemma to_cvec_simps [simp]:
  "length (to_cvec s) = Suc (length s)" "nul_terminated (to_cvec s)" "to_cvec s \<noteq> []"
  "to_cvec s = to_cvec t \<longleftrightarrow> s = t"
  by (simp_all add: to_cvec_def nul_terminated_def)

lemma c_str_to_cvec: "0 \<notin> set s \<Longrightarrow> c_str (to_cvec s) = s"
  unfolding c_str_def to_cvec_def by (subst takeWhile_append2) auto

section \<open>BReader\<close>

definition k_take :: "nat \<Rightarrow> (errno, u8 list) parser" where
  "k_take n r =
     (if n > remaining r then Err EINVAL
      else Ok (take n (drop (rd_pos r) (rd_buf r)), r\<lparr>rd_pos := rd_pos r + n\<rparr>))"

definition k_u16 :: "(errno, u16) parser" where
  "k_u16 r = and_then (k_take 2 r) (\<lambda>(bs, r). Ok (le_word bs, r))"

definition k_u32 :: "(errno, u32) parser" where
  "k_u32 r = and_then (k_take 4 r) (\<lambda>(bs, r). Ok (le_word bs, r))"

definition k_u64 :: "(errno, u64) parser" where
  "k_u64 r = and_then (k_take 8 r) (\<lambda>(bs, r). Ok (le_word bs, r))"

interpretation kern: byte_source k_take EINVAL
  by unfold_locales (simp add: k_take_def adv_def unread_def)

lemma k_word_Ok_iff:
  "k_u16 r = Ok (v16, r') \<longleftrightarrow> 2 \<le> remaining r \<and> v16 = le_word (take 2 (unread r)) \<and> r' = adv 2 r"
  "k_u32 r = Ok (v32, r') \<longleftrightarrow> 4 \<le> remaining r \<and> v32 = le_word (take 4 (unread r)) \<and> r' = adv 4 r"
  "k_u64 r = Ok (v64, r') \<longleftrightarrow> 8 \<le> remaining r \<and> v64 = le_word (take 8 (unread r)) \<and> r' = adv 8 r"
  by (simp_all only: k_u16_def k_u32_def k_u64_def kern.word_Ok_iff)

lemmas k_Ok_iff = kern.tk_Ok_iff k_word_Ok_iff

section \<open>The decoded specification\<close>

record k_rlimit =
  kr_resource :: u32
  kr_soft :: u64
  kr_hard :: u64

record k_mount =
  km_destination :: "u8 list"
  km_fs_type :: "u8 list"
  km_source :: "u8 list"
  km_flags :: u64

record cap_sets =
  cs_present :: bool
  cs_bounding :: u64
  cs_effective :: u64
  cs_permitted :: u64
  cs_inheritable :: u64
  cs_ambient :: u64

record decoded_spec =
  dc_hostname :: "u8 list"
  dc_rootfs :: "u8 list"
  dc_argv :: "u8 list list"
  dc_envp :: "u8 list list"
  dc_ns :: u32
  dc_cap_present :: bool
  dc_cap_bounding :: u64
  dc_cap_effective :: u64
  dc_cap_permitted :: u64
  dc_cap_inheritable :: u64
  dc_cap_ambient :: u64
  dc_flags :: u64
  dc_masked :: "u8 list list"
  dc_readonly :: "u8 list list"
  dc_rlimits :: "k_rlimit list"
  dc_oom_score_adj :: "i32 option"
  dc_uid :: u32
  dc_gid :: u32
  dc_mounts :: "k_mount list"
  dc_sysctls :: "u8 list list"

definition empty_decoded :: decoded_spec where
  "empty_decoded = \<lparr>dc_hostname = [], dc_rootfs = [], dc_argv = [], dc_envp = [], dc_ns = 0,
     dc_cap_present = False, dc_cap_bounding = 0, dc_cap_effective = 0, dc_cap_permitted = 0,
     dc_cap_inheritable = 0, dc_cap_ambient = 0, dc_flags = 0, dc_masked = [], dc_readonly = [],
     dc_rlimits = [], dc_oom_score_adj = None, dc_uid = 0, dc_gid = 0, dc_mounts = [],
     dc_sysctls = []\<rparr>"

section \<open>Composite fields\<close>

definition read_lenbytes :: "(errno, u8 list) parser" where
  "read_lenbytes sr =
     and_then (k_u32 sr) (\<lambda>(l, sr).
     if unat l > K_MAX_STR then Err EINVAL else k_take (unat l) sr)"

definition read_mount_k :: "(errno, k_mount) parser" where
  "read_mount_k sr =
     and_then (read_lenbytes sr) (\<lambda>(dest, sr).
     and_then (read_lenbytes sr) (\<lambda>(fs_type, sr).
     and_then (read_lenbytes sr) (\<lambda>(source, sr).
     and_then (k_u64 sr) (\<lambda>(flags, sr).
       Ok (\<lparr>km_destination = to_cvec dest, km_fs_type = to_cvec fs_type,
            km_source = to_cvec source, km_flags = flags\<rparr>, sr)))))"

definition read_mounts_k :: "(errno, k_mount list) parser" where
  "read_mounts_k sr =
     and_then (k_u32 sr) (\<lambda>(n, sr). read_n_cap K_MAX_MOUNTS read_mount_k (unat n) [] sr)"

definition read_rlimit_k :: "(errno, k_rlimit) parser" where
  "read_rlimit_k sr =
     and_then (k_u32 sr) (\<lambda>(res, sr). and_then (k_u64 sr) (\<lambda>(s, sr).
     and_then (k_u64 sr) (\<lambda>(h, sr).
       Ok (\<lparr>kr_resource = res, kr_soft = s, kr_hard = h\<rparr>, sr))))"

definition read_rlimits_k :: "(errno, k_rlimit list) parser" where
  "read_rlimits_k sr =
     and_then (k_u32 sr) (\<lambda>(n, sr). read_n_cap K_MAX_RLIMITS read_rlimit_k (unat n) [] sr)"

definition read_cstr_k :: "(errno, u8 list) parser" where
  "read_cstr_k sr =
     and_then (k_u32 sr) (\<lambda>(l, sr).
     if unat l > K_MAX_STR then Err EINVAL
     else and_then (k_take (unat l) sr) (\<lambda>(bytes, sr). Ok (to_cvec bytes, sr)))"

definition read_strvec_k :: "(errno, u8 list list) parser" where
  "read_strvec_k sr =
     and_then (k_u32 sr) (\<lambda>(n, sr). read_n_cap (K_MAX_ARGS - 1) read_cstr_k (unat n) [] sr)"

section \<open>decode\_spec\<close>

definition spec_section :: "u16 \<Rightarrow> u8 list \<Rightarrow> decoded_spec \<Rightarrow> errno + decoded_spec" where
  "spec_section t payload d =
     (let sr = reader_new payload in
      if t = 1 then Ok (d\<lparr>dc_rootfs := to_cvec payload\<rparr>)
      else if t = 2 then Ok (d\<lparr>dc_hostname := to_cvec payload\<rparr>)
      else if t = 3 then and_then (read_strvec_k sr) (\<lambda>(x, _). Ok (d\<lparr>dc_argv := x\<rparr>))
      else if t = 4 then and_then (read_strvec_k sr) (\<lambda>(x, _). Ok (d\<lparr>dc_envp := x\<rparr>))
      else if t = 5 then and_then (k_u32 sr) (\<lambda>(x, _). Ok (d\<lparr>dc_ns := x\<rparr>))
      else if t = 8 then and_then (k_u64 sr) (\<lambda>(x, _). Ok (d\<lparr>dc_flags := x\<rparr>))
      else if t = 9 then
        and_then (k_u64 sr) (\<lambda>(x, _). Ok (d\<lparr>dc_cap_present := True, dc_cap_bounding := x\<rparr>))
      else if t = 15 then
        and_then (k_u64 sr) (\<lambda>(e, sr). and_then (k_u64 sr) (\<lambda>(p, sr).
        and_then (k_u64 sr) (\<lambda>(i, sr). and_then (k_u64 sr) (\<lambda>(a, sr).
          Ok (d\<lparr>dc_cap_effective := e, dc_cap_permitted := p,
                dc_cap_inheritable := i, dc_cap_ambient := a\<rparr>)))))
      else if t = 11 then and_then (read_strvec_k sr) (\<lambda>(x, _). Ok (d\<lparr>dc_masked := x\<rparr>))
      else if t = 12 then and_then (read_strvec_k sr) (\<lambda>(x, _). Ok (d\<lparr>dc_readonly := x\<rparr>))
      else if t = 13 then and_then (read_rlimits_k sr) (\<lambda>(x, _). Ok (d\<lparr>dc_rlimits := x\<rparr>))
      else if t = 14 then and_then (k_u32 sr) (\<lambda>(x, _). Ok (d\<lparr>dc_oom_score_adj := Some x\<rparr>))
      else if t = 16 then
        and_then (k_u32 sr) (\<lambda>(u, sr). and_then (k_u32 sr) (\<lambda>(g, sr).
          Ok (d\<lparr>dc_uid := u, dc_gid := g\<rparr>)))
      else if t = 17 then and_then (read_mounts_k sr) (\<lambda>(x, _). Ok (d\<lparr>dc_mounts := x\<rparr>))
      else if t = 18 then and_then (read_strvec_k sr) (\<lambda>(x, _). Ok (d\<lparr>dc_sysctls := x\<rparr>))
      else Ok d)"

definition spec_mark :: "u16 \<Rightarrow> u64 \<Rightarrow> errno + u64" where
  "spec_mark t seen =
     (if t < 64 then
        (let b = push_bit (unat t) 1 in
         if seen AND b \<noteq> 0 then Err EINVAL else Ok (seen OR b))
      else Ok seen)"

fun spec_loop :: "nat \<Rightarrow> u64 \<Rightarrow> decoded_spec \<Rightarrow> (errno, decoded_spec) parser" where
  "spec_loop 0 seen d r = Ok (d, r)"
| "spec_loop (Suc k) seen d r =
     and_then (k_u16 r) (\<lambda>(t, r).
     and_then (k_u16 r) (\<lambda>(_, r).
     and_then (k_u32 r) (\<lambda>(len, r).
     if unat len > remaining r then Err EINVAL
     else
       and_then (k_take (unat len) r) (\<lambda>(payload, r).
       and_then (spec_mark t seen) (\<lambda>seen.
       and_then (spec_section t payload d) (\<lambda>d.
       spec_loop k seen d r))))))"

definition spec_header :: "u8 list \<Rightarrow> (errno + u32 \<times> reader)" where
  "spec_header buf =
     (if length buf > K_MAX_SPEC then Err EINVAL
      else
        and_then (k_take 4 (reader_new buf)) (\<lambda>(magic, r).
        if magic \<noteq> as_bytes ''KRNC'' then Err EINVAL
        else
          and_then (k_u32 r) (\<lambda>(version, r).
          if version \<noteq> K_ABI_VERSION then Err EINVAL
          else
            and_then (k_u32 r) (\<lambda>(_, r).
            and_then (k_u32 r) (\<lambda>(count, r).
            if unat count > K_MAX_SPEC div 8 then Err EINVAL else Ok (count, r))))))"

definition decode_spec :: "u8 list \<Rightarrow> errno + decoded_spec" where
  "decode_spec buf =
     and_then (spec_header buf) (\<lambda>(count, r).
     and_then (spec_loop (unat count) 0 empty_decoded r) (\<lambda>(d, r).
     if remaining r \<noteq> 0 then Err EINVAL else Ok d))"

lemma spec_mark_eq:
  "spec_mark t seen =
     (if t < 64 \<and> \<not> unseen t seen then Err EINVAL
      else Ok (if t < 64 then seen OR push_bit (unat t) 1 else seen))"
  using and_push_bit_one [of seen "unat t"] by (simp add: spec_mark_def unseen_def Let_def)

interpretation kern_loop:
  section_loop k_take EINVAL spec_loop spec_section spec_mark "\<lambda>_. EINVAL"
  by unfold_locales (simp_all add: k_u16_def k_u32_def spec_mark_eq)

end
