(* ===== verification/Kernel_Text.thy ===== *)
theory Kernel_Text
  imports Kernel_Decode
begin

text \<open>
  \<open>module/krunc.rs\<close>, the text plane: whitespace trimming, \<open>parse_i32\<close>, and the
  \<open>key=value\<close> tokens of a \<open>run\<close> line.
\<close>

section \<open>Whitespace\<close>

definition is_ws :: "u8 \<Rightarrow> bool" where
  "is_ws b \<longleftrightarrow> b = 0x20 \<or> b = 0x09 \<or> b = 0x0d \<or> b = 0x0a"

fun trim_front :: "u8 list \<Rightarrow> u8 list" where
  "trim_front [] = []"
| "trim_front (first # rest) = (if is_ws first then trim_front rest else first # rest)"

function trim_back :: "u8 list \<Rightarrow> u8 list" where
  "trim_back s = (if s \<noteq> [] \<and> is_ws (last s) then trim_back (butlast s) else s)"
by pat_completeness auto
termination
  by (relation "measure length") auto

declare trim_back.simps [simp del]

definition trim :: "u8 list \<Rightarrow> u8 list" where
  "trim s = trim_back (trim_front s)"

lemma trim_front_eq: "trim_front s = dropWhile is_ws s"
  by (induction s) simp_all

lemma trim_back_eq: "trim_back s = rev (dropWhile is_ws (rev s))"
proof (induction s rule: trim_back.induct)
  case (1 s)
  show ?case
  proof (cases "s \<noteq> [] \<and> is_ws (last s)")
    case True
    then obtain ys y where "s = ys @ [y]" by (cases s rule: rev_cases) auto
    then show ?thesis using True 1 by (subst trim_back.simps) simp
  next
    case False
    then have "dropWhile is_ws (rev s) = rev s"
      by (cases s rule: rev_cases) auto
    then show ?thesis using False by (subst trim_back.simps) auto
  qed
qed

lemma trim_eq: "trim s = rev (dropWhile is_ws (rev (dropWhile is_ws s)))"
  by (simp add: trim_def trim_front_eq trim_back_eq)

lemma hd_dropWhile_rev: "t \<noteq> [] \<Longrightarrow> rev (dropWhile P (rev t)) = [] \<or> hd (rev (dropWhile P (rev t))) = hd t"
proof -
  have "rev t = takeWhile P (rev t) @ dropWhile P (rev t)" by simp
  then have "t = rev (dropWhile P (rev t)) @ rev (takeWhile P (rev t))"
    by (metis rev_append rev_rev_ident)
  then show ?thesis by (metis hd_append2)
qed

lemma trim_ends:
  assumes "trim s \<noteq> []"
  shows "\<not> is_ws (hd (trim s))" "\<not> is_ws (last (trim s))"
proof -
  let ?t = "dropWhile is_ws s"
  have t: "?t \<noteq> []"
    using assms unfolding trim_eq by (metis dropWhile.simps(1) rev.simps(1))
  have "rev (dropWhile is_ws (rev ?t)) \<noteq> []" using assms by (simp only: trim_eq not_False_eq_True)
  then have "hd (trim s) = hd ?t"
    using hd_dropWhile_rev [OF t, of is_ws] unfolding trim_eq by blast
  then show "\<not> is_ws (hd (trim s))" using hd_dropWhile [OF t] by simp
  have "dropWhile is_ws (rev ?t) \<noteq> []" using assms by (simp add: trim_eq)
  then show "\<not> is_ws (last (trim s))"
    using hd_dropWhile [of is_ws "rev ?t"] by (simp add: trim_eq last_rev)
qed

section \<open>Decimal numbers\<close>

definition is_ascii_digit :: "u8 \<Rightarrow> bool" where
  "is_ascii_digit b \<longleftrightarrow> 0x30 \<le> b \<and> b \<le> 0x39"

text \<open>\<open>checked_mul\<close> and \<open>checked_add\<close> on \<open>i64\<close>.\<close>

definition checked_i64 :: "int \<Rightarrow> int option" where
  "checked_i64 v = (if - (2 ^ 63) \<le> v \<and> v < 2 ^ 63 then Some v else None)"

fun parse_digits :: "u8 list \<Rightarrow> int \<Rightarrow> int option" where
  "parse_digits [] v = Some v"
| "parse_digits (b # ds) v =
     (if \<not> is_ascii_digit b then None
      else
        (case checked_i64 (v * 10) of None \<Rightarrow> None
         | Some v \<Rightarrow>
            (case checked_i64 (v + uint (b - 0x30)) of None \<Rightarrow> None
             | Some v \<Rightarrow> if v > 2 ^ 31 - 1 + 1 then None else parse_digits ds v)))"

definition parse_i32 :: "u8 list \<Rightarrow> int option" where
  "parse_i32 s0 =
     (let s = trim s0 in
      if s = [] then None
      else
        (let (neg, digits) =
           (case s of b # rest \<Rightarrow>
              if b = 0x2d then (True, rest) else if b = 0x2b then (False, rest) else (False, s)
            | [] \<Rightarrow> (False, s)) in
         if digits = [] then None
         else
           (case parse_digits digits 0 of None \<Rightarrow> None
            | Some v \<Rightarrow>
               (let v = (if neg then - v else v) in
                if v < - (2 ^ 31) \<or> v > 2 ^ 31 - 1 then None else Some v))))"

text \<open>The value of a string of decimal digits.\<close>

definition digit_val :: "u8 \<Rightarrow> int" where
  "digit_val b = uint (b - 0x30)"

definition dec_value :: "int \<Rightarrow> u8 list \<Rightarrow> int" where
  "dec_value v ds = foldl (\<lambda>v b. v * 10 + digit_val b) v ds"

lemma dec_value_simps [simp]:
  "dec_value v [] = v" "dec_value v (b # ds) = dec_value (v * 10 + digit_val b) ds"
  by (simp_all add: dec_value_def)

lemma digit_val_range: "is_ascii_digit b \<Longrightarrow> 0 \<le> digit_val b \<and> digit_val b \<le> 9"
proof -
  assume "is_ascii_digit b"
  then have "48 \<le> unat b" "unat b \<le> 57"
    by (simp_all add: is_ascii_digit_def word_le_nat_alt)
  then have "b - 0x30 \<le> 9"
    by (simp add: word_le_nat_alt unat_sub)
  then show ?thesis by (simp add: digit_val_def word_le_def)
qed

lemma dec_value_ge: "0 \<le> v \<Longrightarrow> list_all is_ascii_digit ds \<Longrightarrow> v \<le> dec_value v ds"
proof (induction ds arbitrary: v)
  case (Cons b ds)
  then have "0 \<le> digit_val b" by (simp add: digit_val_range)
  then show ?case using Cons.IH [of "v * 10 + digit_val b"] Cons.prems by simp
qed simp

lemma parse_digits_iff:
  "0 \<le> v \<Longrightarrow> v \<le> 2 ^ 31 \<Longrightarrow>
   parse_digits ds v = Some n \<longleftrightarrow>
     list_all is_ascii_digit ds \<and> n = dec_value v ds \<and> n \<le> 2 ^ 31"
proof (induction ds arbitrary: v)
  case Nil
  then show ?case by auto
next
  case (Cons b ds)
  show ?case
  proof (cases "is_ascii_digit b")
    case True
    note d = digit_val_range [OF True]
    let ?v = "v * 10 + digit_val b"
    have step: "parse_digits (b # ds) v =
        (if ?v > 2 ^ 31 then None else parse_digits ds ?v)"
      using True Cons.prems d uint_ge_0 [of "b - 48"]
      by (simp add: checked_i64_def digit_val_def del: uint_ge_0 unsigned_greater_eq)
    show ?thesis
    proof (cases "?v > 2 ^ 31")
      case big: True
      have "list_all is_ascii_digit ds \<Longrightarrow> ?v \<le> dec_value ?v ds"
        using Cons.prems(1) d by (intro dec_value_ge) simp_all
      then show ?thesis using big step by auto
    next
      case False
      then show ?thesis
        using step Cons.IH [of ?v] Cons.prems(1) d True by simp
    qed
  next
    case False
    then show ?thesis by simp
  qed
qed

lemma parse_digits_eq:
  "parse_digits ds 0 =
     (if list_all is_ascii_digit ds \<and> dec_value 0 ds \<le> 2 ^ 31 then Some (dec_value 0 ds) else None)"
proof (cases "parse_digits ds 0")
  case None
  then show ?thesis using parse_digits_iff [of 0 ds "dec_value 0 ds"] by auto
next
  case (Some m)
  then show ?thesis using parse_digits_iff [of 0 ds m] by simp
qed

section \<open>Tokens\<close>

definition split_kv :: "u8 list \<Rightarrow> u8 list \<times> u8 list" where
  "split_kv tok =
     (let key = takeWhile (\<lambda>b. b \<noteq> 0x3d) tok in (key, drop (length key + 1) tok))"

text \<open>The four locals of \<open>parse_run_line\<close>.\<close>

record run_args =
  ra_rootfs :: "u8 list option"
  ra_host :: "u8 list option"
  ra_exec :: "u8 list option"
  ra_args :: "u8 list list"

definition run_args_init :: run_args where
  "run_args_init = \<lparr>ra_rootfs = None, ra_host = None, ra_exec = None, ra_args = []\<rparr>"

definition run_token :: "u8 list \<Rightarrow> run_args \<Rightarrow> run_args" where
  "run_token tok st =
     (let (key, val) = split_kv tok in
      if key = as_bytes ''rootfs'' then st\<lparr>ra_rootfs := Some (to_cvec val)\<rparr>
      else if key = as_bytes ''host'' \<or> key = as_bytes ''hostname''
        then st\<lparr>ra_host := Some (to_cvec val)\<rparr>
      else if key = as_bytes ''exec'' then st\<lparr>ra_exec := Some (to_cvec val)\<rparr>
      else if key = as_bytes ''arg'' then
        (if length (ra_args st) < K_MAX_ARGS - 1
         then st\<lparr>ra_args := ra_args st @ [to_cvec val]\<rparr> else st)
      else st)"

lemma token_shorter:
  assumes "takeWhile (\<lambda>b. \<not> is_ws b) (dropWhile is_ws line) \<noteq> []"
  shows "length (dropWhile (\<lambda>b. \<not> is_ws b) (dropWhile is_ws line)) < length line"
proof -
  let ?s = "dropWhile is_ws line"
  obtain b r where s: "?s = b # r" "\<not> is_ws b"
    using assms by (cases ?s) (auto split: if_splits)
  then have "length (dropWhile (\<lambda>b. \<not> is_ws b) ?s) \<le> length r"
    by (simp add: length_dropWhile_le)
  also have "\<dots> < length ?s" using s(1) by simp
  also have "\<dots> \<le> length line" by (rule length_dropWhile_le)
  finally show ?thesis .
qed

text \<open>The loop over the line, from the bytes at index \<open>i\<close> on.\<close>

function run_loop :: "u8 list \<Rightarrow> run_args \<Rightarrow> run_args" where
  "run_loop line st =
     (let s = dropWhile is_ws line;
          tok = takeWhile (\<lambda>b. \<not> is_ws b) s in
      if line = [] \<or> tok = [] then st
      else run_loop (dropWhile (\<lambda>b. \<not> is_ws b) s) (run_token tok st))"
by pat_completeness auto
termination
  by (relation "measure (length \<circ> fst)")
     (simp_all only: in_measure comp_apply fst_conv de_Morgan_disj wf_measure, blast intro: token_shorter)

declare run_loop.simps [simp del]

fun drain_into :: "u8 list list \<Rightarrow> u8 list list \<Rightarrow> u8 list list" where
  "drain_into [] dst = dst"
| "drain_into (a # src) dst = drain_into src (dst @ [a])"

lemma drain_into_eq [simp]: "drain_into src dst = dst @ src"
  by (induction src arbitrary: dst) simp_all

definition CLONE_NEWNS :: u64 where "CLONE_NEWNS = 0x00020000"
definition CLONE_NEWUSER :: u64 where "CLONE_NEWUSER = 0x10000000"
definition CLONE_NEWUTS :: u64 where "CLONE_NEWUTS = 0x04000000"
definition CLONE_NEWIPC :: u64 where "CLONE_NEWIPC = 0x08000000"
definition CLONE_NEWPID :: u64 where "CLONE_NEWPID = 0x20000000"
definition CLONE_NEWNET :: u64 where "CLONE_NEWNET = 0x40000000"
definition SIGCHLD :: u64 where "SIGCHLD = 17"
definition SIGKILL :: int where "SIGKILL = 9"

definition ALL_NS :: u64 where
  "ALL_NS = CLONE_NEWPID OR CLONE_NEWNS OR CLONE_NEWUTS OR CLONE_NEWIPC OR CLONE_NEWNET"

lemmas clone_defs = CLONE_NEWNS_def CLONE_NEWUSER_def CLONE_NEWUTS_def CLONE_NEWIPC_def
  CLONE_NEWPID_def CLONE_NEWNET_def SIGCHLD_def ALL_NS_def

text \<open>\<open>Spec\<close>: host name, rootfs, argv, envp and clone flags.\<close>

type_synonym run_spec = "u8 list \<times> u8 list \<times> u8 list list \<times> u8 list list \<times> u64"

definition parse_run_line :: "u8 list \<Rightarrow> errno + run_spec" where
  "parse_run_line line =
     (let st = run_loop line run_args_init in
      and_then (ok_or (ra_rootfs st) EINVAL) (\<lambda>rootfs.
      and_then (ok_or (ra_exec st) EINVAL) (\<lambda>exec.
      let host = (case ra_host st of Some h \<Rightarrow> h | None \<Rightarrow> to_cvec (as_bytes ''krunc''));
          argv = drain_into (ra_args st) [exec] in
      Ok (host, rootfs, argv, [], ALL_NS OR SIGCHLD))))"

section \<open>Properties\<close>

lemma ex_sign_split:
  "(\<exists>sg ds. (b # rest = sg @ ds \<and> sg \<in> {[], [0x2b], [0x2d]}) \<and> P sg ds) \<longleftrightarrow>
     P [] (b # rest) \<or> (b = 0x2b \<or> b = 0x2d) \<and> P [b] rest"
  for b :: u8
proof -
  have "(b # rest = sg @ ds \<and> sg \<in> {[], [0x2b], [0x2d]}) \<longleftrightarrow>
      sg = [] \<and> ds = b # rest \<or> sg = [b] \<and> ds = rest \<and> (b = 0x2b \<or> b = 0x2d)" for sg ds
    by (cases sg) auto
  then show ?thesis by (simp only: conj_disj_distribR ex_disj_distrib) (simp add: conj_disj_distribR)
qed

text \<open>
C27 (numbers of the text plane). \<open>parse_i32\<close> accepts exactly an optional sign and decimal
digits, surrounded by whitespace, whose value fits an \<open>i32\<close>, and returns that value; in
particular the checked arithmetic never gives up on a value that fits, and \<open>i32::MIN\<close> parses.
\<close>

theorem parse_i32_iff:
  "parse_i32 s = Some n \<longleftrightarrow>
     (\<exists>sg ds. (trim s = sg @ ds \<and> sg \<in> {[], [0x2b], [0x2d]}) \<and> ds \<noteq> []
        \<and> list_all is_ascii_digit ds
        \<and> n = (if sg = [0x2d] then - dec_value 0 ds else dec_value 0 ds)
        \<and> - (2 ^ 31) \<le> n \<and> n \<le> 2 ^ 31 - 1)"
proof (cases "trim s")
  case Nil
  then show ?thesis by (auto simp: parse_i32_def)
next
  case (Cons b rest)
  have nodigit: "\<not> is_ascii_digit 0x2d" "\<not> is_ascii_digit 0x2b"
    by (simp_all add: is_ascii_digit_def)
  have pos: "list_all is_ascii_digit ds \<Longrightarrow> 0 \<le> dec_value 0 ds" for ds
    by (rule dec_value_ge) simp
  consider "b = 0x2d" | "b = 0x2b" | "b \<noteq> 0x2d" "b \<noteq> 0x2b" by blast
  then show ?thesis
  proof cases
    case 1
    have "parse_i32 s = Some n \<longleftrightarrow> rest \<noteq> [] \<and> list_all is_ascii_digit rest
        \<and> n = - dec_value 0 rest \<and> - (2 ^ 31) \<le> n \<and> n \<le> 2 ^ 31 - 1"
      using parse_digits_eq [of rest] pos [of rest]
      by (auto simp: parse_i32_def Cons 1 Let_def split: option.splits)
    then show ?thesis unfolding Cons ex_sign_split by (simp add: 1 nodigit)
  next
    case 2
    have "parse_i32 s = Some n \<longleftrightarrow> rest \<noteq> [] \<and> list_all is_ascii_digit rest
        \<and> n = dec_value 0 rest \<and> - (2 ^ 31) \<le> n \<and> n \<le> 2 ^ 31 - 1"
      using parse_digits_eq [of rest] pos [of rest]
      by (auto simp: parse_i32_def Cons 2 Let_def split: option.splits)
    then show ?thesis unfolding Cons ex_sign_split by (simp add: 2 nodigit)
  next
    case 3
    have "parse_i32 s = Some n \<longleftrightarrow> list_all is_ascii_digit (b # rest)
        \<and> n = dec_value 0 (b # rest) \<and> - (2 ^ 31) \<le> n \<and> n \<le> 2 ^ 31 - 1"
      using parse_digits_eq [of "b # rest"] pos [of "b # rest"] 3
      by (auto simp: parse_i32_def Cons Let_def split: option.splits)
    then show ?thesis unfolding Cons ex_sign_split using 3 by simp
  qed
qed

text \<open>A token, and a line of tokens each followed by a blank.\<close>

definition kv_token :: "string \<Rightarrow> u8 list \<Rightarrow> u8 list" where
  "kv_token key val = as_bytes key @ 0x3d # val"

definition is_token :: "u8 list \<Rightarrow> bool" where
  "is_token t \<longleftrightarrow> t \<noteq> [] \<and> list_all (\<lambda>b. \<not> is_ws b) t"

definition line_of :: "u8 list list \<Rightarrow> u8 list" where
  "line_of toks = concat (map (\<lambda>t. t @ [0x20]) toks)"

lemma takeWhile_token:
  "list_all P t \<Longrightarrow> \<not> P x \<Longrightarrow> takeWhile P (t @ x # ys) = t"
  "list_all P t \<Longrightarrow> \<not> P x \<Longrightarrow> dropWhile P (t @ x # ys) = x # ys"
  by (induction t) auto

lemma run_loop_front: "is_ws b \<Longrightarrow> run_loop (b # bs) st = run_loop bs st"
  by (subst (1 2) run_loop.simps) (auto simp: Let_def)

lemma run_loop_token:
  assumes "is_token t"
  shows "run_loop (t @ 0x20 # rest) st = run_loop rest (run_token t st)"
proof -
  have ws: "is_ws 0x20" by (simp add: is_ws_def)
  obtain b r where t: "t = b # r" "\<not> is_ws b"
    using assms by (cases t) (auto simp: is_token_def)
  have split: "takeWhile (\<lambda>b. \<not> is_ws b) (t @ 0x20 # rest) = t"
      "dropWhile (\<lambda>b. \<not> is_ws b) (t @ 0x20 # rest) = 0x20 # rest"
    using assms ws by (simp_all add: takeWhile_token is_token_def)
  have "run_loop (t @ 0x20 # rest) st = run_loop (0x20 # rest) (run_token t st)"
    using split t by (subst run_loop.simps) (simp add: Let_def)
  then show ?thesis using ws by (simp add: run_loop_front)
qed

lemma run_loop_line:
  "list_all is_token toks \<Longrightarrow> run_loop (line_of toks) st = foldl (\<lambda>st t. run_token t st) st toks"
proof (induction toks arbitrary: st)
  case Nil
  then show ?case by (subst run_loop.simps) (simp add: line_of_def)
next
  case (Cons t toks)
  have "line_of (t # toks) = t @ 0x20 # line_of toks" by (simp add: line_of_def)
  then show ?case using Cons by (simp add: run_loop_token)
qed

lemma split_kv_token: "0x3d \<notin> set (as_bytes key) \<Longrightarrow> split_kv (kv_token key val) = (as_bytes key, val)"
proof -
  assume "0x3d \<notin> set (as_bytes key)"
  then have "takeWhile (\<lambda>b. b \<noteq> 0x3d) (as_bytes key @ 0x3d # val) = as_bytes key"
    by (subst takeWhile_token(1)) (auto simp: list_all_iff)
  then show ?thesis by (simp add: split_kv_def kv_token_def)
qed

lemma kv_split:
  "split_kv (kv_token ''rootfs'' v) = (as_bytes ''rootfs'', v)"
  "split_kv (kv_token ''host'' v) = (as_bytes ''host'', v)"
  "split_kv (kv_token ''exec'' v) = (as_bytes ''exec'', v)"
  "split_kv (kv_token ''arg'' v) = (as_bytes ''arg'', v)"
  "split_kv (as_bytes ''run'') = (as_bytes ''run'', [])"
proof -
  show "split_kv (kv_token ''rootfs'' v) = (as_bytes ''rootfs'', v)"
    by (rule split_kv_token) (simp add: as_bytes_def)
  show "split_kv (kv_token ''host'' v) = (as_bytes ''host'', v)"
    by (rule split_kv_token) (simp add: as_bytes_def)
  show "split_kv (kv_token ''exec'' v) = (as_bytes ''exec'', v)"
    by (rule split_kv_token) (simp add: as_bytes_def)
  show "split_kv (kv_token ''arg'' v) = (as_bytes ''arg'', v)"
    by (rule split_kv_token) (simp add: as_bytes_def)
  show "split_kv (as_bytes ''run'') = (as_bytes ''run'', [])"
    by (simp add: as_bytes_def split_kv_def)
qed

lemma run_token_kv:
  "run_token (kv_token ''rootfs'' v) st = st\<lparr>ra_rootfs := Some (to_cvec v)\<rparr>"
  "run_token (kv_token ''host'' v) st = st\<lparr>ra_host := Some (to_cvec v)\<rparr>"
  "run_token (kv_token ''exec'' v) st = st\<lparr>ra_exec := Some (to_cvec v)\<rparr>"
  "run_token (kv_token ''arg'' v) st =
     (if length (ra_args st) < 31 then st\<lparr>ra_args := ra_args st @ [to_cvec v]\<rparr> else st)"
  "run_token (as_bytes ''run'') st = st"
  by (simp_all add: run_token_def kv_split K_MAX_ARGS_def)

lemma run_args_fold:
  "length (ra_args st) \<le> 31 \<Longrightarrow>
   foldl (\<lambda>st t. run_token t st) st (map (kv_token ''arg'') args) =
     st\<lparr>ra_args := take 31 (ra_args st @ map to_cvec args)\<rparr>"
proof (induction args arbitrary: st)
  case Nil
  then show ?case by simp
next
  case (Cons a args)
  then show ?case by (auto simp: run_token_kv take_Cons')
qed

lemma is_token_kv:
  "list_all (\<lambda>c. \<not> is_ws c) (as_bytes key) \<Longrightarrow> list_all (\<lambda>b. \<not> is_ws b) v \<Longrightarrow>
   is_token (kv_token key v)"
  by (simp add: is_token_def kv_token_def is_ws_def)

definition run_line :: "u8 list \<Rightarrow> u8 list \<Rightarrow> u8 list \<Rightarrow> u8 list list \<Rightarrow> u8 list" where
  "run_line rootfs host exec args = line_of (as_bytes ''run'' # kv_token ''rootfs'' rootfs
     # kv_token ''host'' host # kv_token ''exec'' exec # map (kv_token ''arg'') args)"

text \<open>
A run line is read back. A \<open>run\<close> line with any values free of whitespace gives exactly
these values, as C strings, in argv order, with all five namespaces; arguments after the 31st
are dropped, so that \<open>argv\<close> with its binary fits the 32 slots of the exec call.
\<close>

theorem run_line_read_back:
  assumes "\<forall>v\<in>set (rootfs # host # exec # args). list_all (\<lambda>b. \<not> is_ws b) v"
  shows "parse_run_line (run_line rootfs host exec args) =
    Ok (to_cvec host, to_cvec rootfs, to_cvec exec # take 31 (map to_cvec args), [],
        ALL_NS OR SIGCHLD)"
proof -
  have tok: "list_all is_token (as_bytes ''run'' # kv_token ''rootfs'' rootfs
      # kv_token ''host'' host # kv_token ''exec'' exec # map (kv_token ''arg'') args)"
    using assms by (auto simp: list_all_iff [of is_token] intro!: is_token_kv)
      (simp_all add: is_token_def as_bytes_def is_ws_def)
  show ?thesis
    unfolding parse_run_line_def run_line_def run_loop_line [OF tok]
    by (simp add: run_token_kv run_args_fold run_args_init_def)
qed

theorem run_line_read_back_witness:
  "parse_run_line (run_line (as_bytes ''/r'') (as_bytes ''h'') (as_bytes ''/bin/sh'') [as_bytes ''-c'']) =
     Ok (to_cvec (as_bytes ''h''), to_cvec (as_bytes ''/r''),
         [to_cvec (as_bytes ''/bin/sh''), to_cvec (as_bytes ''-c'')], [], ALL_NS OR SIGCHLD)"
  by (subst run_line_read_back) (simp_all add: as_bytes_def is_ws_def)

end
