(* ===== verification/Rust_Std.thy ===== *)
theory Rust_Std
  imports Krunc_Prelude
begin

text \<open>
  What the sources use of Rust's standard library on slices, strings and paths: searching,
  prefixes, splitting at slashes, and \<open>Path::join\<close>.
\<close>

section \<open>Searching and prefixes\<close>

text \<open>\<open>iter().position(..)\<close>: the index of the first match.\<close>

fun position :: "('a \<Rightarrow> bool) \<Rightarrow> 'a list \<Rightarrow> nat option" where
  "position p [] = None"
| "position p (x # xs) = (if p x then Some 0 else map_option Suc (position p xs))"

lemma position_Some: "position p xs = Some i \<Longrightarrow> i < length xs \<and> p (xs ! i)"
  by (induction xs arbitrary: i) (auto simp: map_option_case split: if_splits option.splits)

lemma position_None: "position p xs = None \<longleftrightarrow> (\<forall>x\<in>set xs. \<not> p x)"
  by (induction xs) auto

lemma position_append:
  "\<forall>x\<in>set xs. \<not> p x \<Longrightarrow> p y \<Longrightarrow> position p (xs @ y # ys) = Some (length xs)"
  by (induction xs) simp_all

definition strip_prefix :: "'a list \<Rightarrow> 'a list \<Rightarrow> 'a list option" where
  "strip_prefix pre s = (if take (length pre) s = pre then Some (drop (length pre) s) else None)"

definition starts_with :: "'a list \<Rightarrow> 'a list \<Rightarrow> bool" where
  "starts_with s pre = (take (length pre) s = pre)"

section \<open>Characters\<close>

definition is_ascii_alphanumeric :: "char \<Rightarrow> bool" where
  "is_ascii_alphanumeric c =
     (let n = of_char c :: nat in
      48 \<le> n \<and> n \<le> 57 \<or> 65 \<le> n \<and> n \<le> 90 \<or> 97 \<le> n \<and> n \<le> 122)"

section \<open>Splitting and joining paths\<close>

text \<open>\<open>split('/')\<close>: the components between slashes, empty ones included.\<close>

fun split_slash :: "string \<Rightarrow> string list" where
  "split_slash [] = [[]]"
| "split_slash (c # cs) =
     (if c = CHR ''/'' then [] # split_slash cs
      else (case split_slash cs of [] \<Rightarrow> [[c]] | w # ws \<Rightarrow> (c # w) # ws))"

lemma split_slash_nonempty [simp]: "split_slash s \<noteq> []"
  by (induction s) (auto split: list.splits)

lemma split_slash_chars: "w \<in> set (split_slash s) \<Longrightarrow> set w \<subseteq> set s - {CHR ''/''}"
proof (induction s arbitrary: w)
  case Nil
  then show ?case by simp
next
  case (Cons c cs)
  then show ?case by (cases "split_slash cs") (fastforce split: if_splits)+
qed

lemma split_slash_leading: "starts_with s ''/'' \<Longrightarrow> [] \<in> set (split_slash s)"
  by (cases s) (auto simp: starts_with_def)

lemma split_slash_trailing:
  assumes "s \<noteq> []" "last s = CHR ''/''"
  shows "\<exists>w ws. split_slash s = (w # ws) @ [[]]"
  using assms
proof (induction s)
  case Nil
  then show ?case by simp
next
  case (Cons c cs)
  show ?case
  proof (cases "cs = []")
    case True
    then show ?thesis using Cons.prems by simp
  next
    case False
    then obtain w ws where "split_slash cs = (w # ws) @ [[]]" using Cons by auto
    then show ?thesis by (auto intro: exI [of _ "[]"])
  qed
qed

text \<open>\<open>Path::join\<close> on Unix: an absolute second path replaces the first.\<close>

definition is_absolute :: "string \<Rightarrow> bool" where
  "is_absolute p = (p \<noteq> [] \<and> hd p = CHR ''/'')"

definition path_join :: "string \<Rightarrow> string \<Rightarrow> string" where
  "path_join base p =
     (if is_absolute p then p
      else if base \<noteq> [] \<and> last base \<noteq> CHR ''/'' then base @ ''/'' @ p
      else base @ p)"

section \<open>Lines\<close>

text \<open>\<open>join("\n")\<close>, and the text of a raw string literal of several lines.\<close>

fun join_lines :: "string list \<Rightarrow> string" where
  "join_lines [] = []"
| "join_lines [l] = l"
| "join_lines (l # ls) = l @ [CHR 0x0A] @ join_lines ls"

end
