(* ===== verification/Kernel_Registry.thy ===== *)
theory Kernel_Registry
  imports Kernel_Text Rust_Std
begin

text \<open>
  \<open>module/krunc.rs\<close>, the container registry: \<open>spawn\<close>, the lifecycle operations behind the
  ioctl (\<open>create\<close>, \<open>start\<close>, \<open>state\<close>, \<open>kill\<close>, \<open>delete\<close>), the text commands, the status table and
  \<open>ioctl_dispatch\<close>. The C helper module and the kernel below it are a parameter: a record of
  functions on an abstract operating-system state.
\<close>

section \<open>The helper module\<close>

text \<open>The context handed to the init task of a container.\<close>

record container_ctx =
  cx_hostname :: "u8 list"
  cx_rootfs :: "u8 list"
  cx_argv :: "u8 list list"
  cx_envp :: "u8 list list"
  cx_cap_sets :: cap_sets
  cx_no_new_privs :: bool
  cx_readonly_rootfs :: bool
  cx_masked :: "u8 list list"
  cx_readonly :: "u8 list list"
  cx_rlimits :: "k_rlimit list"
  cx_oom_score_adj :: "i32 option"
  cx_uid :: u32
  cx_gid :: u32
  cx_mounts :: "k_mount list"
  cx_sysctls :: "u8 list list"
  cx_userns :: bool
  cx_ctrl :: "nat option"

text \<open>
  One field per \<open>krunc_*\<close> function the registry calls. Each gets the state of the operating
  system and returns its C result and the state after it; an out-pointer is a second result.
\<close>

record 'os helper =
  h_spawn :: "container_ctx \<Rightarrow> u64 \<Rightarrow> 'os \<Rightarrow> int \<times> 'os"
  h_kill :: "int \<Rightarrow> int \<Rightarrow> 'os \<Rightarrow> int \<times> 'os"
  h_task_exit_status :: "int \<Rightarrow> 'os \<Rightarrow> (int \<times> int) \<times> 'os"
  h_watch_pid :: "int \<Rightarrow> 'os \<Rightarrow> int \<times> 'os"
  h_unwatch_pid :: "int \<Rightarrow> 'os \<Rightarrow> 'os"
  h_get_exit_code :: "int \<Rightarrow> 'os \<Rightarrow> (int \<times> int) \<times> 'os"

section \<open>State\<close>

definition ACT_WAIT :: u8 where "ACT_WAIT = 0"
definition ACT_START :: u8 where "ACT_START = 1"
definition ACT_DOOM :: u8 where "ACT_DOOM = 2"

lemmas act_defs = ACT_WAIT_def ACT_START_def ACT_DOOM_def

definition ST_CREATED :: u32 where "ST_CREATED = 0"
definition ST_RUNNING :: u32 where "ST_RUNNING = 1"
definition ST_STOPPED :: u32 where "ST_STOPPED = 2"

lemmas st_defs = ST_CREATED_def ST_RUNNING_def ST_STOPPED_def

text \<open>
  The \<open>Arc<ContainerControl>\<close> shared by a container and its init task is an address into the
  store of gates; the store gives each address its \<open>action\<close>.
\<close>

record container =
  ct_id :: u64
  ct_pid :: int
  ct_hostname :: "u8 list"
  ct_ctrl :: "nat option"
  ct_started :: bool
  ct_exit_status :: "int option"

record 'os kstate =
  ks_registry :: "container list"
  ks_next_id :: u64
  ks_gates :: "nat \<Rightarrow> u8"
  ks_gate_next :: nat
  ks_os :: 'os

definition kstate_init :: "'os \<Rightarrow> 'os kstate" where
  "kstate_init os = \<lparr>ks_registry = [], ks_next_id = 1, ks_gates = (\<lambda>_. 0), ks_gate_next = 0,
     ks_os = os\<rparr>"

definition new_gate :: "'os kstate \<Rightarrow> nat \<times> 'os kstate" where
  "new_gate st =
     (ks_gate_next st,
      st\<lparr>ks_gates := (ks_gates st)(ks_gate_next st := ACT_WAIT),
         ks_gate_next := ks_gate_next st + 1\<rparr>)"

definition set_gate :: "nat option \<Rightarrow> u8 \<Rightarrow> 'os kstate \<Rightarrow> 'os kstate" where
  "set_gate ctrl act st =
     (case ctrl of Some a \<Rightarrow> st\<lparr>ks_gates := (ks_gates st)(a := act)\<rparr> | None \<Rightarrow> st)"

definition find_id :: "u64 \<Rightarrow> container list \<Rightarrow> nat option" where
  "find_id cid reg = position (\<lambda>c. ct_id c = cid) reg"

section \<open>spawn\<close>

definition spawn :: "'os helper \<Rightarrow> u8 list \<Rightarrow> u8 list \<Rightarrow> u8 list list \<Rightarrow> u8 list list \<Rightarrow>
  u64 \<Rightarrow> bool \<Rightarrow> cap_sets \<Rightarrow> bool \<Rightarrow> bool \<Rightarrow> u8 list list \<Rightarrow> u8 list list \<Rightarrow> k_rlimit list \<Rightarrow>
  i32 option \<Rightarrow> u32 \<Rightarrow> u32 \<Rightarrow> k_mount list \<Rightarrow> u8 list list \<Rightarrow> 'os kstate \<Rightarrow>
  (errno + u64 \<times> int) \<times> 'os kstate" where
  "spawn h hostname rootfs argv envp flags paused cap_sets no_new_privs readonly_rootfs
     masked readonly rlimits oom_score_adj uid gid mounts sysctls st =
     (let (ctrl, st) =
        (if paused then (let (a, st) = new_gate st in (Some a, st)) else (None, st));
      host_disp = take (length hostname - 1) hostname;
      ctx = \<lparr>cx_hostname = hostname, cx_rootfs = rootfs, cx_argv = argv, cx_envp = envp,
        cx_cap_sets = cap_sets, cx_no_new_privs = no_new_privs,
        cx_readonly_rootfs = readonly_rootfs, cx_masked = masked, cx_readonly = readonly,
        cx_rlimits = rlimits, cx_oom_score_adj = oom_score_adj, cx_uid = uid, cx_gid = gid,
        cx_mounts = mounts, cx_sysctls = sysctls, cx_userns = (flags AND CLONE_NEWUSER \<noteq> 0),
        cx_ctrl = ctrl\<rparr>;
      (pid, os) = h_spawn h ctx flags (ks_os st);
      st = st\<lparr>ks_os := os\<rparr> in
      if pid < 0 then (Err (from_errno pid), st)
      else
        (let cid = ks_next_id st;
             os = snd (h_watch_pid h pid (ks_os st));
             c = \<lparr>ct_id = cid, ct_pid = pid, ct_hostname = host_disp, ct_ctrl = ctrl,
                  ct_started = (\<not> paused), ct_exit_status = None\<rparr> in
         (Ok (cid, pid),
          st\<lparr>ks_next_id := cid + 1, ks_os := os, ks_registry := ks_registry st @ [c]\<rparr>)))"

definition default_caps :: cap_sets where
  "default_caps = \<lparr>cs_present = False, cs_bounding = 0, cs_effective = 0, cs_permitted = 0,
     cs_inheritable = 0, cs_ambient = 0\<rparr>"

definition default_proc_sys_mounts :: "k_mount list" where
  "default_proc_sys_mounts =
     [\<lparr>km_destination = to_cvec (as_bytes ''/proc''), km_fs_type = to_cvec (as_bytes ''proc''),
       km_source = to_cvec (as_bytes ''proc''), km_flags = 0\<rparr>,
      \<lparr>km_destination = to_cvec (as_bytes ''/sys''), km_fs_type = to_cvec (as_bytes ''sysfs''),
       km_source = to_cvec (as_bytes ''sysfs''), km_flags = 0\<rparr>]"

definition create_from_blob ::
  "'os helper \<Rightarrow> u8 list \<Rightarrow> 'os kstate \<Rightarrow> (errno + u64 \<times> int) \<times> 'os kstate" where
  "create_from_blob h blob st =
     (case decode_spec blob of
        Err e \<Rightarrow> (Err e, st)
      | Ok d \<Rightarrow>
          if length (dc_rootfs d) \<le> 1 \<or> dc_argv d = [] then (Err EINVAL, st)
          else
            (let host = (if length (dc_hostname d) > 1 then dc_hostname d
                         else to_cvec (as_bytes ''krunc''));
                 ns = (if dc_ns d \<noteq> 0 then ucast (dc_ns d) else ALL_NS);
                 no_new_privs = (dc_flags d AND K_OPT_NO_NEW_PRIVS \<noteq> 0);
                 readonly_rootfs = (dc_flags d AND K_OPT_ROOTFS_RO \<noteq> 0);
                 caps = \<lparr>cs_present = dc_cap_present d, cs_bounding = dc_cap_bounding d,
                   cs_effective = dc_cap_effective d, cs_permitted = dc_cap_permitted d,
                   cs_inheritable = dc_cap_inheritable d, cs_ambient = dc_cap_ambient d\<rparr> in
             spawn h host (dc_rootfs d) (dc_argv d) (dc_envp d) (ns OR SIGCHLD) True caps
               no_new_privs readonly_rootfs (dc_masked d) (dc_readonly d) (dc_rlimits d)
               (dc_oom_score_adj d) (dc_uid d) (dc_gid d) (dc_mounts d) (dc_sysctls d) st))"

section \<open>Lifecycle operations\<close>

definition start_container :: "u64 \<Rightarrow> 'os kstate \<Rightarrow> (errno + unit) \<times> 'os kstate" where
  "start_container cid st =
     (case find_id cid (ks_registry st) of
        None \<Rightarrow> (Err ENOENT, st)
      | Some i \<Rightarrow>
          (let c = ks_registry st ! i;
               st = set_gate (ct_ctrl c) ACT_START st in
           (Ok (), st\<lparr>ks_registry := (ks_registry st)[i := c\<lparr>ct_started := True\<rparr>]\<rparr>)))"

definition probe_exit :: "'os helper \<Rightarrow> int \<Rightarrow> 'os \<Rightarrow> (bool \<times> int option) \<times> 'os" where
  "probe_exit h pid os =
     (let ((r, status), os) = h_task_exit_status h pid os in
      (if r = 1 then (False, None) else if r = 0 then (True, Some status) else (True, None), os))"

definition container_state ::
  "'os helper \<Rightarrow> u64 \<Rightarrow> 'os kstate \<Rightarrow> (errno + u32 \<times> int \<times> int) \<times> 'os kstate" where
  "container_state h cid st =
     (case find_id cid (ks_registry st) of
        None \<Rightarrow> (Err ENOENT, st)
      | Some i \<Rightarrow>
          (let c = ks_registry st ! i;
               (state, c, os) =
                 (if \<not> ct_started c then (ST_CREATED, c, ks_os st)
                  else
                    (let ((exited, status), os) = probe_exit h (ct_pid c) (ks_os st) in
                     if exited then
                       (if ct_exit_status c = None then
                          (let ((got, code), os) = h_get_exit_code h (ct_pid c) os in
                           (ST_STOPPED,
                            c\<lparr>ct_exit_status := (if got = 1 then Some code else status)\<rparr>, os))
                        else (ST_STOPPED, c, os))
                     else (ST_RUNNING, c, os))) in
           (Ok (state, ct_pid c, case ct_exit_status c of Some s \<Rightarrow> s | None \<Rightarrow> 0),
            st\<lparr>ks_registry := (ks_registry st)[i := c], ks_os := os\<rparr>)))"

definition kill_container ::
  "'os helper \<Rightarrow> u64 \<Rightarrow> int \<Rightarrow> 'os kstate \<Rightarrow> (errno + unit) \<times> 'os kstate" where
  "kill_container h cid sig st =
     (case find_id cid (ks_registry st) of
        None \<Rightarrow> (Err ENOENT, st)
      | Some i \<Rightarrow>
          (let (rc, os) = h_kill h (ct_pid (ks_registry st ! i)) sig (ks_os st);
               st = st\<lparr>ks_os := os\<rparr> in
           if rc < 0 then (Err (from_errno rc), st) else (Ok (), st)))"

definition is_alive :: "'os helper \<Rightarrow> int \<Rightarrow> 'os \<Rightarrow> bool \<times> 'os" where
  "is_alive h pid os = (let (rc, os) = h_kill h pid 0 os in (rc = 0, os))"

definition remove_nth :: "nat \<Rightarrow> 'a list \<Rightarrow> 'a list" where
  "remove_nth i xs = take i xs @ drop (Suc i) xs"

definition delete_container ::
  "'os helper \<Rightarrow> u64 \<Rightarrow> 'os kstate \<Rightarrow> (errno + unit) \<times> 'os kstate" where
  "delete_container h cid st =
     (case find_id cid (ks_registry st) of
        None \<Rightarrow> (Err ENOENT, st)
      | Some i \<Rightarrow>
          (let c = ks_registry st ! i;
               pid = ct_pid c;
               st = (if \<not> ct_started c then set_gate (ct_ctrl c) ACT_DOOM st
                     else
                       (let (alive, os) = is_alive h pid (ks_os st);
                            os = (if alive then snd (h_kill h pid SIGKILL os) else os) in
                        st\<lparr>ks_os := os\<rparr>)) in
           (Ok (), st\<lparr>ks_os := h_unwatch_pid h pid (ks_os st),
                      ks_registry := remove_nth i (ks_registry st)\<rparr>)))"

section \<open>Text commands\<close>

definition handle_text_command ::
  "'os helper \<Rightarrow> u8 list \<Rightarrow> 'os kstate \<Rightarrow> (errno + unit) \<times> 'os kstate" where
  "handle_text_command h buf st =
     (let line = trim buf in
      if line = [] then (Err EINVAL, st)
      else
        (case strip_prefix (as_bytes ''kill'') line of
           Some rest \<Rightarrow>
             (let rest = (case strip_prefix (as_bytes ''='') rest of Some r \<Rightarrow> r | None \<Rightarrow> rest) in
              (case parse_i32 rest of
                 None \<Rightarrow> (Err EINVAL, st)
               | Some pid \<Rightarrow>
                   (let (rc, os) = h_kill h pid SIGKILL (ks_os st);
                        st = st\<lparr>ks_os := os\<rparr> in
                    if rc < 0 then (Err (from_errno rc), st)
                    else (Ok (), st\<lparr>ks_registry :=
                            filter (\<lambda>c. ct_pid c \<noteq> pid) (ks_registry st)\<rparr>))))
         | None \<Rightarrow>
             (case parse_run_line line of
                Err e \<Rightarrow> (Err e, st)
              | Ok (hostname, rootfs, argv, envp, flags) \<Rightarrow>
                  (let (res, st) = spawn h hostname rootfs argv envp flags False default_caps
                         False False [] [] [] None 0 0 default_proc_sys_mounts [] st in
                   (and_then res (\<lambda>_. Ok ()), st)))))"

text \<open>\<open>write_iter\<close>: a write is one command line of at most \<open>MAX_SPEC\<close> bytes.\<close>

definition write_iter ::
  "'os helper \<Rightarrow> u8 list \<Rightarrow> 'os kstate \<Rightarrow> (errno + nat) \<times> 'os kstate" where
  "write_iter h buf st =
     (if length buf > K_MAX_SPEC then (Err EINVAL, st)
      else (let (res, st) = handle_text_command h buf st in
            (and_then res (\<lambda>_. Ok (length buf)), st)))"

end
