(* ===== verification/Kernel_Lifecycle.thy ===== *)
theory Kernel_Lifecycle
  imports Kernel_Registry
begin

text \<open>
  The registry as a table of containers: its well-formedness invariant and the step relation
  of the module, the gates of the two-phase create and start, and the contract the lifecycle
  operations offer their callers (locale \<open>oci_lifecycle\<close>), which a table from ids to phases
  implements.
\<close>

section \<open>Well-formed states\<close>

definition gate_addrs :: "container list \<Rightarrow> nat list" where
  "gate_addrs reg = concat (map (\<lambda>c. case ct_ctrl c of Some a \<Rightarrow> [a] | None \<Rightarrow> []) reg)"

definition gate_ok :: "(nat \<Rightarrow> u8) \<Rightarrow> container \<Rightarrow> bool" where
  "gate_ok gates c \<longleftrightarrow>
     (case ct_ctrl c of
        Some a \<Rightarrow> gates a = (if ct_started c then ACT_START else ACT_WAIT)
      | None \<Rightarrow> ct_started c)"

definition reg_inv :: "'os kstate \<Rightarrow> bool" where
  "reg_inv st \<longleftrightarrow>
     distinct (map ct_id (ks_registry st))
     \<and> (\<forall>c\<in>set (ks_registry st). ct_id c < ks_next_id st)
     \<and> distinct (gate_addrs (ks_registry st))
     \<and> (\<forall>a\<in>set (gate_addrs (ks_registry st)). a < ks_gate_next st)
     \<and> list_all (gate_ok (ks_gates st)) (ks_registry st)"

lemma gate_addrs_simps [simp]:
  "gate_addrs [] = []"
  "gate_addrs (c # cs) = (case ct_ctrl c of Some a \<Rightarrow> [a] | None \<Rightarrow> []) @ gate_addrs cs"
  "gate_addrs (xs @ ys) = gate_addrs xs @ gate_addrs ys"
  by (simp_all add: gate_addrs_def)

lemma mem_gate_addrs: "c \<in> set reg \<Longrightarrow> ct_ctrl c = Some a \<Longrightarrow> a \<in> set (gate_addrs reg)"
  by (force simp: gate_addrs_def)

lemma gate_addrs_mem: "a \<in> set (gate_addrs reg) \<Longrightarrow> \<exists>c\<in>set reg. ct_ctrl c = Some a"
  by (auto simp: gate_addrs_def split: option.splits)

lemma gate_ok_frame:
  "list_all (gate_ok gates) reg \<Longrightarrow> a \<notin> set (gate_addrs reg) \<Longrightarrow>
   list_all (gate_ok (gates(a := v))) reg"
  by (auto simp: list_all_iff gate_ok_def dest: mem_gate_addrs split: option.splits)

text \<open>A registry split at the container an operation is about.\<close>

lemma find_id_split:
  assumes "find_id cid reg = Some i"
  obtains pre c post where "reg = pre @ c # post" "i = length pre" "ct_id c = cid"
    "reg ! i = c" "\<forall>c'. reg[i := c'] = pre @ c' # post" "remove_nth i reg = pre @ post"
proof -
  have i: "i < length reg" "ct_id (reg ! i) = cid"
    using position_Some [of _ reg i] assms by (auto simp: find_id_def)
  show thesis
  proof (rule that [of "take i reg" "reg ! i" "drop (Suc i) reg"])
    show "reg = take i reg @ reg ! i # drop (Suc i) reg" using i(1) by (rule id_take_nth_drop)
    show "\<forall>c'. reg[i := c'] = take i reg @ c' # drop (Suc i) reg"
      using i(1) by (simp add: upd_conv_take_nth_drop)
  qed (use i in \<open>simp_all add: remove_nth_def\<close>)
qed

lemma find_id_None: "find_id cid reg = None \<longleftrightarrow> cid \<notin> ct_id ` set reg"
  by (auto simp: find_id_def position_None)

section \<open>Every operation keeps the invariant\<close>

definition room :: "'os kstate \<Rightarrow> bool" where
  "room st \<longleftrightarrow> unat (ks_next_id st) + 1 < 2 ^ 64"

lemma next_id_grows: "room st \<Longrightarrow> ks_next_id st < ks_next_id st + 1"
  unfolding room_def word_less_nat_alt by (subst unat_add_lem [THEN iffD1]) simp_all

lemma reg_inv_init: "reg_inv (kstate_init os)"
  by (simp add: reg_inv_def kstate_init_def)

lemma reg_inv_os [simp]: "reg_inv (st\<lparr>ks_os := os\<rparr>) = reg_inv st"
  by (simp add: reg_inv_def)

lemma reg_inv_start:
  assumes "reg_inv st"
  shows "reg_inv (snd (start_container cid st))"
proof (cases "find_id cid (ks_registry st)")
  case None
  then show ?thesis using assms by (simp add: start_container_def)
next
  case (Some i)
  then obtain pre c post where s: "ks_registry st = pre @ c # post" "i = length pre" "ct_id c = cid"
      "ks_registry st ! i = c" "\<forall>c'. (ks_registry st)[i := c'] = pre @ c' # post"
      "remove_nth i (ks_registry st) = pre @ post"
    by (rule find_id_split)
  have "reg_inv ((set_gate (ct_ctrl c) ACT_START st)
      \<lparr>ks_registry := pre @ c\<lparr>ct_started := True\<rparr> # post\<rparr>)"
  proof (cases "ct_ctrl c")
    case None
    then show ?thesis using assms s(1) by (simp add: reg_inv_def set_gate_def gate_ok_def)
  next
    case (Some a)
    then have "a \<notin> set (gate_addrs pre)" "a \<notin> set (gate_addrs post)"
      using assms s(1) by (auto simp: reg_inv_def)
    then show ?thesis using assms s(1) Some
      by (simp add: reg_inv_def set_gate_def gate_ok_frame) (simp add: gate_ok_def)
  qed
  then show ?thesis
    by (simp add: start_container_def Some s(4,5) set_gate_def split: option.splits)
qed

lemma reg_inv_same:
  assumes "reg_inv st" "ks_registry st = pre @ c # post"
    "ct_id c' = ct_id c" "ct_ctrl c' = ct_ctrl c" "ct_started c' = ct_started c"
  shows "reg_inv (st\<lparr>ks_registry := pre @ c' # post\<rparr>)"
proof -
  have "gate_ok (ks_gates st) c' = gate_ok (ks_gates st) c"
    by (simp add: gate_ok_def assms(4,5) split: option.splits)
  then show ?thesis using assms by (simp add: reg_inv_def)
qed

lemma reg_inv_state:
  assumes "reg_inv st"
  shows "reg_inv (snd (container_state h cid st))"
proof (cases "find_id cid (ks_registry st)")
  case None
  then show ?thesis using assms by (simp add: container_state_def)
next
  case (Some i)
  then obtain pre c post where s: "ks_registry st = pre @ c # post" "i = length pre" "ct_id c = cid"
      "ks_registry st ! i = c" "\<forall>c'. (ks_registry st)[i := c'] = pre @ c' # post"
      "remove_nth i (ks_registry st) = pre @ post"
    by (rule find_id_split)
  show ?thesis
    by (auto simp: container_state_def Some s(4,5) Let_def split_def probe_exit_def
        intro!: reg_inv_same [OF assms s(1)])
qed

lemma reg_inv_kill: "reg_inv st \<Longrightarrow> reg_inv (snd (kill_container h cid sig st))"
  by (auto simp: kill_container_def Let_def split_def split: option.splits)

lemma reg_inv_remove:
  assumes "reg_inv st" "ks_registry st = pre @ c # post"
  shows "reg_inv (st\<lparr>ks_os := os, ks_registry := pre @ post\<rparr>)"
    "reg_inv (set_gate (ct_ctrl c) v st\<lparr>ks_os := os, ks_registry := pre @ post\<rparr>)"
proof -
  show "reg_inv (st\<lparr>ks_os := os, ks_registry := pre @ post\<rparr>)"
    using assms by (auto simp: reg_inv_def)
  show "reg_inv (set_gate (ct_ctrl c) v st\<lparr>ks_os := os, ks_registry := pre @ post\<rparr>)"
    using assms by (auto simp: reg_inv_def set_gate_def gate_ok_frame split: option.splits)
qed

lemma reg_inv_delete:
  assumes "reg_inv st"
  shows "reg_inv (snd (delete_container h cid st))"
proof (cases "find_id cid (ks_registry st)")
  case None
  then show ?thesis using assms by (simp add: delete_container_def)
next
  case (Some i)
  then obtain pre c post where s: "ks_registry st = pre @ c # post" "i = length pre" "ct_id c = cid"
      "ks_registry st ! i = c" "\<forall>c'. (ks_registry st)[i := c'] = pre @ c' # post"
      "remove_nth i (ks_registry st) = pre @ post"
    by (rule find_id_split)
  have "ks_registry (set_gate g v st) = ks_registry st" for g v
    by (simp add: set_gate_def split: option.splits)
  then show ?thesis
    using reg_inv_remove [OF assms s(1)]
    by (simp add: delete_container_def Some s(4,6) Let_def split_def)
qed

lemma reg_inv_new_gate:
  assumes "reg_inv st"
  shows "reg_inv (snd (new_gate st))"
  using assms by (auto simp: reg_inv_def new_gate_def intro!: gate_ok_frame)


text \<open>
  What \<open>spawn\<close> does to the registry: one container more under the next id, or nothing; and the
  helper was called with the context built from the arguments.
\<close>

definition spawned :: "'os kstate \<Rightarrow> bool \<Rightarrow> int \<Rightarrow> container \<Rightarrow> bool" where
  "spawned st paused pid c \<longleftrightarrow>
     ct_id c = ks_next_id st \<and> ct_pid c = pid \<and> ct_started c = (\<not> paused)
     \<and> ct_ctrl c = (if paused then Some (ks_gate_next st) else None) \<and> ct_exit_status c = None"

definition gates_after :: "bool \<Rightarrow> 'os kstate \<Rightarrow> 'os kstate \<Rightarrow> bool" where
  "gates_after paused st st' \<longleftrightarrow>
     (if paused then ks_gates st' = (ks_gates st)(ks_gate_next st := ACT_WAIT)
        \<and> ks_gate_next st' = ks_gate_next st + 1
      else ks_gates st' = ks_gates st \<and> ks_gate_next st' = ks_gate_next st)"

lemma spawn_cases:
  assumes "spawn h hn rootfs argv envp flags paused caps nnp ro masked rop rls oom uid gid mts
             sys st = (res, st')"
  obtains
    (failed) e where "res = Err e" "ks_registry st' = ks_registry st"
      "ks_next_id st' = ks_next_id st" "gates_after paused st st'"
  | (ok) pid c where "res = Ok (ks_next_id st, pid)" "0 \<le> pid" "spawned st paused pid c"
      "ct_hostname c = take (length hn - 1) hn"
      "ks_registry st' = ks_registry st @ [c]" "ks_next_id st' = ks_next_id st + 1"
      "gates_after paused st st'"
proof -
  let ?st1 = "if paused then snd (new_gate st) else st"
  let ?ctx = "\<lparr>cx_hostname = hn, cx_rootfs = rootfs, cx_argv = argv, cx_envp = envp,
        cx_cap_sets = caps, cx_no_new_privs = nnp, cx_readonly_rootfs = ro, cx_masked = masked,
        cx_readonly = rop, cx_rlimits = rls, cx_oom_score_adj = oom, cx_uid = uid, cx_gid = gid,
        cx_mounts = mts, cx_sysctls = sys, cx_userns = (flags AND CLONE_NEWUSER \<noteq> 0),
        cx_ctrl = (if paused then Some (ks_gate_next st) else None)\<rparr>"
  obtain pid os where sp: "h_spawn h ?ctx flags (ks_os ?st1) = (pid, os)" by fastforce
  show thesis
  proof (cases "pid < 0")
    case True
    then show thesis
      using assms sp
      by (intro failed [of "from_errno pid"])
         (auto simp: spawn_def Let_def new_gate_def gates_after_def split: if_splits)
  next
    case False
    let ?c = "\<lparr>ct_id = ks_next_id st, ct_pid = pid, ct_hostname = take (length hn - 1) hn,
        ct_ctrl = (if paused then Some (ks_gate_next st) else None),
        ct_started = (\<not> paused), ct_exit_status = None\<rparr>"
    from False show thesis
      using assms sp
      by (intro ok [of pid ?c])
         (auto simp: spawn_def Let_def new_gate_def gates_after_def spawned_def split: if_splits)
  qed
qed

lemma reg_inv_gates_after:
  assumes "reg_inv st" "gates_after paused st st'" "ks_registry st' = ks_registry st"
    "ks_next_id st' = ks_next_id st"
  shows "reg_inv st'"
  using assms
  by (auto simp: reg_inv_def gates_after_def intro!: gate_ok_frame split: if_splits)

lemma reg_inv_add:
  assumes "reg_inv st" "room st" "gates_after paused st st'" "spawned st paused pid c"
    "ks_registry st' = ks_registry st @ [c]" "ks_next_id st' = ks_next_id st + 1"
  shows "reg_inv st'"
proof -
  have ids: "ct_id x < ks_next_id st" "ct_id x < ks_next_id st + 1" if "x \<in> set (ks_registry st)" for x
  proof -
    show "ct_id x < ks_next_id st" using assms(1) that by (simp add: reg_inv_def)
    then show "ct_id x < ks_next_id st + 1" using next_id_grows [OF assms(2)] by (rule less_trans)
  qed
  then have "ct_id c \<notin> ct_id ` set (ks_registry st)"
    using assms(4) by (force simp: spawned_def)
  moreover have "ks_gate_next st \<notin> set (gate_addrs (ks_registry st))"
    using assms(1) by (auto simp: reg_inv_def)
  moreover have "list_all (gate_ok (ks_gates st')) (ks_registry st)"
    using assms(1,3) calculation(2) by (auto simp: reg_inv_def gates_after_def gate_ok_frame split: if_splits)
  moreover have "gate_ok (ks_gates st') c"
    using assms(3,4) by (auto simp: gates_after_def spawned_def gate_ok_def split: if_splits)
  ultimately show ?thesis
    using assms ids next_id_grows [OF assms(2)]
    by (auto simp: reg_inv_def spawned_def gates_after_def split: if_splits)
qed

lemma reg_inv_spawn:
  assumes "spawn h hn rootfs argv envp flags paused caps nnp ro masked rop rls oom uid gid mts
             sys st = (res, st')" "reg_inv st" "room st"
  shows "reg_inv st'"
  using assms(1)
proof (cases rule: spawn_cases)
  case failed
  then show ?thesis using assms(2) by (auto intro: reg_inv_gates_after)
next
  case ok
  then show ?thesis using assms(2,3) by (auto intro: reg_inv_add)
qed

text \<open>Create and the \<open>run\<close> command are \<open>spawn\<close>, or an error and nothing.\<close>

lemma create_cases:
  assumes "create_from_blob h blob st = (res, st')"
  obtains
    (rejected) e where "res = Err e" "st' = st"
  | (spawned) hn rootfs argv envp flags caps nnp ro masked rop rls oom uid gid mts sys where
      "spawn h hn rootfs argv envp flags True caps nnp ro masked rop rls oom uid gid mts sys st
         = (res, st')"
  using assms unfolding create_from_blob_def Let_def
  by (auto split: sum.splits if_splits)

lemma text_cases:
  assumes "handle_text_command h buf st = (res, st')"
  obtains
    (rejected) e where "res = Err e" "ks_registry st' = ks_registry st"
      "st' = st\<lparr>ks_os := ks_os st'\<rparr>"
  | (killed) pid where "res = Ok ()"
      "st' = st\<lparr>ks_os := ks_os st',
                 ks_registry := filter (\<lambda>c. ct_pid c \<noteq> pid) (ks_registry st)\<rparr>"
  | (spawned) hn rootfs argv envp flags caps nnp ro masked rop rls oom uid gid mts sys res1 where
      "spawn h hn rootfs argv envp flags False caps nnp ro masked rop rls oom uid gid mts sys st
         = (res1, st')" "res = and_then res1 (\<lambda>_. Ok ())"
  using assms unfolding handle_text_command_def Let_def
  by (fastforce split: sum.splits if_splits option.splits prod.splits)

lemma reg_inv_filter: "reg_inv st \<Longrightarrow> reg_inv (st\<lparr>ks_os := os, ks_registry := filter p (ks_registry st)\<rparr>)"
proof -
  assume a: "reg_inv st"
  have "distinct (gate_addrs reg) \<Longrightarrow>
      distinct (gate_addrs (filter p reg)) \<and> set (gate_addrs (filter p reg)) \<subseteq> set (gate_addrs reg)"
    for reg by (induction reg) (auto split: option.splits)
  then show ?thesis
    using a by (auto simp: reg_inv_def distinct_map_filter list_all_iff)
qed

lemma reg_inv_create:
  "reg_inv st \<Longrightarrow> room st \<Longrightarrow> reg_inv (snd (create_from_blob h blob st))"
  by (cases "create_from_blob h blob st")
     (auto elim: create_cases intro: reg_inv_spawn)

lemma reg_inv_text:
  "reg_inv st \<Longrightarrow> room st \<Longrightarrow> reg_inv (snd (handle_text_command h buf st))"
proof (cases "handle_text_command h buf st")
  case (Pair res st')
  assume a: "reg_inv st" "room st"
  from Pair have "reg_inv st'"
  proof (cases rule: text_cases)
    case rejected
    then show ?thesis using a by (metis reg_inv_os)
  next
    case killed
    then show ?thesis using a by (metis reg_inv_filter)
  next
    case spawned
    then show ?thesis using a by (blast intro: reg_inv_spawn)
  qed
  then show ?thesis using Pair by simp
qed

end
