(* ===== verification/Kernel_Gate.thy ===== *)
theory Kernel_Gate
  imports Kernel_Lifecycle
begin

text \<open>
  The module as a transition system, and the gate between \<open>create\<close> and \<open>start\<close>: who moves it,
  that it moves once, and what the polling loop at the head of \<open>container_entry\<close> therefore
  observes.
\<close>

section \<open>Steps of the module\<close>

text \<open>
  One step is one request to the device, or the rest of the kernel moving the operating
  system to any state whatever. The registry mutex makes requests atomic.
\<close>

datatype 'os kop =
    KCreate "u8 list"
  | KText "u8 list"
  | KStart u64
  | KState u64
  | KKill u64 int
  | KDelete u64
  | KEnv 'os

fun apply_op :: "'os helper \<Rightarrow> 'os kop \<Rightarrow> 'os kstate \<Rightarrow> 'os kstate" where
  "apply_op h (KCreate blob) st = snd (create_from_blob h blob st)"
| "apply_op h (KText buf) st = snd (handle_text_command h buf st)"
| "apply_op h (KStart cid) st = snd (start_container cid st)"
| "apply_op h (KState cid) st = snd (container_state h cid st)"
| "apply_op h (KKill cid sig) st = snd (kill_container h cid sig st)"
| "apply_op h (KDelete cid) st = snd (delete_container h cid st)"
| "apply_op h (KEnv os) st = st\<lparr>ks_os := os\<rparr>"

inductive kstep :: "'os helper \<Rightarrow> 'os kop \<Rightarrow> 'os kstate \<Rightarrow> 'os kstate \<Rightarrow> bool" for h where
  "room st \<Longrightarrow> kstep h op st (apply_op h op st)"

inductive_cases kstepE: "kstep h op st st'"

inductive reachable :: "'os helper \<Rightarrow> 'os kstate \<Rightarrow> bool" for h where
  reach_init: "reachable h (kstate_init os)"
| reach_step: "reachable h st \<Longrightarrow> kstep h op st st' \<Longrightarrow> reachable h st'"

lemma reg_inv_op: "reg_inv st \<Longrightarrow> room st \<Longrightarrow> reg_inv (apply_op h op st)"
  by (cases op) (simp_all add: reg_inv_create reg_inv_text reg_inv_start reg_inv_state
      reg_inv_kill reg_inv_delete)

lemma reg_inv_kstep: "kstep h op st st' \<Longrightarrow> reg_inv st \<Longrightarrow> reg_inv st'"
  by (auto elim!: kstepE intro: reg_inv_op)

lemma reachable_inv: "reachable h st \<Longrightarrow> reg_inv st"
  by (induction rule: reachable.induct) (auto intro: reg_inv_init reg_inv_kstep)

section \<open>Who moves a gate\<close>

definition owns_gate :: "container list \<Rightarrow> u64 \<Rightarrow> nat \<Rightarrow> bool" where
  "owns_gate reg cid a \<longleftrightarrow> (\<exists>c\<in>set reg. ct_id c = cid \<and> ct_ctrl c = Some a)"

lemma gates_set_gate: "ks_gates (set_gate ctrl v st) =
   (case ctrl of Some a \<Rightarrow> (ks_gates st)(a := v) | None \<Rightarrow> ks_gates st)"
  by (simp add: set_gate_def split: option.splits)

lemma owns_gate_split:
  assumes "reg = pre @ c # post" "ct_id c = cid" "distinct (map ct_id reg)"
  shows "owns_gate reg cid a \<longleftrightarrow> ct_ctrl c = Some a"
proof -
  have "ct_id x \<noteq> cid" if "x \<in> set pre \<union> set post" for x
    using assms that by (force simp: image_iff)
  then show ?thesis using assms(1,2) by (auto simp: owns_gate_def)
qed

lemma gates_start:
  assumes "reg_inv st"
  shows "ks_gates (snd (start_container cid st)) a =
    (if owns_gate (ks_registry st) cid a then ACT_START else ks_gates st a)"
proof (cases "find_id cid (ks_registry st)")
  case None
  then show ?thesis
    using find_id_None [of cid "ks_registry st"] by (auto simp: start_container_def owns_gate_def)
next
  case (Some i)
  then obtain pre c post where s: "ks_registry st = pre @ c # post" "i = length pre" "ct_id c = cid"
      "ks_registry st ! i = c" "\<forall>c'. (ks_registry st)[i := c'] = pre @ c' # post"
      "remove_nth i (ks_registry st) = pre @ post"
    by (rule find_id_split)
  have "owns_gate (ks_registry st) cid a \<longleftrightarrow> ct_ctrl c = Some a"
    using assms by (intro owns_gate_split [OF s(1,3)]) (simp add: reg_inv_def)
  then show ?thesis
    by (simp add: start_container_def Some s(4) Let_def gates_set_gate split: option.splits)
qed

lemma gates_delete:
  assumes "reg_inv st"
  shows "ks_gates (snd (delete_container h cid st)) a =
    (if owns_gate (ks_registry st) cid a \<and> ks_gates st a = ACT_WAIT then ACT_DOOM
     else ks_gates st a)"
proof (cases "find_id cid (ks_registry st)")
  case None
  then have "\<not> owns_gate (ks_registry st) cid a"
    using find_id_None [of cid "ks_registry st"] by (auto simp: owns_gate_def)
  with None show ?thesis by (simp add: delete_container_def)
next
  case (Some i)
  then obtain pre c post where s: "ks_registry st = pre @ c # post" "i = length pre" "ct_id c = cid"
      "ks_registry st ! i = c" "\<forall>c'. (ks_registry st)[i := c'] = pre @ c' # post"
      "remove_nth i (ks_registry st) = pre @ post"
    by (rule find_id_split)
  have own: "owns_gate (ks_registry st) cid a \<longleftrightarrow> ct_ctrl c = Some a"
    using assms by (intro owns_gate_split [OF s(1,3)]) (simp add: reg_inv_def)
  have "gate_ok (ks_gates st) c" using assms s(1) by (simp add: reg_inv_def)
  then show ?thesis
    by (auto simp: delete_container_def Some s(4) gates_set_gate own gate_ok_def act_defs
        Let_def split_def split: option.splits)
qed

lemma gates_spawn:
  assumes "spawn h hn rootfs argv envp flags paused caps nnp ro masked rop rls oom uid gid mts
             sys st = (res, st')" "a < ks_gate_next st"
  shows "ks_gates st' a = ks_gates st a" "ks_gate_next st \<le> ks_gate_next st'"
  using assms(1)
  by (cases rule: spawn_cases; use assms(2) in \<open>auto simp: gates_after_def split: if_splits\<close>)+

text \<open>Every step, and what it does to a gate that exists.\<close>

lemma gates_op:
  assumes "reg_inv st" "a < ks_gate_next st"
  shows "ks_gates (apply_op h op st) a =
    (case op of
       KStart cid \<Rightarrow> if owns_gate (ks_registry st) cid a then ACT_START else ks_gates st a
     | KDelete cid \<Rightarrow>
         if owns_gate (ks_registry st) cid a \<and> ks_gates st a = ACT_WAIT then ACT_DOOM
         else ks_gates st a
     | _ \<Rightarrow> ks_gates st a)"
proof (cases op)
  case (KCreate blob)
  obtain res st' where r: "create_from_blob h blob st = (res, st')" by fastforce
  then have "ks_gates st' a = ks_gates st a"
    by (cases rule: create_cases) (use assms(2) in \<open>auto dest: gates_spawn\<close>)
  then show ?thesis using KCreate r by simp
next
  case (KText buf)
  obtain res st' where r: "handle_text_command h buf st = (res, st')" by fastforce
  then have "ks_gates st' a = ks_gates st a"
  proof (cases rule: text_cases)
    case (rejected e)
    show ?thesis by (subst rejected(3)) simp
  next
    case (killed pid)
    show ?thesis by (subst killed(2)) simp
  next
    case spawned
    then show ?thesis using assms(2) by (blast dest: gates_spawn)
  qed
  then show ?thesis using KText r by simp
next
  case (KState cid)
  then show ?thesis
    by (simp add: container_state_def Let_def split_def split: option.splits)
next
  case (KKill cid sig)
  then show ?thesis
    by (simp add: kill_container_def Let_def split_def split: option.splits)
qed (simp_all add: gates_start gates_delete assms(1))

lemma gate_next_op: "ks_gate_next st \<le> ks_gate_next (apply_op h op st)"
proof (cases op)
  case (KCreate blob)
  obtain res st' where r: "create_from_blob h blob st = (res, st')" by fastforce
  then have "ks_gate_next st \<le> ks_gate_next st'"
    by (cases rule: create_cases) (auto elim!: spawn_cases simp: gates_after_def split: if_splits)
  then show ?thesis using KCreate r by simp
next
  case (KText buf)
  obtain res st' where r: "handle_text_command h buf st = (res, st')" by fastforce
  then have "ks_gate_next st \<le> ks_gate_next st'"
  proof (cases rule: text_cases)
    case (rejected e)
    show ?thesis by (subst rejected(3)) simp
  next
    case (killed pid)
    show ?thesis by (subst killed(2)) simp
  next
    case spawned
    then show ?thesis by (auto elim!: spawn_cases simp: gates_after_def split: if_splits)
  qed
  then show ?thesis using KText r by simp
qed (auto simp: start_container_def container_state_def kill_container_def delete_container_def
    set_gate_def Let_def split_def split: option.splits)

section \<open>Infinite runs and the polling loop\<close>

definition run_of :: "'os helper \<Rightarrow> (nat \<Rightarrow> 'os kop) \<Rightarrow> (nat \<Rightarrow> 'os kstate) \<Rightarrow> bool" where
  "run_of h ops \<sigma> \<longleftrightarrow> reg_inv (\<sigma> 0) \<and> (\<forall>n. kstep h (ops n) (\<sigma> n) (\<sigma> (Suc n)))"

lemma run_step: "run_of h ops \<sigma> \<Longrightarrow> \<sigma> (Suc n) = apply_op h (ops n) (\<sigma> n) \<and> room (\<sigma> n)"
  by (auto simp: run_of_def elim: kstepE)

lemma run_inv: "run_of h ops \<sigma> \<Longrightarrow> reg_inv (\<sigma> n)"
  by (induction n) (auto simp: run_of_def dest: spec intro: reg_inv_kstep)

lemma run_gate_next: "run_of h ops \<sigma> \<Longrightarrow> m \<le> n \<Longrightarrow> ks_gate_next (\<sigma> m) \<le> ks_gate_next (\<sigma> n)"
  by (rule lift_Suc_mono_le) (simp_all add: run_step gate_next_op)

text \<open>
  The loop in \<open>container_entry\<close>: \<open>load i\<close> is the value of the \<open>i\<close>-th load of \<open>action\<close>; the
  result is whether the container is doomed, and no result is a loop that never ends.
\<close>

partial_function (option) gate_poll :: "(nat \<Rightarrow> u8) \<Rightarrow> nat \<Rightarrow> bool option" where
  "gate_poll load i =
     (if load i = ACT_WAIT then gate_poll load (i + 1)
      else if load i = ACT_DOOM then Some True
      else Some False)"

lemma gate_poll_Some:
  "gate_poll load i = Some b \<Longrightarrow>
   \<exists>j\<ge>i. load j \<noteq> ACT_WAIT \<and> b = (load j = ACT_DOOM) \<and> (\<forall>k. i \<le> k \<and> k < j \<longrightarrow> load k = ACT_WAIT)"
proof (rule gate_poll.raw_induct [of "\<lambda>load i b. \<exists>j\<ge>i. load j \<noteq> ACT_WAIT \<and> b = (load j = ACT_DOOM)
    \<and> (\<forall>k. i \<le> k \<and> k < j \<longrightarrow> load k = ACT_WAIT)"])
  fix gp and load :: "nat \<Rightarrow> u8" and i b
  assume IH: "\<And>load i b. gp load i = Some b \<Longrightarrow> \<exists>j\<ge>i. load j \<noteq> ACT_WAIT
      \<and> b = (load j = ACT_DOOM) \<and> (\<forall>k. i \<le> k \<and> k < j \<longrightarrow> load k = ACT_WAIT)"
    and body: "(if load i = ACT_WAIT then gp load (i + 1)
      else if load i = ACT_DOOM then Some True else Some False) = Some b"
  show "\<exists>j\<ge>i. load j \<noteq> ACT_WAIT \<and> b = (load j = ACT_DOOM)
      \<and> (\<forall>k. i \<le> k \<and> k < j \<longrightarrow> load k = ACT_WAIT)"
  proof (cases "load i = ACT_WAIT")
    case True
    then obtain j where j: "i + 1 \<le> j" "load j \<noteq> ACT_WAIT" "b = (load j = ACT_DOOM)"
        "\<forall>k. i + 1 \<le> k \<and> k < j \<longrightarrow> load k = ACT_WAIT"
      using IH body by (metis (lifting))
    have "load k = ACT_WAIT" if "i \<le> k" "k < j" for k
      using j(4) that True by (cases "k = i") auto
    then show ?thesis using j by (intro exI [of _ j]) simp
  next
    case False
    then show ?thesis using body by (intro exI [of _ i]) (auto split: if_splits)
  qed
qed

lemma gate_poll_returns: "load (i + d) \<noteq> ACT_WAIT \<Longrightarrow> \<exists>b. gate_poll load i = Some b"
proof (induction d arbitrary: i)
  case 0
  then have "gate_poll load i = Some (load i = ACT_DOOM)" by (subst gate_poll.simps) simp
  then show ?case ..
next
  case (Suc d)
  then have "\<exists>b. gate_poll load (i + 1) = Some b" by simp
  then show ?case by (subst gate_poll.simps) auto
qed

lemma gate_poll_forever: "\<forall>j\<ge>i. load j = ACT_WAIT \<Longrightarrow> gate_poll load i = None"
  using gate_poll_Some by (metis not_None_eq)

section \<open>Gates along a run\<close>

lemma owned_gate_exists: "reg_inv st \<Longrightarrow> owns_gate (ks_registry st) cid a \<Longrightarrow> a < ks_gate_next st"
  by (auto simp: reg_inv_def owns_gate_def dest: mem_gate_addrs)

lemma distinct_gate_owner:
  "distinct (gate_addrs reg) \<Longrightarrow> c \<in> set reg \<Longrightarrow> c' \<in> set reg \<Longrightarrow>
   ct_ctrl c = Some a \<Longrightarrow> ct_ctrl c' = Some a \<Longrightarrow> c = c'"
  by (induction reg) (auto dest: mem_gate_addrs)

lemma owner_unique:
  "reg_inv st \<Longrightarrow> owns_gate (ks_registry st) cid a \<Longrightarrow> owns_gate (ks_registry st) cid' a \<Longrightarrow> cid = cid'"
  by (auto simp: reg_inv_def owns_gate_def dest: distinct_gate_owner)

lemma owned_not_doomed:
  "reg_inv st \<Longrightarrow> owns_gate (ks_registry st) cid a \<Longrightarrow> ks_gates st a \<in> {ACT_WAIT, ACT_START}"
  by (fastforce simp: reg_inv_def owns_gate_def list_all_iff gate_ok_def split: if_splits)

lemma gate_step:
  assumes "reg_inv st" "a < ks_gate_next st"
  shows "ks_gates (apply_op h op st) a = ks_gates st a \<or>
    ks_gates st a = ACT_WAIT \<and> (\<exists>cid. owns_gate (ks_registry st) cid a
      \<and> (op = KStart cid \<and> ks_gates (apply_op h op st) a = ACT_START
         \<or> op = KDelete cid \<and> ks_gates (apply_op h op st) a = ACT_DOOM))"
  using gates_op [OF assms, of h op] owned_not_doomed [OF assms(1), of _ a]
  by (cases op) (force split: if_splits)+

lemma gate_final:
  assumes "run_of h ops \<sigma>" "a < ks_gate_next (\<sigma> n)" "ks_gates (\<sigma> n) a \<noteq> ACT_WAIT" "n \<le> m"
  shows "ks_gates (\<sigma> m) a = ks_gates (\<sigma> n) a"
  using assms(4)
proof (induction m rule: dec_induct)
  case base
  show ?case ..
next
  case (step m)
  have "a < ks_gate_next (\<sigma> m)"
    using assms(2) run_gate_next [OF assms(1) step.hyps(1)] by simp
  then show ?case
    using gate_step [OF run_inv [OF assms(1), of m], of a h "ops m"] run_step [OF assms(1), of m]
      step.IH assms(3) by auto
qed

text \<open>A step keeps the owner of an existing gate or removes it; it never gives it another.\<close>

lemma owner_update:
  assumes "owns_gate (reg[i := c']) cid a" "find_id j reg = Some i"
    "ct_id c' = ct_id (reg ! i)" "ct_ctrl c' = ct_ctrl (reg ! i)"
  shows "owns_gate reg cid a"
proof -
  have "reg ! i \<in> set reg" using assms(2) by (auto simp: find_id_def dest: position_Some)
  then show ?thesis
    using assms(1,3,4)
    by (auto simp: owns_gate_def dest!: set_update_subset_insert [THEN subsetD])
qed

lemma owner_remove: "owns_gate (remove_nth i reg) cid a \<Longrightarrow> owns_gate reg cid a"
  by (auto simp: owns_gate_def remove_nth_def dest: in_set_takeD in_set_dropD)

lemma owner_spawn:
  assumes "spawn h hn rootfs argv envp flags paused caps nnp ro masked rop rls oom uid gid mts
             sys st = (res, st')" "a < ks_gate_next st" "owns_gate (ks_registry st') cid a"
  shows "owns_gate (ks_registry st) cid a"
  using assms(1)
  by (cases rule: spawn_cases; use assms(2,3) in \<open>auto simp: owns_gate_def spawned_def split: if_splits\<close>)

lemma registry_set_gate [simp]: "ks_registry (set_gate g v st) = ks_registry st"
  by (simp add: set_gate_def split: option.splits)

lemma owner_op:
  assumes "a < ks_gate_next st" "owns_gate (ks_registry (apply_op h op st)) cid a"
  shows "owns_gate (ks_registry st) cid a"
proof (cases op)
  case (KCreate blob)
  obtain res st' where r: "create_from_blob h blob st = (res, st')" by fastforce
  then show ?thesis
    by (cases rule: create_cases) (use assms KCreate r in \<open>auto dest: owner_spawn\<close>)
next
  case (KText buf)
  obtain res st' where r: "handle_text_command h buf st = (res, st')" by fastforce
  then show ?thesis
  proof (cases rule: text_cases)
    case rejected
    then show ?thesis using assms(2) KText r by simp
  next
    case (killed pid)
    have "ks_registry st' = filter (\<lambda>c. ct_pid c \<noteq> pid) (ks_registry st)"
      by (subst killed(2)) simp
    then show ?thesis using assms(2) KText r by (auto simp: owns_gate_def)
  next
    case spawned
    then show ?thesis using assms KText r by (auto dest: owner_spawn)
  qed
next
  case (KStart i)
  then show ?thesis
    using assms(2)
    by (auto simp: start_container_def Let_def split: option.splits intro: owner_update)
next
  case (KState i)
  then show ?thesis
    using assms(2)
    by (auto simp: container_state_def Let_def split_def
        split: option.splits if_splits intro: owner_update)
next
  case (KKill i sig)
  then show ?thesis
    using assms(2)
    by (simp add: kill_container_def Let_def split_def split: option.splits if_splits)
next
  case (KDelete i)
  then show ?thesis
    using assms(2)
    by (auto simp: delete_container_def Let_def split_def
        split: option.splits if_splits dest: owner_remove)
next
  case (KEnv os)
  then show ?thesis using assms(2) by simp
qed

lemma owner_run:
  assumes "run_of h ops \<sigma>" "a < ks_gate_next (\<sigma> n)" "n \<le> m" "owns_gate (ks_registry (\<sigma> m)) cid a"
  shows "owns_gate (ks_registry (\<sigma> n)) cid a"
  using assms(3,4)
proof (induction m rule: dec_induct)
  case base
  then show ?case .
next
  case (step m)
  have "a < ks_gate_next (\<sigma> m)"
    using assms(2) run_gate_next [OF assms(1) step.hyps(1)] by simp
  then show ?case
    using step.IH step.prems run_step [OF assms(1), of m] owner_op by metis
qed

text \<open>The first moment a gate leaves its initial state, and the request that moved it.\<close>

lemma gate_left:
  assumes run: "run_of h ops \<sigma>" and own: "owns_gate (ks_registry (\<sigma> 0)) cid a"
    and wait: "ks_gates (\<sigma> 0) a = ACT_WAIT" and left: "ks_gates (\<sigma> k) a \<noteq> ACT_WAIT"
  obtains n where "n < k" "\<forall>m<n. ops m \<noteq> KStart cid \<and> ops m \<noteq> KDelete cid"
    "ops n = KStart cid \<and> ks_gates (\<sigma> k) a = ACT_START
     \<or> ops n = KDelete cid \<and> ks_gates (\<sigma> k) a = ACT_DOOM"
proof -
  define l where "l = (LEAST k. ks_gates (\<sigma> k) a \<noteq> ACT_WAIT)"
  have l: "ks_gates (\<sigma> l) a \<noteq> ACT_WAIT" "l \<le> k"
    unfolding l_def by (rule LeastI, rule left, rule Least_le, rule left)
  have before: "ks_gates (\<sigma> m) a = ACT_WAIT" if "m < l" for m
    using not_less_Least that unfolding l_def by blast
  obtain n where n: "l = Suc n" using l(1) wait by (cases l) auto
  have ex: "a < ks_gate_next (\<sigma> m)" for m
    using owned_gate_exists [OF run_inv [OF run] own] run_gate_next [OF run, of 0 m] by simp
  have step: "\<sigma> (Suc m) = apply_op h (ops m) (\<sigma> m)" for m using run_step [OF run] by blast
  obtain cid' where c': "owns_gate (ks_registry (\<sigma> n)) cid' a"
      "ops n = KStart cid' \<and> ks_gates (\<sigma> l) a = ACT_START
       \<or> ops n = KDelete cid' \<and> ks_gates (\<sigma> l) a = ACT_DOOM"
    using gate_step [OF run_inv [OF run, of n] ex [of n], of h "ops n"] l(1) before [of n]
    by (auto simp: n step)
  have "cid' = cid"
    using owner_unique [OF run_inv [OF run] _ own] owner_run [OF run ex _ c'(1), of 0] by blast
  have own_at: "owns_gate (ks_registry (\<sigma> m)) cid a" if "m \<le> n" for m
    using owner_run [OF run ex that c'(1)] \<open>cid' = cid\<close> by simp
  have quiet: "ops m \<noteq> KStart cid \<and> ops m \<noteq> KDelete cid" if "m < n" for m
    using gates_op [OF run_inv [OF run, of m] ex [of m], of h "ops m"] own_at [of m] before [of "Suc m"]
      before [of m] that by (auto simp: n step act_defs)
  have "ks_gates (\<sigma> k) a = ks_gates (\<sigma> l) a"
    using gate_final [OF run ex l] .
  then show thesis
    using that [of n] quiet c'(2) l(2) \<open>cid' = cid\<close> by (auto simp: n)
qed

section \<open>Properties\<close>

text \<open>
C13 (well-formed registry). In every state the module can reach, by requests in any order and
with any behaviour of the system around it, container ids are distinct and below the next id,
no two containers share a gate, and a container's gate says exactly whether it was started.
\<close>

theorem registry_invariant:
  assumes "reachable h st"
  shows "reg_inv st"
  using assms by (rule reachable_inv)

definition quiet_helper :: "unit helper" where
  "quiet_helper = \<lparr>h_spawn = (\<lambda>ctx flags os. (7, os)), h_kill = (\<lambda>pid sig os. (0, os)),
     h_task_exit_status = (\<lambda>pid os. ((1, 0), os)), h_watch_pid = (\<lambda>pid os. (0, os)),
     h_unwatch_pid = (\<lambda>pid os. os), h_get_exit_code = (\<lambda>pid os. ((0, 0), os))\<rparr>"

definition one_created :: "unit kstate" where
  "one_created = \<lparr>ks_registry = [\<lparr>ct_id = 1, ct_pid = 7, ct_hostname = [0x61],
     ct_ctrl = Some 0, ct_started = False, ct_exit_status = None\<rparr>],
     ks_next_id = 2, ks_gates = (\<lambda>_. 0), ks_gate_next = 1, ks_os = ()\<rparr>"

lemma one_created_ok: "reg_inv one_created" "room one_created"
  "owns_gate (ks_registry one_created) 1 0" "ks_gates one_created 0 = ACT_WAIT"
  by (simp_all add: one_created_def reg_inv_def gate_ok_def room_def owns_gate_def act_defs)

theorem registry_invariant_witness: "reg_inv (snd (start_container 1 (kstate_init ())))"
proof -
  have "room (kstate_init ())" by (simp add: room_def kstate_init_def)
  then have "kstep quiet_helper (KStart 1) (kstate_init ()) (snd (start_container 1 (kstate_init ())))"
    using kstep.intros [of "kstate_init ()" quiet_helper "KStart 1"] by simp
  then have "reachable quiet_helper (snd (start_container 1 (kstate_init ())))"
    by (rule reach_step [OF reach_init])
  then show ?thesis by (rule registry_invariant)
qed

text \<open>
A gate moves once, and only for its container. In a well-formed state, which every
reachable one is, a request leaves every existing gate as it is, with two exceptions: the start of the container that owns a
waiting gate releases it, and its delete dooms it. So no interleaving of requests releases a
doomed container or dooms a released one.
\<close>

theorem gate_moves_once:
  assumes "reg_inv st" "kstep h op st st'" "a < ks_gate_next st"
  shows "ks_gates st' a = ks_gates st a \<or>
    ks_gates st a = ACT_WAIT \<and> (\<exists>cid. owns_gate (ks_registry st) cid a
      \<and> (op = KStart cid \<and> ks_gates st' a = ACT_START
         \<or> op = KDelete cid \<and> ks_gates st' a = ACT_DOOM))"
  using gate_step [OF assms(1,3), of h op] assms(2)
  by (auto elim!: kstepE)

text \<open>
C10 (no exec before start). The init task of a created container polls its gate. Whatever the
interleaving of requests with its polls, it proceeds to set up and exec only if its container
was started, and before any delete of it; and it exits as doomed only if its container was
deleted before any start.
\<close>

theorem exec_only_after_start:
  assumes "run_of h ops \<sigma>" "owns_gate (ks_registry (\<sigma> 0)) cid a" "ks_gates (\<sigma> 0) a = ACT_WAIT"
    and "gate_poll (\<lambda>i. ks_gates (\<sigma> (t i)) a) 0 = Some doomed"
  shows "\<exists>n. ops n = (if doomed then KDelete cid else KStart cid)
    \<and> (\<forall>m<n. ops m \<noteq> KStart cid \<and> ops m \<noteq> KDelete cid)"
proof -
  obtain j where j: "ks_gates (\<sigma> (t j)) a \<noteq> ACT_WAIT"
      "doomed = (ks_gates (\<sigma> (t j)) a = ACT_DOOM)"
    using gate_poll_Some [OF assms(4)] by blast
  show ?thesis
  proof (rule gate_left [OF assms(1-3) j(1)])
    fix n
    assume n: "\<forall>m<n. ops m \<noteq> KStart cid \<and> ops m \<noteq> KDelete cid"
      "ops n = KStart cid \<and> ks_gates (\<sigma> (t j)) a = ACT_START
       \<or> ops n = KDelete cid \<and> ks_gates (\<sigma> (t j)) a = ACT_DOOM"
    have "ops n = (if doomed then KDelete cid else KStart cid)"
      using n(2) j(2) by (auto simp: act_defs)
    with n(1) show ?thesis by blast
  qed
qed

text \<open>A run that makes one request and then leaves the module alone.\<close>

definition once :: "unit kop \<Rightarrow> nat \<Rightarrow> unit kop" where
  "once op n = (if n = 0 then op else KEnv ())"

definition once_states :: "unit kop \<Rightarrow> nat \<Rightarrow> unit kstate" where
  "once_states op n = (if n = 0 then one_created else apply_op quiet_helper op one_created)"

lemma once_run:
  assumes "room (apply_op quiet_helper op one_created)"
  shows "run_of quiet_helper (once op) (once_states op)"
proof -
  have "kstep quiet_helper (once op n) (once_states op n) (once_states op (Suc n))" for n
  proof (cases n)
    case 0
    then show ?thesis
      using kstep.intros [OF one_created_ok(2), of quiet_helper op] by (simp add: once_def once_states_def)
  next
    case (Suc k)
    have unit_os: "st\<lparr>ks_os := ()\<rparr> = st" for st :: "unit kstate" by simp
    show ?thesis
      using kstep.intros [OF assms, of quiet_helper "KEnv ()"] Suc
      by (simp add: once_def once_states_def unit_os)
  qed
  then show ?thesis by (simp add: run_of_def once_states_def one_created_ok)
qed

lemma start_one_created:
  "ks_gates (apply_op quiet_helper (KStart 1) one_created) 0 = ACT_START"
  "room (apply_op quiet_helper (KStart 1) one_created)"
  using one_created_ok
  by (simp_all add: gates_start) (simp add: start_container_def one_created_def find_id_def
      set_gate_def Let_def room_def)

theorem exec_only_after_start_witness:
  "\<exists>n. once (KStart 1) n = KStart 1 \<and> (\<forall>m<n. once (KStart 1) m \<noteq> KStart 1)"
proof -
  have run: "run_of quiet_helper (once (KStart 1)) (once_states (KStart 1))"
    by (rule once_run [OF start_one_created(2)])
  have "gate_poll (\<lambda>i. ks_gates (once_states (KStart 1) (Suc i)) 0) 0 = Some False"
    using start_one_created(1) by (subst gate_poll.simps) (simp add: once_states_def act_defs)
  from exec_only_after_start [OF run _ _ this, of 1] show ?thesis
    using one_created_ok by (auto simp: once_states_def)
qed

theorem gate_moves_once_witness:
  "ks_gates one_created 0 = ACT_WAIT \<and> ks_gates (apply_op quiet_helper (KStart 1) one_created) 0 = ACT_START"
proof -
  have "kstep quiet_helper (KStart 1) one_created (apply_op quiet_helper (KStart 1) one_created)"
    using one_created_ok(2) by (rule kstep.intros)
  from gate_moves_once [OF one_created_ok(1) this, of 0] show ?thesis
    using start_one_created(1) one_created_ok(4) by (auto simp: one_created_def)
qed

text \<open>
C37 (the gate is answered). A created container whose gate is polled again and again leaves
the polling loop as soon as its start or its delete has been handled: the loop returns.
\<close>

theorem gate_poll_terminates:
  assumes "run_of h ops \<sigma>" "owns_gate (ks_registry (\<sigma> n)) cid a"
    and "ops n = KStart cid \<or> ops n = KDelete cid" "\<forall>m. \<exists>i. m \<le> t i"
  shows "\<exists>doomed. gate_poll (\<lambda>i. ks_gates (\<sigma> (t i)) a) 0 = Some doomed"
proof -
  have ex: "a < ks_gate_next (\<sigma> n)"
    using owned_gate_exists [OF run_inv [OF assms(1)] assms(2)] .
  have "ks_gates (\<sigma> (Suc n)) a \<noteq> ACT_WAIT"
    using gates_op [OF run_inv [OF assms(1), of n] ex, of h "ops n"] run_step [OF assms(1), of n]
      assms(2,3) by (auto simp: act_defs split: if_splits)
  moreover obtain i where "Suc n \<le> t i" using assms(4) by blast
  moreover have "a < ks_gate_next (\<sigma> (Suc n))"
    using ex run_gate_next [OF assms(1), of n "Suc n"] by simp
  ultimately have "ks_gates (\<sigma> (t i)) a \<noteq> ACT_WAIT"
    using gate_final [OF assms(1)] by metis
  then show ?thesis using gate_poll_returns [of "\<lambda>i. ks_gates (\<sigma> (t i)) a" 0 i] by simp
qed

theorem gate_poll_terminates_witness:
  "\<exists>doomed. gate_poll (\<lambda>i. ks_gates (once_states (KDelete 1) i) 0) 0 = Some doomed"
proof (rule gate_poll_terminates [where t = "\<lambda>i. i"])
  have "room (apply_op quiet_helper (KDelete 1) one_created)"
    by (simp add: delete_container_def one_created_def find_id_def set_gate_def Let_def room_def
        quiet_helper_def)
  then show "run_of quiet_helper (once (KDelete 1)) (once_states (KDelete 1))" by (rule once_run)
  show "owns_gate (ks_registry (once_states (KDelete 1) 0)) 1 0"
    using one_created_ok by (simp add: once_states_def)
qed (auto simp: once_def)

text \<open>
C38 (killing a created container by the text command strands it). The text command \<open>kill <pid>\<close>
of a container that was created and not started removes it from the registry without touching
its gate. From then on no request finds the container, and its init task polls the gate for
ever: the loop never returns, whatever else is requested.
\<close>

theorem text_kill_strands_created:
  assumes "run_of h ops \<sigma>" "c \<in> set (ks_registry (\<sigma> 0))" "ct_ctrl c = Some a" "\<not> ct_started c"
    and "ops 0 = KText buf" "strip_prefix (as_bytes ''kill'') (trim buf) = Some rest"
    and "parse_i32 (case strip_prefix (as_bytes ''='') rest of Some r \<Rightarrow> r | None \<Rightarrow> rest) = Some (ct_pid c)"
    and "0 \<le> fst (h_kill h (ct_pid c) SIGKILL (ks_os (\<sigma> 0)))"
  shows "gate_poll (\<lambda>i. ks_gates (\<sigma> (t i)) a) 0 = None"
proof -
  note inv = run_inv [OF assms(1)]
  have own0: "owns_gate (ks_registry (\<sigma> 0)) (ct_id c) a"
    using assms(2,3) by (auto simp: owns_gate_def)
  have ex: "a < ks_gate_next (\<sigma> m)" for m
    using owned_gate_exists [OF inv own0] run_gate_next [OF assms(1), of 0 m] by simp
  have wait0: "ks_gates (\<sigma> 0) a = ACT_WAIT"
    using inv [of 0] assms(2-4) by (auto simp: reg_inv_def list_all_iff gate_ok_def)
  have "trim buf \<noteq> []" using assms(6) by (auto simp: strip_prefix_def as_bytes_def)
  then have reg1: "ks_registry (\<sigma> (Suc 0)) = filter (\<lambda>x. ct_pid x \<noteq> ct_pid c) (ks_registry (\<sigma> 0))"
    using run_step [OF assms(1), of 0] assms(5-8)
    by (simp add: handle_text_command_def Let_def split_def)
  have gone: "\<not> owns_gate (ks_registry (\<sigma> m)) cid a" if "1 \<le> m" for m cid
  proof
    assume "owns_gate (ks_registry (\<sigma> m)) cid a"
    then have "owns_gate (ks_registry (\<sigma> (Suc 0))) cid a"
      using owner_run [OF assms(1) ex that] by simp
    then obtain c' where "c' \<in> set (ks_registry (\<sigma> 0))" "ct_ctrl c' = Some a" "ct_pid c' \<noteq> ct_pid c"
      by (auto simp: owns_gate_def reg1)
    then show False
      using inv [of 0] assms(2,3) distinct_gate_owner by (fastforce simp: reg_inv_def)
  qed
  have "ks_gates (\<sigma> m) a = ACT_WAIT" for m
  proof (induction m)
    case 0
    show ?case by (rule wait0)
  next
    case (Suc m)
    have "m = 0 \<or> 1 \<le> m" by auto
    then show ?case
      using gate_step [OF inv [of m] ex [of m], of h "ops m"] run_step [OF assms(1), of m]
        gone [of m] Suc assms(5) by (elim disjE) auto
  qed
  then show ?thesis by (intro gate_poll_forever) simp
qed

theorem text_kill_strands_created_witness:
  "gate_poll (\<lambda>i. ks_gates (once_states (KText (as_bytes ''kill=7'')) i) 0) 0 = None"
proof -
  let ?buf = "as_bytes ''kill=7''"
  have trim: "trim ?buf = ?buf" by (simp add: trim_eq as_bytes_def is_ws_def)
  have kill: "strip_prefix (as_bytes ''kill'') (trim ?buf) = Some (as_bytes ''=7'')"
    unfolding trim by (simp add: strip_prefix_def as_bytes_def)
  have pid: "parse_i32 (case strip_prefix (as_bytes ''='') (as_bytes ''=7'') of
      Some r \<Rightarrow> r | None \<Rightarrow> as_bytes ''=7'') = Some 7"
    by (simp add: strip_prefix_def as_bytes_def parse_i32_def trim_eq is_ws_def is_ascii_digit_def
        checked_i64_def)
  have room: "room (apply_op quiet_helper (KText ?buf) one_created)"
    using trim kill pid
    by (simp add: handle_text_command_def Let_def split_def one_created_def room_def quiet_helper_def)
  show ?thesis
  proof (rule text_kill_strands_created [OF once_run [OF room] _ _ _ _ kill, where t = "\<lambda>i. i"])
    show "hd (ks_registry one_created) \<in> set (ks_registry (once_states (KText ?buf) 0))"
      by (simp add: once_states_def one_created_def)
    show "parse_i32 (case strip_prefix (as_bytes ''='') (as_bytes ''=7'') of
        Some r \<Rightarrow> r | None \<Rightarrow> as_bytes ''=7'') = Some (ct_pid (hd (ks_registry one_created)))"
      using pid by (simp add: one_created_def)
  qed (simp_all add: once_def one_created_def quiet_helper_def)
qed
end
