(* ===== verification/Kernel_Contract.thy ===== *)
theory Kernel_Contract
  imports Kernel_Gate
begin

text \<open>
  What the device promises the command-line runtime that drives it: the five lifecycle requests
  behave like operations on a table from ids to a phase and a pid. The promise is the locale
  \<open>lifecycle\<close>; what follows for any sequence of requests is proved in it once; the
  interpretation discharges its laws for the registry of \<open>module/krunc.rs\<close>.
\<close>

section \<open>Requests and the abstract table\<close>

type_synonym table = "u64 \<rightharpoonup> bool \<times> int"

datatype 'b request = Create_req 'b | Start_req u64 | State_req u64 | Kill_req u64 int | Delete_req u64

datatype reply = Created_as u64 int | Done | State_is u32 int int

text \<open>One request on the table: the replies it may get and the table after it.\<close>

fun table_step :: "'e \<Rightarrow> 'b request \<Rightarrow> table \<Rightarrow> 'e + reply \<Rightarrow> table \<Rightarrow> bool" where
  "table_step enoent (Create_req b) v r v' \<longleftrightarrow>
     (case r of Ok (Created_as i p) \<Rightarrow> v i = None \<and> v' = v(i \<mapsto> (False, p))
      | Ok _ \<Rightarrow> False | Err _ \<Rightarrow> v' = v)"
| "table_step enoent (Start_req i) v r v' \<longleftrightarrow>
     (case v i of None \<Rightarrow> r = Err enoent \<and> v' = v
      | Some (b, p) \<Rightarrow> r = Ok Done \<and> v' = v(i \<mapsto> (True, p)))"
| "table_step enoent (State_req i) v r v' \<longleftrightarrow>
     v' = v \<and> (case v i of None \<Rightarrow> r = Err enoent
      | Some (b, p) \<Rightarrow> \<exists>q w. r = Ok (State_is q p w) \<and> (q = ST_CREATED \<longleftrightarrow> \<not> b))"
| "table_step enoent (Kill_req i sig) v r v' \<longleftrightarrow>
     v' = v \<and> (case v i of None \<Rightarrow> r = Err enoent | Some _ \<Rightarrow> r = Ok Done \<or> (\<exists>e. r = Err e))"
| "table_step enoent (Delete_req i) v r v' \<longleftrightarrow>
     (case v i of None \<Rightarrow> r = Err enoent \<and> v' = v
      | Some _ \<Rightarrow> r = Ok Done \<and> v' = v(i := None))"

inductive table_run :: "'e \<Rightarrow> table \<Rightarrow> ('b request \<times> ('e + reply)) list \<Rightarrow> table \<Rightarrow> bool"
  for enoent where
  run_nil: "table_run enoent v [] v"
| run_cons: "table_step enoent q v r v1 \<Longrightarrow> table_run enoent v1 qs v2 \<Longrightarrow>
    table_run enoent v ((q, r) # qs) v2"

inductive_cases table_run_ConsE: "table_run enoent v ((q, r) # qs) v2"

section \<open>The contract\<close>

locale lifecycle =
  fixes ok :: "'s \<Rightarrow> bool" and view :: "'s \<Rightarrow> table" and used :: "'s \<Rightarrow> u64 set"
    and spare :: "'s \<Rightarrow> nat" and serve :: "'b request \<Rightarrow> 's \<Rightarrow> ('e + reply) \<times> 's"
    and enoent :: 'e
  assumes serve_step: "ok s \<Longrightarrow> 0 < spare s \<Longrightarrow> serve q s = (r, s') \<Longrightarrow>
      table_step enoent q (view s) r (view s')"
    and serve_ok: "ok s \<Longrightarrow> 0 < spare s \<Longrightarrow> serve q s = (r, s') \<Longrightarrow>
      ok s' \<and> spare s \<le> spare s' + 1 \<and> used s \<subseteq> used s'"
    and serve_fresh: "ok s \<Longrightarrow> 0 < spare s \<Longrightarrow> serve q s = (Ok (Created_as i p), s') \<Longrightarrow>
      i \<notin> used s"
    and view_used: "ok s \<Longrightarrow> dom (view s) \<subseteq> used s"
begin

fun serve_all :: "'b request list \<Rightarrow> 's \<Rightarrow> ('b request \<times> ('e + reply)) list \<times> 's" where
  "serve_all [] s = ([], s)"
| "serve_all (q # qs) s =
     (let (r, s1) = serve q s; (rs, s2) = serve_all qs s1 in ((q, r) # rs, s2))"

text \<open>Any sequence of requests is a run of the table.\<close>

lemma serve_all_refines:
  "ok s \<Longrightarrow> length qs \<le> spare s \<Longrightarrow> serve_all qs s = (rs, s') \<Longrightarrow>
   ok s' \<and> table_run enoent (view s) rs (view s')"
proof (induction qs arbitrary: s rs)
  case Nil
  then show ?case by (auto intro: run_nil)
next
  case (Cons q qs)
  obtain r s1 where q: "serve q s = (r, s1)" by fastforce
  obtain rs1 where rs: "serve_all qs s1 = (rs1, s')" "rs = (q, r) # rs1"
    using Cons.prems(3) q by (auto split: prod.splits)
  have "ok s1" "length qs \<le> spare s1"
    using serve_ok [OF Cons.prems(1) _ q] Cons.prems(2) by auto
  moreover have "table_step enoent q (view s) r (view s1)"
    using serve_step [OF Cons.prems(1) _ q] Cons.prems(2) by simp
  ultimately show ?case using Cons.IH [OF _ _ rs(1)] by (auto simp: rs(2) intro: run_cons)
qed

text \<open>
  An id that was used and is no longer in the table is gone for good: ids are not handed out
  twice.
\<close>

lemma gone_for_good:
  "ok s \<Longrightarrow> length qs \<le> spare s \<Longrightarrow> serve_all qs s = (rs, s') \<Longrightarrow> i \<in> used s \<Longrightarrow>
   view s i = None \<Longrightarrow> view s' i = None"
proof (induction qs arbitrary: s rs)
  case Nil
  then show ?case by simp
next
  case (Cons q qs)
  obtain r s1 where q: "serve q s = (r, s1)" by fastforce
  obtain rs1 where rs: "serve_all qs s1 = (rs1, s')"
    using Cons.prems(3) q by (auto split: prod.splits)
  have s1: "ok s1" "length qs \<le> spare s1" "i \<in> used s1"
    using serve_ok [OF Cons.prems(1) _ q] Cons.prems(2,4) by auto
  have "table_step enoent q (view s) r (view s1)"
    using serve_step [OF Cons.prems(1) _ q] Cons.prems(2) by simp
  moreover have "r \<noteq> Ok (Created_as i p)" for p
    using serve_fresh [OF Cons.prems(1), of q i p s1] q Cons.prems(2,4) by auto
  ultimately have "view s1 i = None"
    using Cons.prems(5)
    by (cases q) (auto split: sum.splits reply.splits option.splits)
  then show ?case using Cons.IH [OF s1(1,2) rs s1(3)] by blast
qed

end

section \<open>The registry keeps the contract\<close>

definition reg_view :: "container list \<Rightarrow> table" where
  "reg_view reg = map_of (map (\<lambda>c. (ct_id c, (ct_started c, ct_pid c))) reg)"

definition kernel_view :: "'os kstate \<Rightarrow> table" where
  "kernel_view st = reg_view (ks_registry st)"

definition used_ids :: "'os kstate \<Rightarrow> u64 set" where
  "used_ids st = {i. i < ks_next_id st}"

definition spare_ids :: "'os kstate \<Rightarrow> nat" where
  "spare_ids st = 2 ^ 64 - 1 - unat (ks_next_id st)"

fun kernel_serve :: "'os helper \<Rightarrow> u8 list request \<Rightarrow> 'os kstate \<Rightarrow> (errno + reply) \<times> 'os kstate" where
  "kernel_serve h (Create_req blob) st =
     (let (r, st) = create_from_blob h blob st in (and_then r (\<lambda>(i, p). Ok (Created_as i p)), st))"
| "kernel_serve h (Start_req i) st =
     (let (r, st) = start_container i st in (and_then r (\<lambda>_. Ok Done), st))"
| "kernel_serve h (State_req i) st =
     (let (r, st) = container_state h i st in (and_then r (\<lambda>(q, p, w). Ok (State_is q p w)), st))"
| "kernel_serve h (Kill_req i sig) st =
     (let (r, st) = kill_container h i sig st in (and_then r (\<lambda>_. Ok Done), st))"
| "kernel_serve h (Delete_req i) st =
     (let (r, st) = delete_container h i st in (and_then r (\<lambda>_. Ok Done), st))"

lemma spare_room: "0 < spare_ids st \<longleftrightarrow> room st"
  unfolding spare_ids_def room_def by auto

lemma reg_view_simps [simp]:
  "reg_view [] = Map.empty"
  "reg_view (c # cs) = (reg_view cs)(ct_id c \<mapsto> (ct_started c, ct_pid c))"
  by (simp_all add: reg_view_def)

lemma reg_view_append: "reg_view (xs @ ys) = reg_view ys ++ reg_view xs"
  by (simp add: reg_view_def)

lemma reg_view_None: "reg_view reg i = None \<longleftrightarrow> i \<notin> ct_id ` set reg"
  by (simp add: reg_view_def map_of_eq_None_iff image_image)

lemma reg_view_split:
  assumes "distinct (map ct_id (pre @ c # post))"
  shows "reg_view (pre @ c # post) (ct_id c) = Some (ct_started c, ct_pid c)"
    "ct_id c' = ct_id c \<Longrightarrow> reg_view (pre @ c' # post) =
       (reg_view (pre @ c # post))(ct_id c \<mapsto> (ct_started c', ct_pid c'))"
    "reg_view (pre @ post) = (reg_view (pre @ c # post))(ct_id c := None)"
proof -
  have pre: "reg_view pre (ct_id c) = None" and post: "reg_view post (ct_id c) = None"
    using assms by (auto simp: reg_view_None)
  show "reg_view (pre @ c # post) (ct_id c) = Some (ct_started c, ct_pid c)"
    using pre by (simp add: reg_view_append map_add_def)
  show "reg_view (pre @ c' # post) =
      (reg_view (pre @ c # post))(ct_id c \<mapsto> (ct_started c', ct_pid c'))"
    if "ct_id c' = ct_id c"
    using pre that by (auto simp: reg_view_append map_add_def fun_eq_iff split: option.splits)
  show "reg_view (pre @ post) = (reg_view (pre @ c # post))(ct_id c := None)"
    using pre post by (auto simp: reg_view_append map_add_def fun_eq_iff split: option.splits)
qed

text \<open>A found container, and what an operation on it makes of the view.\<close>

lemma find_id_view:
  assumes "reg_inv st" "find_id cid (ks_registry st) = Some i"
  defines "c \<equiv> ks_registry st ! i"
  shows "kernel_view st cid = Some (ct_started c, ct_pid c)"
    "ct_id c' = ct_id c \<Longrightarrow> reg_view ((ks_registry st)[i := c']) =
       (kernel_view st)(cid \<mapsto> (ct_started c', ct_pid c'))"
    "reg_view (remove_nth i (ks_registry st)) = (kernel_view st)(cid := None)"
proof -
  obtain pre d post where s: "ks_registry st = pre @ d # post" "i = length pre" "ct_id d = cid"
      "ks_registry st ! i = d" "\<forall>c'. (ks_registry st)[i := c'] = pre @ c' # post"
      "remove_nth i (ks_registry st) = pre @ post"
    using assms(2) by (rule find_id_split)
  have dist: "distinct (map ct_id (pre @ d # post))" using assms(1) s(1) by (simp add: reg_inv_def)
  have view: "kernel_view st = reg_view (pre @ d # post)" by (simp only: kernel_view_def s(1))
  have c: "c = d" by (simp only: c_def s(4))
  show "kernel_view st cid = Some (ct_started c, ct_pid c)"
    using reg_view_split(1) [OF dist] by (simp only: view c s(3))
  show "reg_view ((ks_registry st)[i := c']) =
       (kernel_view st)(cid \<mapsto> (ct_started c', ct_pid c'))" if "ct_id c' = ct_id c"
    using reg_view_split(2) [OF dist, of c'] that s(5) by (simp only: view c s(3))
  show "reg_view (remove_nth i (ks_registry st)) = (kernel_view st)(cid := None)"
    using reg_view_split(3) [OF dist] by (simp only: view s(3,6))
qed

lemma find_id_view_None:
  "find_id cid (ks_registry st) = None \<Longrightarrow> kernel_view st cid = None"
  by (simp add: kernel_view_def reg_view_None find_id_None)

lemma start_law:
  assumes "reg_inv st" "kernel_serve h (Start_req i) st = (r, st')"
  shows "table_step ENOENT (Start_req i) (kernel_view st) r (kernel_view st')
    \<and> ks_next_id st' = ks_next_id st"
  using assms find_id_view [OF assms(1), of i] find_id_view_None [of i st]
  by (cases "find_id i (ks_registry st)")
     (auto simp: start_container_def Let_def kernel_view_def set_gate_def split: option.splits)

lemma delete_law:
  assumes "reg_inv st" "kernel_serve h (Delete_req i) st = (r, st')"
  shows "table_step ENOENT (Delete_req i) (kernel_view st) r (kernel_view st')
    \<and> ks_next_id st' = ks_next_id st"
  using assms find_id_view [OF assms(1), of i] find_id_view_None [of i st]
  by (cases "find_id i (ks_registry st)")
     (auto simp: delete_container_def Let_def split_def kernel_view_def set_gate_def
        split: option.splits)

lemma kill_law:
  assumes "reg_inv st" "kernel_serve h (Kill_req i sig) st = (r, st')"
  shows "table_step ENOENT (Kill_req i sig) (kernel_view st) r (kernel_view st')
    \<and> ks_next_id st' = ks_next_id st"
  using assms find_id_view [OF assms(1), of i] find_id_view_None [of i st]
  by (cases "find_id i (ks_registry st)")
     (auto simp: kill_container_def Let_def split_def kernel_view_def split: if_splits)

lemma state_law:
  assumes "reg_inv st" "kernel_serve h (State_req i) st = (r, st')"
  shows "table_step ENOENT (State_req i) (kernel_view st) r (kernel_view st')
    \<and> ks_next_id st' = ks_next_id st"
  using assms find_id_view [OF assms(1), of i] find_id_view_None [of i st]
  by (cases "find_id i (ks_registry st)")
     (auto simp: container_state_def Let_def split_def kernel_view_def st_defs map_upd_triv
        split: if_splits)

lemma create_law:
  assumes "reg_inv st" "room st" "kernel_serve h (Create_req blob) st = (r, st')"
  shows "table_step ENOENT (Create_req blob) (kernel_view st) r (kernel_view st')
    \<and> (ks_next_id st' = ks_next_id st \<or> ks_next_id st' = ks_next_id st + 1)
    \<and> (\<forall>i p. r = Ok (Created_as i p) \<longrightarrow> i = ks_next_id st)"
proof -
  obtain r1 where r1: "create_from_blob h blob st = (r1, st')"
      "r = and_then r1 (\<lambda>(i, p). Ok (Created_as i p))"
    using assms(3) by (auto split: prod.splits)
  have fresh: "kernel_view st (ks_next_id st) = None"
    using assms(1) by (force simp: kernel_view_def reg_view_None reg_inv_def)
  from r1(1) show ?thesis
  proof (cases rule: create_cases)
    case rejected
    then show ?thesis using r1(2) by simp
  next
    case spawned
    from spawned show ?thesis
    proof (cases rule: spawn_cases)
      case failed
      then show ?thesis using r1(2) by (simp add: kernel_view_def)
    next
      case (ok pid c)
      have "reg_view (ks_registry st') = (reg_view (ks_registry st))(ks_next_id st \<mapsto> (False, pid))"
        using ok(3,5) fresh
        by (auto simp: reg_view_append spawned_def kernel_view_def map_add_def fun_eq_iff
            split: option.splits)
      then show ?thesis using ok r1(2) fresh by (simp add: kernel_view_def)
    qed
  qed
qed

lemma kernel_serve_apply: "\<exists>op. snd (kernel_serve h q st) = apply_op h op st"
proof (cases q)
  case (Create_req b)
  then show ?thesis by (intro exI [of _ "KCreate b"]) (simp add: Let_def split_def)
next
  case (Start_req i)
  then show ?thesis by (intro exI [of _ "KStart i"]) (simp add: Let_def split_def)
next
  case (State_req i)
  then show ?thesis by (intro exI [of _ "KState i"]) (simp add: Let_def split_def)
next
  case (Kill_req i sig)
  then show ?thesis by (intro exI [of _ "KKill i sig"]) (simp add: Let_def split_def)
next
  case (Delete_req i)
  then show ?thesis by (intro exI [of _ "KDelete i"]) (simp add: Let_def split_def)
qed

lemma serve_law:
  assumes "reg_inv st" "room st" "kernel_serve h q st = (r, st')"
  shows "table_step ENOENT q (kernel_view st) r (kernel_view st')
    \<and> (ks_next_id st' = ks_next_id st \<or> ks_next_id st' = ks_next_id st + 1)
    \<and> (\<forall>i p. r = Ok (Created_as i p) \<longrightarrow> i = ks_next_id st)"
proof (cases q)
  case (Create_req b)
  then show ?thesis using create_law assms by blast
next
  case (Start_req i)
  then have t: "table_step ENOENT q (kernel_view st) r (kernel_view st')
      \<and> ks_next_id st' = ks_next_id st" using start_law assms by blast
  then show ?thesis using Start_req by (auto split: option.splits)
next
  case (State_req i)
  then have t: "table_step ENOENT q (kernel_view st) r (kernel_view st')
      \<and> ks_next_id st' = ks_next_id st" using state_law assms by blast
  then show ?thesis using State_req by (auto split: option.splits)
next
  case (Kill_req i sig)
  then have t: "table_step ENOENT q (kernel_view st) r (kernel_view st')
      \<and> ks_next_id st' = ks_next_id st" using kill_law assms by blast
  then show ?thesis using Kill_req by (auto split: option.splits)
next
  case (Delete_req i)
  then have t: "table_step ENOENT q (kernel_view st) r (kernel_view st')
      \<and> ks_next_id st' = ks_next_id st" using delete_law assms by blast
  then show ?thesis using Delete_req by (auto split: option.splits)
qed

lemma used_grow:
  assumes "room st" "ks_next_id st' = ks_next_id st \<or> ks_next_id st' = ks_next_id st + 1"
  shows "spare_ids st \<le> spare_ids st' + 1 \<and> used_ids st \<subseteq> used_ids st'"
proof -
  have "unat (ks_next_id st + 1) = unat (ks_next_id st) + 1"
    using assms(1) unfolding room_def by (subst unat_add_lem [THEN iffD1]) simp_all
  then show ?thesis
    using assms next_id_grows [OF assms(1)]
    by (auto simp: spare_ids_def used_ids_def dest: less_trans)
qed

interpretation kernel: lifecycle reg_inv kernel_view used_ids spare_ids "kernel_serve h" ENOENT
  for h :: "'os helper"
proof unfold_locales
  fix s s' :: "'os kstate" and q :: "u8 list request" and r :: "errno + reply"
  assume a: "reg_inv s" "0 < spare_ids s" "kernel_serve h q s = (r, s')"
  then have room: "room s" by (simp add: spare_room)
  show "table_step ENOENT q (kernel_view s) r (kernel_view s')"
    using serve_law [OF a(1) room a(3)] by blast
  obtain op where "s' = apply_op h op s" using kernel_serve_apply [of h q s] a(3) by auto
  then show "reg_inv s' \<and> spare_ids s \<le> spare_ids s' + 1 \<and> used_ids s \<subseteq> used_ids s'"
    using reg_inv_op [OF a(1) room] used_grow [OF room] serve_law [OF a(1) room a(3)] by blast
next
  fix s s' :: "'os kstate" and q :: "u8 list request" and i p
  assume a: "reg_inv s" "0 < spare_ids s" "kernel_serve h q s = (Ok (Created_as i p), s')"
  then have room: "room s" by (simp add: spare_room)
  show "i \<notin> used_ids s" using serve_law [OF a(1) room a(3)] by (simp add: used_ids_def)
next
  fix s :: "'os kstate"
  assume "reg_inv s"
  moreover have "dom (kernel_view s) = ct_id ` set (ks_registry s)"
    by (simp add: set_eq_iff domIff kernel_view_def reg_view_None)
  ultimately show "dom (kernel_view s) \<subseteq> used_ids s"
    by (auto simp: used_ids_def reg_inv_def)
qed

section \<open>Properties\<close>

text \<open>The device as a service: a sequence of requests, their replies and the final state.\<close>

fun serve_requests :: "'os helper \<Rightarrow> u8 list request list \<Rightarrow> 'os kstate \<Rightarrow>
    (u8 list request \<times> (errno + reply)) list \<times> 'os kstate" where
  "serve_requests h [] st = ([], st)"
| "serve_requests h (q # qs) st =
     (let (r, st1) = kernel_serve h q st; (rs, st2) = serve_requests h qs st1
      in ((q, r) # rs, st2))"

lemma serve_requests_eq: "serve_requests h qs st = kernel.serve_all h qs st"
  by (induction qs arbitrary: st) (simp_all add: Let_def split_def)

text \<open>
C2 (refinement). From a well-formed state, any sequence of create, start, state, kill and
delete requests that does not use up the 64-bit ids gets exactly the replies, errors included,
of a table from ids to a phase and a pid: create adds a fresh id in phase created, start moves
an id to started and fails on an unknown one with ENOENT, state says created exactly before
start, kill changes nothing, delete removes.
\<close>

theorem requests_refine_table:
  assumes "reg_inv st" "length qs \<le> spare_ids st" "serve_requests h qs st = (rs, st')"
  shows "reg_inv st' \<and> table_run ENOENT (kernel_view st) rs (kernel_view st')"
  using kernel.serve_all_refines [OF assms(1,2)] assms(3) by (simp add: serve_requests_eq)

lemma spare_one_created: "spare_ids one_created = 2 ^ 64 - 3"
  by (simp add: spare_ids_def one_created_def)

theorem requests_refine_table_witness:
  "\<exists>rs v. table_run ENOENT (kernel_view one_created) rs v
     \<and> (rs :: (u8 list request \<times> (errno + reply)) list) = [(Start_req 1, Ok Done), (Delete_req 1, Ok Done), (Start_req 1, Err ENOENT)]"
proof -
  let ?qs = "[Start_req 1, Delete_req 1, Start_req 1]"
  obtain rs st' where r: "serve_requests quiet_helper ?qs one_created = (rs, st')" by fastforce
  have rs: "rs = [(Start_req 1, Ok Done), (Delete_req 1, Ok Done), (Start_req 1, Err ENOENT)]"
    using r by (simp add: start_container_def delete_container_def one_created_def find_id_def
        set_gate_def remove_nth_def quiet_helper_def is_alive_def Let_def)
  have "length ?qs \<le> spare_ids one_created" by (simp add: spare_one_created)
  from requests_refine_table [OF one_created_ok(1) this r] show ?thesis using rs by blast
qed

text \<open>
C35 (a deleted id stays deleted). Once an id was handed out and its container is gone, no later
sequence of requests brings the id back: ids are never reused, so a stale handle can never
reach another container.
\<close>

theorem deleted_ids_stay_gone:
  assumes "reg_inv st" "length qs \<le> spare_ids st" "serve_requests h qs st = (rs, st')"
    and "i < ks_next_id st" "kernel_view st i = None"
  shows "kernel_view st' i = None"
  using kernel.gone_for_good [OF assms(1,2) _ _ assms(5)] assms(3,4)
  by (simp add: serve_requests_eq used_ids_def)

theorem deleted_ids_stay_gone_witness:
  "ks_registry (snd (serve_requests quiet_helper [Delete_req 1] one_created)) = []
    \<and> (\<forall>blob. kernel_view (snd (serve_requests quiet_helper [Delete_req 1, Create_req blob, Start_req 1]
        one_created)) 1 = None)"
proof (intro conjI allI)
  define st where "st = snd (serve_requests quiet_helper [Delete_req 1] one_created)"
  have st: "reg_inv st" "spare_ids st = 2 ^ 64 - 3" "ks_next_id st = 2" "ks_registry st = []"
    by (simp_all add: st_def delete_container_def one_created_def find_id_def set_gate_def
        remove_nth_def quiet_helper_def is_alive_def reg_inv_def gate_ok_def spare_ids_def act_defs Let_def)
  show "ks_registry (snd (serve_requests quiet_helper [Delete_req 1] one_created)) = []"
    using st(4) by (simp add: st_def)
  fix blob :: "u8 list"
  obtain rs st' where r: "serve_requests quiet_helper [Create_req blob, Start_req 1] st = (rs, st')"
    by fastforce
  have "kernel_view st' 1 = None"
    by (rule deleted_ids_stay_gone [OF st(1) _ r]) (simp_all add: st kernel_view_def reg_view_None)
  moreover have "snd (serve_requests quiet_helper (Delete_req 1 # qs) one_created)
      = snd (serve_requests quiet_helper qs st)" for qs :: "u8 list request list"
    by (simp add: st_def split_def Let_def)
  ultimately show "kernel_view (snd (serve_requests quiet_helper
      [Delete_req 1, Create_req blob, Start_req 1] one_created)) 1 = None"
    using r by (simp only: snd_conv)
qed

section \<open>What later requests and changes keep\<close>

text \<open>
  Any history of the module: requests over the device, text commands, and changes outside it,
  each against a helper of its own.
\<close>

inductive later :: "'os kstate \<Rightarrow> 'os kstate \<Rightarrow> bool" where
  now: "later st st"
| step: "later st st1 \<Longrightarrow> kstep h op st1 st2 \<Longrightarrow> later st st2"

lemma next_id_same:
  "ks_next_id (snd (start_container i st)) = ks_next_id st"
  "ks_next_id (snd (container_state h i st)) = ks_next_id st"
  "ks_next_id (snd (kill_container h i sig st)) = ks_next_id st"
  "ks_next_id (snd (delete_container h i st)) = ks_next_id st"
  by (simp_all add: start_container_def container_state_def kill_container_def delete_container_def
      set_gate_def Let_def split_def split: option.split)

lemma next_id_op:
  "room st \<Longrightarrow> ks_next_id (apply_op h op st) = ks_next_id st
     \<or> ks_next_id (apply_op h op st) = ks_next_id st + 1"
proof (cases op)
  case (KCreate b)
  obtain r st' where c: "create_from_blob h b st = (r, st')" by fastforce
  then have "ks_next_id st' = ks_next_id st \<or> ks_next_id st' = ks_next_id st + 1"
    by (cases rule: create_cases) (auto elim: spawn_cases)
  then show ?thesis using KCreate c by simp
next
  case (KText b)
  obtain r st' where c: "handle_text_command h b st = (r, st')" by fastforce
  then have "ks_next_id st' = ks_next_id st \<or> ks_next_id st' = ks_next_id st + 1"
  proof (cases rule: text_cases)
    case rejected
    then show ?thesis by (metis kstate.select_convs(2) kstate.surjective kstate.update_convs(5))
  next
    case killed
    then show ?thesis by (metis kstate.select_convs(2) kstate.surjective kstate.update_convs(1,5))
  qed (auto elim: spawn_cases)
  then show ?thesis using KText c by simp
qed (simp_all add: next_id_same)

lemma next_id_later:
  assumes "kstep h op st st'" "i < ks_next_id st"
  shows "i < ks_next_id st'"
proof -
  have r: "room st" "st' = apply_op h op st" using assms(1) by (auto elim: kstepE)
  show ?thesis
    using next_id_op [OF r(1), of h op] next_id_grows [OF r(1)] assms(2) r(2)
    by (auto intro: less_trans)
qed

text \<open>A container's entry keeps its pid, its start and a status once recorded.\<close>

definition kept :: "container \<Rightarrow> container \<Rightarrow> bool" where
  "kept c c' \<longleftrightarrow> ct_id c' = ct_id c \<and> ct_pid c' = ct_pid c \<and> (ct_started c \<longrightarrow> ct_started c')
     \<and> (ct_exit_status c \<noteq> None \<longrightarrow> ct_exit_status c' = ct_exit_status c)"

lemma kept_refl [simp]: "kept c c"
  by (simp add: kept_def)

lemma spawn_entries:
  assumes "spawn h hn rootfs argv envp flags paused caps nnp ro masked rop rls oom uid gid mts sys st
      = (res, st')" "c' \<in> set (ks_registry st')"
  shows "c' \<in> set (ks_registry st) \<or> ct_id c' = ks_next_id st"
  using assms(1) by (cases rule: spawn_cases) (use assms(2) in \<open>auto simp: spawned_def\<close>)

lemma registry_op:
  assumes "c' \<in> set (ks_registry (apply_op h op st))"
  shows "(\<exists>c\<in>set (ks_registry st). kept c c') \<or> ct_id c' = ks_next_id st"
proof (cases op)
  case (KCreate b)
  obtain r st' where c: "create_from_blob h b st = (r, st')" by fastforce
  then have "c' \<in> set (ks_registry st) \<or> ct_id c' = ks_next_id st"
    by (cases rule: create_cases) (use assms KCreate c in \<open>auto dest: spawn_entries\<close>)
  then show ?thesis using kept_refl by blast
next
  case (KText b)
  obtain r st' where c: "handle_text_command h b st = (r, st')" by fastforce
  then have "c' \<in> set (ks_registry st) \<or> ct_id c' = ks_next_id st"
  proof (cases rule: text_cases)
    case rejected
    then show ?thesis using assms KText c by simp
  next
    case (killed pid)
    have "ks_registry st' = filter (\<lambda>c. ct_pid c \<noteq> pid) (ks_registry st)"
      by (subst killed(2)) simp
    then show ?thesis using assms KText c by simp
  next
    case spawned
    then show ?thesis using assms KText c by (auto dest: spawn_entries)
  qed
  then show ?thesis using kept_refl by blast
next
  case (KStart i)
  show ?thesis
  proof (cases "find_id i (ks_registry st)")
    case None
    then have "c' \<in> set (ks_registry st)" using assms KStart by (simp add: start_container_def)
    then show ?thesis using kept_refl by blast
  next
    case (Some k)
    then show ?thesis
      by (rule find_id_split) (use assms KStart Some in
        \<open>auto simp: start_container_def set_gate_def Let_def kept_def split: option.splits\<close>)
  qed
next
  case (KState i)
  show ?thesis
  proof (cases "find_id i (ks_registry st)")
    case None
    then have "c' \<in> set (ks_registry st)" using assms KState by (simp add: container_state_def)
    then show ?thesis using kept_refl by blast
  next
    case (Some k)
    then show ?thesis
      by (rule find_id_split) (use assms KState Some in
        \<open>auto simp: container_state_def Let_def split_def kept_def split: if_splits\<close>)
  qed
next
  case (KDelete i)
  have "c' \<in> set (ks_registry st)"
  proof (cases "find_id i (ks_registry st)")
    case None
    then show ?thesis using assms KDelete by (simp add: delete_container_def)
  next
    case (Some k)
    then show ?thesis
      by (rule find_id_split) (use assms KDelete Some in
        \<open>auto simp: delete_container_def set_gate_def Let_def split_def split: option.splits if_splits\<close>)
  qed
  then show ?thesis using kept_refl by blast
next
  case (KKill i sig)
  then have "c' \<in> set (ks_registry st)"
    using assms by (auto simp: kill_container_def Let_def split_def split: option.splits if_splits)
  then show ?thesis using kept_refl by blast
next
  case (KEnv os)
  then have "c' \<in> set (ks_registry st)" using assms by simp
  then show ?thesis using kept_refl by blast
qed

text \<open>The container of an id that was handed out, if it is still there, is the one it was.\<close>

definition entry_is :: "u64 \<Rightarrow> (container \<Rightarrow> bool) \<Rightarrow> 'os kstate \<Rightarrow> bool" where
  "entry_is i good st \<longleftrightarrow> reg_inv st \<and> i < ks_next_id st
     \<and> (\<forall>c\<in>set (ks_registry st). ct_id c = i \<longrightarrow> good c)"

lemma entry_is_later:
  assumes "later st st'" "entry_is i good st" "\<And>c c'. kept c c' \<Longrightarrow> good c \<Longrightarrow> good c'"
  shows "entry_is i good st'"
  using assms(1,2)
proof induction
  case (step st st1 h op st2)
  then have inv: "entry_is i good st1" by blast
  have next_id: "reg_inv st2" "i < ks_next_id st2"
    using step.hyps(2) inv reg_inv_kstep next_id_later by (auto simp: entry_is_def)
  have "good c'" if c': "c' \<in> set (ks_registry st2)" "ct_id c' = i" for c'
  proof -
    have "st2 = apply_op h op st1" using step.hyps(2) by (auto elim: kstepE)
    then have "(\<exists>c\<in>set (ks_registry st1). kept c c') \<or> ct_id c' = ks_next_id st1"
      using c'(1) registry_op by blast
    moreover have "ct_id c' \<noteq> ks_next_id st1" using inv c'(2) by (auto simp: entry_is_def)
    ultimately obtain c where c: "c \<in> set (ks_registry st1)" "kept c c'" by blast
    then have "good c" using inv c'(2) by (simp add: entry_is_def kept_def)
    then show ?thesis using assms(3) c(2) by blast
  qed
  then show ?case using next_id by (simp add: entry_is_def)
qed simp

text \<open>What a state request reports of the entry it finds.\<close>

lemma state_reports:
  assumes "container_state h i st = (Ok (q, p, w), st')"
  obtains pre c c' post where "ks_registry st = pre @ c # post" "ks_registry st' = pre @ c' # post"
    "ks_next_id st' = ks_next_id st" "ct_id c = i" "kept c c'" "ct_pid c' = p"
    "w = (case ct_exit_status c' of Some s \<Rightarrow> s | None \<Rightarrow> 0)"
    "q = ST_CREATED \<longleftrightarrow> \<not> ct_started c'" "q \<in> {ST_CREATED, ST_RUNNING, ST_STOPPED}"
proof -
  obtain k where k: "find_id i (ks_registry st) = Some k"
    using assms by (cases "find_id i (ks_registry st)") (simp_all add: container_state_def)
  then obtain pre c post where s: "ks_registry st = pre @ c # post" "k = length pre" "ct_id c = i"
      "ks_registry st ! k = c" "\<forall>c'. (ks_registry st)[k := c'] = pre @ c' # post"
      "remove_nth k (ks_registry st) = pre @ post"
    by (rule find_id_split)
  show thesis
    using assms
    by (auto simp: container_state_def k s(3-5) Let_def split_def st_defs kept_def
        intro!: that [OF s(1)] split: if_splits)
qed

text \<open>
C36 (the exit status sticks). When a state request has reported a container stopped with status
word \<open>w\<close>, then after any later history (requests of any kind to any container, text commands,
changes of the system, other answers of the helper, the task long reaped) a state request on that
id that is answered at all reports the same pid, never the state created, and the same word \<open>w\<close>;
only where nothing could be read of the status, and 0 was reported for it, may a later word differ.
\<close>

theorem exit_status_sticks:
  assumes "reg_inv st" "container_state h i st = (Ok (ST_STOPPED, p, w), st1)" "later st1 st2"
    and "container_state h' i st2 = (Ok (q, p', w'), st3)"
  shows "p' = p \<and> q \<noteq> ST_CREATED
    \<and> (w' = w \<or> w = 0 \<and> (\<exists>c\<in>set (ks_registry st1). ct_id c = i \<and> ct_exit_status c = None))"
proof -
  obtain pre c c1 post where 1: "ks_registry st = pre @ c # post" "ks_registry st1 = pre @ c1 # post"
      "ks_next_id st1 = ks_next_id st" "ct_id c = i" "kept c c1" "ct_pid c1 = p"
      "w = (case ct_exit_status c1 of Some s \<Rightarrow> s | None \<Rightarrow> 0)"
      "ST_STOPPED = ST_CREATED \<longleftrightarrow> \<not> ct_started c1"
    using assms(2) by (rule state_reports)
  define good where "good x \<longleftrightarrow> ct_pid x = p \<and> ct_started x
      \<and> (ct_exit_status c1 \<noteq> None \<longrightarrow> ct_exit_status x = ct_exit_status c1)" for x :: container
  have inv1: "reg_inv st1" using reg_inv_state [OF assms(1), of h i] assms(2) by simp
  have id: "ct_id c1 = i" using 1(4,5) by (simp add: kept_def)
  have "ct_started c1" using 1(8) by (simp add: st_defs)
  then have "good c1" using 1(6) by (simp add: good_def)
  moreover have "i \<notin> ct_id ` (set pre \<union> set post)"
    using inv1 1(2) id by (auto simp: reg_inv_def)
  then have "ct_id c' \<noteq> i" if "c' \<in> set pre \<union> set post" for c'
    using that by blast
  ultimately have "entry_is i good st1"
    using inv1 1(2) id by (auto simp: entry_is_def reg_inv_def)
  then have inv2: "entry_is i good st2"
    by (rule entry_is_later [OF assms(3)]) (auto simp: good_def kept_def)
  obtain pre2 c2 c3 post2 where 2: "ks_registry st2 = pre2 @ c2 # post2" "ct_id c2 = i" "kept c2 c3"
      "ct_pid c3 = p'" "w' = (case ct_exit_status c3 of Some s \<Rightarrow> s | None \<Rightarrow> 0)"
      "q = ST_CREATED \<longleftrightarrow> \<not> ct_started c3"
    using assms(4) by (rule state_reports)
  have "good c2" using inv2 2(1,2) by (simp add: entry_is_def)
  then have c3: "ct_pid c3 = p" "ct_started c3"
      "ct_exit_status c1 \<noteq> None \<Longrightarrow> ct_exit_status c3 = ct_exit_status c1"
    using 2(3) by (auto simp: good_def kept_def)
  show ?thesis
  proof (cases "ct_exit_status c1")
    case None
    then have "w = 0" "\<exists>c\<in>set (ks_registry st1). ct_id c = i \<and> ct_exit_status c = None"
      using 1(2,7) id by simp_all
    then show ?thesis using c3(1,2) 2(4,6) by simp
  next
    case (Some s)
    then show ?thesis using c3 2(4-6) 1(7) by simp
  qed
qed

definition one_exited :: "unit kstate" where
  "one_exited = \<lparr>ks_registry = [\<lparr>ct_id = 1, ct_pid = 7, ct_hostname = [0x61],
     ct_ctrl = None, ct_started = True, ct_exit_status = None\<rparr>],
     ks_next_id = 2, ks_gates = (\<lambda>_. 0), ks_gate_next = 0, ks_os = ()\<rparr>"

text \<open>A zombie with exit code 3 the first time, then a kill, and the task reaped at the end.\<close>

theorem exit_status_sticks_witness:
  "\<exists>st1 q p' w' st3.
     container_state (quiet_helper\<lparr>h_task_exit_status := (\<lambda>pid os. ((0, 0x300), os))\<rparr>) 1 one_exited
       = (Ok (ST_STOPPED, 7, 0x300), st1)
     \<and> container_state (quiet_helper\<lparr>h_task_exit_status := (\<lambda>pid os. ((- 1, 0), os))\<rparr>) 1
         (apply_op quiet_helper (KKill 1 9) st1) = (Ok (q, p', w'), st3) \<and> w' = 0x300"
proof -
  let ?h1 = "quiet_helper\<lparr>h_task_exit_status := (\<lambda>pid os. ((0, 0x300), os))\<rparr>"
  let ?h2 = "quiet_helper\<lparr>h_task_exit_status := (\<lambda>pid os. ((- 1, 0), os))\<rparr>"
  obtain st1 where 1: "container_state ?h1 1 one_exited = (Ok (ST_STOPPED, 7, 0x300), st1)"
      and st1: "ks_next_id st1 = 2"
    by (simp add: container_state_def one_exited_def find_id_def probe_exit_def quiet_helper_def)
  obtain q p' w' st3 where 2:
      "container_state ?h2 1 (apply_op quiet_helper (KKill 1 9) st1) = (Ok (q, p', w'), st3)"
    using 1 by (auto simp: container_state_def kill_container_def one_exited_def find_id_def
        probe_exit_def quiet_helper_def Let_def split: if_splits)
  have "room st1" by (simp add: room_def st1)
  then have "later st1 (apply_op quiet_helper (KKill 1 9) st1)"
    by (rule later.step [OF later.now kstep.intros])
  moreover have "reg_inv one_exited" by (simp add: reg_inv_def one_exited_def gate_ok_def)
  ultimately have "w' = 0x300" using exit_status_sticks [OF _ 1 _ 2] by simp
  then show ?thesis using 1 2 by blast
qed

end
