(* ===== verification/Kernel_Ioctl.thy ===== *)
theory Kernel_Ioctl
  imports Kernel_Contract
begin

text \<open>
  \<open>module/krunc.rs\<close>, the two faces of the device: \<open>ioctl_dispatch\<close> with the \<open>KruncCmd\<close> block it
  copies from and to user memory, and the status table \<open>read\<close> returns.
\<close>

section \<open>The command block\<close>

definition EFAULT :: errno where "EFAULT = - 14"

definition NR_CREATE :: u32 where "NR_CREATE = 1"
definition NR_START :: u32 where "NR_START = 2"
definition NR_STATE :: u32 where "NR_STATE = 3"
definition NR_KILL :: u32 where "NR_KILL = 4"
definition NR_DELETE :: u32 where "NR_DELETE = 5"

lemmas nr_defs = NR_CREATE_def NR_START_def NR_STATE_def NR_KILL_def NR_DELETE_def

record krunc_cmd =
  kc_spec_ptr :: u64
  kc_id :: u64
  kc_spec_len :: u32
  kc_pid :: i32
  kc_sig :: i32
  kc_state :: u32

text \<open>The \<open>repr(C)\<close> layout on a little-endian machine: 32 bytes without holes.\<close>

definition cmd_bytes :: "krunc_cmd \<Rightarrow> u8 list" where
  "cmd_bytes c = put_u64 (kc_spec_ptr c) @ put_u64 (kc_id c) @ put_u32 (kc_spec_len c)
     @ put_u32 (kc_pid c) @ put_u32 (kc_sig c) @ put_u32 (kc_state c)"

definition cmd_of_bytes :: "u8 list \<Rightarrow> krunc_cmd" where
  "cmd_of_bytes b = \<lparr>kc_spec_ptr = le_word (take 8 b), kc_id = le_word (take 8 (drop 8 b)),
     kc_spec_len = le_word (take 4 (drop 16 b)), kc_pid = le_word (take 4 (drop 20 b)),
     kc_sig = le_word (take 4 (drop 24 b)), kc_state = le_word (take 4 (drop 28 b))\<rparr>"

lemma length_cmd_bytes [simp]: "length (cmd_bytes c) = 32"
  by (simp add: cmd_bytes_def)

lemma cmd_of_bytes_cmd_bytes [simp]: "cmd_of_bytes (cmd_bytes c) = c"
  by (simp add: cmd_bytes_def cmd_of_bytes_def)

text \<open>
  User memory: the mapped addresses with their bytes, and the writable ones. A copy fails with
  \<open>EFAULT\<close> when any byte of it cannot be accessed.
\<close>

record umem =
  um_bytes :: "u64 \<Rightarrow> u8 option"
  um_writable :: "u64 \<Rightarrow> bool"

definition copy_from_user :: "umem \<Rightarrow> u64 \<Rightarrow> nat \<Rightarrow> errno + u8 list" where
  "copy_from_user mem addr n =
     ok_or (those (map (\<lambda>i. um_bytes mem (addr + word_of_nat i)) [0..<n])) EFAULT"

fun store_bytes :: "u64 \<Rightarrow> u8 list \<Rightarrow> (u64 \<Rightarrow> u8 option) \<Rightarrow> (u64 \<Rightarrow> u8 option)" where
  "store_bytes addr [] m = m"
| "store_bytes addr (b # bs) m = store_bytes (addr + 1) bs (m(addr \<mapsto> b))"

definition copy_to_user :: "umem \<Rightarrow> u64 \<Rightarrow> u8 list \<Rightarrow> errno + umem" where
  "copy_to_user mem addr bs =
     (if list_all (\<lambda>i. um_writable mem (addr + word_of_nat i)) [0..<length bs]
      then Ok (mem\<lparr>um_bytes := store_bytes addr bs (um_bytes mem)\<rparr>)
      else Err EFAULT)"

section \<open>ioctl\_dispatch\<close>

text \<open>\<open>_IOC_NR\<close>: the low byte of the command word.\<close>

definition ioc_nr :: "u32 \<Rightarrow> u32" where
  "ioc_nr cmd = cmd AND 0xff"

text \<open>The arm of the command: the block to write back.\<close>

definition dispatch ::
  "'os helper \<Rightarrow> u32 \<Rightarrow> umem \<Rightarrow> krunc_cmd \<Rightarrow> 'os kstate \<Rightarrow> (errno + krunc_cmd) \<times> 'os kstate" where
  "dispatch h nr mem c st =
     (if nr = NR_CREATE then
        (if unat (kc_spec_len c) > K_MAX_SPEC then (Err EINVAL, st)
         else
           (case copy_from_user mem (kc_spec_ptr c) (unat (kc_spec_len c)) of
              Err e \<Rightarrow> (Err e, st)
            | Ok spec \<Rightarrow>
                (let (r, st) = create_from_blob h spec st in
                 (and_then r (\<lambda>(i, pid). Ok (c\<lparr>kc_id := i, kc_pid := word_of_int pid\<rparr>)), st))))
      else if nr = NR_START then
        (let (r, st) = start_container (kc_id c) st in (and_then r (\<lambda>_. Ok c), st))
      else if nr = NR_STATE then
        (let (r, st) = container_state h (kc_id c) st in
         (and_then r (\<lambda>(state, pid, exit_status).
            Ok (c\<lparr>kc_state := state, kc_pid := word_of_int pid,
                  kc_sig := word_of_int exit_status\<rparr>)), st))
      else if nr = NR_KILL then
        (let sig = (if kc_sig c \<noteq> 0 then sint (kc_sig c) else SIGKILL);
             (r, st) = kill_container h (kc_id c) sig st in
         (and_then r (\<lambda>_. Ok c), st))
      else if nr = NR_DELETE then
        (let (r, st) = delete_container h (kc_id c) st in (and_then r (\<lambda>_. Ok c), st))
      else (Err ENOTTY, st))"

definition ioctl_dispatch ::
  "'os helper \<Rightarrow> u32 \<Rightarrow> u64 \<Rightarrow> umem \<Rightarrow> 'os kstate \<Rightarrow> (errno + int) \<times> umem \<times> 'os kstate" where
  "ioctl_dispatch h cmd arg mem st =
     (case copy_from_user mem arg 32 of
        Err e \<Rightarrow> (Err e, mem, st)
      | Ok b \<Rightarrow>
          (let (r, st) = dispatch h (ioc_nr cmd) mem (cmd_of_bytes b) st in
           (case r of
              Err e \<Rightarrow> (Err e, mem, st)
            | Ok c \<Rightarrow>
                (case copy_to_user mem arg (cmd_bytes c) of
                   Err e \<Rightarrow> (Err e, mem, st)
                 | Ok mem \<Rightarrow> (Ok 0, mem, st)))))"

section \<open>The status table\<close>

text \<open>Padding on the right, as \<open>{:<5}\<close> and \<open>{:<8}\<close> print a value.\<close>

definition pad_right :: "nat \<Rightarrow> u8 list \<Rightarrow> u8 list" where
  "pad_right w s = s @ replicate (w - length s) 0x20"

definition state_name :: "'os helper \<Rightarrow> container \<Rightarrow> 'os \<Rightarrow> u8 list \<times> 'os" where
  "state_name h c os =
     (if \<not> ct_started c then (as_bytes ''created'', os)
      else (let ((exited, _), os) = probe_exit h (ct_pid c) os in
            (if exited then as_bytes ''exited'' else as_bytes ''running'', os)))"

definition status_line :: "container \<Rightarrow> u8 list \<Rightarrow> u8 list" where
  "status_line c state =
     (let host = (if utf8_valid (ct_hostname c) then ct_hostname c else as_bytes ''?'') in
      pad_right 5 (dec_nat (unat (ct_id c))) @ [0x20] @ pad_right 8 (dec_int (ct_pid c)) @ [0x20]
        @ pad_right 8 state @ [0x20] @ host @ [0x0a])"

text \<open>
  \<open>CString::try_from_fmt\<close> of the kernel crate: a C string holds no NUL before its end, so
  formatting one with a NUL in it is the error \<open>EINVAL\<close>.
\<close>

definition cstring_of_fmt :: "u8 list \<Rightarrow> errno + u8 list" where
  "cstring_of_fmt s = (if 0 \<in> set s then Err EINVAL else Ok s)"

fun render_lines :: "'os helper \<Rightarrow> container list \<Rightarrow> u8 list \<Rightarrow> 'os \<Rightarrow> (errno + u8 list) \<times> 'os" where
  "render_lines h [] out os = (Ok out, os)"
| "render_lines h (c # cs) out os =
     (let (state, os) = state_name h c os in
      (case cstring_of_fmt (status_line c state) of
         Err e \<Rightarrow> (Err e, os)
       | Ok line \<Rightarrow> render_lines h cs (out @ line) os))"

definition status_header :: "u8 list" where
  "status_header = as_bytes ''ID    PID      STATE    HOSTNAME'' @ [0x0a]"

definition render_status :: "'os helper \<Rightarrow> 'os kstate \<Rightarrow> (errno + u8 list) \<times> 'os kstate" where
  "render_status h st =
     (let (r, os) = render_lines h (ks_registry st) status_header (ks_os st) in
      (r, st\<lparr>ks_os := os\<rparr>))"

section \<open>Properties\<close>

lemma those_Some_iff: "those xs = Some ys \<longleftrightarrow> xs = map Some ys"
  by (induction xs arbitrary: ys) (auto split: option.splits)

lemma copy_from_user_Ok_iff:
  "copy_from_user mem addr n = Ok b \<longleftrightarrow>
     length b = n \<and> (\<forall>i<n. um_bytes mem (addr + word_of_nat i) = Some (b ! i))"
  unfolding copy_from_user_def ok_or_eq_Ok those_Some_iff
  by (auto simp: list_eq_iff_nth_eq)

lemma store_bytes_other:
  "\<forall>i<length bs. a \<noteq> addr + word_of_nat i \<Longrightarrow> store_bytes addr bs m a = m a"
proof (induction bs arbitrary: addr m)
  case (Cons b bs)
  have "a \<noteq> addr" using Cons.prems by (auto dest: spec [of _ 0])
  moreover have "a \<noteq> addr + 1 + word_of_nat i" if "i < length bs" for i
    using Cons.prems [rule_format, of "Suc i"] that by (simp add: add.assoc)
  ultimately show ?case using Cons.IH [of "addr + 1"] by simp
qed simp

lemma store_bytes_nth:
  "i < length bs \<Longrightarrow> length bs \<le> 2 ^ 64 \<Longrightarrow> store_bytes addr bs m (addr + word_of_nat i) = Some (bs ! i)"
proof (induction bs arbitrary: addr m i)
  case (Cons b bs)
  show ?case
  proof (cases i)
    case 0
    have "addr \<noteq> addr + 1 + word_of_nat k" if "k < length bs" for k
    proof
      assume "addr = addr + 1 + word_of_nat k"
      then have "addr + (word_of_nat (Suc k) :: u64) = addr + 0" by (simp add: add.assoc)
      then have "(word_of_nat (Suc k) :: u64) = 0" by (simp only: add_left_cancel)
      moreover have "unat (word_of_nat (Suc k) :: u64) = Suc k"
        using that Cons.prems(2) by (simp only: unat_of_nat) (simp add: take_bit_nat_eq_self)
      ultimately show False by simp
    qed
    then show ?thesis using 0 store_bytes_other [of bs addr "addr + 1"] by simp
  next
    case (Suc k)
    then have "store_bytes (addr + 1) bs (m(addr \<mapsto> b)) (addr + 1 + word_of_nat k) = Some (bs ! k)"
      using Cons.prems by (intro Cons.IH) simp_all
    then show ?thesis using Suc by (simp add: add.assoc)
  qed
qed simp

lemma copy_back: "copy_to_user mem addr bs = Ok mem' \<Longrightarrow> length bs \<le> 2 ^ 64 \<Longrightarrow>
    copy_from_user mem' addr (length bs) = Ok bs"
  by (auto simp: copy_to_user_def copy_from_user_Ok_iff store_bytes_nth split: if_splits)

lemma request_is_op:
  "\<exists>op. snd (create_from_blob h b st) = apply_op h op st"
  "\<exists>op. snd (start_container i st) = apply_op h op st"
  "\<exists>op. snd (container_state h i st) = apply_op h op st"
  "\<exists>op. snd (kill_container h i sig st) = apply_op h op st"
  "\<exists>op. snd (delete_container h i st) = apply_op h op st"
  by (metis apply_op.simps(1), metis apply_op.simps(3), metis apply_op.simps(4),
      metis apply_op.simps(5), metis apply_op.simps(6))

lemma dispatch_op:
  "snd (dispatch h nr mem c st) = st \<or> (\<exists>op. snd (dispatch h nr mem c st) = apply_op h op st)"
proof -
  consider "nr = NR_CREATE" | "nr = NR_START" | "nr = NR_STATE" | "nr = NR_KILL" | "nr = NR_DELETE"
    | "nr \<notin> {NR_CREATE, NR_START, NR_STATE, NR_KILL, NR_DELETE}" by blast
  then show ?thesis
    by cases (simp_all add: dispatch_def Let_def split_def request_is_op nr_defs split: sum.split)
qed

text \<open>
An ioctl is one request. Whatever command word, pointer and memory a process passes, an
ioctl either leaves the module's state as it is or performs exactly one lifecycle request; an
unknown command is ENOTTY and an unreadable block EFAULT, both without any effect; and a failed
ioctl never writes to user memory.
\<close>

theorem ioctl_one_request:
  "(let (r, mem', st') = ioctl_dispatch h cmd arg mem st in
     (st' = st \<or> (\<exists>op. st' = apply_op h op st))
     \<and> (is_ok r \<or> mem' = mem)
     \<and> (copy_from_user mem arg 32 = Err EFAULT \<longrightarrow> r = Err EFAULT \<and> st' = st)
     \<and> (is_ok (copy_from_user mem arg 32)
          \<and> ioc_nr cmd \<notin> {NR_CREATE, NR_START, NR_STATE, NR_KILL, NR_DELETE} \<longrightarrow>
        r = Err ENOTTY \<and> st' = st))"
proof (cases "copy_from_user mem arg 32")
  case (Inl e)
  then have "e = EFAULT" by (auto simp: copy_from_user_def ok_or_def split: option.splits)
  then show ?thesis using Inl by (simp add: ioctl_dispatch_def)
next
  case (Inr b)
  obtain r st1 where d: "dispatch h (ioc_nr cmd) mem (cmd_of_bytes b) st = (r, st1)" by fastforce
  have "st1 = st \<or> (\<exists>op. st1 = apply_op h op st)"
    using dispatch_op [of h "ioc_nr cmd" mem "cmd_of_bytes b" st] by (simp add: d)
  moreover have "ioc_nr cmd \<notin> {NR_CREATE, NR_START, NR_STATE, NR_KILL, NR_DELETE} \<Longrightarrow>
      r = Err ENOTTY \<and> st1 = st"
    using d by (auto simp: dispatch_def)
  ultimately show ?thesis
    using Inr by (auto simp: ioctl_dispatch_def d split: sum.splits)
qed

theorem ioctl_one_request_witness:
  "fst (ioctl_dispatch quiet_helper NR_START 0 \<lparr>um_bytes = (\<lambda>_. None), um_writable = (\<lambda>_. False)\<rparr>
     one_created) = Err EFAULT"
proof -
  let ?m = "\<lparr>um_bytes = (\<lambda>_. None), um_writable = (\<lambda>_. False)\<rparr>"
  have "copy_from_user ?m 0 32 = Err EFAULT"
    by (simp add: copy_from_user_def upt_rec)
  then show ?thesis
    using ioctl_one_request [of quiet_helper NR_START 0 ?m one_created]
    by (auto simp: Let_def split: prod.splits)
qed

text \<open>
The reply reaches the caller. After an ioctl that succeeded, the caller's block holds
exactly the command the dispatcher answered with, and every other byte of memory is unchanged.
\<close>

theorem ioctl_reply_written:
  assumes "ioctl_dispatch h cmd arg mem st = (Ok v, mem', st')"
  shows "v = 0 \<and> (\<exists>b c. copy_from_user mem arg 32 = Ok b
      \<and> dispatch h (ioc_nr cmd) mem (cmd_of_bytes b) st = (Ok c, st')
      \<and> copy_from_user mem' arg 32 = Ok (cmd_bytes c))
    \<and> (\<forall>a. (\<forall>i<32. a \<noteq> arg + word_of_nat i) \<longrightarrow> um_bytes mem' a = um_bytes mem a)"
proof -
  obtain b where b: "copy_from_user mem arg 32 = Ok b"
    using assms by (cases "copy_from_user mem arg 32") (simp_all add: ioctl_dispatch_def)
  obtain c where c: "dispatch h (ioc_nr cmd) mem (cmd_of_bytes b) st = (Ok c, st')"
      "copy_to_user mem arg (cmd_bytes c) = Ok mem'" "v = 0"
    using assms b by (auto simp: ioctl_dispatch_def split: prod.splits sum.splits)
  have "um_bytes mem' = store_bytes arg (cmd_bytes c) (um_bytes mem)"
    using c(2) by (auto simp: copy_to_user_def split: if_splits)
  then have "(\<forall>i<32. a \<noteq> arg + word_of_nat i) \<longrightarrow> um_bytes mem' a = um_bytes mem a" for a
    using store_bytes_other [of "cmd_bytes c" a arg] by simp
  moreover have "copy_from_user mem' arg 32 = Ok (cmd_bytes c)"
    using copy_back [OF c(2)] by simp
  ultimately show ?thesis using b c by blast
qed

definition all_mapped :: "u8 list \<Rightarrow> umem" where
  "all_mapped bs = \<lparr>um_bytes = store_bytes 0 bs (\<lambda>_. Some 0), um_writable = (\<lambda>_. True)\<rparr>"

lemma copy_all_mapped:
  "length bs \<le> 2 ^ 64 \<Longrightarrow> copy_from_user (all_mapped bs) 0 (length bs) = Ok bs"
  using store_bytes_nth [of _ bs 0] by (simp add: copy_from_user_Ok_iff all_mapped_def)

theorem ioctl_reply_written_witness:
  "\<exists>mem' st' c. ioctl_dispatch quiet_helper NR_START 0
       (all_mapped (cmd_bytes \<lparr>kc_spec_ptr = 0, kc_id = 1, kc_spec_len = 0, kc_pid = 0,
          kc_sig = 0, kc_state = 0\<rparr>)) one_created = (Ok 0, mem', st')
     \<and> copy_from_user mem' 0 32 = Ok (cmd_bytes c) \<and> kc_id c = 1"
proof -
  let ?c = "\<lparr>kc_spec_ptr = 0, kc_id = 1, kc_spec_len = 0, kc_pid = 0, kc_sig = 0, kc_state = 0\<rparr>"
  have rd: "copy_from_user (all_mapped (cmd_bytes ?c)) 0 32 = Ok (cmd_bytes ?c)"
    using copy_all_mapped [of "cmd_bytes ?c"] by simp
  have wr: "\<exists>m. copy_to_user (all_mapped (cmd_bytes ?c)) 0 bs = Ok m" for bs
    by (simp add: copy_to_user_def all_mapped_def list_all_iff)
  have d: "\<exists>st'. dispatch quiet_helper (ioc_nr NR_START) mem ?c one_created = (Ok ?c, st')" for mem
    by (simp add: dispatch_def ioc_nr_def nr_defs start_container_def one_created_def find_id_def Let_def)
  obtain mem' st' where io: "ioctl_dispatch quiet_helper NR_START 0 (all_mapped (cmd_bytes ?c))
      one_created = (Ok 0, mem', st')"
    using rd wr [of "cmd_bytes ?c"] d [of "all_mapped (cmd_bytes ?c)"]
    by (auto simp: ioctl_dispatch_def)
  from ioctl_reply_written [OF io] rd d [of "all_mapped (cmd_bytes ?c)"] show ?thesis
    using io by (metis Pair_inject cmd_of_bytes_cmd_bytes krunc_cmd.select_convs(2) sum.inject(2))
qed

text \<open>The table is readable unless some host name breaks the C string of its line.\<close>

lemma status_line_nul:
  assumes "0 \<notin> set state"
  shows "0 \<in> set (status_line c state) \<longleftrightarrow> utf8_valid (ct_hostname c) \<and> 0 \<in> set (ct_hostname c)"
proof -
  have "0 \<notin> set (dec_nat n)" "0 \<notin> set (dec_int v)" for n v
    using dec_nat_digits by (auto simp: dec_int_def)
  then show ?thesis using assms by (auto simp: status_line_def pad_right_def as_bytes_def)
qed

lemma state_name_nul: "state_name h c os = (state, os') \<Longrightarrow> 0 \<notin> set state"
  by (auto simp: state_name_def as_bytes_def Let_def split: if_splits prod.splits)

lemma render_lines_ok:
  "is_ok (fst (render_lines h cs out os)) \<longleftrightarrow>
     (\<forall>c\<in>set cs. utf8_valid (ct_hostname c) \<longrightarrow> 0 \<notin> set (ct_hostname c))"
proof (induction cs arbitrary: out os)
  case (Cons c cs)
  obtain state os1 where n: "state_name h c os = (state, os1)" by fastforce
  show ?case
    using Cons status_line_nul [OF state_name_nul [OF n], of c]
    by (auto simp: n cstring_of_fmt_def)
qed simp

text \<open>
One host name hides the table. Reading the status table fails exactly when some container
of the registry has a host name that is valid UTF-8 and contains a NUL byte; nothing in
\<open>create\<close> or in the text command rejects such a name, so one container can make the table of all
of them unreadable.
\<close>

theorem status_readable_iff:
  "is_ok (fst (render_status h st)) \<longleftrightarrow>
     list_all (\<lambda>c. \<not> (utf8_valid (ct_hostname c) \<and> 0 \<in> set (ct_hostname c))) (ks_registry st)"
  using render_lines_ok [of h "ks_registry st" status_header "ks_os st"]
  by (auto simp: render_status_def Let_def split_def list_all_iff)

end
