(* ===== verification/Kernel_Simulation.thy ===== *)
theory Kernel_Simulation
  imports Abi_Properties Kernel_Decode
begin

text \<open>
  The two parsers of the wire format against each other: whatever \<open>decode\<close> of \<open>krunc-abi\<close>
  accepts within the kernel's size limit, \<open>decode_spec\<close> of \<open>module/krunc.rs\<close> accepts, and the
  kernel's specification is the same one with the lists cut to the kernel's capacities.
\<close>

section \<open>One parser refining another\<close>

locale parser_refines =
  fixes get1 :: "('e, 'a) parser" and get2 :: "('f, 'b) parser" and f :: "'a \<Rightarrow> 'b"
  assumes refines: "get1 r = Ok (x, r') \<Longrightarrow> get2 r = Ok (f x, r')"
begin

lemma read_n_refines: "read_n get1 n r = Ok (xs, r') \<Longrightarrow> read_n get2 n r = Ok (map f xs, r')"
proof (induction n arbitrary: r xs)
  case 0
  then show ?case by simp
next
  case (Suc n)
  then show ?case by (fastforce simp: and_then_eq_Ok dest: refines)
qed

lemma read_n_cap_refines:
  "read_n get1 n r = Ok (xs, r') \<Longrightarrow>
   read_n_cap cap get2 n [] r = Ok (take cap (map f xs), r')"
  by (drule read_n_refines) (simp add: read_n_cap_eq)

end

interpretation take_ref: parser_refines "r_take n" "k_take n" id for n
  by unfold_locales (simp add: abi.tk_Ok_iff kern.tk_Ok_iff)

interpretation u32_ref: parser_refines r_u32 k_u32 id
  by unfold_locales (simp add: r_word_Ok_iff k_word_Ok_iff)

interpretation u64_ref: parser_refines r_u64 k_u64 id
  by unfold_locales (simp add: r_word_Ok_iff k_word_Ok_iff)

lemmas word_refines = u32_ref.refines u64_ref.refines take_ref.refines

text \<open>A string of the specification as the kernel holds it.\<close>

definition cstring :: "string \<Rightarrow> u8 list" where
  "cstring s = to_cvec (as_bytes s)"

lemma read_string_refines:
  assumes "read_string what MAX_STR r = Ok (s, r')"
  shows "read_lenbytes r = Ok (as_bytes s, r')" "read_cstr_k r = Ok (cstring s, r')"
  using assms
  by (auto simp: read_string_def read_lenbytes_def read_cstr_k_def check_len_Ok
      from_utf8_def cstring_def MAX_STR_def K_MAX_STR_def split: if_splits
      elim!: and_then_OkE dest!: word_refines)

interpretation string_ref: parser_refines "read_string what MAX_STR" read_cstr_k cstring for what
  by unfold_locales (rule read_string_refines)

definition kernel_rlimit :: "rlimit \<Rightarrow> k_rlimit" where
  "kernel_rlimit l =
     \<lparr>kr_resource = rl_resource l, kr_soft = rl_soft l, kr_hard = rl_hard l\<rparr>"

interpretation rlimit_ref: parser_refines read_rlimit read_rlimit_k kernel_rlimit
  by unfold_locales
     (auto simp: read_rlimit_def read_rlimit_k_def and_then_eq_Ok kernel_rlimit_def
       dest!: word_refines)

definition kernel_mount :: "mount \<Rightarrow> k_mount" where
  "kernel_mount m =
     \<lparr>km_destination = cstring (mt_destination m), km_fs_type = cstring (mt_fs_type m),
      km_source = cstring (mt_source m), km_flags = mt_flags m\<rparr>"

interpretation mount_ref: parser_refines read_mount read_mount_k kernel_mount
  by unfold_locales
     (auto simp: read_mount_def read_mount_k_def and_then_eq_Ok kernel_mount_def cstring_def
       dest!: word_refines read_string_refines(1))

text \<open>The counted vectors: same elements, cut to the kernel's capacity.\<close>

definition kernel_strvec :: "string list \<Rightarrow> u8 list list" where
  "kernel_strvec xs = take (K_MAX_ARGS - 1) (map cstring xs)"

lemma read_vec_refines:
  "read_strvec what l r = Ok (xs, r') \<Longrightarrow> read_strvec_k r = Ok (kernel_strvec xs, r')"
  "read_rlimits what r = Ok (ls, r') \<Longrightarrow>
     read_rlimits_k r = Ok (take K_MAX_RLIMITS (map kernel_rlimit ls), r')"
  "read_mounts what r = Ok (ms, r') \<Longrightarrow>
     read_mounts_k r = Ok (take K_MAX_MOUNTS (map kernel_mount ms), r')"
  by (auto simp: read_strvec_def read_strvec_k_def read_rlimits_def read_rlimits_k_def
      read_mounts_def read_mounts_k_def and_then_eq_Ok kernel_strvec_def
      dest!: word_refines string_ref.read_n_cap_refines rlimit_ref.read_n_cap_refines
        mount_ref.read_n_cap_refines)

section \<open>The kernel's view of a specification\<close>

text \<open>
  A section that is absent leaves the kernel's buffer empty; one that is present and empty
  leaves a lone NUL. Both are the empty string of the specification.
\<close>

definition cstring_view :: "string \<Rightarrow> u8 list \<Rightarrow> bool" where
  "cstring_view s b \<longleftrightarrow> b = cstring s \<or> s = [] \<and> b = []"

definition mirrors :: "domain_spec \<Rightarrow> decoded_spec \<Rightarrow> bool" where
  "mirrors s d \<longleftrightarrow>
     cstring_view (sp_rootfs s) (dc_rootfs d) \<and> cstring_view (sp_hostname s) (dc_hostname d)
     \<and> dc_argv d = kernel_strvec (sp_argv s) \<and> dc_envp d = kernel_strvec (sp_env s)
     \<and> dc_ns d = sp_namespaces s \<and> dc_flags d = sp_flags s
     \<and> dc_cap_present d = sp_caps_present s \<and> dc_cap_bounding d = sp_cap_bounding s
     \<and> dc_cap_effective d = sp_cap_effective s \<and> dc_cap_permitted d = sp_cap_permitted s
     \<and> dc_cap_inheritable d = sp_cap_inheritable s \<and> dc_cap_ambient d = sp_cap_ambient s
     \<and> dc_masked d = kernel_strvec (sp_masked_paths s)
     \<and> dc_readonly d = kernel_strvec (sp_readonly_paths s)
     \<and> dc_rlimits d = take K_MAX_RLIMITS (map kernel_rlimit (sp_rlimits s))
     \<and> dc_oom_score_adj d = sp_oom_score_adj s \<and> dc_uid d = sp_uid s \<and> dc_gid d = sp_gid s
     \<and> dc_mounts d = take K_MAX_MOUNTS (map kernel_mount (sp_mounts s))
     \<and> dc_sysctls d = kernel_strvec (sp_sysctls s)"

lemma mirrors_default: "mirrors default_spec empty_decoded"
  by (simp add: mirrors_def default_spec_def empty_decoded_def cstring_view_def kernel_strvec_def)

lemma spec_section_unknown: "t \<notin> known_tags \<Longrightarrow> spec_section t p d = Ok d"
  by (simp add: known_tags_def tag_defs spec_section_def)

lemma kernel_section_arms:
  "spec_section TAG_ROOTFS p d = Ok (d\<lparr>dc_rootfs := to_cvec p\<rparr>)"
  "spec_section TAG_HOSTNAME p d = Ok (d\<lparr>dc_hostname := to_cvec p\<rparr>)"
  "spec_section TAG_ARGV p d =
     and_then (read_strvec_k (reader_new p)) (\<lambda>(x, _). Ok (d\<lparr>dc_argv := x\<rparr>))"
  "spec_section TAG_ENV p d =
     and_then (read_strvec_k (reader_new p)) (\<lambda>(x, _). Ok (d\<lparr>dc_envp := x\<rparr>))"
  "spec_section TAG_NAMESPACES p d =
     and_then (k_u32 (reader_new p)) (\<lambda>(x, _). Ok (d\<lparr>dc_ns := x\<rparr>))"
  "spec_section TAG_UID_MAPS p d = Ok d"
  "spec_section TAG_GID_MAPS p d = Ok d"
  "spec_section TAG_FLAGS p d =
     and_then (k_u64 (reader_new p)) (\<lambda>(x, _). Ok (d\<lparr>dc_flags := x\<rparr>))"
  "spec_section TAG_CAP_BOUNDING p d =
     and_then (k_u64 (reader_new p)) (\<lambda>(x, _).
       Ok (d\<lparr>dc_cap_present := True, dc_cap_bounding := x\<rparr>))"
  "spec_section TAG_CAP_SETS p d =
     and_then (k_u64 (reader_new p)) (\<lambda>(e, sr). and_then (k_u64 sr) (\<lambda>(pm, sr).
     and_then (k_u64 sr) (\<lambda>(i, sr). and_then (k_u64 sr) (\<lambda>(a, sr).
       Ok (d\<lparr>dc_cap_effective := e, dc_cap_permitted := pm,
             dc_cap_inheritable := i, dc_cap_ambient := a\<rparr>)))))"
  "spec_section TAG_MASKED_PATHS p d =
     and_then (read_strvec_k (reader_new p)) (\<lambda>(x, _). Ok (d\<lparr>dc_masked := x\<rparr>))"
  "spec_section TAG_RO_PATHS p d =
     and_then (read_strvec_k (reader_new p)) (\<lambda>(x, _). Ok (d\<lparr>dc_readonly := x\<rparr>))"
  "spec_section TAG_RLIMITS p d =
     and_then (read_rlimits_k (reader_new p)) (\<lambda>(x, _). Ok (d\<lparr>dc_rlimits := x\<rparr>))"
  "spec_section TAG_OOM_SCORE_ADJ p d =
     and_then (k_u32 (reader_new p)) (\<lambda>(x, _). Ok (d\<lparr>dc_oom_score_adj := Some x\<rparr>))"
  "spec_section TAG_USER p d =
     and_then (k_u32 (reader_new p)) (\<lambda>(u, sr). and_then (k_u32 sr) (\<lambda>(g, sr).
       Ok (d\<lparr>dc_uid := u, dc_gid := g\<rparr>)))"
  "spec_section TAG_MOUNTS p d =
     and_then (read_mounts_k (reader_new p)) (\<lambda>(x, _). Ok (d\<lparr>dc_mounts := x\<rparr>))"
  "spec_section TAG_SYSCTLS p d =
     and_then (read_strvec_k (reader_new p)) (\<lambda>(x, _). Ok (d\<lparr>dc_sysctls := x\<rparr>))"
  by (simp_all add: spec_section_def tag_defs)

lemma utf8_cstring: "utf8 p l what = Ok s \<Longrightarrow> to_cvec p = cstring s"
  by (auto simp: utf8_def and_then_eq_Ok from_utf8_def cstring_def split: if_splits)

lemma mirrors_update:
  assumes "mirrors s d"
  shows
    "mirrors (s\<lparr>sp_rootfs := x\<rparr>) (d\<lparr>dc_rootfs := cstring x\<rparr>)"
    "mirrors (s\<lparr>sp_hostname := x\<rparr>) (d\<lparr>dc_hostname := cstring x\<rparr>)"
    "mirrors (s\<lparr>sp_argv := xs\<rparr>) (d\<lparr>dc_argv := kernel_strvec xs\<rparr>)"
    "mirrors (s\<lparr>sp_env := xs\<rparr>) (d\<lparr>dc_envp := kernel_strvec xs\<rparr>)"
    "mirrors (s\<lparr>sp_masked_paths := xs\<rparr>) (d\<lparr>dc_masked := kernel_strvec xs\<rparr>)"
    "mirrors (s\<lparr>sp_readonly_paths := xs\<rparr>) (d\<lparr>dc_readonly := kernel_strvec xs\<rparr>)"
    "mirrors (s\<lparr>sp_sysctls := xs\<rparr>) (d\<lparr>dc_sysctls := kernel_strvec xs\<rparr>)"
    "mirrors (s\<lparr>sp_uid_maps := mps\<rparr>) d"
    "mirrors (s\<lparr>sp_gid_maps := mps\<rparr>) d"
    "mirrors (s\<lparr>sp_rlimits := ls\<rparr>) (d\<lparr>dc_rlimits := take K_MAX_RLIMITS (map kernel_rlimit ls)\<rparr>)"
    "mirrors (s\<lparr>sp_mounts := ms\<rparr>) (d\<lparr>dc_mounts := take K_MAX_MOUNTS (map kernel_mount ms)\<rparr>)"
    "mirrors (s\<lparr>sp_namespaces := n\<rparr>) (d\<lparr>dc_ns := n\<rparr>)"
    "mirrors (s\<lparr>sp_flags := fl\<rparr>) (d\<lparr>dc_flags := fl\<rparr>)"
    "mirrors (s\<lparr>sp_caps_present := True, sp_cap_bounding := b\<rparr>)
       (d\<lparr>dc_cap_present := True, dc_cap_bounding := b\<rparr>)"
    "mirrors (s\<lparr>sp_cap_effective := c1, sp_cap_permitted := c2,
         sp_cap_inheritable := c3, sp_cap_ambient := c4\<rparr>)
       (d\<lparr>dc_cap_effective := c1, dc_cap_permitted := c2,
         dc_cap_inheritable := c3, dc_cap_ambient := c4\<rparr>)"
    "mirrors (s\<lparr>sp_oom_score_adj := v\<rparr>) (d\<lparr>dc_oom_score_adj := v\<rparr>)"
    "mirrors (s\<lparr>sp_uid := u, sp_gid := g\<rparr>) (d\<lparr>dc_uid := u, dc_gid := g\<rparr>)"
  using assms unfolding mirrors_def cstring_view_def by simp_all

lemma section_simulation:
  assumes "decode_section t p s = Ok s'" "mirrors s d"
  shows "\<exists>d'. spec_section t p d = Ok d' \<and> mirrors s' d'"
proof (cases "t \<in> known_tags")
  case True
  then show ?thesis
    using assms unfolding known_tags_def
    by (elim insertE emptyE)
       (auto simp: decode_section_arms kernel_section_arms mirrors_update utf8_cstring
          elim!: and_then_OkE dest!: word_refines read_vec_refines)
next
  case False
  then show ?thesis using assms by (simp add: decode_section_unknown spec_section_unknown)
qed

section \<open>Two section loops in step\<close>

locale loop_simulation =
  abs: section_loop tk1 short1 loop1 arm1 mark1 dup1 +
  conc: section_loop tk2 short2 loop2 arm2 mark2 dup2
  for tk1 :: "nat \<Rightarrow> ('e, u8 list) parser" and short1 :: 'e
    and loop1 :: "nat \<Rightarrow> u64 \<Rightarrow> 's \<Rightarrow> ('e, 's) parser"
    and arm1 :: "u16 \<Rightarrow> u8 list \<Rightarrow> 's \<Rightarrow> 'e + 's" and mark1 dup1
    and tk2 :: "nat \<Rightarrow> ('f, u8 list) parser" and short2 :: 'f
    and loop2 :: "nat \<Rightarrow> u64 \<Rightarrow> 'd \<Rightarrow> ('f, 'd) parser"
    and arm2 :: "u16 \<Rightarrow> u8 list \<Rightarrow> 'd \<Rightarrow> 'f + 'd" and mark2 dup2 +
  fixes rel :: "'s \<Rightarrow> 'd \<Rightarrow> bool"
  assumes arm_simulation:
    "arm1 t p s = Ok s' \<Longrightarrow> rel s d \<Longrightarrow> \<exists>d'. arm2 t p d = Ok d' \<and> rel s' d'"
begin

lemma mark_simulation: "mark1 t seen = Ok seen' \<Longrightarrow> mark2 t seen = Ok seen'"
  by (simp add: abs.mark_eq conc.mark_eq split: if_splits)

lemma loop_simulation:
  "loop1 k seen s r = Ok (s', r') \<Longrightarrow> rel s d \<Longrightarrow>
   \<exists>d'. loop2 k seen d r = Ok (d', r') \<and> rel s' d'"
proof (induction k arbitrary: seen s d r)
  case 0
  then show ?case by (simp add: abs.loop_0 conc.loop_0)
next
  case (Suc k)
  from Suc.prems(1) show ?case
  proof (rule abs.loop_SucE)
    fix t pad p seen1 s1
    assume u: "unread r = frame (t, pad, p) @ unread (adv (8 + length p) r)" "length p < 2 ^ 32"
      and step: "mark1 t seen = Ok seen1" "arm1 t p s = Ok s1"
      and rest: "loop1 k seen1 s1 (adv (8 + length p) r) = Ok (s', r')"
    obtain d1 where d1: "arm2 t p d = Ok d1" "rel s1 d1"
      using arm_simulation [OF step(2) Suc.prems(2)] by blast
    show ?thesis
      using Suc.IH [OF rest d1(2)]
      by (simp add: conc.loop_frame(1) [OF u] mark_simulation [OF step(1)] d1(1))
  qed
qed

end

interpretation abi_kern: loop_simulation
  r_take Truncated decode_loop decode_section mark_seen Duplicate
  k_take EINVAL spec_loop spec_section spec_mark "\<lambda>_. EINVAL" mirrors
  by unfold_locales (rule section_simulation)

section \<open>The header\<close>

lemma spec_header_Ok_iff:
  "spec_header buf = Ok (k, r) \<longleftrightarrow>
     16 \<le> length buf \<and> length buf \<le> K_MAX_SPEC \<and> take 4 buf = MAGIC
     \<and> le_word (take 4 (drop 4 buf)) = ABI_VERSION
     \<and> k = le_word (take 4 (drop 12 buf)) \<and> unat k \<le> K_MAX_SPEC div 8
     \<and> r = adv 16 (reader_new buf)"
  unfolding spec_header_def MAGIC_def [symmetric]
  by (auto simp: and_then_eq_Ok k_Ok_iff K_ABI_VERSION_def ABI_VERSION_def)

lemma decode_spec_Ok_iff:
  "decode_spec buf = Ok d \<longleftrightarrow>
     (\<exists>k r r'. spec_header buf = Ok (k, r)
        \<and> spec_loop (unat k) 0 empty_decoded r = Ok (d, r') \<and> remaining r' = 0)"
  by (auto simp: decode_spec_def and_then_eq_Ok split: if_splits)

lemma decode_simulated:
  assumes "decode buf = Ok (p, s)" "length buf \<le> K_MAX_SPEC"
  shows "\<exists>d. decode_spec buf = Ok d \<and> mirrors s d"
proof -
  obtain k r r' where h: "decode_header buf = Ok ((p, k), r)"
    and l: "decode_loop (unat k) 0 default_spec r = Ok (s, r')" and e: "remaining r' = 0"
    using assms(1) by (auto simp: decode_Ok_iff)
  obtain fs where fs: "length fs = unat k" "unread r = frames fs @ unread r'"
    using abi_loop.loop_accepts_frames [OF l] by blast
  have "8 * unat k \<le> length (unread r)"
    using length_frames [of fs] by (simp add: fs)
  moreover have "length (unread r) \<le> length buf"
    using h by (simp add: decode_header_Ok_iff)
  ultimately have "unat k \<le> K_MAX_SPEC div 8" using assms(2) by (simp add: K_MAX_SPEC_def)
  then have "spec_header buf = Ok (k, r)"
    using h assms(2) by (simp add: decode_header_Ok_iff spec_header_Ok_iff)
  moreover obtain d where "spec_loop (unat k) 0 empty_decoded r = Ok (d, r')" "mirrors s d"
    using abi_kern.loop_simulation [OF l mirrors_default] by blast
  ultimately show ?thesis using e by (auto simp: decode_spec_Ok_iff)
qed

end
