(* ===== verification/Kernel_Wire.thy ===== *)
theory Kernel_Wire
  imports Kernel_Simulation
begin

text \<open>
  What \<open>decode_spec\<close> guarantees on its own, for any buffer a process may hand to the ioctl:
  C strings that end, lists within the kernel's capacities, an exact parse; and how it agrees
  with the \<open>decode\<close> of \<open>krunc-abi\<close>.
\<close>

section \<open>Bounds of a decoded specification\<close>

definition k_cstr :: "u8 list \<Rightarrow> bool" where
  "k_cstr b \<longleftrightarrow> nul_terminated b \<and> length b \<le> K_MAX_STR + 1"

definition k_cstrs :: "u8 list list \<Rightarrow> bool" where
  "k_cstrs v \<longleftrightarrow> list_all k_cstr v \<and> length v \<le> K_MAX_ARGS - 1"

definition k_mount_ok :: "k_mount \<Rightarrow> bool" where
  "k_mount_ok m \<longleftrightarrow> k_cstr (km_destination m) \<and> k_cstr (km_fs_type m) \<and> k_cstr (km_source m)"

definition k_spec_ok :: "decoded_spec \<Rightarrow> bool" where
  "k_spec_ok d \<longleftrightarrow>
     (dc_rootfs d = [] \<or> nul_terminated (dc_rootfs d))
     \<and> (dc_hostname d = [] \<or> nul_terminated (dc_hostname d))
     \<and> k_cstrs (dc_argv d) \<and> k_cstrs (dc_envp d) \<and> k_cstrs (dc_masked d)
     \<and> k_cstrs (dc_readonly d) \<and> k_cstrs (dc_sysctls d)
     \<and> length (dc_rlimits d) \<le> K_MAX_RLIMITS
     \<and> list_all k_mount_ok (dc_mounts d) \<and> length (dc_mounts d) \<le> K_MAX_MOUNTS"

lemma read_lenbytes_Ok: "read_lenbytes r = Ok (b, r') \<Longrightarrow> k_cstr (to_cvec b)"
  by (auto simp: read_lenbytes_def k_cstr_def elim!: and_then_OkE dest!: kern.tk_length
      split: if_splits)

lemma read_cstr_k_Ok: "read_cstr_k r = Ok (b, r') \<Longrightarrow> k_cstr b"
  by (auto simp: read_cstr_k_def k_cstr_def elim!: and_then_OkE dest!: kern.tk_length
      split: if_splits)

lemma read_mount_k_Ok: "read_mount_k r = Ok (m, r') \<Longrightarrow> k_mount_ok m"
  by (auto simp: read_mount_k_def k_mount_ok_def elim!: and_then_OkE dest: read_lenbytes_Ok)

lemma read_strvec_k_Ok: "read_strvec_k r = Ok (v, r') \<Longrightarrow> k_cstrs v"
  unfolding read_strvec_k_def k_cstrs_def
  by (auto elim!: and_then_OkE dest!: read_n_cap_good [of read_cstr_k k_cstr, rotated]
      dest: read_cstr_k_Ok)

lemma read_mounts_k_Ok:
  "read_mounts_k r = Ok (v, r') \<Longrightarrow> list_all k_mount_ok v \<and> length v \<le> K_MAX_MOUNTS"
  unfolding read_mounts_k_def
  by (auto elim!: and_then_OkE dest!: read_n_cap_good [of read_mount_k k_mount_ok, rotated]
      dest: read_mount_k_Ok)

lemma read_rlimits_k_Ok: "read_rlimits_k r = Ok (v, r') \<Longrightarrow> length v \<le> K_MAX_RLIMITS"
  unfolding read_rlimits_k_def
  by (auto elim!: and_then_OkE dest!: read_n_cap_good [of read_rlimit_k "\<lambda>_. True", rotated])

lemmas k_field_Ok = read_strvec_k_Ok read_mounts_k_Ok read_rlimits_k_Ok

lemma k_spec_ok_empty: "k_spec_ok empty_decoded"
  by (simp add: k_spec_ok_def empty_decoded_def k_cstrs_def)

lemma k_spec_ok_update:
  assumes "k_spec_ok d"
  shows
    "nul_terminated b \<Longrightarrow> k_spec_ok (d\<lparr>dc_rootfs := b\<rparr>)"
    "nul_terminated b \<Longrightarrow> k_spec_ok (d\<lparr>dc_hostname := b\<rparr>)"
    "k_cstrs v \<Longrightarrow> k_spec_ok (d\<lparr>dc_argv := v\<rparr>)"
    "k_cstrs v \<Longrightarrow> k_spec_ok (d\<lparr>dc_envp := v\<rparr>)"
    "k_cstrs v \<Longrightarrow> k_spec_ok (d\<lparr>dc_masked := v\<rparr>)"
    "k_cstrs v \<Longrightarrow> k_spec_ok (d\<lparr>dc_readonly := v\<rparr>)"
    "k_cstrs v \<Longrightarrow> k_spec_ok (d\<lparr>dc_sysctls := v\<rparr>)"
    "length ls \<le> K_MAX_RLIMITS \<Longrightarrow> k_spec_ok (d\<lparr>dc_rlimits := ls\<rparr>)"
    "list_all k_mount_ok ms \<and> length ms \<le> K_MAX_MOUNTS \<Longrightarrow> k_spec_ok (d\<lparr>dc_mounts := ms\<rparr>)"
    "k_spec_ok (d\<lparr>dc_ns := n\<rparr>)" "k_spec_ok (d\<lparr>dc_flags := fl\<rparr>)"
    "k_spec_ok (d\<lparr>dc_cap_present := True, dc_cap_bounding := x\<rparr>)"
    "k_spec_ok (d\<lparr>dc_cap_effective := c1, dc_cap_permitted := c2,
       dc_cap_inheritable := c3, dc_cap_ambient := c4\<rparr>)"
    "k_spec_ok (d\<lparr>dc_oom_score_adj := a\<rparr>)" "k_spec_ok (d\<lparr>dc_uid := u, dc_gid := g\<rparr>)"
  using assms by (simp_all add: k_spec_ok_def)

lemma spec_section_ok:
  assumes "spec_section t p d = Ok d'" "k_spec_ok d"
  shows "k_spec_ok d'"
proof (cases "t \<in> known_tags")
  case True
  then show ?thesis
    using assms unfolding known_tags_def
    by (elim insertE emptyE)
       (auto simp: kernel_section_arms k_spec_ok_update elim!: and_then_OkE dest!: k_field_Ok)
next
  case False
  then show ?thesis using assms by (simp add: spec_section_unknown)
qed

lemma decode_spec_ok: "decode_spec buf = Ok d \<Longrightarrow> k_spec_ok d"
  using kern_loop.loop_invariant [where P = k_spec_ok, OF spec_section_ok] k_spec_ok_empty
  by (auto simp: decode_spec_Ok_iff)

lemma spec_header_prolong:
  "spec_header buf = Ok (k, r) \<Longrightarrow> length (buf @ ms) \<le> K_MAX_SPEC \<Longrightarrow>
   spec_header (buf @ ms) = Ok (k, prolong ms r)"
  by (auto simp: spec_header_Ok_iff prolong_adv prolong_new)

lemma decode_spec_prolong:
  assumes "spec_header buf = Ok (k, r)" "spec_loop (unat k) 0 empty_decoded r = Ok (d, r')"
    "remaining r' = 0" "ms \<noteq> []"
  shows "decode_spec (buf @ ms) = Err EINVAL"
proof (cases "length (buf @ ms) > K_MAX_SPEC")
  case True
  then show ?thesis by (simp add: decode_spec_def spec_header_def)
next
  case False
  have "in_bounds r"
    using assms(1) by (auto simp: spec_header_Ok_iff intro!: in_bounds_adv)
  then have "spec_loop (unat k) 0 empty_decoded (prolong ms r) = Ok (d, prolong ms r')"
      "in_bounds r'"
    using kern_loop.loop_prolong [OF assms(2)] by simp_all
  then show ?thesis
    using False assms(3,4) spec_header_prolong [OF assms(1), of ms]
    by (simp add: decode_spec_def remaining_prolong)
qed

lemma decode_spec_longer:
  assumes "decode_spec buf = Ok d" "ms \<noteq> []"
  shows "decode_spec (buf @ ms) = Err EINVAL"
  using assms(1) decode_spec_prolong [OF _ _ _ assms(2)] by (auto simp: decode_spec_Ok_iff)

lemma decode_spec_exact:
  assumes "decode_spec buf = Ok d"
  shows "\<exists>opc fs. buf = wire opc fs \<and> distinct (filter (\<lambda>t. t < 64) (map fst fs))"
proof -
  obtain k r r' where h: "spec_header buf = Ok (k, r)"
    and l: "spec_loop (unat k) 0 empty_decoded r = Ok (d, r')" and e: "remaining r' = 0"
    using assms by (auto simp: decode_spec_Ok_iff)
  obtain fs where fs: "length fs = unat k" "unread r = frames fs @ unread r'"
      "distinct (filter (\<lambda>t. t < 64) (map fst fs))"
    using kern_loop.loop_accepts_frames [OF l] by blast
  have "unread r' = []" using e length_unread [of r'] by simp
  moreover have "k = word_of_nat (length fs)" using fs(1) by simp
  ultimately have "buf = wire (le_word (take 4 (drop 8 buf))) fs"
    using h fs(2) by (intro wire_of_header) (auto simp: spec_header_Ok_iff)
  then show ?thesis using fs(3) by blast
qed

section \<open>Properties\<close>

lemma decode_spec_empty: "decode_spec (wire 2 []) = Ok empty_decoded"
proof -
  have "spec_header (wire 2 []) = Ok (0, adv 16 (reader_new (wire 2 [])))"
    by (simp add: spec_header_Ok_iff wire_def K_MAX_SPEC_def)
  then show ?thesis by (simp add: decode_spec_def)
qed

text \<open>
C9 (the kernel reads what userspace encodes). Every buffer that \<open>krunc-abi\<close>'s \<open>decode\<close>
accepts and that is at most the kernel's 16 KiB is accepted by the kernel's own parser, and
the kernel's specification is the decoded one: every scalar field equal, every string the
same bytes with a NUL appended, every list equal up to the kernel's capacity.
\<close>

theorem kernel_mirrors_abi:
  assumes "decode buf = Ok (p, s)" "length buf \<le> K_MAX_SPEC"
  shows "\<exists>d. decode_spec buf = Ok d \<and> mirrors s d"
  using assms by (rule decode_simulated)

theorem kernel_mirrors_abi_witness: "\<exists>d. decode_spec (wire 2 []) = Ok d \<and> mirrors default_spec d"
  using kernel_mirrors_abi [OF decode_empty_start] by (simp add: K_MAX_SPEC_def)

text \<open>
C26 (memory bounds in the kernel). Whatever bytes a process hands to the create ioctl, a
specification \<open>decode_spec\<close> returns holds only NUL-terminated strings (the precondition of
every unsafe call that passes one on), of at most 4096 bytes and a NUL inside a list, and no
list exceeds its capacity: 31 strings, 32 rlimits, 64 mounts.
\<close>

theorem kernel_decode_bounds:
  assumes "decode_spec buf = Ok d"
  shows "length buf \<le> K_MAX_SPEC \<and> k_spec_ok d"
  using assms decode_spec_ok by (auto simp: decode_spec_Ok_iff spec_header_Ok_iff)

theorem kernel_decode_bounds_witness: "k_spec_ok empty_decoded \<and> length (wire 2 []) \<le> K_MAX_SPEC"
  using kernel_decode_bounds [OF decode_spec_empty] by simp

text \<open>
C34 (the kernel's parse is exact). A buffer \<open>decode_spec\<close> accepts consists of the header and
as many framed sections as it announces, with no known tag repeated; any byte after it makes
the kernel reject it.
\<close>

theorem kernel_parse_exact:
  assumes "decode_spec buf = Ok d"
  shows "(\<exists>opc fs. buf = wire opc fs \<and> distinct (filter (\<lambda>t. t < 64) (map fst fs)))
    \<and> (\<forall>m ms. decode_spec (buf @ m # ms) = Err EINVAL)"
  using decode_spec_exact [OF assms] decode_spec_longer [OF assms] by blast

theorem kernel_parse_exact_witness: "decode_spec (wire 2 [] @ [0]) = Err EINVAL"
  using kernel_parse_exact [OF decode_spec_empty] by blast

text \<open>
Silent truncation. The kernel keeps 31 entries of a list of strings: when userspace asks
for more masked paths, which the wire format and its decoder allow up to 256, the kernel
accepts the specification and leaves every path after the 31st unmasked.
\<close>

theorem kernel_drops_masked_paths:
  assumes "decode buf = Ok (p, s)" "length buf \<le> K_MAX_SPEC" "31 < length (sp_masked_paths s)"
  shows "\<exists>d. decode_spec buf = Ok d \<and> length (dc_masked d) = 31
    \<and> dc_masked d = map cstring (take 31 (sp_masked_paths s))"
  using decode_simulated [OF assms(1,2)] assms(3)
  by (auto simp: mirrors_def kernel_strvec_def K_MAX_ARGS_def take_map)

definition many_masked_spec :: domain_spec where
  "many_masked_spec = default_spec\<lparr>sp_masked_paths := replicate 32 ''/p''\<rparr>"

theorem kernel_drops_masked_paths_witness:
  "\<exists>buf d. encode many_masked_spec Start = Ok buf \<and> decode buf = Ok (Start, many_masked_spec)
     \<and> decode_spec buf = Ok d \<and> length (dc_masked d) = 31"
proof -
  let ?s = many_masked_spec
  have fit: "fits_spec ?s" "canonical_caps ?s"
    by (simp_all add: fits_spec_def wf_spec_def many_masked_spec_def default_spec_def list_all_iff
        wf_str_ascii checked_bounds_def entry_bounds_def canonical_caps_def abi_max_defs)
  let ?buf = "wire (op_code Start) (spec_sections ?s)"
  have len: "length ?buf \<le> K_MAX_SPEC"
    by (simp add: spec_sections_def opt_section_def many_masked_spec_def default_spec_def
        write_strvec_def K_MAX_SPEC_def length_concat sum_list_replicate)
  then have enc: "encode ?s Start = Ok ?buf"
    using fit(1) by (simp add: encode_Ok_iff fits_spec_def K_MAX_SPEC_def MAX_SPEC_def)
  have dec: "decode ?buf = Ok (Start, ?s)"
    unfolding decode_encoded [OF enc] apply_spec_sections [OF fit] by (simp add: check_required_Ok)
  have "31 < length (sp_masked_paths ?s)" by (simp add: many_masked_spec_def)
  from kernel_drops_masked_paths [OF dec len this] show ?thesis using enc dec by blast
qed

end
