(* ===== verification/Kernel_Create.thy ===== *)
theory Kernel_Create
  imports Kernel_Ioctl Kernel_Wire
begin

text \<open>
  From the wire to the init task: what \<open>create\<close> does with a buffer \<open>krunc-abi\<close> encoded, and
  what is left behind when the reply of a create cannot be delivered.
\<close>

section \<open>Create on an encoded specification\<close>

text \<open>The capability sets of a specification as the kernel applies them.\<close>

definition caps_of :: "domain_spec \<Rightarrow> cap_sets" where
  "caps_of s = \<lparr>cs_present = sp_caps_present s, cs_bounding = sp_cap_bounding s,
     cs_effective = sp_cap_effective s, cs_permitted = sp_cap_permitted s,
     cs_inheritable = sp_cap_inheritable s, cs_ambient = sp_cap_ambient s\<rparr>"

lemma decode_encoded_fits:
  assumes "fits_spec s" "canonical_caps s" "encode s Create = Ok buf" "sp_rootfs s \<noteq> []" "sp_argv s \<noteq> []"
  shows "decode buf = Ok (Create, s)"
  unfolding decode_encoded [OF assms(3)] apply_spec_sections [OF assms(1,2)]
  using assms(4,5) by (simp add: check_required_Ok)

lemma create_of_mirror:
  assumes "decode_spec buf = Ok d" "mirrors s d" "sp_rootfs s \<noteq> []" "sp_argv s \<noteq> []"
  shows "create_from_blob h buf st =
    spawn h (if sp_hostname s \<noteq> [] then cstring (sp_hostname s) else cstring ''krunc'')
      (cstring (sp_rootfs s)) (kernel_strvec (sp_argv s)) (kernel_strvec (sp_env s))
      ((if sp_namespaces s \<noteq> 0 then ucast (sp_namespaces s) else ALL_NS) OR SIGCHLD) True
      (caps_of s) (sp_flags s AND OPT_NO_NEW_PRIVS \<noteq> 0) (sp_flags s AND OPT_ROOTFS_RO \<noteq> 0)
      (kernel_strvec (sp_masked_paths s)) (kernel_strvec (sp_readonly_paths s))
      (take K_MAX_RLIMITS (map kernel_rlimit (sp_rlimits s))) (sp_oom_score_adj s)
      (sp_uid s) (sp_gid s) (take K_MAX_MOUNTS (map kernel_mount (sp_mounts s)))
      (kernel_strvec (sp_sysctls s)) st"
proof -
  have rootfs: "dc_rootfs d = cstring (sp_rootfs s)"
    using assms(2,3) by (simp add: mirrors_def cstring_view_def)
  have host: "(if length (dc_hostname d) > 1 then dc_hostname d else to_cvec (as_bytes ''krunc''))
      = (if sp_hostname s \<noteq> [] then cstring (sp_hostname s) else cstring ''krunc'')"
    using assms(2) by (auto simp: mirrors_def cstring_view_def cstring_def)
  have argv: "kernel_strvec (sp_argv s) \<noteq> []" "\<not> length (cstring (sp_rootfs s)) \<le> 1"
    using assms(3,4) by (simp_all add: kernel_strvec_def K_MAX_ARGS_def cstring_def)
  show ?thesis
    using assms(2) argv
    unfolding create_from_blob_def assms(1) sum.case host Let_def rootfs
    by (simp add: mirrors_def caps_of_def K_OPT_NO_NEW_PRIVS_def K_OPT_ROOTFS_RO_def opt_defs)
qed

section \<open>Properties\<close>

text \<open>
C3 (end to end, from encode to the init task). The kernel's create, given what \<open>encode\<close> made
of a specification within the bounds of both sides, spawns the init task with exactly the
specification: its rootfs, argv and environment, the namespaces asked for (all five when none
is), the capability sets, no-new-privs and read-only bits, masked and read-only paths, limits,
ids, mounts and sysctls, each list cut to the kernel's capacity, paused at its gate.
\<close>

theorem create_runs_encoded_spec:
  assumes "fits_spec s" "canonical_caps s" "encode s Create = Ok buf" "length buf \<le> K_MAX_SPEC"
    and "sp_rootfs s \<noteq> []" "sp_argv s \<noteq> []"
  shows "create_from_blob h buf st =
    spawn h (if sp_hostname s \<noteq> [] then cstring (sp_hostname s) else cstring ''krunc'')
      (cstring (sp_rootfs s)) (kernel_strvec (sp_argv s)) (kernel_strvec (sp_env s))
      ((if sp_namespaces s \<noteq> 0 then ucast (sp_namespaces s) else ALL_NS) OR SIGCHLD) True
      (caps_of s) (sp_flags s AND OPT_NO_NEW_PRIVS \<noteq> 0) (sp_flags s AND OPT_ROOTFS_RO \<noteq> 0)
      (kernel_strvec (sp_masked_paths s)) (kernel_strvec (sp_readonly_paths s))
      (take K_MAX_RLIMITS (map kernel_rlimit (sp_rlimits s))) (sp_oom_score_adj s)
      (sp_uid s) (sp_gid s) (take K_MAX_MOUNTS (map kernel_mount (sp_mounts s)))
      (kernel_strvec (sp_sysctls s)) st"
proof -
  have "decode buf = Ok (Create, s)" using assms by (intro decode_encoded_fits)
  then obtain d where "decode_spec buf = Ok d" "mirrors s d"
    using decode_simulated assms(4) by blast
  then show ?thesis using assms(5,6) by (rule create_of_mirror)
qed

text \<open>A small specification and its encoding.\<close>

definition tiny_spec :: domain_spec where
  "tiny_spec = default_spec\<lparr>sp_rootfs := ''/r'', sp_argv := [''/init'']\<rparr>"

definition tiny_blob :: "u8 list" where
  "tiny_blob = wire (op_code Create) (spec_sections tiny_spec)"

lemma tiny_spec_ok:
  "fits_spec tiny_spec" "canonical_caps tiny_spec" "encode tiny_spec Create = Ok tiny_blob"
  "length tiny_blob \<le> K_MAX_SPEC" "sp_rootfs tiny_spec \<noteq> []" "sp_argv tiny_spec \<noteq> []"
proof -
  show fit: "fits_spec tiny_spec" "canonical_caps tiny_spec"
    by (simp_all add: fits_spec_def wf_spec_def tiny_spec_def default_spec_def wf_str_ascii
        checked_bounds_def entry_bounds_def canonical_caps_def abi_max_defs)
  show len: "length tiny_blob \<le> K_MAX_SPEC"
    by (simp add: tiny_blob_def spec_sections_def opt_section_def tiny_spec_def default_spec_def
        write_strvec_def K_MAX_SPEC_def)
  show "encode tiny_spec Create = Ok tiny_blob"
    using fit(1) len by (simp add: encode_Ok_iff fits_spec_def K_MAX_SPEC_def MAX_SPEC_def tiny_blob_def)
qed (simp_all add: tiny_spec_def)

theorem create_runs_encoded_spec_witness:
  "\<exists>st'. create_from_blob quiet_helper tiny_blob (kstate_init ()) = (Ok (1, 7), st')"
  unfolding create_runs_encoded_spec [OF tiny_spec_ok]
  by (simp add: spawn_def Let_def new_gate_def quiet_helper_def kstate_init_def)

text \<open>
A fault after create leaves a container behind. When a create succeeds but its command
block can no longer be written, the ioctl fails with EFAULT although the container is in the
registry, blocked at its gate: the caller never learns the id it would need to delete it.
\<close>

theorem create_fault_leaves_container:
  assumes "copy_from_user mem arg 32 = Ok b" "ioc_nr cmd = NR_CREATE"
    and "unat (kc_spec_len (cmd_of_bytes b)) \<le> K_MAX_SPEC"
    and "copy_from_user mem (kc_spec_ptr (cmd_of_bytes b)) (unat (kc_spec_len (cmd_of_bytes b))) = Ok spec"
    and "create_from_blob h spec st = (Ok (i, pid), st')" "\<not> um_writable mem arg"
  shows "ioctl_dispatch h cmd arg mem st = (Err EFAULT, mem, st')
    \<and> length (ks_registry st') = length (ks_registry st) + 1"
proof -
  have "copy_to_user mem arg bs = Err EFAULT" if "length bs = 32" for bs
    using assms(6) that by (auto simp: copy_to_user_def list_all_iff intro!: bexI [of _ 0])
  then have "ioctl_dispatch h cmd arg mem st = (Err EFAULT, mem, st')"
    using assms(1-5) by (simp add: ioctl_dispatch_def dispatch_def)
  moreover from assms(5) have "length (ks_registry st') = length (ks_registry st) + 1"
  proof (cases rule: create_cases)
    case spawned
    then show ?thesis by (cases rule: spawn_cases) simp_all
  qed simp
  ultimately show ?thesis by blast
qed

lemma tiny_create:
  "\<exists>st'. create_from_blob quiet_helper tiny_blob (kstate_init ()) = (Ok (1, 7), st')"
proof -
  have "decode tiny_blob = Ok (Create, tiny_spec)"
    using tiny_spec_ok by (intro decode_encoded_fits)
  then obtain d where d: "decode_spec tiny_blob = Ok d" "mirrors tiny_spec d"
    using decode_simulated tiny_spec_ok(4) by blast
  show ?thesis
    unfolding create_of_mirror [OF d tiny_spec_ok(5,6)]
    by (simp add: spawn_def Let_def new_gate_def quiet_helper_def kstate_init_def)
qed

text \<open>A block and a specification in memory that can be read and not written.\<close>

definition read_only_mem :: "u8 list \<Rightarrow> umem" where
  "read_only_mem bs = \<lparr>um_bytes = (\<lambda>a. if unat a < length bs then Some (bs ! unat a) else None),
     um_writable = (\<lambda>_. False)\<rparr>"

lemma copy_read_only_mem:
  assumes "length (xs @ ys @ zs) < 2 ^ 64"
  shows "copy_from_user (read_only_mem (xs @ ys @ zs)) (word_of_nat (length xs)) (length ys) = Ok ys"
proof -
  have "unat (word_of_nat (length xs) + word_of_nat i :: u64) = length xs + i" if "i < length ys" for i
  proof -
    have "unat (word_of_nat (length xs + i) :: u64) = length xs + i"
      using assms that by (simp only: unat_of_nat) (simp add: take_bit_nat_eq_self)
    then show ?thesis by simp
  qed
  then show ?thesis by (simp add: copy_from_user_Ok_iff read_only_mem_def nth_append)
qed

theorem create_fault_leaves_container_witness:
  "\<exists>mem st'. ioctl_dispatch quiet_helper NR_CREATE 0 mem (kstate_init ()) = (Err EFAULT, mem, st')
     \<and> length (ks_registry st') = 1"
proof -
  define c where "c = \<lparr>kc_spec_ptr = 32, kc_id = 0, kc_spec_len = word_of_nat (length tiny_blob),
    kc_pid = 0, kc_sig = 0, kc_state = 0\<rparr>"
  define mem where "mem = read_only_mem (cmd_bytes c @ tiny_blob)"
  have small: "length tiny_blob \<le> 16384" using tiny_spec_ok(4) by (simp add: K_MAX_SPEC_def)
  have block: "copy_from_user mem 0 32 = Ok (cmd_bytes c)"
    using copy_read_only_mem [of "[]" "cmd_bytes c" tiny_blob] small by (simp add: mem_def)
  have len: "unat (kc_spec_len c) = length tiny_blob"
    using small by (simp add: c_def unat_of_nat_len)
  have blob: "copy_from_user mem (kc_spec_ptr c) (unat (kc_spec_len c)) = Ok tiny_blob"
    using copy_read_only_mem [of "cmd_bytes c" tiny_blob "[]"] small len
    by (simp add: mem_def) (simp add: c_def)
  obtain st' where cr: "create_from_blob quiet_helper tiny_blob (kstate_init ()) = (Ok (1, 7), st')"
    using tiny_create by blast
  have "ioctl_dispatch quiet_helper NR_CREATE 0 mem (kstate_init ()) = (Err EFAULT, mem, st')
      \<and> length (ks_registry st') = length (ks_registry (kstate_init ())) + 1"
  proof (rule create_fault_leaves_container [OF block])
    show "ioc_nr NR_CREATE = NR_CREATE" by (simp add: ioc_nr_def nr_defs)
    show "unat (kc_spec_len (cmd_of_bytes (cmd_bytes c))) \<le> K_MAX_SPEC"
      using len small by (simp add: K_MAX_SPEC_def)
    show "copy_from_user mem (kc_spec_ptr (cmd_of_bytes (cmd_bytes c)))
        (unat (kc_spec_len (cmd_of_bytes (cmd_bytes c)))) = Ok tiny_blob"
      using blob by simp
  qed (use cr in \<open>simp_all add: mem_def read_only_mem_def\<close>)
  then show ?thesis by (auto simp: kstate_init_def)
qed

end
