(* ===== verification/Kernel_Device.thy ===== *)
theory Kernel_Device
  imports Kernel_Ioctl
begin

text \<open>
  \<open>module/krunc.rs\<close>, the device \<open>/dev/krunc\<close>: the initialisation of the module, opening the
  device, and the four operations of an open file. The copy of a text into the buffer of a reader
  (\<open>simple_read_from_buffer\<close> of the kernel crate) is a parameter; \<open>reads_buffer\<close> says what is
  documented of it.
\<close>

section \<open>The device\<close>

text \<open>
  Loading the module makes the registry and registers the device; a failed registration is the
  error of \<open>init\<close>. An open file has a position; a \<open>KruncDevice\<close> has no data.
\<close>

definition krunc_init :: "(errno + unit) \<Rightarrow> 'os \<Rightarrow> errno + 'os kstate" where
  "krunc_init register os = (let st = kstate_init os in and_then register (\<lambda>_. Ok st))"

record krunc_file =
  kf_pos :: nat

definition krunc_open :: "errno + krunc_file" where
  "krunc_open = Ok \<lparr>kf_pos = 0\<rparr>"

text \<open>Position, size of the reader's buffer and text; the bytes that arrive and the new position.\<close>

type_synonym read_from_buffer = "nat \<Rightarrow> nat \<Rightarrow> u8 list \<Rightarrow> (errno + u8 list) \<times> nat"

definition read_iter :: "'os helper \<Rightarrow> read_from_buffer \<Rightarrow> krunc_file \<Rightarrow> nat \<Rightarrow> 'os kstate \<Rightarrow>
    (errno + u8 list) \<times> krunc_file \<times> 'os kstate" where
  "read_iter h srfb f count st =
     (case render_status h st of
        (Err e, st) \<Rightarrow> (Err e, f, st)
      | (Ok out, st) \<Rightarrow>
          (let (r, pos) = srfb (kf_pos f) count out in (r, f\<lparr>kf_pos := pos\<rparr>, st)))"

text \<open>Every call on an open file.\<close>

datatype file_call = Write "u8 list" | Read nat | Ioctl u32 u64

datatype file_answer = Wrote nat | Got "u8 list" | Returned int

definition file_op :: "'os helper \<Rightarrow> read_from_buffer \<Rightarrow> file_call \<Rightarrow> krunc_file \<times> umem \<times> 'os kstate \<Rightarrow>
    (errno + file_answer) \<times> krunc_file \<times> umem \<times> 'os kstate" where
  "file_op h srfb call s =
     (let (f, mem, st) = s in
      (case call of
         Write buf \<Rightarrow>
           (let (r, st) = write_iter h buf st in (and_then r (\<lambda>n. Ok (Wrote n)), f, mem, st))
       | Read count \<Rightarrow>
           (let (r, f, st) = read_iter h srfb f count st in
            (and_then r (\<lambda>b. Ok (Got b)), f, mem, st))
       | Ioctl cmd arg \<Rightarrow>
           (let (r, mem, st) = ioctl_dispatch h cmd arg mem st in
            (and_then r (\<lambda>i. Ok (Returned i)), f, mem, st))))"

section \<open>Reading the table in pieces\<close>

text \<open>
  A read takes bytes of the text from the position on and moves the position past them; it takes
  none only when none are asked for or left. A read that fails leaves the position.
\<close>

definition reads_buffer :: "read_from_buffer \<Rightarrow> bool" where
  "reads_buffer srfb \<longleftrightarrow> (\<forall>pos count out. case srfb pos count out of
       (Err _, pos') \<Rightarrow> pos' = pos
     | (Ok got, pos') \<Rightarrow> length got \<le> count \<and> got = take (length got) (drop pos out)
         \<and> pos' = pos + length got \<and> (got = [] \<longrightarrow> count = 0 \<or> length out \<le> pos))"

fun read_all :: "'os helper \<Rightarrow> read_from_buffer \<Rightarrow> nat list \<Rightarrow> krunc_file \<Rightarrow> 'os kstate \<Rightarrow>
    (errno + u8 list list) \<times> krunc_file \<times> 'os kstate" where
  "read_all h srfb [] f st = (Ok [], f, st)"
| "read_all h srfb (n # ns) f st =
     (case read_iter h srfb f n st of
        (Err e, f, st) \<Rightarrow> (Err e, f, st)
      | (Ok b, f, st) \<Rightarrow>
          (let (r, f, st) = read_all h srfb ns f st in (and_then r (\<lambda>bs. Ok (b # bs)), f, st)))"

text \<open>
  Containers whose tasks do not change meanwhile: \<open>dead\<close> says which of them have exited. The table
  is then a function of the registry.
\<close>

definition tasks_steady :: "'os helper \<Rightarrow> (int \<Rightarrow> bool) \<Rightarrow> container list \<Rightarrow> bool" where
  "tasks_steady h dead reg \<longleftrightarrow>
     (\<forall>c\<in>set reg. \<forall>os. fst (fst (probe_exit h (ct_pid c) os)) = dead (ct_pid c))"

definition label :: "(int \<Rightarrow> bool) \<Rightarrow> container \<Rightarrow> string" where
  "label dead c =
     (if \<not> ct_started c then ''created'' else if dead (ct_pid c) then ''exited'' else ''running'')"

definition steady :: "'os helper \<Rightarrow> container list \<Rightarrow> u8 list \<Rightarrow> bool" where
  "steady h reg out \<longleftrightarrow> (\<forall>st. ks_registry st = reg \<longrightarrow> fst (render_status h st) = Ok out)"

lemma state_name_label:
  assumes "tasks_steady h dead reg" "c \<in> set reg"
  shows "fst (state_name h c os) = as_bytes (label dead c)"
  using assms by (auto simp: tasks_steady_def state_name_def label_def Let_def split_def)

lemma render_lines_table:
  assumes "tasks_steady h dead reg" "set cs \<subseteq> set reg"
  shows "fst (render_lines h cs out os) =
    (if list_all (\<lambda>c. 0 \<notin> set (status_line c (as_bytes (label dead c)))) cs
     then Ok (out @ concat (map (\<lambda>c. status_line c (as_bytes (label dead c))) cs)) else Err EINVAL)"
  using assms(2)
proof (induction cs arbitrary: out os)
  case (Cons c cs)
  have "fst (state_name h c os) = as_bytes (label dead c)"
    using state_name_label [OF assms(1)] Cons.prems by simp
  then obtain os1 where n: "state_name h c os = (as_bytes (label dead c), os1)"
    by (metis prod.collapse)
  show ?case using Cons by (simp add: n cstring_of_fmt_def)
qed simp

lemma render_status_table:
  assumes "tasks_steady h dead (ks_registry st)"
  shows "fst (render_status h st) =
    (if list_all (\<lambda>c. 0 \<notin> set (status_line c (as_bytes (label dead c)))) (ks_registry st)
     then Ok (status_header @ concat (map (\<lambda>c. status_line c (as_bytes (label dead c))) (ks_registry st)))
     else Err EINVAL)"
  by (simp only: render_status_def Let_def split_def fst_conv render_lines_table [OF assms subset_refl])

lemma tasks_steady_table:
  assumes "tasks_steady h dead reg" "ks_registry st = reg" "fst (render_status h st) = Ok out"
  shows "out = status_header @ concat (map (\<lambda>c. status_line c (as_bytes (label dead c))) reg)"
    "steady h reg out"
  using assms render_lines_table [OF assms(1) subset_refl]
  by (auto simp: steady_def render_status_def Let_def split_def split: if_splits)

lemma render_status_registry [simp]:
  "render_status h st = (r, st') \<Longrightarrow> ks_registry st' = ks_registry st"
  by (auto simp: render_status_def Let_def split: prod.splits)

lemma reads_bufferD:
  assumes "reads_buffer srfb" "srfb pos n out = (Ok b, pos')"
  shows "b = take (length b) (drop pos out)" "pos' = pos + length b"
    "b = [] \<longrightarrow> n = 0 \<or> length out \<le> pos" "pos \<le> length out \<Longrightarrow> pos' \<le> length out"
proof -
  note d = assms(1) [unfolded reads_buffer_def, rule_format, of pos n out, unfolded assms(2)]
  then show b: "b = take (length b) (drop pos out)" and p: "pos' = pos + length b"
      and "b = [] \<longrightarrow> n = 0 \<or> length out \<le> pos"
    by simp_all
  have "length b \<le> length out - pos" using arg_cong [OF b, of length] by simp
  then show "pos \<le> length out \<Longrightarrow> pos' \<le> length out" using p by simp
qed

lemma read_iter_steady:
  assumes "steady h (ks_registry st) out" "read_iter h srfb f n st = (Ok b, f', st')"
  shows "srfb (kf_pos f) n out = (Ok b, kf_pos f')" "ks_registry st' = ks_registry st"
proof -
  obtain st1 where r: "render_status h st = (Ok out, st1)"
    using assms(1) by (metis steady_def prod.collapse)
  show "srfb (kf_pos f) n out = (Ok b, kf_pos f')" "ks_registry st' = ks_registry st"
    using assms(2) r by (auto simp: read_iter_def split: prod.splits)
qed

lemma read_all_steady:
  assumes "reads_buffer srfb" "steady h (ks_registry st) out" "kf_pos f \<le> length out"
    "read_all h srfb ns f st = (Ok bs, f', st')"
  shows "concat bs = take (kf_pos f' - kf_pos f) (drop (kf_pos f) out)
    \<and> kf_pos f \<le> kf_pos f' \<and> kf_pos f' \<le> length out
    \<and> (bs \<noteq> [] \<and> last bs = [] \<and> last ns \<noteq> 0 \<longrightarrow> kf_pos f' = length out)
    \<and> length bs = length ns"
  using assms(2-)
proof (induction ns arbitrary: f st bs)
  case Nil
  then show ?case by auto
next
  case (Cons n ns)
  obtain b f1 st1 bs' where b: "read_iter h srfb f n st = (Ok b, f1, st1)" "bs = b # bs'"
      "read_all h srfb ns f1 st1 = (Ok bs', f', st')"
    using Cons.prems(3) by (auto simp: Let_def and_then_eq_Ok split: prod.splits sum.splits)
  note read = read_iter_steady [OF Cons.prems(1) b(1)]
  note s = reads_bufferD(1-3) [OF assms(1) read(1)]
  have le: "kf_pos f1 \<le> length out" by (rule reads_bufferD(4) [OF assms(1) read(1) Cons.prems(2)])
  have st: "steady h (ks_registry st1) out" using Cons.prems(1) read(2) by simp
  note ih = Cons.IH [OF st le b(3)]
  have k: "kf_pos f' - kf_pos f = length b + (kf_pos f' - kf_pos f1)" using ih s(2) by simp
  have "concat bs = take (length b) (drop (kf_pos f) out) @
      take (kf_pos f' - kf_pos f1) (drop (length b) (drop (kf_pos f) out))"
    using ih s(1,2) by (simp add: b(2) add.commute)
  then have c: "concat bs = take (kf_pos f' - kf_pos f) (drop (kf_pos f) out)"
    unfolding k take_add .
  have "kf_pos f' = length out" if "last bs = []" "last (n # ns) \<noteq> 0"
  proof (cases ns)
    case Nil
    then have "bs' = []" "f' = f1" using b(3) by simp_all
    then show ?thesis using that s le Nil Cons.prems(2) by (simp add: b(2))
  next
    case (Cons m ms)
    then have "bs' \<noteq> []" using ih by auto
    then show ?thesis using ih that Cons by (simp add: b(2))
  qed
  then show ?case using c ih s(2) by (simp add: b(2))
qed

section \<open>Reading the rows back\<close>

text \<open>
  A reader of the table: its lines, each ended by a newline, and of a line the columns. The last
  column starts right after the third, which is eight wide.
\<close>

fun lines_from :: "u8 list \<Rightarrow> u8 list \<Rightarrow> u8 list list" where
  "lines_from line [] = (if line = [] then [] else [line])"
| "lines_from line (b # bs) =
     (if b = 0x0a then line # lines_from [] bs else lines_from (line @ [b]) bs)"

definition digits_value :: "u8 list \<Rightarrow> nat" where
  "digits_value ds = foldl (\<lambda>v b. v * 10 + (unat b - 48)) 0 ds"

definition signed_value :: "u8 list \<Rightarrow> int" where
  "signed_value s = (if take 1 s = [0x2d] then - int (digits_value (drop 1 s)) else int (digits_value s))"

definition next_column :: "u8 list \<Rightarrow> u8 list" where
  "next_column s = dropWhile (\<lambda>b. b = 0x20) (dropWhile (\<lambda>b. b \<noteq> 0x20) s)"

abbreviation column :: "u8 list \<Rightarrow> u8 list" where
  "column s \<equiv> takeWhile (\<lambda>b. b \<noteq> 0x20) s"

definition read_row :: "u8 list \<Rightarrow> nat \<times> int \<times> u8 list \<times> u8 list" where
  "read_row line =
     (let pid = next_column line; state = next_column pid in
      (digits_value (column line), signed_value (column pid), column state, drop 9 state))"

definition row_of :: "(int \<Rightarrow> bool) \<Rightarrow> container \<Rightarrow> nat \<times> int \<times> u8 list \<times> u8 list" where
  "row_of dead c = (unat (ct_id c), ct_pid c, as_bytes (label dead c),
     if utf8_valid (ct_hostname c) then ct_hostname c else as_bytes ''?'')"

lemma lines_from_line:
  "0x0a \<notin> set l \<Longrightarrow> lines_from acc (l @ 0x0a # rest) = (acc @ l) # lines_from [] rest"
  by (induction l arbitrary: acc) auto

lemma digit_byte: "k < 10 \<Longrightarrow> unat (word_of_nat (48 + k) :: u8) = 48 + k"
  unfolding unat_of_nat by simp

lemma dec_nat_range: "b \<in> set (dec_nat n) \<Longrightarrow> 48 \<le> unat b \<and> unat b \<le> 57"
proof (induction n rule: dec_nat.induct)
  case (1 n)
  show ?case
  proof (cases "n < 10")
    case True
    then have "b = word_of_nat (48 + n)" using "1.prems" by (subst (asm) dec_nat.simps) simp
    then have "unat b = 48 + n" by (simp only: digit_byte [OF True])
    then show ?thesis using True by simp
  next
    case False
    have "n mod 10 < 10" by simp
    moreover have "b \<in> set (dec_nat (n div 10)) \<or> b = word_of_nat (48 + n mod 10)"
      using "1.prems" False by (subst (asm) dec_nat.simps) auto
    ultimately show ?thesis using 1(1) [OF False] digit_byte [of "n mod 10"] by force
  qed
qed

lemma dec_nat_value: "digits_value (dec_nat n) = n"
proof (induction n rule: dec_nat.induct)
  case (1 n)
  show ?case
  proof (cases "n < 10")
    case True
    then have "dec_nat n = [word_of_nat (48 + n)]" by (subst dec_nat.simps) simp
    then show ?thesis by (simp only: digits_value_def foldl.simps digit_byte [OF True])
  next
    case False
    then have "dec_nat n = dec_nat (n div 10) @ [word_of_nat (48 + n mod 10)]"
      by (subst dec_nat.simps) simp
    moreover have "n mod 10 < 10" by simp
    ultimately show ?thesis
      using 1 [OF False] by (simp only: digits_value_def foldl_append foldl.simps digit_byte) simp
  qed
qed

lemma dec_nat_plain: "dec_nat n \<noteq> []" "0x20 \<notin> set (dec_nat n)" "0x2d \<notin> set (dec_nat n)"
    "0x0a \<notin> set (dec_nat n)"
proof -
  show "dec_nat n \<noteq> []" by (subst dec_nat.simps) simp
  show "0x20 \<notin> set (dec_nat n)" "0x2d \<notin> set (dec_nat n)" "0x0a \<notin> set (dec_nat n)"
    using dec_nat_range [of _ n] by fastforce+
qed

lemma dec_int_value: "signed_value (dec_int v) = v"
proof (cases "v < 0")
  case True
  then show ?thesis by (simp add: signed_value_def dec_int_def dec_nat_value)
next
  case False
  then have "take 1 (dec_int v) \<noteq> [0x2d]"
    using dec_nat_plain [of "nat v"] by (cases "dec_nat (nat v)") (auto simp: dec_int_def)
  then show ?thesis using False by (simp add: signed_value_def dec_int_def dec_nat_value)
qed

lemma dec_int_plain: "dec_int v \<noteq> []" "0x20 \<notin> set (dec_int v)" "0x0a \<notin> set (dec_int v)"
  using dec_nat_plain by (auto simp: dec_int_def)

lemma padded: "pad_right w s @ 0x20 # rest = s @ 0x20 # (replicate (w - length s) 0x20 @ rest)"
  by (simp add: pad_right_def replicate_app_Cons_same)

lemma column_ends: "0x20 \<notin> set s \<Longrightarrow> column (s @ 0x20 # t) = s"
    "0x20 \<notin> set s \<Longrightarrow> dropWhile (\<lambda>b. b \<noteq> 0x20) (s @ 0x20 # t) = 0x20 # t"
  by (induction s) auto

lemma padded_column:
  assumes "0x20 \<notin> set s"
  shows "column (pad_right w s @ 0x20 # rest) = s"
    "rest \<noteq> [] \<Longrightarrow> hd rest \<noteq> 0x20 \<Longrightarrow> next_column (pad_right w s @ 0x20 # rest) = rest"
proof -
  show "column (pad_right w s @ 0x20 # rest) = s" unfolding padded by (rule column_ends(1) [OF assms])
  have "dropWhile (\<lambda>b. b = (0x20 :: u8)) (replicate n 0x20 @ rest) = rest"
    if "rest \<noteq> []" "hd rest \<noteq> 0x20" for n
    using that by (induction n) (cases rest; simp)+
  then show "rest \<noteq> [] \<Longrightarrow> hd rest \<noteq> 0x20 \<Longrightarrow> next_column (pad_right w s @ 0x20 # rest) = rest"
    unfolding next_column_def padded column_ends(2) [OF assms] by simp
qed

lemma label_cases: "label dead c \<in> {''created'', ''exited'', ''running''}"
  by (simp add: label_def)

lemma label_plain: "0x20 \<notin> set (as_bytes (label dead c))" "length (as_bytes (label dead c)) \<le> 8"
  "as_bytes (label dead c) \<noteq> []" "hd (as_bytes (label dead c)) \<noteq> 0x20"
  "0x0a \<notin> set (as_bytes (label dead c))"
  using label_cases [of dead c] by (auto simp: as_bytes_def)

lemma status_line_read:
  obtains l where "status_line c (as_bytes (label dead c)) = l @ [0x0a]" "read_row l = row_of dead c"
    "0x0a \<notin> set (ct_hostname c) \<longrightarrow> 0x0a \<notin> set l"
proof -
  let ?host = "if utf8_valid (ct_hostname c) then ct_hostname c else as_bytes ''?''"
  let ?state = "pad_right 8 (as_bytes (label dead c)) @ 0x20 # ?host"
  let ?pid = "pad_right 8 (dec_int (ct_pid c)) @ 0x20 # ?state"
  let ?l = "pad_right 5 (dec_nat (unat (ct_id c))) @ 0x20 # ?pid"
  have first: "pad_right w s @ t \<noteq> [] \<and> hd (pad_right w s @ t) = hd s" if "s \<noteq> []" for w s t
    using that by (simp add: pad_right_def)
  have state: "?state \<noteq> []" "hd ?state \<noteq> 0x20" using first [OF label_plain(3)] label_plain(4) by simp_all
  have "hd (dec_int (ct_pid c)) \<noteq> 0x20"
    using dec_int_plain(1,2) [of "ct_pid c"] by (cases "dec_int (ct_pid c)") auto
  then have pid: "?pid \<noteq> []" "hd ?pid \<noteq> 0x20" using first [OF dec_int_plain(1)] by simp_all
  have host: "drop 9 ?state = ?host" using label_plain(2) [of dead c] by (simp add: pad_right_def)
  have columns: "column ?l = dec_nat (unat (ct_id c))" "next_column ?l = ?pid"
      "column ?pid = dec_int (ct_pid c)" "next_column ?pid = ?state"
      "column ?state = as_bytes (label dead c)"
    by (rule padded_column [OF dec_nat_plain(2)] padded_column [OF dec_int_plain(2)]
        padded_column(1) [OF label_plain(1)] pid state)+
  have row: "read_row ?l = row_of dead c"
    unfolding read_row_def row_of_def Let_def columns dec_nat_value dec_int_value host ..
  have line: "status_line c (as_bytes (label dead c)) = ?l @ [0x0a]"
    by (simp add: status_line_def Let_def)
  have "0x0a \<notin> set (ct_hostname c) \<longrightarrow> 0x0a \<notin> set ?l"
    using dec_nat_plain(4) dec_int_plain(3) label_plain(5)
    by (auto simp: pad_right_def as_bytes_def)
  then show thesis by (rule that [OF line row])
qed

lemma table_lines:
  assumes "list_all (\<lambda>c. 0x0a \<notin> set (ct_hostname c)) reg"
  shows "map read_row (lines_from [] (concat (map (\<lambda>c. status_line c (as_bytes (label dead c))) reg)))
    = map (row_of dead) reg"
  using assms
proof (induction reg)
  case (Cons c reg)
  obtain l where l: "status_line c (as_bytes (label dead c)) = l @ [0x0a]" "read_row l = row_of dead c"
      "0x0a \<notin> set (ct_hostname c) \<longrightarrow> 0x0a \<notin> set l"
    by (rule status_line_read [of c dead])
  show ?case using Cons l lines_from_line [of l "[]"] by simp
qed simp

section \<open>Properties\<close>

text \<open>
C40 (reading the status table). A new file reads from the start of the table. As long as no
container comes, goes or changes its state, reads of any sizes give consecutive pieces of one
table, each byte once, and a read that returns nothing to a non-empty buffer means that the
whole table was read. What was read then is the header and, unless a host name has a newline in
it, one line for each container in the order of the registry, from which its id, its pid, its
state and its host name are read back. Every read renders the table anew, so after a change the
next read continues in the new table at the old position.
\<close>

theorem table_read_in_pieces:
  assumes "reads_buffer srfb" "tasks_steady h dead (ks_registry st)" "krunc_open = Ok f"
    "read_all h srfb ns f st = (Ok bs, f', st')"
  shows "length bs = length ns
    \<and> (\<forall>out. fst (render_status h st) = Ok out \<longrightarrow>
         concat bs = take (kf_pos f') out \<and> kf_pos f' \<le> length out)
    \<and> (bs \<noteq> [] \<and> last bs = [] \<and> last ns \<noteq> 0 \<longrightarrow> fst (render_status h st) = Ok (concat bs)
         \<and> (list_all (\<lambda>c. 0x0a \<notin> set (ct_hostname c)) (ks_registry st) \<longrightarrow>
              take 33 (concat bs) = as_bytes ''ID    PID      STATE    HOSTNAME'' @ [0x0a]
              \<and> map read_row (lines_from [] (drop 33 (concat bs))) = map (row_of dead) (ks_registry st)))
    \<and> (fst (read_iter h srfb f' n st2) = Ok b \<longrightarrow> (\<exists>out2. fst (render_status h st2) = Ok out2
         \<and> b = take (length b) (drop (length (concat bs)) out2)))"
proof -
  have f: "kf_pos f = 0" using assms(3) by (auto simp: krunc_open_def)
  have rendered: "\<exists>out. fst (render_status h st) = Ok out" if "bs \<noteq> []"
    using assms(4) that
    by (cases ns) (auto simp: read_iter_def split: prod.splits sum.splits)
  have same: "length bs = length ns \<and> concat bs = take (kf_pos f') out \<and> kf_pos f' \<le> length out
      \<and> length (concat bs) = kf_pos f'
      \<and> (bs \<noteq> [] \<and> last bs = [] \<and> last ns \<noteq> 0 \<longrightarrow> concat bs = out)"
    if "fst (render_status h st) = Ok out" for out
    using read_all_steady [OF assms(1) tasks_steady_table(2) [OF assms(2) refl that] _ assms(4)] f
    by auto
  have none: "length bs = length ns \<and> kf_pos f' = length (concat bs)" if "bs = []"
    using assms(4) that f
    by (cases ns) (auto simp: and_then_eq_Ok Let_def split: prod.splits sum.splits)
  have rows: "take 33 (concat bs) = as_bytes ''ID    PID      STATE    HOSTNAME'' @ [0x0a]
      \<and> map read_row (lines_from [] (drop 33 (concat bs))) = map (row_of dead) (ks_registry st)"
    if "fst (render_status h st) = Ok (concat bs)"
      "list_all (\<lambda>c. 0x0a \<notin> set (ct_hostname c)) (ks_registry st)"
  proof -
    have "length status_header = 33" by (simp add: status_header_def as_bytes_def)
    then show ?thesis
      using table_lines [OF that(2), of dead]
      unfolding tasks_steady_table(1) [OF assms(2) refl that(1)]
      by (simp add: status_header_def)
  qed
  have "\<exists>out2. fst (render_status h st2) = Ok out2
      \<and> b = take (length b) (drop (length (concat bs)) out2)"
    if later: "fst (read_iter h srfb f' n st2) = Ok b"
  proof -
    obtain out2 p where "fst (render_status h st2) = Ok out2" "srfb (kf_pos f') n out2 = (Ok b, p)"
      using later by (auto simp: read_iter_def split: prod.splits sum.splits)
    moreover have "kf_pos f' = length (concat bs)"
      using none same rendered by (cases "bs = []") auto
    ultimately show ?thesis using reads_bufferD(1) [OF assms(1)] by metis
  qed
  note later = this
  show ?thesis
  proof (intro conjI allI impI)
    show "length bs = length ns" using none same rendered by (cases "bs = []") auto
    show "concat bs = take (kf_pos f') out" "kf_pos f' \<le> length out"
      if "fst (render_status h st) = Ok out" for out using same [OF that] by simp_all
    assume whole: "bs \<noteq> [] \<and> last bs = [] \<and> last ns \<noteq> 0"
    then obtain out where out: "fst (render_status h st) = Ok out" using rendered by blast
    have "concat bs = out" using same [OF out] whole by blast
    then show ok: "fst (render_status h st) = Ok (concat bs)" using out by (simp only:)
    assume names: "list_all (\<lambda>c. 0x0a \<notin> set (ct_hostname c)) (ks_registry st)"
    show "take 33 (concat bs) = as_bytes ''ID    PID      STATE    HOSTNAME'' @ [0x0a]"
      "map read_row (lines_from [] (drop 33 (concat bs))) = map (row_of dead) (ks_registry st)"
      using rows [OF ok names] by simp_all
  qed (rule later)
qed

text \<open>A kernel that copies whatever fits, and a table of two containers, one of them exited.\<close>

definition copy_all :: read_from_buffer where
  "copy_all pos count out = (let got = take count (drop pos out) in (Ok got, pos + length got))"

definition two_containers :: "unit kstate" where
  "two_containers = \<lparr>ks_registry = [
     \<lparr>ct_id = 1, ct_pid = 7, ct_hostname = as_bytes ''web'', ct_ctrl = None, ct_started = True,
      ct_exit_status = None\<rparr>,
     \<lparr>ct_id = 2, ct_pid = 8, ct_hostname = as_bytes ''db 2'', ct_ctrl = Some 0, ct_started = False,
      ct_exit_status = None\<rparr>],
     ks_next_id = 3, ks_gates = (\<lambda>_. 0), ks_gate_next = 1, ks_os = ()\<rparr>"

theorem table_read_in_pieces_witness:
  "\<exists>bs f' st'. read_all (quiet_helper\<lparr>h_task_exit_status := (\<lambda>pid os. ((0, 0), os))\<rparr>) copy_all
      [20, 100, 20] \<lparr>kf_pos = 0\<rparr> two_containers = (Ok bs, f', st')
   \<and> map read_row (lines_from [] (drop 33 (concat bs))) =
      [(1, 7, as_bytes ''exited'', as_bytes ''web''), (2, 8, as_bytes ''created'', as_bytes ''db 2'')]"
proof -
  let ?h = "quiet_helper\<lparr>h_task_exit_status := (\<lambda>pid os. ((0, 0), os))\<rparr>"
  have c: "reads_buffer copy_all" by (auto simp: reads_buffer_def copy_all_def Let_def min_def)
  have s: "tasks_steady ?h (\<lambda>_. True) (ks_registry two_containers)"
    by (simp add: tasks_steady_def probe_exit_def)
  have "is_ok (fst (render_status ?h two_containers))"
    unfolding status_readable_iff by (simp add: two_containers_def as_bytes_def)
  then obtain out where out: "fst (render_status ?h two_containers) = Ok out"
    by (cases "fst (render_status ?h two_containers)") auto
  have st: "fst (render_status ?h st) = Ok out" if "ks_registry st = ks_registry two_containers" for st
    using tasks_steady_table(2) [OF s refl out] that by (simp add: steady_def)
  have read: "\<exists>st'. ks_registry st' = ks_registry two_containers \<and>
      read_iter ?h copy_all f n st = (Ok (take n (drop (kf_pos f) out)),
        \<lparr>kf_pos = kf_pos f + length (take n (drop (kf_pos f) out))\<rparr>, st')"
    if reg: "ks_registry st = ks_registry two_containers" for f n st
  proof -
    obtain st' where r: "render_status ?h st = (Ok out, st')" using st [OF reg] by (metis prod.collapse)
    have "ks_registry st' = ks_registry two_containers" using render_status_registry [OF r] reg by simp
    then show ?thesis using r by (cases f) (simp add: read_iter_def copy_all_def Let_def)
  qed
  have digits: "dec_nat 1 = [0x31]" "dec_nat 2 = [0x32]" "dec_int 7 = [0x37]" "dec_int 8 = [0x38]"
    by code_simp+
  have names: "utf8_valid (as_bytes ''web'')" "utf8_valid (as_bytes ''db 2'')" by code_simp+
  have "length out \<le> 120"
    unfolding tasks_steady_table(1) [OF s refl out]
    by (simp add: two_containers_def status_header_def status_line_def pad_right_def label_def
        digits digits(1) [unfolded One_nat_def] names Let_def)
  obtain st1 where r1: "ks_registry st1 = ks_registry two_containers"
    "read_iter ?h copy_all \<lparr>kf_pos = 0\<rparr> 20 two_containers =
      (Ok (take 20 out), \<lparr>kf_pos = length (take 20 out)\<rparr>, st1)"
    using read [of two_containers "\<lparr>kf_pos = 0\<rparr>" 20] by auto
  define p1 where "p1 = length (take 20 out)"
  obtain st2 where r2: "ks_registry st2 = ks_registry two_containers"
    "read_iter ?h copy_all \<lparr>kf_pos = p1\<rparr> 100 st1 =
      (Ok (take 100 (drop p1 out)), \<lparr>kf_pos = p1 + length (take 100 (drop p1 out))\<rparr>, st2)"
    using read [OF r1(1), of "\<lparr>kf_pos = p1\<rparr>" 100] by auto
  define p2 where "p2 = p1 + length (take 100 (drop p1 out))"
  obtain st3 where r3: "read_iter ?h copy_all \<lparr>kf_pos = p2\<rparr> 20 st2 =
      (Ok (take 20 (drop p2 out)), \<lparr>kf_pos = p2 + length (take 20 (drop p2 out))\<rparr>, st3)"
    using read [OF r2(1), of "\<lparr>kf_pos = p2\<rparr>" 20] by auto
  let ?bs = "[take 20 out, take 100 (drop p1 out), take 20 (drop p2 out)]"
  have all: "read_all ?h copy_all [20, 100, 20] \<lparr>kf_pos = 0\<rparr> two_containers =
      (Ok ?bs, \<lparr>kf_pos = p2 + length (take 20 (drop p2 out))\<rparr>, st3)"
    using r1(2) r2(2) r3 unfolding p1_def [symmetric] p2_def [symmetric] by simp
  have "length out \<le> p2" using \<open>length out \<le> 120\<close> by (auto simp: p1_def p2_def)
  then have whole: "?bs \<noteq> [] \<and> last ?bs = [] \<and> last [20, 100, 20 :: nat] \<noteq> 0" by simp
  have "list_all (\<lambda>c. 0x0a \<notin> set (ct_hostname c)) (ks_registry two_containers)"
    by (simp add: two_containers_def as_bytes_def)
  note rows = table_read_in_pieces [OF c s krunc_open_def all, THEN conjunct2, THEN conjunct2,
      THEN conjunct1, THEN mp, OF whole, THEN conjunct2, THEN mp, OF this, THEN conjunct2]
  have expected: "map (row_of (\<lambda>_. True)) (ks_registry two_containers) =
      [(1, 7, as_bytes ''exited'', as_bytes ''web''), (2, 8, as_bytes ''created'', as_bytes ''db 2'')]"
    by (simp add: two_containers_def row_of_def label_def names)
  show ?thesis by (intro exI conjI, rule all, unfold rows expected, rule refl)
qed

text \<open>A line is determined by the columns before the host name, which end with a space.\<close>

lemma status_line_host:
  "\<exists>cols. \<forall>host. utf8_valid host \<longrightarrow>
    status_line (c\<lparr>ct_hostname := host\<rparr>) state = cols @ host @ [0x0a]"
  by (rule exI [of _ "pad_right 5 (dec_nat (unat (ct_id c))) @ [0x20] @ pad_right 8 (dec_int (ct_pid c)) @ [0x20]
        @ pad_right 8 state @ [0x20]"]) (simp add: status_line_def Let_def)

lemma status_line_newline: "butlast (status_line d state) @ [0x0a] = status_line d state"
  by (simp add: status_line_def Let_def butlast_append)

text \<open>
A host name can hold the rows of other containers. Give a container the host name \<open>name\<close>, a
newline and the text of the row of a container \<open>d\<close>: the table of the module is then, byte for byte,
the table of a module that has \<open>d\<close> after a container named \<open>name\<close>, whether \<open>d\<close> exists or not.
Neither \<open>create\<close> nor the text command rejects a newline in a host name.
\<close>

theorem hostname_forges_row:
  assumes "utf8_valid name" "utf8_valid forged"
    and "forged = name @ 0x0a # butlast (status_line d (as_bytes (label dead d)))"
    and "ks_registry st1 = pre @ c\<lparr>ct_hostname := forged\<rparr> # post"
    and "ks_registry st2 = pre @ c\<lparr>ct_hostname := name\<rparr> # d # post"
    and "tasks_steady h dead (ks_registry st2)" "fst (render_status h st2) = Ok out"
  shows "fst (render_status h st1) = Ok out"
proof -
  let ?line = "\<lambda>c. status_line c (as_bytes (label dead c))"
  obtain cols where cols: "\<And>host. utf8_valid host \<Longrightarrow>
      status_line (c\<lparr>ct_hostname := host\<rparr>) (as_bytes (label dead c)) = cols @ host @ [0x0a]"
    using status_line_host [of c "as_bytes (label dead c)"] by blast
  have label: "label dead (c\<lparr>ct_hostname := host\<rparr>) = label dead c" for host by (simp add: label_def)
  have of_c: "?line (c\<lparr>ct_hostname := forged\<rparr>) = cols @ forged @ [0x0a]"
      "?line (c\<lparr>ct_hostname := name\<rparr>) = cols @ name @ [0x0a]"
    unfolding label by (rule cols [OF assms(2)], rule cols [OF assms(1)])
  have line: "?line (c\<lparr>ct_hostname := forged\<rparr>) = ?line (c\<lparr>ct_hostname := name\<rparr>) @ ?line d"
    unfolding of_c unfolding assms(3) append_assoc append_Cons append_Nil status_line_newline ..
  have same: "concat (map ?line (ks_registry st1)) = concat (map ?line (ks_registry st2))"
    unfolding assms(4,5) by (simp add: line)
  have steady1: "tasks_steady h dead (ks_registry st1)"
    using assms(6) unfolding assms(4,5) by (auto simp: tasks_steady_def)
  note tables = render_status_table [OF steady1] render_status_table [OF assms(6)]
  have ok: "list_all (\<lambda>c. 0 \<notin> set (?line c)) (ks_registry st2)"
      "out = status_header @ concat (map ?line (ks_registry st2))"
    using assms(7) unfolding tables
    by (simp_all only: sum.inject sum.distinct simp_thms split: if_splits)
  have "list_all (\<lambda>c. 0 \<notin> set (?line c)) (ks_registry st1)"
    using ok(1) unfolding assms(4,5) by (simp add: line)
  then show ?thesis unfolding tables(1) same ok(2) by (rule if_P)
qed

text \<open>One container that shows a second one.\<close>

definition forger :: container where
  "forger = \<lparr>ct_id = 1, ct_pid = 7, ct_hostname = as_bytes ''web'', ct_ctrl = None,
     ct_started = True, ct_exit_status = None\<rparr>"

theorem hostname_forges_row_witness:
  "\<exists>out. fst (render_status (quiet_helper\<lparr>h_task_exit_status := (\<lambda>pid os. ((0, 0), os))\<rparr>)
       (two_containers\<lparr>ks_registry := [forger\<lparr>ct_hostname := as_bytes ''web'' @ 0x0a #
          butlast (status_line (forger\<lparr>ct_id := 2\<rparr>) (as_bytes ''exited''))\<rparr>]\<rparr>)) = Ok out
     \<and> map read_row (lines_from [] (drop 33 out)) =
         [(1, 7, as_bytes ''exited'', as_bytes ''web''), (2, 7, as_bytes ''exited'', as_bytes ''web'')]"
proof -
  let ?h = "quiet_helper\<lparr>h_task_exit_status := (\<lambda>pid os. ((0, 0), os))\<rparr>"
  let ?d = "forger\<lparr>ct_id := 2\<rparr>" and ?name = "as_bytes ''web''"
  let ?forged = "?name @ 0x0a # butlast (status_line ?d (as_bytes (label (\<lambda>_. True) ?d)))"
  let ?st1 = "two_containers\<lparr>ks_registry := [] @ forger\<lparr>ct_hostname := ?forged\<rparr> # []\<rparr>"
  let ?st2 = "two_containers\<lparr>ks_registry := [] @ forger\<lparr>ct_hostname := ?name\<rparr> # ?d # []\<rparr>"
  have exited: "label (\<lambda>_. True) ?d = ''exited''" by (simp add: label_def forger_def)
  have valid: "utf8_valid ?name" "utf8_valid ?forged" unfolding exited by code_simp+
  have steady: "tasks_steady ?h (\<lambda>_. True) (ks_registry ?st2)"
    by (simp add: tasks_steady_def probe_exit_def)
  have "is_ok (fst (render_status ?h ?st2))"
    unfolding status_readable_iff by (simp add: forger_def as_bytes_def)
  then obtain out where out: "fst (render_status ?h ?st2) = Ok out"
    by (cases "fst (render_status ?h ?st2)") auto
  have forged: "fst (render_status ?h ?st1) = Ok out"
    by (rule hostname_forges_row [where pre = "[]" and c = forger and post = "[]", OF valid refl _ _ steady out])
      simp_all
  have names: "list_all (\<lambda>c. 0x0a \<notin> set (ct_hostname c)) (ks_registry ?st2)"
    by (simp add: forger_def as_bytes_def)
  have "length status_header = 33" by (simp add: status_header_def as_bytes_def)
  then have "map read_row (lines_from [] (drop 33 out)) = map (row_of (\<lambda>_. True)) (ks_registry ?st2)"
    using table_lines [OF names] unfolding tasks_steady_table(1) [OF steady refl out] by simp
  also have "\<dots> = [(1, 7, as_bytes ''exited'', ?name), (2, 7, as_bytes ''exited'', ?name)]"
    by (simp add: row_of_def label_def forger_def valid(1))
  finally show ?thesis using forged unfolding exited by auto
qed

end
