(* ===== verification/Kernel_Init.thy ===== *)
theory Kernel_Init
  imports Kernel_Gate
begin

text \<open>
  \<open>module/krunc.rs\<close>, the init task of a container: \<open>container_entry\<close> and the \<open>apply_*\<close> functions,
  as the sequence of helper calls they make. What the helper answers is a parameter: an answer
  to every call, which may depend on all calls made before it.
\<close>

section \<open>Helper calls and their answers\<close>

text \<open>A path argument is the C string the helper sees; \<open>None\<close> is a null pointer.\<close>

datatype hcall =
    HSetHostname "u8 list"
  | HUsernsSetupCreds
  | HMount "u8 list option" "u8 list" "u8 list option" u64
  | HChroot "u8 list"
  | HMkdir "u8 list" u16
  | HMknod "u8 list" u16 u32 u32
  | HSymlink "u8 list" "u8 list"
  | HWriteFile "u8 list" "u8 list"
  | HApplyRlimit u32 u64 u64
  | HSetOomScoreAdj i32
  | HApplyCreds u64 u64 u64 u64 u64 u32 u32 bool bool
  | HExecve "u8 list" "u8 list list" "u8 list list"
  | HExit int

type_synonym trace = "hcall list"
type_synonym answers = "trace \<Rightarrow> hcall \<Rightarrow> int"

text \<open>
  The calls made so far are the state; a stage ends in \<open>Err\<close> when the task has exited
  (\<open>krunc_exit\<close> does not return).
\<close>

definition exit_task :: "int \<Rightarrow> trace \<Rightarrow> trace + 'a" where
  "exit_task code tr = Err (tr @ [HExit code])"

definition MS_RDONLY :: u64 where "MS_RDONLY = 1"
definition MS_REMOUNT :: u64 where "MS_REMOUNT = 32"
definition MS_BIND :: u64 where "MS_BIND = 4096"
definition MS_REC :: u64 where "MS_REC = 16384"
definition MS_PRIVATE :: u64 where "MS_PRIVATE = push_bit 18 1"

definition root_dir :: "u8 list" where "root_dir = as_bytes ''/''"

section \<open>Filesystem confinement\<close>

fun mask_paths :: "answers \<Rightarrow> u8 list list \<Rightarrow> trace \<Rightarrow> trace" where
  "mask_paths ans [] tr = tr"
| "mask_paths ans (p # ps) tr =
     (if length p \<le> 1 then mask_paths ans ps tr
      else
        (let path = c_str p;
             bind = HMount (Some (as_bytes ''/dev/null'')) path None MS_BIND;
             tmpfs = HMount (Some (as_bytes ''tmpfs'')) path (Some (as_bytes ''tmpfs'')) MS_RDONLY;
             tr1 = tr @ [bind] in
         mask_paths ans ps (if ans tr bind \<noteq> 0 then tr1 @ [tmpfs] else tr1)))"

fun readonly_paths :: "answers \<Rightarrow> u8 list list \<Rightarrow> trace \<Rightarrow> trace" where
  "readonly_paths ans [] tr = tr"
| "readonly_paths ans (p # ps) tr =
     (if length p \<le> 1 then readonly_paths ans ps tr
      else
        (let path = c_str p;
             bind = HMount (Some path) path None MS_BIND;
             remount = HMount None path None (MS_REMOUNT OR MS_BIND OR MS_RDONLY);
             tr1 = tr @ [bind] in
         readonly_paths ans ps (if ans tr bind = 0 then tr1 @ [remount] else tr1)))"

definition apply_path_confinement ::
  "answers \<Rightarrow> u8 list list \<Rightarrow> u8 list list \<Rightarrow> trace \<Rightarrow> trace" where
  "apply_path_confinement ans masked ro tr = readonly_paths ans ro (mask_paths ans masked tr)"

section \<open>Sysctls\<close>

text \<open>One entry \<open>relpath=value\<close>, with a NUL at its end: the write it stands for, if any.\<close>

definition sysctl_write :: "u8 list \<Rightarrow> (u8 list \<times> u8 list) option" where
  "sysctl_write entry =
     (case position (\<lambda>b. b = 0x3d) entry of
        None \<Rightarrow> None
      | Some eq \<Rightarrow>
          (let end = (if entry \<noteq> [] \<and> last entry = 0 then length entry - 1 else length entry) in
           if eq + 1 > end then None
           else Some (c_str (as_bytes ''/proc/sys/'' @ take eq entry @ [0]),
                      take (end - (eq + 1)) (drop (eq + 1) entry))))"

fun apply_sysctls :: "u8 list list \<Rightarrow> trace \<Rightarrow> trace" where
  "apply_sysctls [] tr = tr"
| "apply_sysctls (entry # es) tr =
     apply_sysctls es
       (case sysctl_write entry of None \<Rightarrow> tr | Some (path, value) \<Rightarrow> tr @ [HWriteFile path value])"

section \<open>Mounts and default devices\<close>

definition mount_calls :: "k_mount \<Rightarrow> trace" where
  "mount_calls m =
     (if length (km_destination m) \<le> 1 then []
      else
        (let dest = c_str (km_destination m);
             src = (if length (km_source m) > 1 then Some (c_str (km_source m)) else None);
             typ = (if length (km_fs_type m) > 1 then Some (c_str (km_fs_type m)) else None) in
         (if typ \<noteq> None then [HMkdir dest 0x1ed] else []) @ [HMount src dest typ (km_flags m)]))"

fun apply_mounts :: "k_mount list \<Rightarrow> trace \<Rightarrow> trace" where
  "apply_mounts [] tr = tr"
| "apply_mounts (m # ms) tr = apply_mounts ms (tr @ mount_calls m)"

definition S_IFCHR :: u16 where "S_IFCHR = 0x2000"

definition default_nodes :: "(string \<times> u32 \<times> u32) list" where
  "default_nodes = [(''/dev/null'', 1, 3), (''/dev/zero'', 1, 5), (''/dev/full'', 1, 7),
     (''/dev/random'', 1, 8), (''/dev/urandom'', 1, 9), (''/dev/tty'', 5, 0)]"

definition default_links :: "(string \<times> string) list" where
  "default_links = [(''/dev/fd'', ''/proc/self/fd''), (''/dev/stdin'', ''/proc/self/fd/0''),
     (''/dev/stdout'', ''/proc/self/fd/1''), (''/dev/stderr'', ''/proc/self/fd/2''),
     (''/dev/ptmx'', ''pts/ptmx'')]"

definition fresh_dev :: "k_mount list \<Rightarrow> bool" where
  "fresh_dev mounts =
     list_ex (\<lambda>m. km_destination m = to_cvec (as_bytes ''/dev'')
       \<and> km_fs_type m = to_cvec (as_bytes ''tmpfs'')) mounts"

definition apply_default_devices :: "k_mount list \<Rightarrow> trace \<Rightarrow> trace" where
  "apply_default_devices mounts tr =
     (if \<not> fresh_dev mounts then tr
      else tr
        @ map (\<lambda>(path, maj, min). HMknod (as_bytes path) (S_IFCHR OR 0x1b6) maj min) default_nodes
        @ map (\<lambda>(path, target). HSymlink (as_bytes path) (as_bytes target)) default_links)"

section \<open>container\_entry\<close>

definition set_hostname :: "container_ctx \<Rightarrow> trace \<Rightarrow> trace" where
  "set_hostname ctx tr =
     (if length (cx_hostname ctx) > 1
      then tr @ [HSetHostname (take (length (cx_hostname ctx) - 1) (cx_hostname ctx))] else tr)"

text \<open>A call whose failure ends the task with its result as exit code.\<close>

definition must :: "answers \<Rightarrow> hcall \<Rightarrow> trace \<Rightarrow> trace + trace" where
  "must ans c tr = (let rc = ans tr c; tr = tr @ [c] in if rc \<noteq> 0 then exit_task rc tr else Ok tr)"

definition setup_userns :: "answers \<Rightarrow> container_ctx \<Rightarrow> trace \<Rightarrow> trace + trace" where
  "setup_userns ans ctx tr =
     (if cx_userns ctx then must ans HUsernsSetupCreds tr else Ok tr)"

definition make_private :: hcall where
  "make_private = HMount None root_dir None (MS_REC OR MS_PRIVATE)"

definition bind_rootfs :: "container_ctx \<Rightarrow> hcall" where
  "bind_rootfs ctx =
     HMount (Some (c_str (cx_rootfs ctx))) (c_str (cx_rootfs ctx)) None (MS_BIND OR MS_REC)"

definition prepare_readonly :: "answers \<Rightarrow> container_ctx \<Rightarrow> trace \<Rightarrow> trace + trace" where
  "prepare_readonly ans ctx tr =
     (if cx_readonly_rootfs ctx then must ans (bind_rootfs ctx) (tr @ [make_private]) else Ok tr)"

definition seal_call :: hcall where
  "seal_call = HMount None root_dir None (MS_REMOUNT OR MS_BIND OR MS_RDONLY)"

definition seal_rootfs :: "answers \<Rightarrow> container_ctx \<Rightarrow> trace \<Rightarrow> trace + trace" where
  "seal_rootfs ans ctx tr = (if cx_readonly_rootfs ctx then must ans seal_call tr else Ok tr)"

definition apply_limits :: "container_ctx \<Rightarrow> trace \<Rightarrow> trace" where
  "apply_limits ctx tr =
     tr @ map (\<lambda>rl. HApplyRlimit (kr_resource rl) (kr_soft rl) (kr_hard rl)) (cx_rlimits ctx)
       @ (case cx_oom_score_adj ctx of Some adj \<Rightarrow> [HSetOomScoreAdj adj] | None \<Rightarrow> [])"

definition creds_call :: "container_ctx \<Rightarrow> hcall" where
  "creds_call ctx =
     (let cs = cx_cap_sets ctx in
      HApplyCreds (cs_bounding cs) (cs_effective cs) (cs_permitted cs) (cs_inheritable cs)
        (cs_ambient cs) (cx_uid ctx) (cx_gid ctx) (cx_no_new_privs ctx) (cs_present cs))"

definition default_env :: "u8 list list" where
  "default_env = map as_bytes [''PATH=/bin:/sbin:/usr/bin:/usr/sbin'', ''HOME=/'', ''TERM=linux'',
     ''container=krunc'']"

text \<open>The filesystem set-up after the chroot, still privileged.\<close>

definition setup_filesystem :: "answers \<Rightarrow> container_ctx \<Rightarrow> trace \<Rightarrow> trace" where
  "setup_filesystem ans ctx tr =
     (let tr = tr @ [make_private];
          tr = apply_mounts (cx_mounts ctx) tr;
          tr = apply_default_devices (cx_mounts ctx) tr;
          tr = apply_sysctls (cx_sysctls ctx) tr;
          tr = apply_path_confinement ans (cx_masked ctx) (cx_readonly ctx) tr in
      apply_limits ctx tr)"

text \<open>The exec: the result the task returns to user mode with, or its exit.\<close>

definition do_exec :: "answers \<Rightarrow> container_ctx \<Rightarrow> trace \<Rightarrow> trace + int \<times> trace" where
  "do_exec ans ctx tr =
     (let argv = map c_str (take K_MAX_ARGS (cx_argv ctx)) in
      if argv = [] then exit_task (- 22) tr
      else
        (let envp = (if cx_envp ctx = [] then default_env
                     else map c_str (take K_MAX_ARGS (cx_envp ctx)));
             c = HExecve (hd argv) argv envp;
             rc = ans tr c;
             tr = tr @ [c] in
         if rc \<noteq> 0 then exit_task rc tr else Ok (rc, tr)))"

definition entry_after_gate :: "answers \<Rightarrow> bool \<Rightarrow> container_ctx \<Rightarrow> trace + int \<times> trace" where
  "entry_after_gate ans doomed ctx =
     (if doomed then exit_task 0 []
      else
        and_then (setup_userns ans ctx (set_hostname ctx [])) (\<lambda>tr.
        and_then (prepare_readonly ans ctx tr) (\<lambda>tr.
        and_then (must ans (HChroot (c_str (cx_rootfs ctx))) tr) (\<lambda>tr.
        and_then (seal_rootfs ans ctx (setup_filesystem ans ctx tr)) (\<lambda>tr.
        do_exec ans ctx (tr @ [creds_call ctx]))))))"

text \<open>
  The whole task: a created container first polls its gate, and never gets further when the
  poll never ends.
\<close>

definition container_entry ::
  "answers \<Rightarrow> (nat \<Rightarrow> u8) \<Rightarrow> container_ctx \<Rightarrow> (trace + int \<times> trace) option" where
  "container_entry ans load ctx =
     (case cx_ctrl ctx of
        Some _ \<Rightarrow> map_option (\<lambda>doomed. entry_after_gate ans doomed ctx) (gate_poll load 0)
      | None \<Rightarrow> Some (entry_after_gate ans False ctx))"

end
