(* ===== verification/Helper_Creds.thy ===== *)
theory Helper_Creds
  imports Kernel_Init
begin

text \<open>
  \<open>module/krunc_helper.c\<close>, what the init task's calls do to the task itself: its credentials, the
  no-new-privs bit, its limits, its OOM score and its host name. What the kernel answers to the
  functions below the helper (allocations, the maps of the user namespace) is a parameter.
\<close>

section \<open>The task\<close>

text \<open>
  A \<open>kuid_t\<close> or \<open>kgid_t\<close> is its number on the host; a capability set is its mask; \<open>tk_nodename\<close> is the
  whole array of the UTS name space, of which a new name overwrites its own length and one byte.
\<close>

record cred =
  cr_uid :: u32
  cr_euid :: u32
  cr_suid :: u32
  cr_fsuid :: u32
  cr_gid :: u32
  cr_egid :: u32
  cr_sgid :: u32
  cr_fsgid :: u32
  cr_bset :: u64
  cr_effective :: u64
  cr_permitted :: u64
  cr_inheritable :: u64
  cr_ambient :: u64
  cr_user :: u32

record task =
  tk_cred :: cred
  tk_no_new_privs :: bool
  tk_rlim :: "u32 \<Rightarrow> u64 \<times> u64"
  tk_oom_score_adj :: int
  tk_oom_score_adj_min :: int
  tk_nodename :: "u8 list"

text \<open>
  What \<open>prepare_creds\<close>, \<open>alloc_uid\<close> and \<open>set_cred_ucounts\<close> answer, and the ids \<open>make_kuid\<close> and
  \<open>make_kgid\<close> give, \<open>None\<close> when they are not valid.
\<close>

record kernel_env =
  ke_prepare :: bool
  ke_alloc_uid :: "u32 \<Rightarrow> bool"
  ke_ucounts :: "cred \<Rightarrow> bool"
  ke_make_kuid :: "u32 \<Rightarrow> u32 option"
  ke_make_kgid :: "u32 \<Rightarrow> u32 option"

section \<open>The functions\<close>

definition CAP_LAST_CAP :: nat where "CAP_LAST_CAP = 40"
definition ENOMEM_nr :: int where "ENOMEM_nr = 12"
definition EAGAIN_nr :: int where "EAGAIN_nr = 11"
definition EINVAL_nr :: int where "EINVAL_nr = 22"

lemmas errno_nrs = ENOMEM_nr_def EAGAIN_nr_def EINVAL_nr_def

definition cap_valid :: u64 where "cap_valid = push_bit (CAP_LAST_CAP + 1) 1 - 1"

definition krunc_apply_creds :: "u64 \<Rightarrow> u64 \<Rightarrow> u64 \<Rightarrow> u64 \<Rightarrow> u64 \<Rightarrow> u32 \<Rightarrow> u32 \<Rightarrow> bool \<Rightarrow> bool \<Rightarrow>
    kernel_env \<Rightarrow> task \<Rightarrow> int \<times> task" where
  "krunc_apply_creds bset eff perm inh amb uid gid no_new_privs caps_present e t =
     (let t = (if no_new_privs then t\<lparr>tk_no_new_privs := True\<rparr> else t) in
      if \<not> caps_present then (0, t)
      else if \<not> ke_prepare e then (- ENOMEM_nr, t)
      else
        (let new = (tk_cred t)\<lparr>cr_bset := bset AND cap_valid, cr_effective := eff AND cap_valid,
                     cr_permitted := perm AND cap_valid, cr_inheritable := inh AND cap_valid,
                     cr_ambient := amb AND cap_valid\<rparr>;
             new = (case ke_make_kgid e gid of
                      Some kgid \<Rightarrow> new\<lparr>cr_gid := kgid, cr_egid := kgid, cr_sgid := kgid, cr_fsgid := kgid\<rparr>
                    | None \<Rightarrow> new);
             kuid = ke_make_kuid e uid;
             new = (case kuid of
                      Some kuid \<Rightarrow> new\<lparr>cr_uid := kuid, cr_euid := kuid, cr_suid := kuid, cr_fsuid := kuid\<rparr>
                    | None \<Rightarrow> new) in
         if (case kuid of Some kuid \<Rightarrow> \<not> ke_alloc_uid e kuid | None \<Rightarrow> False) then (- EAGAIN_nr, t)
         else
           (let new = (case kuid of Some kuid \<Rightarrow> new\<lparr>cr_user := kuid\<rparr> | None \<Rightarrow> new) in
            if \<not> ke_ucounts e new then (- ENOMEM_nr, t)
            else (0, t\<lparr>tk_cred := new\<rparr>))))"

definition krunc_userns_setup_creds :: "kernel_env \<Rightarrow> task \<Rightarrow> int \<times> task" where
  "krunc_userns_setup_creds e t =
     (case (ke_make_kuid e 0, ke_make_kgid e 0) of
        (Some kuid, Some kgid) \<Rightarrow>
          if \<not> ke_prepare e then (- ENOMEM_nr, t)
          else (0, t\<lparr>tk_cred := (tk_cred t)\<lparr>cr_fsuid := kuid, cr_fsgid := kgid\<rparr>\<rparr>)
      | _ \<Rightarrow> (- EINVAL_nr, t))"

definition RLIM_NLIMITS :: u32 where "RLIM_NLIMITS = 16"
definition RLIM_INFINITY :: u64 where "RLIM_INFINITY = - 1"

definition krunc_apply_rlimit :: "u32 \<Rightarrow> u64 \<Rightarrow> u64 \<Rightarrow> task \<Rightarrow> int \<times> task" where
  "krunc_apply_rlimit resource soft hard t =
     (if resource \<ge> RLIM_NLIMITS then (- EINVAL_nr, t)
      else if soft \<noteq> RLIM_INFINITY \<and> hard \<noteq> RLIM_INFINITY \<and> soft > hard then (- EINVAL_nr, t)
      else (0, t\<lparr>tk_rlim := (tk_rlim t)(resource := (soft, hard))\<rparr>))"

definition krunc_set_oom_score_adj :: "i32 \<Rightarrow> task \<Rightarrow> task" where
  "krunc_set_oom_score_adj adj t =
     (let adj = (if sint adj < - 1000 then - 1000 else if sint adj > 1000 then 1000 else sint adj) in
      t\<lparr>tk_oom_score_adj := adj, tk_oom_score_adj_min := adj\<rparr>)"

definition NEW_UTS_LEN :: nat where "NEW_UTS_LEN = 64"

definition krunc_set_hostname :: "u8 list \<Rightarrow> task \<Rightarrow> int \<times> task" where
  "krunc_set_hostname name t =
     (if length name \<ge> NEW_UTS_LEN then (- EINVAL_nr, t)
      else (0, t\<lparr>tk_nodename := name @ 0 # drop (length name + 1) (tk_nodename t)\<rparr>))"

section \<open>The calls of the init task\<close>

text \<open>The other calls leave these parts of the task alone.\<close>

definition task_call :: "kernel_env \<Rightarrow> hcall \<Rightarrow> task \<Rightarrow> int \<times> task" where
  "task_call e c t =
     (case c of
        HSetHostname name \<Rightarrow> krunc_set_hostname name t
      | HUsernsSetupCreds \<Rightarrow> krunc_userns_setup_creds e t
      | HApplyRlimit resource soft hard \<Rightarrow> krunc_apply_rlimit resource soft hard t
      | HSetOomScoreAdj adj \<Rightarrow> (0, krunc_set_oom_score_adj adj t)
      | HApplyCreds bset eff perm inh amb uid gid nnp present \<Rightarrow>
          krunc_apply_creds bset eff perm inh amb uid gid nnp present e t
      | _ \<Rightarrow> (0, t))"

text \<open>The task after a list of calls; what the kernel answers may depend on the calls before.\<close>

fun task_after :: "(trace \<Rightarrow> kernel_env) \<Rightarrow> trace \<Rightarrow> trace \<Rightarrow> task \<Rightarrow> task" where
  "task_after env pre [] t = t"
| "task_after env pre (c # cs) t = task_after env (pre @ [c]) cs (snd (task_call (env pre) c t))"

lemma task_after_append:
  "task_after env pre (cs @ ds) t = task_after env (pre @ cs) ds (task_after env pre cs t)"
  by (induction cs arbitrary: pre t) simp_all

section \<open>What a call to set the credentials does\<close>

definition creds_granted :: "kernel_env \<Rightarrow> u32 \<Rightarrow> bool" where
  "creds_granted e uid \<longleftrightarrow> ke_prepare e \<and> (\<forall>new. ke_ucounts e new)
     \<and> (case ke_make_kuid e uid of Some kuid \<Rightarrow> ke_alloc_uid e kuid | None \<Rightarrow> True)"

lemma bit_cap_valid: "bit (m AND cap_valid) i \<longleftrightarrow> bit m i \<and> i \<le> CAP_LAST_CAP"
proof -
  have valid: "cap_valid = mask 41" by (simp add: cap_valid_def CAP_LAST_CAP_def mask_eq_exp_minus_1)
  show ?thesis
    unfolding valid by (auto simp: bit_and_iff bit_mask_iff CAP_LAST_CAP_def dest: bit_imp_le_length)
qed

text \<open>The parts of the credentials no call before it touches.\<close>

definition identity :: "cred \<Rightarrow> u32 list \<times> u32 list \<times> u64 list" where
  "identity c = ([cr_uid c, cr_euid c, cr_suid c, cr_user c], [cr_gid c, cr_egid c, cr_sgid c],
     [cr_bset c, cr_effective c, cr_permitted c, cr_inheritable c, cr_ambient c])"

lemma apply_creds_zero:
  assumes "krunc_apply_creds bset eff perm inh amb uid gid nnp True e t = (0, t')"
  shows "t' = t\<lparr>tk_no_new_privs := tk_no_new_privs t \<or> nnp,
       tk_cred := (case ke_make_kuid e uid of
           Some k \<Rightarrow> (\<lambda>c. c\<lparr>cr_uid := k, cr_euid := k, cr_suid := k, cr_fsuid := k, cr_user := k\<rparr>)
         | None \<Rightarrow> id)
        ((case ke_make_kgid e gid of
           Some k \<Rightarrow> (\<lambda>c. c\<lparr>cr_gid := k, cr_egid := k, cr_sgid := k, cr_fsgid := k\<rparr>)
         | None \<Rightarrow> id)
        ((tk_cred t)\<lparr>cr_bset := bset AND cap_valid, cr_effective := eff AND cap_valid,
           cr_permitted := perm AND cap_valid, cr_inheritable := inh AND cap_valid,
           cr_ambient := amb AND cap_valid\<rparr>))\<rparr>"
  using assms
  by (cases t) (auto simp: krunc_apply_creds_def errno_nrs Let_def split: option.splits if_splits)

lemma apply_creds_granted:
  assumes "creds_granted e uid"
  shows "fst (krunc_apply_creds bset eff perm inh amb uid gid nnp present e t) = 0"
  using assms by (auto simp: krunc_apply_creds_def creds_granted_def Let_def split: option.splits)

lemma apply_creds_absent:
  "krunc_apply_creds bset eff perm inh amb uid gid nnp False e t =
    (0, t\<lparr>tk_no_new_privs := tk_no_new_privs t \<or> nnp\<rparr>)"
  by (cases t) (simp add: krunc_apply_creds_def)

text \<open>A refused call changes the credentials in no part, and still sets the bit.\<close>

lemma apply_creds_refused:
  assumes "fst (krunc_apply_creds bset eff perm inh amb uid gid nnp present e t) \<noteq> 0"
  shows "snd (krunc_apply_creds bset eff perm inh amb uid gid nnp present e t) =
    t\<lparr>tk_no_new_privs := tk_no_new_privs t \<or> nnp\<rparr>"
  using assms by (cases t) (auto simp: krunc_apply_creds_def Let_def split: option.splits if_splits)

lemma other_calls:
  assumes "\<forall>bset eff perm inh amb uid gid nnp present. c \<noteq> HApplyCreds bset eff perm inh amb uid gid nnp present"
  shows "identity (tk_cred (snd (task_call e c t))) = identity (tk_cred t)"
    and "tk_no_new_privs (snd (task_call e c t)) = tk_no_new_privs t"
  using assms
  by (auto simp: task_call_def krunc_set_hostname_def krunc_userns_setup_creds_def
      krunc_apply_rlimit_def krunc_set_oom_score_adj_def identity_def Let_def
      split: hcall.splits option.splits)

lemma other_calls_after:
  assumes "list_all (\<lambda>c. \<forall>bset eff perm inh amb uid gid nnp present.
      c \<noteq> HApplyCreds bset eff perm inh amb uid gid nnp present) cs"
  shows "identity (tk_cred (task_after env pre cs t)) = identity (tk_cred t)
    \<and> tk_no_new_privs (task_after env pre cs t) = tk_no_new_privs t"
  using assms by (induction cs arbitrary: pre t) (simp_all add: other_calls)

end
