(* ===== verification/Oci_Config.thy ===== *)
theory Oci_Config
  imports Abi_Spec Rust_Std
begin

text \<open>
  \<open>userspace/krunc-oci/src/lib.rs\<close>, the parsed \<open>config.json\<close> and the small translations:
  errors, cgroup limits, the BPF-LSM annotation, the rootfs path, id mappings, namespace,
  capability and rlimit names, mount options and sysctls.
\<close>

section \<open>The parsed configuration\<close>

text \<open>
  The structures serde fills in. A \<open>HashMap\<close> is the list of its entries in iteration order,
  which is any order, with distinct keys; of the maps of unmodelled properties (\<open>extra\<close>) only
  the keys are ever looked at. An \<open>i64\<close> is an \<open>int\<close>.
\<close>

record oci_mount =
  om_destination :: string
  om_mount_type :: string
  om_source :: string
  om_options :: "string list"

record oci_rlimit =
  ol_limit_type :: string
  ol_soft :: u64
  ol_hard :: u64

record oci_user =
  ou_uid :: u32
  ou_gid :: u32
  ou_additional_gids :: "u32 list"

record capabilities =
  cp_bounding :: "string list"
  cp_effective :: "string list"
  cp_permitted :: "string list"
  cp_inheritable :: "string list"
  cp_ambient :: "string list"

record process =
  pr_terminal :: bool
  pr_args :: "string list"
  pr_env :: "string list"
  pr_cwd :: "string option"
  pr_user :: "oci_user option"
  pr_capabilities :: "capabilities option"
  pr_no_new_privileges :: bool
  pr_rlimits :: "oci_rlimit list"
  pr_oom_score_adj :: "i32 option"
  pr_extra :: "string list"

record oci_root =
  rt_path :: string
  rt_readonly :: bool

record oci_cpu =
  cu_quota :: "int option"
  cu_period :: "u64 option"
  cu_shares :: "u64 option"

record resources =
  rs_pids :: "int option"
  rs_memory :: "int option option"
  rs_cpu :: "oci_cpu option"
  rs_extra :: "string list"

record oci_namespace =
  on_ns_type :: string
  on_path :: "string option"

record linux_id_mapping =
  lm_container_id :: u32
  lm_host_id :: u32
  lm_size :: u32

record linux =
  lx_namespaces :: "oci_namespace list"
  lx_uid_mappings :: "linux_id_mapping list"
  lx_gid_mappings :: "linux_id_mapping list"
  lx_resources :: "resources option"
  lx_cgroups_path :: "string option"
  lx_masked_paths :: "string list"
  lx_readonly_paths :: "string list"
  lx_sysctl :: "(string \<times> string) list"
  lx_extra :: "string list"

record oci_config =
  oc_hostname :: "string option"
  oc_process :: "process option"
  oc_root :: "oci_root option"
  oc_linux :: "linux option"
  oc_mounts :: "oci_mount list"
  oc_annotations :: "(string \<times> string) list"
  oc_extra :: "string list"

text \<open>Messages keep their text; the quoting of \<open>{:?}\<close> is a pair of quotation marks.\<close>

datatype oci_error =
    Json string
  | Missing_field string
  | Unknown_capability string
  | Unsupported string
  | Unsupported_property string
  | Abi abi_error

definition quoted :: "string \<Rightarrow> string" where
  "quoted s = [CHR 0x22] @ s @ [CHR 0x22]"

definition oci_error_str :: "oci_error \<Rightarrow> string" where
  "oci_error_str err =
     (case err of
        Json e \<Rightarrow> ''parsing config.json: '' @ e
      | Missing_field s \<Rightarrow> ''config.json: missing required field '' @ s
      | Unknown_capability c \<Rightarrow> ''unknown capability '' @ c
      | Unsupported s \<Rightarrow> ''unsupported config.json feature: '' @ s
      | Unsupported_property s \<Rightarrow> ''config.json sets '' @ s @ '', which krunc cannot apply (the OCI ''
          @ ''runtime-spec requires the runtime to error rather than ignore it)''
      | Abi e \<Rightarrow> ''spec exceeds ABI limits: '' @ abi_error_str e)"

text \<open>The \<open>?\<close> operator on an ABI error, through \<open>From\<close>.\<close>

definition from_abi :: "abi_error + 'a \<Rightarrow> oci_error + 'a" where
  "from_abi r = (case r of Err e \<Rightarrow> Err (Abi e) | Ok x \<Rightarrow> Ok x)"

section \<open>Cgroup limits\<close>

record cgroup_config =
  cg_path :: "string option"
  cg_pids_limit :: "int option"
  cg_memory_limit :: "int option"
  cg_cpu_max :: "string option"
  cg_cpu_weight :: "u64 option"

definition clamp :: "u64 \<Rightarrow> u64 \<Rightarrow> u64 \<Rightarrow> u64" where
  "clamp v lo hi = (if v < lo then lo else if v > hi then hi else v)"

definition shares_to_weight :: "u64 \<Rightarrow> u64" where
  "shares_to_weight shares =
     (if shares = 0 then 0
      else
        (let w = 1 + ((clamp shares 2 262144 - 2) * 9999) div 262142 in
         clamp w 1 10000))"

definition cgroup_config_of :: "oci_config \<Rightarrow> cgroup_config" where
  "cgroup_config_of cfg =
     (let linux = oc_linux cfg;
          resources = Option.bind linux lx_resources;
          cpu = Option.bind resources rs_cpu;
          cpu_max = Option.bind cpu (\<lambda>c.
            case cu_quota c of
              Some q \<Rightarrow>
                if q > 0 then
                  Some (dec_str q @ '' '' @ dec_str (uint (case cu_period c of Some p \<Rightarrow> p | None \<Rightarrow> 100000)))
                else None
            | None \<Rightarrow> None);
          cpu_weight = map_option shares_to_weight
            (Option.bind (Option.bind cpu cu_shares) (\<lambda>s. if s \<noteq> 0 then Some s else None)) in
      \<lparr>cg_path = Option.bind linux lx_cgroups_path,
       cg_pids_limit = Option.bind resources rs_pids,
       cg_memory_limit = Option.bind (Option.bind resources rs_memory)
         (\<lambda>m. Option.bind m (\<lambda>l. if l \<ge> 0 then Some l else None)),
       cg_cpu_max = cpu_max, cg_cpu_weight = cpu_weight\<rparr>)"

section \<open>The BPF-LSM annotation\<close>

datatype bpf_lsm_mode = Block | Kill

definition as_arg :: "bpf_lsm_mode \<Rightarrow> string" where
  "as_arg m = (case m of Block \<Rightarrow> ''block'' | Kill \<Rightarrow> ''kill'')"

definition bpf_lsm_mode_of :: "oci_config \<Rightarrow> oci_error + bpf_lsm_mode option" where
  "bpf_lsm_mode_of cfg =
     (case map_of (oc_annotations cfg) ''org.krunc.bpf-lsm'' of
        None \<Rightarrow> Ok None
      | Some v \<Rightarrow>
          if v = ''block'' then Ok (Some Block)
          else if v = ''kill'' then Ok (Some Kill)
          else Err (Unsupported_property
            (''annotation org.krunc.bpf-lsm='' @ quoted v @ '' (expected block|kill)'')))"

section \<open>Paths, id mappings and namespaces\<close>

definition resolve_rootfs :: "string \<Rightarrow> string \<Rightarrow> string" where
  "resolve_rootfs bundle root_path =
     (if is_absolute root_path then root_path else path_join bundle root_path)"

definition translate_id_maps :: "linux_id_mapping list \<Rightarrow> oci_error + id_map list" where
  "translate_id_maps maps =
     for_each (\<lambda>m.
       if lm_size m = 0 then Err (Unsupported_property ''uid/gidMappings entry with size 0'')
       else Ok \<lparr>im_container_id = lm_container_id m, im_host_id = lm_host_id m,
                im_size = lm_size m\<rparr>) maps"

definition ns_flag :: "string \<Rightarrow> oci_error + u32" where
  "ns_flag ns_type =
     (if ns_type = ''pid'' then Ok NS_PID
      else if ns_type = ''mount'' then Ok NS_MOUNT
      else if ns_type = ''network'' then Ok NS_NET
      else if ns_type = ''ipc'' then Ok NS_IPC
      else if ns_type = ''uts'' then Ok NS_UTS
      else if ns_type = ''user'' then Ok NS_USER
      else if ns_type = ''cgroup'' then Ok NS_CGROUP
      else if ns_type = ''time'' then Err (Unsupported ''time namespace'')
      else Err (Unsupported ''unknown namespace type''))"

section \<open>Capabilities and limits\<close>

definition CAPS :: "(string \<times> nat) list" where
  "CAPS = [
    (''CAP_CHOWN'', 0), (''CAP_DAC_OVERRIDE'', 1), (''CAP_DAC_READ_SEARCH'', 2),
    (''CAP_FOWNER'', 3), (''CAP_FSETID'', 4), (''CAP_KILL'', 5), (''CAP_SETGID'', 6),
    (''CAP_SETUID'', 7), (''CAP_SETPCAP'', 8), (''CAP_LINUX_IMMUTABLE'', 9),
    (''CAP_NET_BIND_SERVICE'', 10), (''CAP_NET_BROADCAST'', 11), (''CAP_NET_ADMIN'', 12),
    (''CAP_NET_RAW'', 13), (''CAP_IPC_LOCK'', 14), (''CAP_IPC_OWNER'', 15),
    (''CAP_SYS_MODULE'', 16), (''CAP_SYS_RAWIO'', 17), (''CAP_SYS_CHROOT'', 18),
    (''CAP_SYS_PTRACE'', 19), (''CAP_SYS_PACCT'', 20), (''CAP_SYS_ADMIN'', 21),
    (''CAP_SYS_BOOT'', 22), (''CAP_SYS_NICE'', 23), (''CAP_SYS_RESOURCE'', 24),
    (''CAP_SYS_TIME'', 25), (''CAP_SYS_TTY_CONFIG'', 26), (''CAP_MKNOD'', 27),
    (''CAP_LEASE'', 28), (''CAP_AUDIT_WRITE'', 29), (''CAP_AUDIT_CONTROL'', 30),
    (''CAP_SETFCAP'', 31), (''CAP_MAC_OVERRIDE'', 32), (''CAP_MAC_ADMIN'', 33),
    (''CAP_SYSLOG'', 34), (''CAP_WAKE_ALARM'', 35), (''CAP_BLOCK_SUSPEND'', 36),
    (''CAP_AUDIT_READ'', 37), (''CAP_PERFMON'', 38), (''CAP_BPF'', 39),
    (''CAP_CHECKPOINT_RESTORE'', 40)]"

definition cap_bit :: "string \<Rightarrow> nat option" where
  "cap_bit name = map_option snd (find (\<lambda>(n, _). n = name) CAPS)"

fun caps_mask_from :: "string list \<Rightarrow> u64 \<Rightarrow> oci_error + u64" where
  "caps_mask_from [] msk = Ok msk"
| "caps_mask_from (n # names) msk =
     and_then (ok_or (cap_bit n) (Unknown_capability n)) (\<lambda>b.
       caps_mask_from names (msk OR push_bit b 1))"

definition caps_to_mask :: "string list \<Rightarrow> oci_error + u64" where
  "caps_to_mask names = caps_mask_from names 0"

definition rlimit_resource :: "string \<Rightarrow> u32 option" where
  "rlimit_resource name =
     map_of [(''RLIMIT_CPU'', 0), (''RLIMIT_FSIZE'', 1), (''RLIMIT_DATA'', 2),
       (''RLIMIT_STACK'', 3), (''RLIMIT_CORE'', 4), (''RLIMIT_RSS'', 5), (''RLIMIT_NPROC'', 6),
       (''RLIMIT_NOFILE'', 7), (''RLIMIT_MEMLOCK'', 8), (''RLIMIT_AS'', 9),
       (''RLIMIT_LOCKS'', 10), (''RLIMIT_SIGPENDING'', 11), (''RLIMIT_MSGQUEUE'', 12),
       (''RLIMIT_NICE'', 13), (''RLIMIT_RTPRIO'', 14), (''RLIMIT_RTTIME'', 15)] name"

section \<open>Mount options\<close>

text \<open>
  \<open>flags |= MS_X\<close> and \<open>flags &= !MS_X\<close>, where the source's constant is \<open>1 << k\<close>: \<open>MS_RDONLY\<close> is
  bit 0, \<open>MS_NOSUID\<close> 1, \<open>MS_NODEV\<close> 2, \<open>MS_NOEXEC\<close> 3, \<open>MS_SYNCHRONOUS\<close> 4, \<open>MS_REMOUNT\<close> 5,
  \<open>MS_DIRSYNC\<close> 7, \<open>MS_NOATIME\<close> 10, \<open>MS_NODIRATIME\<close> 11, \<open>MS_BIND\<close> 12, \<open>MS_REC\<close> 14,
  \<open>MS_SILENT\<close> 15, \<open>MS_RELATIME\<close> 21, \<open>MS_I_VERSION\<close> 23, \<open>MS_STRICTATIME\<close> 24, \<open>MS_LAZYTIME\<close> 25.
\<close>

definition flag_on :: "nat \<Rightarrow> u64 \<Rightarrow> u64" where
  "flag_on k flags = flags OR push_bit k 1"

definition flag_off :: "nat \<Rightarrow> u64 \<Rightarrow> u64" where
  "flag_off k flags = flags AND NOT (push_bit k 1)"

text \<open>One option of the loop in \<open>mount_flags\<close>.\<close>

definition mount_option :: "string \<Rightarrow> u64 \<times> bool \<Rightarrow> u64 \<times> bool" where
  "mount_option opt st =
     (let (flags, is_bind) = st in
      if opt = ''defaults'' then (flags, is_bind)
      else if opt = ''ro'' then (flag_on 0 flags, is_bind)
      else if opt = ''rw'' then (flag_off 0 flags, is_bind)
      else if opt = ''nosuid'' then (flag_on 1 flags, is_bind)
      else if opt = ''suid'' then (flag_off 1 flags, is_bind)
      else if opt = ''nodev'' then (flag_on 2 flags, is_bind)
      else if opt = ''dev'' then (flag_off 2 flags, is_bind)
      else if opt = ''noexec'' then (flag_on 3 flags, is_bind)
      else if opt = ''exec'' then (flag_off 3 flags, is_bind)
      else if opt = ''sync'' then (flag_on 4 flags, is_bind)
      else if opt = ''async'' then (flag_off 4 flags, is_bind)
      else if opt = ''dirsync'' then (flag_on 7 flags, is_bind)
      else if opt = ''remount'' then (flag_on 5 flags, is_bind)
      else if opt = ''noatime'' then (flag_on 10 flags, is_bind)
      else if opt = ''atime'' then (flag_off 10 flags, is_bind)
      else if opt = ''nodiratime'' then (flag_on 11 flags, is_bind)
      else if opt = ''diratime'' then (flag_off 11 flags, is_bind)
      else if opt = ''relatime'' then (flag_on 21 flags, is_bind)
      else if opt = ''norelatime'' then (flag_off 21 flags, is_bind)
      else if opt = ''strictatime'' then (flag_on 24 flags, is_bind)
      else if opt = ''nostrictatime'' then (flag_off 24 flags, is_bind)
      else if opt = ''lazytime'' then (flag_on 25 flags, is_bind)
      else if opt = ''nolazytime'' then (flag_off 25 flags, is_bind)
      else if opt = ''iversion'' then (flag_on 23 flags, is_bind)
      else if opt = ''noiversion'' then (flag_off 23 flags, is_bind)
      else if opt = ''loud'' then (flag_off 15 flags, is_bind)
      else if opt = ''bind'' then (flag_on 12 flags, True)
      else if opt = ''rbind'' then (flag_on 14 (flag_on 12 flags), True)
      else (flags, is_bind))"

definition mount_flags :: "string list \<Rightarrow> u64 \<times> bool" where
  "mount_flags options = fold mount_option options (0, False)"

definition known_mount_options :: "string list" where
  "known_mount_options = [''defaults'', ''ro'', ''rw'', ''nosuid'', ''suid'', ''nodev'', ''dev'',
     ''noexec'', ''exec'', ''sync'', ''async'', ''dirsync'', ''remount'', ''noatime'', ''atime'',
     ''nodiratime'', ''diratime'', ''relatime'', ''norelatime'', ''strictatime'',
     ''nostrictatime'', ''lazytime'', ''nolazytime'', ''iversion'', ''noiversion'', ''loud'',
     ''bind'', ''rbind'']"

fun check_mount_options :: "string list \<Rightarrow> oci_error + unit" where
  "check_mount_options [] = Ok ()"
| "check_mount_options (opt # options) =
     (if opt \<in> set known_mount_options then check_mount_options options
      else Err (Unsupported_property (''mounts[].options: '' @ opt)))"

section \<open>Unmodelled properties\<close>

fun reject_unmodeled :: "string \<Rightarrow> string list \<Rightarrow> string list \<Rightarrow> oci_error + unit" where
  "reject_unmodeled scope [] allow = Ok ()"
| "reject_unmodeled scope (key # keys) allow =
     (if key \<notin> set allow then
        (let prefix = (if scope = [] then [] else scope @ ''.'') in
         Err (Unsupported_property (prefix @ key)))
      else reject_unmodeled scope keys allow)"

section \<open>Sysctls\<close>

definition sysctl_namespaced :: "string \<Rightarrow> bool \<Rightarrow> bool \<Rightarrow> bool" where
  "sysctl_namespaced name has_ipc_ns has_net_ns =
     (if starts_with name ''net.'' then has_net_ns
      else
        (let ipc = (name = ''kernel.sem'' \<or> starts_with name ''kernel.shm''
              \<or> starts_with name ''kernel.msg'' \<or> starts_with name ''fs.mqueue.'') in
         ipc \<and> has_ipc_ns))"

definition sysctl_relpath :: "string \<Rightarrow> oci_error + string" where
  "sysctl_relpath name =
     (let bad = Unsupported_property (''linux.sysctl name '' @ quoted name) in
      if name = [] then Err bad
      else if \<not> list_all (\<lambda>b. is_ascii_alphanumeric b
                 \<or> b \<in> {CHR ''.'', CHR ''/'', CHR ''_'', CHR ''-''}) name then Err bad
      else
        (let rel = map (\<lambda>c. if c = CHR ''.'' then CHR ''/'' else c) name in
         if starts_with rel ''/'' \<or> (rel \<noteq> [] \<and> last rel = CHR ''/'')
           \<or> list_ex (\<lambda>c. c = [] \<or> c = ''..'') (split_slash rel)
         then Err bad else Ok rel))"

definition sysctl_value :: "string \<Rightarrow> oci_error + string" where
  "sysctl_value v =
     (if list_ex (\<lambda>b. b = CHR 0x00 \<or> b = CHR 0x0A) v
      then Err (Unsupported_property (''linux.sysctl value '' @ quoted v))
      else Ok v)"

end
