(* ===== verification/Oci_Translate.thy ===== *)
theory Oci_Translate
  imports Oci_Config "HOL-Library.Char_ord" "HOL-Library.List_Lexorder"
    "HOL-Library.Product_Lexorder" "HOL-Library.Multiset"
begin

text \<open>
  \<open>userspace/krunc-oci/src/lib.rs\<close>, \<open>config_to_spec\<close>: the translation of a parsed configuration
  to a validated specification, in the order of the source; and the lemmas that say when each
  of its steps succeeds.
\<close>

section \<open>The steps of the translation\<close>

text \<open>The checks on the process, up to its user.\<close>

definition check_process :: "process \<Rightarrow> oci_error + unit" where
  "check_process p =
     (if pr_args p = [] then Err (Missing_field ''process.args'')
      else if pr_terminal p then Err (Unsupported_property ''process.terminal'')
      else if (case pr_cwd p of Some cwd \<Rightarrow> cwd \<noteq> [] \<and> cwd \<noteq> ''/'' | None \<Rightarrow> False) then
        Err (Unsupported_property (''process.cwd other than '' @ quoted ''/''))
      else if (case pr_user p of Some u \<Rightarrow> ou_additional_gids u \<noteq> [] | None \<Rightarrow> False) then
        Err (Unsupported_property ''process.user.additionalGids'')
      else Ok ())"

definition check_extras :: "oci_config \<Rightarrow> process \<Rightarrow> oci_error + unit" where
  "check_extras cfg p =
     and_then (reject_unmodeled [] (oc_extra cfg) []) (\<lambda>_.
     and_then (reject_unmodeled ''process'' (pr_extra p) []) (\<lambda>_.
     (case oc_linux cfg of
        None \<Rightarrow> Ok ()
      | Some l \<Rightarrow>
          and_then (reject_unmodeled ''linux'' (lx_extra l) []) (\<lambda>_.
          (case lx_resources l of
             None \<Rightarrow> Ok ()
           | Some r \<Rightarrow> reject_unmodeled ''linux.resources'' (rs_extra r) [])))))"

fun namespace_loop :: "oci_namespace list \<Rightarrow> u32 \<Rightarrow> oci_error + u32" where
  "namespace_loop [] acc = Ok acc"
| "namespace_loop (n # ns) acc =
     (if on_path n \<noteq> None then
        Err (Unsupported ''joining an existing namespace (namespaces[].path)'')
      else and_then (ns_flag (on_ns_type n)) (\<lambda>f. namespace_loop ns (acc OR f)))"

definition sysctl_entry :: "bool \<Rightarrow> bool \<Rightarrow> string \<times> string \<Rightarrow> oci_error + string \<times> string" where
  "sysctl_entry has_ipc_ns has_net_ns kv =
     (let (k, v) = kv in
      if \<not> sysctl_namespaced k has_ipc_ns has_net_ns then
        Err (Unsupported_property
          (''linux.sysctl '' @ quoted k @ '' (not in a kernel namespace the container owns)''))
      else and_then (sysctl_relpath k) (\<lambda>p. and_then (sysctl_value v) (\<lambda>w. Ok (p, w))))"

text \<open>\<open>format!("{p}={v}")\<close>.\<close>

definition sysctl_line :: "string \<times> string \<Rightarrow> string" where
  "sysctl_line pv = fst pv @ ''='' @ snd pv"

text \<open>What the \<open>linux\<close> object contributes; \<open>no_linux\<close> holds the initial values of the locals.\<close>

record linux_part =
  lp_namespaces :: u32
  lp_uid_maps :: "id_map list"
  lp_gid_maps :: "id_map list"
  lp_masked_paths :: "string list"
  lp_readonly_paths :: "string list"
  lp_sysctls :: "string list"

definition no_linux :: linux_part where
  "no_linux = \<lparr>lp_namespaces = 0, lp_uid_maps = [], lp_gid_maps = [], lp_masked_paths = [],
     lp_readonly_paths = [], lp_sysctls = []\<rparr>"

definition translate_linux :: "linux option \<Rightarrow> oci_error + linux_part" where
  "translate_linux lx =
     (case lx of
        None \<Rightarrow> Ok no_linux
      | Some l \<Rightarrow>
          and_then (namespace_loop (lx_namespaces l) 0) (\<lambda>namespaces.
          if (lx_uid_mappings l \<noteq> [] \<or> lx_gid_mappings l \<noteq> []) \<and> namespaces AND NS_USER = 0
          then Err (Unsupported ''uid/gidMappings without a user namespace'')
          else
            and_then (translate_id_maps (lx_uid_mappings l)) (\<lambda>uid_maps.
            and_then (translate_id_maps (lx_gid_mappings l)) (\<lambda>gid_maps.
            let has_ipc_ns = namespaces AND NS_IPC \<noteq> 0; has_net_ns = namespaces AND NS_NET \<noteq> 0 in
            and_then (for_each (sysctl_entry has_ipc_ns has_net_ns) (lx_sysctl l)) (\<lambda>entries.
            Ok \<lparr>lp_namespaces = namespaces, lp_uid_maps = uid_maps, lp_gid_maps = gid_maps,
                lp_masked_paths = lx_masked_paths l, lp_readonly_paths = lx_readonly_paths l,
                lp_sysctls = map sysctl_line (sort entries)\<rparr>)))))"

definition option_flags :: "process \<Rightarrow> oci_root \<Rightarrow> u64" where
  "option_flags p r =
     (let flags = (if pr_no_new_privileges p then 0 OR OPT_NO_NEW_PRIVS else 0) in
      if rt_readonly r then flags OR OPT_ROOTFS_RO else flags)"

record cap_masks =
  cm_bounding :: u64
  cm_effective :: u64
  cm_permitted :: u64
  cm_inheritable :: u64
  cm_ambient :: u64

definition translate_caps :: "capabilities option \<Rightarrow> oci_error + cap_masks" where
  "translate_caps caps =
     (case caps of
        Some c \<Rightarrow>
          and_then (caps_to_mask (cp_bounding c)) (\<lambda>b.
          and_then (caps_to_mask (cp_effective c)) (\<lambda>e.
          and_then (caps_to_mask (cp_permitted c)) (\<lambda>p.
          and_then (caps_to_mask (cp_inheritable c)) (\<lambda>i.
          and_then (caps_to_mask (cp_ambient c)) (\<lambda>a.
          Ok \<lparr>cm_bounding = b, cm_effective = e, cm_permitted = p, cm_inheritable = i,
              cm_ambient = a\<rparr>)))))
      | None \<Rightarrow> Ok \<lparr>cm_bounding = 0, cm_effective = 0, cm_permitted = 0, cm_inheritable = 0,
                    cm_ambient = 0\<rparr>)"

definition translate_rlimit :: "oci_rlimit \<Rightarrow> oci_error + rlimit" where
  "translate_rlimit rl =
     and_then (ok_or (rlimit_resource (ol_limit_type rl)) (Unsupported ''process.rlimits[].type''))
       (\<lambda>n. Ok \<lparr>rl_resource = n, rl_soft = ol_soft rl, rl_hard = ol_hard rl\<rparr>)"

definition translate_mount :: "oci_mount \<Rightarrow> oci_error + mount" where
  "translate_mount m =
     and_then (check_mount_options (om_options m)) (\<lambda>_.
     let (flags, is_bind) = mount_flags (om_options m);
         fs_type = (if is_bind then [] else om_mount_type m) in
     Ok \<lparr>mt_destination = om_destination m, mt_fs_type = fs_type, mt_source = om_source m,
         mt_flags = flags\<rparr>)"

section \<open>The translation\<close>

definition user_uid :: "process \<Rightarrow> u32" where
  "user_uid p = (case pr_user p of Some u \<Rightarrow> ou_uid u | None \<Rightarrow> 0)"

definition user_gid :: "process \<Rightarrow> u32" where
  "user_gid p = (case pr_user p of Some u \<Rightarrow> ou_gid u | None \<Rightarrow> 0)"

definition build_spec :: "string \<Rightarrow> oci_config \<Rightarrow> process \<Rightarrow> oci_root \<Rightarrow> linux_part \<Rightarrow> cap_masks
    \<Rightarrow> rlimit list \<Rightarrow> mount list \<Rightarrow> domain_spec" where
  "build_spec bundle cfg p r lp cm rlimits mounts =
     \<lparr>sp_rootfs = resolve_rootfs bundle (rt_path r),
      sp_hostname = (case oc_hostname cfg of Some h \<Rightarrow> h | None \<Rightarrow> []),
      sp_argv = pr_args p, sp_env = pr_env p,
      sp_namespaces = lp_namespaces lp,
      sp_uid_maps = lp_uid_maps lp, sp_gid_maps = lp_gid_maps lp,
      sp_flags = option_flags p r,
      sp_caps_present = (pr_capabilities p \<noteq> None),
      sp_cap_bounding = cm_bounding cm, sp_cap_effective = cm_effective cm,
      sp_cap_permitted = cm_permitted cm, sp_cap_inheritable = cm_inheritable cm,
      sp_cap_ambient = cm_ambient cm,
      sp_masked_paths = lp_masked_paths lp, sp_readonly_paths = lp_readonly_paths lp,
      sp_rlimits = rlimits, sp_oom_score_adj = pr_oom_score_adj p,
      sp_uid = user_uid p, sp_gid = user_gid p,
      sp_mounts = mounts, sp_sysctls = lp_sysctls lp\<rparr>"

definition config_to_spec :: "string \<Rightarrow> oci_config \<Rightarrow> oci_error + domain_spec" where
  "config_to_spec bundle cfg =
     and_then (ok_or (oc_process cfg) (Missing_field ''process'')) (\<lambda>p.
     and_then (check_process p) (\<lambda>_.
     and_then (ok_or (oc_root cfg) (Missing_field ''root'')) (\<lambda>r.
     if rt_path r = [] then Err (Missing_field ''root.path'')
     else
       and_then (check_extras cfg p) (\<lambda>_.
       and_then (translate_linux (oc_linux cfg)) (\<lambda>lp.
       and_then (translate_caps (pr_capabilities p)) (\<lambda>cm.
       and_then (for_each translate_rlimit (pr_rlimits p)) (\<lambda>rlimits.
       and_then (for_each translate_mount (oc_mounts cfg)) (\<lambda>mounts.
       let spec = build_spec bundle cfg p r lp cm rlimits mounts in
       and_then (from_abi (validate spec)) (\<lambda>_. Ok spec)))))))))"

section \<open>When the steps succeed\<close>

lemma from_abi_eq_Ok [result_simps]: "from_abi r = Ok x \<longleftrightarrow> r = Ok x"
  by (auto simp: from_abi_def split: sum.splits)

lemma check_process_Ok [result_simps]:
  "check_process p = Ok u \<longleftrightarrow> pr_args p \<noteq> [] \<and> \<not> pr_terminal p
     \<and> pr_cwd p \<in> {None, Some [], Some ''/''}
     \<and> (case pr_user p of Some u \<Rightarrow> ou_additional_gids u = [] | None \<Rightarrow> True)"
  by (auto simp: check_process_def split: option.splits)

lemma reject_unmodeled_Ok [result_simps]:
  "reject_unmodeled scope keys [] = Ok u \<longleftrightarrow> keys = []"
  by (cases keys) (auto simp: Let_def)

lemma check_extras_Ok [result_simps]:
  "check_extras cfg p = Ok u \<longleftrightarrow> oc_extra cfg = [] \<and> pr_extra p = []
     \<and> (case oc_linux cfg of None \<Rightarrow> True
        | Some l \<Rightarrow> lx_extra l = []
            \<and> (case lx_resources l of None \<Rightarrow> True | Some r \<Rightarrow> rs_extra r = []))"
  by (auto simp: check_extras_def result_simps split: option.splits)

text \<open>The namespaces of a list of type names: the union of their flags.\<close>

definition ns_bit :: "string \<Rightarrow> u32" where
  "ns_bit t = (case ns_flag t of Ok f \<Rightarrow> f | Err _ \<Rightarrow> 0)"

definition ns_union :: "string list \<Rightarrow> u32" where
  "ns_union ts = foldr (\<lambda>t acc. ns_bit t OR acc) ts 0"

definition ns_supported :: "oci_namespace \<Rightarrow> bool" where
  "ns_supported n \<longleftrightarrow> on_path n = None \<and>
     on_ns_type n \<in> {''pid'', ''mount'', ''network'', ''ipc'', ''uts'', ''user'', ''cgroup''}"

lemma ns_flag_Ok:
  "ns_flag t = Ok f \<longleftrightarrow>
     t \<in> {''pid'', ''mount'', ''network'', ''ipc'', ''uts'', ''user'', ''cgroup''} \<and> f = ns_bit t"
proof -
  have "is_ok (ns_flag t) \<longleftrightarrow>
      t \<in> {''pid'', ''mount'', ''network'', ''ipc'', ''uts'', ''user'', ''cgroup''}"
    by (simp add: ns_flag_def)
  then show ?thesis by (cases "ns_flag t") (auto simp: ns_bit_def)
qed

lemma namespace_loop_Ok [result_simps]:
  "namespace_loop ns acc = Ok w \<longleftrightarrow>
     list_all ns_supported ns \<and> w = acc OR ns_union (map on_ns_type ns)"
proof (induction ns arbitrary: acc)
  case Nil
  then show ?case by (auto simp: ns_union_def)
next
  case (Cons n ns)
  then show ?case
    by (cases "on_path n = None")
       (auto simp: and_then_eq_Ok ns_flag_Ok ns_supported_def ns_union_def ac_simps)
qed

lemma bit_ns_union: "bit (ns_union ts) i \<longleftrightarrow> (\<exists>t\<in>set ts. bit (ns_bit t) i)"
  by (induction ts) (auto simp: ns_union_def bit_or_iff)

lemma and_mask_eq_0: "(w AND push_bit i 1 = 0) \<longleftrightarrow> \<not> bit w i" for w :: "'a::len word"
  unfolding bit_eq_iff [of "w AND push_bit i 1" 0]
  by (auto simp: bit_and_iff bit_exp_iff dest: bit_imp_le_length)

lemma translate_id_maps_Ok [result_simps]:
  "translate_id_maps maps = Ok out \<longleftrightarrow>
     list_all (\<lambda>m. lm_size m \<noteq> 0) maps
     \<and> out = map (\<lambda>m. \<lparr>im_container_id = lm_container_id m, im_host_id = lm_host_id m,
                      im_size = lm_size m\<rparr>) maps"
  unfolding translate_id_maps_def
  by (induction maps arbitrary: out) (auto simp: and_then_eq_Ok)

text \<open>Capability and limit names.\<close>

lemma caps_mask_from_Ok:
  "caps_mask_from names msk = Ok w \<longleftrightarrow> list_all (\<lambda>n. cap_bit n \<noteq> None) names
     \<and> w = msk OR foldr (\<lambda>n acc. push_bit (the (cap_bit n)) 1 OR acc) names 0"
proof (induction names arbitrary: msk)
  case Nil
  then show ?case by auto
next
  case (Cons n names)
  then show ?case by (auto simp: and_then_eq_Ok ok_or_eq_Ok ac_simps)
qed

definition caps_known :: "capabilities \<Rightarrow> bool" where
  "caps_known c \<longleftrightarrow> list_all (\<lambda>n. cap_bit n \<noteq> None)
     (cp_bounding c @ cp_effective c @ cp_permitted c @ cp_inheritable c @ cp_ambient c)"

definition cap_union :: "string list \<Rightarrow> u64" where
  "cap_union names = foldr (\<lambda>n acc. push_bit (the (cap_bit n)) 1 OR acc) names 0"

lemma caps_to_mask_Ok [result_simps]:
  "caps_to_mask names = Ok w \<longleftrightarrow> list_all (\<lambda>n. cap_bit n \<noteq> None) names \<and> w = cap_union names"
  by (auto simp: caps_to_mask_def caps_mask_from_Ok cap_union_def)

definition caps_result :: "capabilities option \<Rightarrow> cap_masks" where
  "caps_result caps = (case caps of
     Some c \<Rightarrow> \<lparr>cm_bounding = cap_union (cp_bounding c), cm_effective = cap_union (cp_effective c),
       cm_permitted = cap_union (cp_permitted c), cm_inheritable = cap_union (cp_inheritable c),
       cm_ambient = cap_union (cp_ambient c)\<rparr>
   | None \<Rightarrow> \<lparr>cm_bounding = 0, cm_effective = 0, cm_permitted = 0, cm_inheritable = 0,
       cm_ambient = 0\<rparr>)"

lemma translate_caps_Ok [result_simps]:
  "translate_caps caps = Ok cm \<longleftrightarrow>
     (case caps of Some c \<Rightarrow> caps_known c | None \<Rightarrow> True) \<and> cm = caps_result caps"
  by (cases caps) (auto simp: translate_caps_def caps_result_def caps_known_def result_simps)

definition rlimit_result :: "oci_rlimit \<Rightarrow> rlimit" where
  "rlimit_result rl = \<lparr>rl_resource = the (rlimit_resource (ol_limit_type rl)),
     rl_soft = ol_soft rl, rl_hard = ol_hard rl\<rparr>"

text \<open>A checked loop over a translation with one test is a test of all and a map.\<close>

lemma for_each_map:
  assumes "\<And>x y. f x = Ok y \<longleftrightarrow> P x \<and> y = g x"
  shows "for_each f xs = Ok ys \<longleftrightarrow> list_all P xs \<and> ys = map g xs"
  by (induction xs arbitrary: ys) (auto simp: and_then_eq_Ok assms)

lemma translate_rlimits_Ok [result_simps]:
  "for_each translate_rlimit ls = Ok out \<longleftrightarrow>
     list_all (\<lambda>l. rlimit_resource (ol_limit_type l) \<noteq> None) ls \<and> out = map rlimit_result ls"
  by (rule for_each_map) (auto simp: translate_rlimit_def rlimit_result_def result_simps)

text \<open>Mounts.\<close>

lemma check_mount_options_Ok [result_simps]:
  "check_mount_options options = Ok u \<longleftrightarrow> set options \<subseteq> set known_mount_options"
  by (induction options) auto

definition mount_result :: "oci_mount \<Rightarrow> mount" where
  "mount_result m =
     \<lparr>mt_destination = om_destination m,
      mt_fs_type = (if snd (mount_flags (om_options m)) then [] else om_mount_type m),
      mt_source = om_source m, mt_flags = fst (mount_flags (om_options m))\<rparr>"

lemma translate_mounts_Ok [result_simps]:
  "for_each translate_mount ms = Ok out \<longleftrightarrow>
     list_all (\<lambda>m. set (om_options m) \<subseteq> set known_mount_options) ms \<and> out = map mount_result ms"
  by (rule for_each_map)
     (auto simp: translate_mount_def mount_result_def result_simps case_prod_beta Let_def)

text \<open>Sysctls.\<close>

definition dots_to_slashes :: "string \<Rightarrow> string" where
  "dots_to_slashes s = map (\<lambda>c. if c = CHR ''.'' then CHR ''/'' else c) s"

definition sysctl_name_ok :: "string \<Rightarrow> bool" where
  "sysctl_name_ok k \<longleftrightarrow>
     list_all (\<lambda>b. is_ascii_alphanumeric b \<or> b \<in> {CHR ''.'', CHR ''/'', CHR ''_'', CHR ''-''}) k
     \<and> [] \<notin> set (split_slash (dots_to_slashes k))"

definition sysctl_value_ok :: "string \<Rightarrow> bool" where
  "sysctl_value_ok v \<longleftrightarrow> CHR 0x00 \<notin> set v \<and> CHR 0x0A \<notin> set v"

definition sysctl_ok :: "bool \<Rightarrow> bool \<Rightarrow> string \<times> string \<Rightarrow> bool" where
  "sysctl_ok has_ipc_ns has_net_ns kv \<longleftrightarrow>
     sysctl_namespaced (fst kv) has_ipc_ns has_net_ns \<and> sysctl_name_ok (fst kv)
     \<and> sysctl_value_ok (snd kv)"

lemma no_dot_in_path: "CHR ''.'' \<notin> set (dots_to_slashes s)"
  by (auto simp: dots_to_slashes_def)

lemma sysctl_relpath_Ok [result_simps]:
  "sysctl_relpath k = Ok p \<longleftrightarrow> sysctl_name_ok k \<and> p = dots_to_slashes k"
proof -
  have "[] \<in> set (split_slash p)" if "p \<noteq> []" "last p = CHR ''/''" for p
    using split_slash_trailing [OF that] by auto
  moreover have "''..'' \<notin> set (split_slash (dots_to_slashes k))"
    using split_slash_chars [of "''..''"] no_dot_in_path by auto
  moreover have "sysctl_name_ok k \<Longrightarrow> k \<noteq> []"
    by (auto simp: sysctl_name_ok_def dots_to_slashes_def)
  ultimately show ?thesis
    using split_slash_leading [of "dots_to_slashes k"]
    by (auto simp: sysctl_relpath_def sysctl_name_ok_def dots_to_slashes_def [symmetric]
        list_ex_iff Let_def)
qed

lemma sysctl_value_Ok [result_simps]:
  "sysctl_value v = Ok w \<longleftrightarrow> sysctl_value_ok v \<and> w = v"
  by (auto simp: sysctl_value_def sysctl_value_ok_def list_ex_iff)

lemma sysctl_entries_Ok [result_simps]:
  "for_each (sysctl_entry i n) kvs = Ok out \<longleftrightarrow>
     list_all (sysctl_ok i n) kvs \<and> out = map (map_prod dots_to_slashes (\<lambda>v. v)) kvs"
  by (rule for_each_map)
     (auto simp: sysctl_entry_def sysctl_ok_def result_simps split: prod.splits)

text \<open>The \<open>linux\<close> object as a whole.\<close>

definition linux_supported :: "linux option \<Rightarrow> bool" where
  "linux_supported lx \<longleftrightarrow> (case lx of None \<Rightarrow> True | Some l \<Rightarrow>
     (let ns = ns_union (map on_ns_type (lx_namespaces l)) in
      list_all ns_supported (lx_namespaces l)
      \<and> (lx_uid_mappings l = [] \<and> lx_gid_mappings l = [] \<or> ns AND NS_USER \<noteq> 0)
      \<and> list_all (\<lambda>m. lm_size m \<noteq> 0) (lx_uid_mappings l @ lx_gid_mappings l)
      \<and> list_all (sysctl_ok (ns AND NS_IPC \<noteq> 0) (ns AND NS_NET \<noteq> 0)) (lx_sysctl l)))"

definition linux_result :: "linux option \<Rightarrow> linux_part" where
  "linux_result lx = (case lx of None \<Rightarrow> no_linux | Some l \<Rightarrow>
     (let id_maps = map (\<lambda>m. \<lparr>im_container_id = lm_container_id m,
            im_host_id = lm_host_id m, im_size = lm_size m\<rparr>) in
      \<lparr>lp_namespaces = ns_union (map on_ns_type (lx_namespaces l)),
       lp_uid_maps = id_maps (lx_uid_mappings l), lp_gid_maps = id_maps (lx_gid_mappings l),
       lp_masked_paths = lx_masked_paths l, lp_readonly_paths = lx_readonly_paths l,
       lp_sysctls = map sysctl_line
         (sort (map (map_prod dots_to_slashes (\<lambda>v. v)) (lx_sysctl l)))\<rparr>))"

lemma translate_linux_Ok [result_simps]:
  "translate_linux lx = Ok lp \<longleftrightarrow> linux_supported lx \<and> lp = linux_result lx"
proof (cases lx)
  case None
  then show ?thesis by (auto simp: translate_linux_def linux_supported_def linux_result_def)
next
  case (Some l)
  show ?thesis
    by (auto simp: Some translate_linux_def linux_supported_def linux_result_def result_simps
        Let_def simp del: for_each_Ok_iff)
qed

section \<open>The accepted configurations and their specification\<close>

text \<open>
  \<open>supported cfg\<close>: everything the configuration asks for is something krunc applies.
  \<open>translated\<close>: the specification of a supported configuration, without the checks.
\<close>

definition supported :: "oci_config \<Rightarrow> bool" where
  "supported cfg \<longleftrightarrow>
     (case (oc_process cfg, oc_root cfg) of
        (Some p, Some r) \<Rightarrow>
          pr_args p \<noteq> [] \<and> \<not> pr_terminal p \<and> pr_cwd p \<in> {None, Some [], Some ''/''}
          \<and> (case pr_user p of Some u \<Rightarrow> ou_additional_gids u = [] | None \<Rightarrow> True)
          \<and> rt_path r \<noteq> [] \<and> oc_extra cfg = [] \<and> pr_extra p = []
          \<and> (case oc_linux cfg of None \<Rightarrow> True | Some l \<Rightarrow> lx_extra l = []
               \<and> (case lx_resources l of None \<Rightarrow> True | Some rs \<Rightarrow> rs_extra rs = []))
          \<and> linux_supported (oc_linux cfg)
          \<and> (case pr_capabilities p of Some c \<Rightarrow> caps_known c | None \<Rightarrow> True)
          \<and> list_all (\<lambda>l. rlimit_resource (ol_limit_type l) \<noteq> None) (pr_rlimits p)
          \<and> list_all (\<lambda>m. set (om_options m) \<subseteq> set known_mount_options) (oc_mounts cfg)
      | _ \<Rightarrow> False)"

definition translated :: "string \<Rightarrow> oci_config \<Rightarrow> domain_spec" where
  "translated bundle cfg =
     (let p = the (oc_process cfg); r = the (oc_root cfg) in
      build_spec bundle cfg p r (linux_result (oc_linux cfg)) (caps_result (pr_capabilities p))
        (map rlimit_result (pr_rlimits p)) (map mount_result (oc_mounts cfg)))"

lemma config_to_spec_Ok:
  "config_to_spec bundle cfg = Ok s \<longleftrightarrow>
     supported cfg \<and> checked_bounds (translated bundle cfg) \<and> s = translated bundle cfg"
proof (cases "oc_process cfg = None \<or> oc_root cfg = None")
  case True
  then show ?thesis
    by (auto simp: config_to_spec_def supported_def result_simps split: option.splits)
next
  case False
  then obtain p r where "oc_process cfg = Some p" "oc_root cfg = Some r" by auto
  then show ?thesis
    by (auto simp: config_to_spec_def supported_def translated_def result_simps
        validate_Ok_iff Let_def simp del: for_each_Ok_iff)
qed

end
