(* ===== verification/Oci_Properties.thy ===== *)
theory Oci_Properties
  imports Oci_Translate
begin

text \<open>
  What the translation of \<open>config.json\<close> guarantees: it accepts exactly what the runtime can
  apply, and the capability masks, mount flags, sysctls and cgroup values mean what the
  configuration says.
\<close>

section \<open>Bits\<close>

lemma bit_flag_on [simp]: "k < 64 \<Longrightarrow> bit (flag_on k f) i \<longleftrightarrow> i = k \<or> bit f i"
  by (auto simp: flag_on_def bit_or_iff bit_exp_iff)

lemma bit_flag_off [simp]: "k < 64 \<Longrightarrow> bit (flag_off k f) i \<longleftrightarrow> i \<noteq> k \<and> bit f i"
  by (auto simp: flag_off_def bit_and_iff bit_not_iff bit_exp_iff dest: bit_imp_le_length)

text \<open>
  The mount options of the runtime specification as settings of flag bits: what an option says
  about a bit, if anything.
\<close>

definition option_table :: "(string \<times> (nat \<times> bool) list) list" where
  "option_table = [(''ro'', [(0, True)]), (''rw'', [(0, False)]),
     (''nosuid'', [(1, True)]), (''suid'', [(1, False)]),
     (''nodev'', [(2, True)]), (''dev'', [(2, False)]),
     (''noexec'', [(3, True)]), (''exec'', [(3, False)]),
     (''sync'', [(4, True)]), (''async'', [(4, False)]),
     (''remount'', [(5, True)]), (''dirsync'', [(7, True)]),
     (''noatime'', [(10, True)]), (''atime'', [(10, False)]),
     (''nodiratime'', [(11, True)]), (''diratime'', [(11, False)]),
     (''bind'', [(12, True)]), (''rbind'', [(12, True), (14, True)]),
     (''loud'', [(15, False)]),
     (''relatime'', [(21, True)]), (''norelatime'', [(21, False)]),
     (''iversion'', [(23, True)]), (''noiversion'', [(23, False)]),
     (''strictatime'', [(24, True)]), (''nostrictatime'', [(24, False)]),
     (''lazytime'', [(25, True)]), (''nolazytime'', [(25, False)])]"

definition option_says :: "string \<Rightarrow> nat \<Rightarrow> bool option" where
  "option_says opt i = Option.bind (map_of option_table opt) (\<lambda>bs. map_of bs i)"

lemma mount_option_bits:
  "bit (fst (mount_option opt st)) i \<longleftrightarrow>
     (case option_says opt i of Some v \<Rightarrow> v | None \<Rightarrow> bit (fst st) i)"
  "snd (mount_option opt st) \<longleftrightarrow> snd st \<or> opt \<in> {''bind'', ''rbind''}"
proof -
  obtain f b where st: "st = (f, b)" by (cases st)
  show "bit (fst (mount_option opt st)) i \<longleftrightarrow>
     (case option_says opt i of Some v \<Rightarrow> v | None \<Rightarrow> bit (fst st) i)"
    unfolding st mount_option_def option_says_def option_table_def Let_def prod.case
    by simp
  show "snd (mount_option opt st) \<longleftrightarrow> snd st \<or> opt \<in> {''bind'', ''rbind''}"
    by (simp add: st mount_option_def)
qed

lemma mount_flags_snoc: "mount_flags (opts @ [opt]) = mount_option opt (mount_flags opts)"
  by (simp add: mount_flags_def)

lemma bit_cap_union:
  "bit (cap_union names) i \<longleftrightarrow> i < 64 \<and> (\<exists>n\<in>set names. the (cap_bit n) = i)"
  by (induction names) (auto simp: cap_union_def bit_or_iff bit_exp_iff)

lemma cap_bit_iff: "cap_bit n = Some i \<longleftrightarrow> (n, i) \<in> set CAPS"
proof -
  have "cap_bit n = map_of CAPS n" by (simp add: cap_bit_def CAPS_def)
  moreover have "distinct (map fst CAPS)" by (simp add: CAPS_def)
  ultimately show ?thesis by simp
qed

lemma cap_bit_small: "cap_bit n = Some i \<Longrightarrow> i < 41"
  unfolding cap_bit_iff CAPS_def by auto

lemma bit_cap_union_named:
  assumes "list_all (\<lambda>n. cap_bit n \<noteq> None) names"
  shows "bit (cap_union names) i \<longleftrightarrow> (\<exists>n\<in>set names. (n, i) \<in> set CAPS)"
proof -
  have "the (cap_bit n) = i \<longleftrightarrow> cap_bit n = Some i" if "n \<in> set names" for n
    using assms that by (auto simp: list_all_iff)
  then show ?thesis
    using cap_bit_small by (force simp: bit_cap_union simp flip: cap_bit_iff)
qed

section \<open>What a specification has to carry\<close>

text \<open>
  The content of the specification of a configuration, read off the runtime specification and
  the kernel's headers and not off the translation: the bit of each namespace (\<open>linux/sched.h\<close>),
  the number of each limit (\<open>asm-generic/resource.h\<close>), the number of each capability, and for a
  bit of the mount flags the last option that says something about it.
\<close>

definition namespace_bits :: "(string \<times> nat) list" where
  "namespace_bits = [(''mount'', 17), (''cgroup'', 25), (''uts'', 26), (''ipc'', 27),
     (''user'', 28), (''pid'', 29), (''network'', 30)]"

definition limit_names :: "string list" where
  "limit_names = [''RLIMIT_CPU'', ''RLIMIT_FSIZE'', ''RLIMIT_DATA'', ''RLIMIT_STACK'',
     ''RLIMIT_CORE'', ''RLIMIT_RSS'', ''RLIMIT_NPROC'', ''RLIMIT_NOFILE'', ''RLIMIT_MEMLOCK'',
     ''RLIMIT_AS'', ''RLIMIT_LOCKS'', ''RLIMIT_SIGPENDING'', ''RLIMIT_MSGQUEUE'', ''RLIMIT_NICE'',
     ''RLIMIT_RTPRIO'', ''RLIMIT_RTTIME'']"

definition last_says :: "string list \<Rightarrow> nat \<Rightarrow> bool" where
  "last_says opts i =
     (case find (\<lambda>opt. option_says opt i \<noteq> None) (rev opts) of
        Some opt \<Rightarrow> option_says opt i = Some True | None \<Rightarrow> False)"

definition same_id_map :: "linux_id_mapping \<Rightarrow> id_map \<Rightarrow> bool" where
  "same_id_map m i \<longleftrightarrow> im_container_id i = lm_container_id m \<and> im_host_id i = lm_host_id m
     \<and> im_size i = lm_size m"

definition same_limit :: "oci_rlimit \<Rightarrow> rlimit \<Rightarrow> bool" where
  "same_limit l k \<longleftrightarrow> unat (rl_resource k) < length limit_names
     \<and> limit_names ! unat (rl_resource k) = ol_limit_type l
     \<and> rl_soft k = ol_soft l \<and> rl_hard k = ol_hard l"

definition same_mount :: "oci_mount \<Rightarrow> mount \<Rightarrow> bool" where
  "same_mount m k \<longleftrightarrow> mt_destination k = om_destination m \<and> mt_source k = om_source m
     \<and> mt_fs_type k = (if ''bind'' \<in> set (om_options m) \<or> ''rbind'' \<in> set (om_options m) then []
                        else om_mount_type m)
     \<and> (\<forall>i. bit (mt_flags k) i \<longleftrightarrow> last_says (om_options m) i)"

definition same_caps :: "(capabilities \<Rightarrow> string list) \<Rightarrow> process \<Rightarrow> u64 \<Rightarrow> bool" where
  "same_caps f p w \<longleftrightarrow> (\<forall>i. bit w i \<longleftrightarrow>
     (\<exists>c. pr_capabilities p = Some c \<and> (\<exists>n\<in>set (f c). (n, i) \<in> set CAPS)))"

text \<open>A list of the \<open>linux\<close> object, which may be absent.\<close>

definition of_linux :: "(linux \<Rightarrow> 'a list) \<Rightarrow> oci_config \<Rightarrow> 'a list" where
  "of_linux f cfg = (case oc_linux cfg of None \<Rightarrow> [] | Some l \<Rightarrow> f l)"

text \<open>\<open>carries bundle cfg p r s\<close>: \<open>s\<close> carries every field of a configuration with process \<open>p\<close> and
  root \<open>r\<close>.\<close>

definition carries_process :: "process \<Rightarrow> domain_spec \<Rightarrow> bool" where
  "carries_process p s \<longleftrightarrow>
     sp_argv s = pr_args p \<and> sp_env s = pr_env p
     \<and> sp_uid s = (case pr_user p of Some u \<Rightarrow> ou_uid u | None \<Rightarrow> 0)
     \<and> sp_gid s = (case pr_user p of Some u \<Rightarrow> ou_gid u | None \<Rightarrow> 0)
     \<and> sp_oom_score_adj s = pr_oom_score_adj p
     \<and> (sp_caps_present s \<longleftrightarrow> (\<exists>c. pr_capabilities p = Some c))
     \<and> same_caps cp_bounding p (sp_cap_bounding s) \<and> same_caps cp_effective p (sp_cap_effective s)
     \<and> same_caps cp_permitted p (sp_cap_permitted s)
     \<and> same_caps cp_inheritable p (sp_cap_inheritable s)
     \<and> same_caps cp_ambient p (sp_cap_ambient s)
     \<and> list_all2 same_limit (pr_rlimits p) (sp_rlimits s)"

definition carries_linux :: "oci_config \<Rightarrow> domain_spec \<Rightarrow> bool" where
  "carries_linux cfg s \<longleftrightarrow>
     (\<forall>i. bit (sp_namespaces s) i \<longleftrightarrow>
        (\<exists>n\<in>set (of_linux lx_namespaces cfg). (on_ns_type n, i) \<in> set namespace_bits))
     \<and> list_all2 same_id_map (of_linux lx_uid_mappings cfg) (sp_uid_maps s)
     \<and> list_all2 same_id_map (of_linux lx_gid_mappings cfg) (sp_gid_maps s)
     \<and> sp_masked_paths s = of_linux lx_masked_paths cfg
     \<and> sp_readonly_paths s = of_linux lx_readonly_paths cfg
     \<and> sp_sysctls s = map (\<lambda>(k, v). k @ ''='' @ v)
         (sort (map (\<lambda>(k, v). (map (\<lambda>c. if c = CHR ''.'' then CHR ''/'' else c) k, v))
            (of_linux lx_sysctl cfg)))"

definition carries :: "string \<Rightarrow> oci_config \<Rightarrow> process \<Rightarrow> oci_root \<Rightarrow> domain_spec \<Rightarrow> bool" where
  "carries bundle cfg p r s \<longleftrightarrow>
     sp_rootfs s = resolve_rootfs bundle (rt_path r)
     \<and> sp_hostname s = (case oc_hostname cfg of Some h \<Rightarrow> h | None \<Rightarrow> [])
     \<and> (\<forall>i. bit (sp_flags s) i \<longleftrightarrow> i = 0 \<and> pr_no_new_privileges p \<or> i = 1 \<and> rt_readonly r)
     \<and> list_all2 same_mount (oc_mounts cfg) (sp_mounts s)
     \<and> carries_process p s \<and> carries_linux cfg s"

lemmas carries_defs = carries_def carries_process_def carries_linux_def

text \<open>At most one specification carries a configuration.\<close>

lemma list_all2_unique:
  assumes "list_all2 R xs ys" "list_all2 R xs zs" "\<And>x y z. R x y \<Longrightarrow> R x z \<Longrightarrow> y = z"
  shows "ys = zs"
proof (rule nth_equalityI)
  show "length ys = length zs" using assms(1,2) by (simp add: list_all2_conv_all_nth)
  show "ys ! i = zs ! i" if "i < length ys" for i
    using assms(1,2) that by (intro assms(3) [of "xs ! i"]) (simp_all add: list_all2_conv_all_nth)
qed

lemma limit_names_distinct: "distinct limit_names"
  by (simp add: limit_names_def)

lemma same_id_map_unique: "same_id_map m i \<Longrightarrow> same_id_map m i' \<Longrightarrow> i = i'"
  by (rule id_map.equality) (simp_all add: same_id_map_def)

lemma same_limit_unique: "same_limit l k \<Longrightarrow> same_limit l k' \<Longrightarrow> k = k'"
  by (rule rlimit.equality)
     (auto simp: same_limit_def word_unat_eq_iff limit_names_distinct nth_eq_iff_index_eq
       dest: sym)

lemma same_mount_unique: "same_mount m k \<Longrightarrow> same_mount m k' \<Longrightarrow> k = k'"
  by (rule mount.equality) (simp_all add: same_mount_def bit_eq_iff)

lemma same_caps_unique: "same_caps f p w \<Longrightarrow> same_caps f p w' \<Longrightarrow> w = w'"
  by (simp add: same_caps_def bit_eq_iff)

lemma carries_process_unique:
  assumes "carries_process p s" "carries_process p s'"
  shows "sp_argv s = sp_argv s' \<and> sp_env s = sp_env s' \<and> sp_uid s = sp_uid s'
    \<and> sp_gid s = sp_gid s' \<and> sp_oom_score_adj s = sp_oom_score_adj s'
    \<and> sp_caps_present s = sp_caps_present s' \<and> sp_cap_bounding s = sp_cap_bounding s'
    \<and> sp_cap_effective s = sp_cap_effective s' \<and> sp_cap_permitted s = sp_cap_permitted s'
    \<and> sp_cap_inheritable s = sp_cap_inheritable s' \<and> sp_cap_ambient s = sp_cap_ambient s'
    \<and> sp_rlimits s = sp_rlimits s'"
  using assms list_all2_unique [of same_limit "pr_rlimits p" "sp_rlimits s" "sp_rlimits s'"]
  by (auto simp: carries_process_def intro: same_caps_unique dest: same_limit_unique)

lemma carries_linux_unique:
  assumes "carries_linux cfg s" "carries_linux cfg s'"
  shows "sp_namespaces s = sp_namespaces s' \<and> sp_uid_maps s = sp_uid_maps s'
    \<and> sp_gid_maps s = sp_gid_maps s' \<and> sp_masked_paths s = sp_masked_paths s'
    \<and> sp_readonly_paths s = sp_readonly_paths s' \<and> sp_sysctls s = sp_sysctls s'"
proof -
  have maps: "ys = zs" if "list_all2 same_id_map xs ys" "list_all2 same_id_map xs zs" for xs ys zs
    using that by (rule list_all2_unique) (rule same_id_map_unique)
  have "sp_namespaces s = sp_namespaces s'"
    using assms by (simp add: carries_linux_def bit_eq_iff)
  then show ?thesis using assms unfolding carries_linux_def by (auto intro: maps)
qed

lemma carries_unique:
  assumes "carries bundle cfg p r s" "carries bundle cfg p r s'"
  shows "s = s'"
proof -
  have flags: "sp_flags s = sp_flags s'" using assms by (simp add: carries_def bit_eq_iff)
  have mounts: "sp_mounts s = sp_mounts s'"
    using assms list_all2_unique [of same_mount "oc_mounts cfg" "sp_mounts s" "sp_mounts s'"]
      same_mount_unique by (auto simp: carries_def)
  have parts: "carries_process p s" "carries_process p s'" "carries_linux cfg s" "carries_linux cfg s'"
      "sp_rootfs s = sp_rootfs s'" "sp_hostname s = sp_hostname s'"
    using assms by (simp_all add: carries_def)
  show ?thesis
    using flags mounts parts(5,6) carries_process_unique [OF parts(1,2)]
      carries_linux_unique [OF parts(3,4)]
    by (intro domain_spec.equality) simp_all
qed

text \<open>The translation's result carries the configuration.\<close>

lemma last_says_mount_flags: "bit (fst (mount_flags opts)) i \<longleftrightarrow> last_says opts i"
proof (induction opts rule: rev_induct)
  case Nil
  then show ?case by (simp add: mount_flags_def last_says_def)
next
  case (snoc opt opts)
  then show ?case
    unfolding mount_flags_snoc mount_option_bits by (simp add: last_says_def split: option.split)
qed

lemma mount_flags_bind:
  "snd (mount_flags opts) \<longleftrightarrow> ''bind'' \<in> set opts \<or> ''rbind'' \<in> set opts"
proof (induction opts rule: rev_induct)
  case Nil
  then show ?case by (simp add: mount_flags_def)
next
  case (snoc opt opts)
  then show ?case unfolding mount_flags_snoc mount_option_bits by auto
qed

lemma mount_result_same: "same_mount m (mount_result m)"
  by (simp add: same_mount_def mount_result_def last_says_mount_flags mount_flags_bind)

lemma rlimit_result_same:
  "rlimit_resource (ol_limit_type l) \<noteq> None \<Longrightarrow> same_limit l (rlimit_result l)"
  by (auto simp: same_limit_def rlimit_result_def rlimit_resource_def limit_names_def
      split: if_splits)

lemma ns_bit_bits:
  assumes "ns_supported n"
  shows "bit (ns_bit (on_ns_type n)) i \<longleftrightarrow> (on_ns_type n, i) \<in> set namespace_bits"
proof -
  have powers: "NS_MOUNT = push_bit 17 1" "NS_CGROUP = push_bit 25 1" "NS_UTS = push_bit 26 1"
      "NS_IPC = push_bit 27 1" "NS_USER = push_bit 28 1" "NS_PID = push_bit 29 1"
      "NS_NET = push_bit 30 1"
    by (simp_all add: ns_defs)
  have one: "bit (push_bit k 1 :: u32) i \<longleftrightarrow> i = k" if "k < 32" for k
    using that by (auto simp: bit_exp_iff)
  have bits: "bit NS_MOUNT i \<longleftrightarrow> i = 17" "bit NS_CGROUP i \<longleftrightarrow> i = 25" "bit NS_UTS i \<longleftrightarrow> i = 26"
      "bit NS_IPC i \<longleftrightarrow> i = 27" "bit NS_USER i \<longleftrightarrow> i = 28" "bit NS_PID i \<longleftrightarrow> i = 29"
      "bit NS_NET i \<longleftrightarrow> i = 30"
    unfolding powers by (rule one, simp)+
  show ?thesis
    using assms by (auto simp: ns_supported_def ns_bit_def ns_flag_def namespace_bits_def bits)
qed

lemma caps_result_same:
  assumes "case pr_capabilities p of Some c \<Rightarrow> caps_known c | None \<Rightarrow> True"
  shows "same_caps cp_bounding p (cm_bounding (caps_result (pr_capabilities p)))
    \<and> same_caps cp_effective p (cm_effective (caps_result (pr_capabilities p)))
    \<and> same_caps cp_permitted p (cm_permitted (caps_result (pr_capabilities p)))
    \<and> same_caps cp_inheritable p (cm_inheritable (caps_result (pr_capabilities p)))
    \<and> same_caps cp_ambient p (cm_ambient (caps_result (pr_capabilities p)))"
  using assms
  by (auto simp: same_caps_def caps_result_def caps_known_def bit_cap_union_named split: option.splits)

lemma linux_result_carried:
  assumes "linux_supported (oc_linux cfg)"
  shows "carries_linux cfg (translated bundle cfg)"
proof -
  have sysctls: "sysctl_line = (\<lambda>(k, v). k @ ''='' @ v)"
      "map_prod dots_to_slashes (\<lambda>v. v)
        = (\<lambda>(k, v). (map (\<lambda>c. if c = CHR ''.'' then CHR ''/'' else c) k, v))"
    by (auto simp: sysctl_line_def dots_to_slashes_def fun_eq_iff)
  show ?thesis
  proof (cases "oc_linux cfg")
    case None
    then show ?thesis
      by (simp add: carries_linux_def translated_def build_spec_def linux_result_def no_linux_def
          of_linux_def Let_def)
  next
    case (Some l)
    then have "list_all ns_supported (lx_namespaces l)"
      using assms by (simp add: linux_supported_def Let_def)
    then show ?thesis
      by (auto simp: Some carries_linux_def translated_def build_spec_def linux_result_def
          of_linux_def Let_def bit_ns_union ns_bit_bits list_all_iff list_all2_conv_all_nth
          same_id_map_def sysctls)
  qed
qed

lemma option_flags_bits:
  "bit (option_flags p r) i \<longleftrightarrow> i = 0 \<and> pr_no_new_privileges p \<or> i = 1 \<and> rt_readonly r"
  by (auto simp: option_flags_def opt_defs bit_or_iff bit_push_bit_iff bit_1_iff Let_def
      simp del: push_bit_numeral push_bit_of_1 push_bit_Suc push_bit_0_id)

lemma translated_carries:
  assumes "supported cfg" "oc_process cfg = Some p" "oc_root cfg = Some r"
  shows "carries bundle cfg p r (translated bundle cfg)"
proof -
  have caps: "case pr_capabilities p of Some c \<Rightarrow> caps_known c | None \<Rightarrow> True"
    and limits: "list_all (\<lambda>l. rlimit_resource (ol_limit_type l) \<noteq> None) (pr_rlimits p)"
    and linux: "linux_supported (oc_linux cfg)"
    using assms by (simp_all add: supported_def)
  have "list_all2 same_limit (pr_rlimits p) (map rlimit_result (pr_rlimits p))"
    using limits by (auto simp: list_all2_conv_all_nth list_all_iff intro!: rlimit_result_same)
  then have "carries_process p (translated bundle cfg)"
    using caps_result_same [OF caps]
    by (auto simp: carries_process_def translated_def build_spec_def user_uid_def user_gid_def
        assms(2,3) Let_def)
  moreover have "list_all2 same_mount (oc_mounts cfg) (map mount_result (oc_mounts cfg))"
    by (simp add: list_all2_conv_all_nth mount_result_same)
  ultimately show ?thesis
    using linux_result_carried [OF linux] option_flags_bits
    by (simp add: carries_def translated_def build_spec_def assms(2,3) Let_def)
qed

lemma supported_objects:
  assumes "supported cfg"
  obtains p r where "oc_process cfg = Some p" "oc_root cfg = Some r"
  using assms by (auto simp: supported_def split: option.splits)

section \<open>Properties\<close>

text \<open>
C14 (the translation accepts exactly what it can apply, and carries every field over).
\<open>config_to_spec\<close> succeeds with \<open>s\<close> if and only if everything in the configuration is something
krunc applies (no property outside the model, no terminal, no other working directory, no
supplementary groups, only known namespaces, mount options, capabilities and limits, id maps only
with a user namespace, only sysctls of namespaces the container owns), \<open>s\<close> carries every field of
it (the rootfs, host name, arguments, environment, ids, flags, capability sets, limits, mounts,
namespaces, id maps, masked and read-only paths and sysctls, each written out in \<open>carries\<close> bit by
bit or item by item, which leaves no room for a second \<open>s\<close>) and \<open>s\<close> is within the ABI's bounds.
\<close>

theorem config_accepted_iff:
  "config_to_spec bundle cfg = Ok s \<longleftrightarrow>
     supported cfg \<and> checked_bounds s
     \<and> (\<exists>p r. oc_process cfg = Some p \<and> oc_root cfg = Some r \<and> carries bundle cfg p r s)"
proof (cases "supported cfg")
  case True
  then obtain p r where objects: "oc_process cfg = Some p" "oc_root cfg = Some r"
    by (rule supported_objects)
  then have "carries bundle cfg p r (translated bundle cfg)"
    using True by (intro translated_carries)
  then have "carries bundle cfg p r s \<longleftrightarrow> s = translated bundle cfg"
    using carries_unique by blast
  then show ?thesis using True objects by (auto simp: config_to_spec_Ok)
next
  case False
  then show ?thesis by (simp add: config_to_spec_Ok)
qed

text \<open>
Capabilities are the named ones. In an accepted configuration with a \<open>capabilities\<close> object,
bit \<open>i\<close> of each of the five masks is set exactly when the set of the configuration names the
capability with number \<open>i\<close>; without the object the masks are empty and marked absent.
\<close>

theorem caps_as_named:
  assumes "config_to_spec bundle cfg = Ok s" "oc_process cfg = Some p"
  shows "case pr_capabilities p of
      Some c \<Rightarrow> sp_caps_present s
        \<and> (\<forall>i. bit (sp_cap_bounding s) i \<longleftrightarrow> (\<exists>n\<in>set (cp_bounding c). (n, i) \<in> set CAPS))
        \<and> (\<forall>i. bit (sp_cap_effective s) i \<longleftrightarrow> (\<exists>n\<in>set (cp_effective c). (n, i) \<in> set CAPS))
        \<and> (\<forall>i. bit (sp_cap_permitted s) i \<longleftrightarrow> (\<exists>n\<in>set (cp_permitted c). (n, i) \<in> set CAPS))
        \<and> (\<forall>i. bit (sp_cap_inheritable s) i \<longleftrightarrow> (\<exists>n\<in>set (cp_inheritable c). (n, i) \<in> set CAPS))
        \<and> (\<forall>i. bit (sp_cap_ambient s) i \<longleftrightarrow> (\<exists>n\<in>set (cp_ambient c). (n, i) \<in> set CAPS))
    | None \<Rightarrow> \<not> sp_caps_present s \<and> sp_cap_bounding s = 0 \<and> sp_cap_effective s = 0
        \<and> sp_cap_permitted s = 0 \<and> sp_cap_inheritable s = 0 \<and> sp_cap_ambient s = 0"
proof -
  have ok: "supported cfg" "s = translated bundle cfg"
    using assms(1) by (simp_all add: config_to_spec_Ok)
  then obtain r where r: "oc_root cfg = Some r"
    using assms(2) by (auto simp: supported_def split: option.splits)
  show ?thesis
  proof (cases "pr_capabilities p")
    case None
    then show ?thesis by (simp add: ok(2) translated_def assms(2) build_spec_def caps_result_def Let_def)
  next
    case (Some c)
    then have "caps_known c" using ok(1) assms(2) r by (simp add: supported_def)
    then show ?thesis
      by (simp add: Some ok(2) translated_def assms(2) build_spec_def caps_result_def
          caps_known_def bit_cap_union_named Let_def)
  qed
qed

text \<open>A configuration with a bit of everything.\<close>

definition demo_config :: oci_config where
  "demo_config = \<lparr>oc_hostname = Some ''web'',
     oc_process = Some \<lparr>pr_terminal = False, pr_args = [''/init''], pr_env = [''A=b''],
       pr_cwd = Some ''/'', pr_user = Some \<lparr>ou_uid = 1000, ou_gid = 1000, ou_additional_gids = []\<rparr>,
       pr_capabilities = Some \<lparr>cp_bounding = [''CAP_KILL'', ''CAP_BPF''], cp_effective = [''CAP_KILL''],
         cp_permitted = [''CAP_KILL''], cp_inheritable = [], cp_ambient = []\<rparr>,
       pr_no_new_privileges = True, pr_rlimits = [], pr_oom_score_adj = None, pr_extra = []\<rparr>,
     oc_root = Some \<lparr>rt_path = ''rootfs'', rt_readonly = True\<rparr>,
     oc_linux = Some \<lparr>lx_namespaces = [\<lparr>on_ns_type = ''network'', on_path = None\<rparr>,
         \<lparr>on_ns_type = ''mount'', on_path = None\<rparr>],
       lx_uid_mappings = [], lx_gid_mappings = [], lx_resources = None, lx_cgroups_path = None,
       lx_masked_paths = [''/proc/kcore''], lx_readonly_paths = [],
       lx_sysctl = [(''net.b'', ''1''), (''net.a'', ''0'')], lx_extra = []\<rparr>,
     oc_mounts = [\<lparr>om_destination = ''/tmp'', om_mount_type = ''tmpfs'', om_source = ''tmpfs'',
       om_options = [''ro'', ''nosuid'', ''rw'']\<rparr>],
     oc_annotations = [], oc_extra = []\<rparr>"

lemma demo_namespaces: "ns_union [''network'', ''mount''] = 0x40020000"
  by (simp add: ns_union_def ns_bit_def ns_flag_def ns_defs)

lemma demo_supported: "supported demo_config"
  by (simp add: supported_def demo_config_def linux_supported_def demo_namespaces ns_defs
      ns_supported_def sysctl_ok_def sysctl_namespaced_def starts_with_def sysctl_name_ok_def
      dots_to_slashes_def is_ascii_alphanumeric_def sysctl_value_ok_def caps_known_def
      cap_bit_def CAPS_def known_mount_options_def Let_def)

lemma demo_accepted: "config_to_spec ''/b'' demo_config = Ok (translated ''/b'' demo_config)"
proof -
  have "checked_bounds (translated ''/b'' demo_config)"
    by (simp add: checked_bounds_def translated_def build_spec_def demo_config_def
        resolve_rootfs_def is_absolute_def path_join_def linux_result_def abi_max_defs Let_def)
  then show ?thesis by (simp add: config_to_spec_Ok demo_supported)
qed

theorem caps_as_named_witness:
  "sp_caps_present (translated ''/b'' demo_config)
   \<and> (\<forall>i. bit (sp_cap_effective (translated ''/b'' demo_config)) i \<longleftrightarrow> i = 5)"
proof -
  obtain p c where "oc_process demo_config = Some p" "pr_capabilities p = Some c"
      "cp_effective c = [''CAP_KILL'']"
    by (simp add: demo_config_def)
  moreover have "(''CAP_KILL'', i) \<in> set CAPS \<longleftrightarrow> i = 5" for i
    by (simp add: CAPS_def)
  ultimately show ?thesis using caps_as_named [OF demo_accepted] by simp
qed

text \<open>
The last option wins. Bit \<open>i\<close> of the flags of a mount is set exactly when the last of its
options that says anything about that bit sets it; the mount is a bind mount when \<open>bind\<close> or
\<open>rbind\<close> is among the options.
\<close>

theorem last_mount_option_wins:
  "(bit (fst (mount_flags opts)) i \<longleftrightarrow>
     (\<exists>pre opt post. opts = pre @ opt # post \<and> option_says opt i = Some True
        \<and> list_all (\<lambda>o'. option_says o' i = None) post))
   \<and> (snd (mount_flags opts) \<longleftrightarrow> ''bind'' \<in> set opts \<or> ''rbind'' \<in> set opts)"
proof (induction opts rule: rev_induct)
  case Nil
  then show ?case by (simp add: mount_flags_def)
next
  case (snoc opt opts)
  have "(\<exists>pre o' post. opts @ [opt] = pre @ o' # post \<and> option_says o' i = Some True
          \<and> list_all (\<lambda>x. option_says x i = None) post) \<longleftrightarrow>
        (case option_says opt i of Some v \<Rightarrow> v
         | None \<Rightarrow> (\<exists>pre o' post. opts = pre @ o' # post \<and> option_says o' i = Some True
              \<and> list_all (\<lambda>x. option_says x i = None) post))" (is "?l = ?r")
  proof
    assume ?l
    then obtain pre o' post where e: "opts @ [opt] = pre @ o' # post"
        "option_says o' i = Some True" "list_all (\<lambda>x. option_says x i = None) post"
      by blast
    then show ?r by (cases post rule: rev_cases) auto
  next
    assume r: ?r
    show ?l
    proof (cases "option_says opt i")
      case None
      then obtain pre o' post where "opts = pre @ o' # post" "option_says o' i = Some True"
          "list_all (\<lambda>x. option_says x i = None) post"
        using r by auto
      then show ?thesis
        using None by (intro exI [of _ pre] exI [of _ o'] exI [of _ "post @ [opt]"]) simp
    next
      case (Some v)
      then show ?thesis using r by (intro exI [of _ opts] exI [of _ opt] exI [of _ "[]"]) simp
    qed
  qed
  then have "bit (fst (mount_flags (opts @ [opt]))) i \<longleftrightarrow> ?l"
    unfolding mount_flags_snoc mount_option_bits using snoc by (simp split: option.split)
  moreover have "snd (mount_flags (opts @ [opt])) \<longleftrightarrow>
      ''bind'' \<in> set (opts @ [opt]) \<or> ''rbind'' \<in> set (opts @ [opt])"
    unfolding mount_flags_snoc mount_option_bits using snoc by auto
  ultimately show ?case by (rule conjI)
qed

text \<open>
The order of the sysctls does not matter. Two configurations that differ only in the order
in which their sysctl map is iterated are translated to the same specification, or both refused:
the entries are sorted, so the specification is deterministic.
\<close>

theorem sysctl_order_irrelevant:
  assumes "mset kvs = mset kvs'"
  shows "config_to_spec bundle (cfg\<lparr>oc_linux := Some (l\<lparr>lx_sysctl := kvs\<rparr>)\<rparr>) = Ok s \<longleftrightarrow>
    config_to_spec bundle (cfg\<lparr>oc_linux := Some (l\<lparr>lx_sysctl := kvs'\<rparr>)\<rparr>) = Ok s"
proof -
  have "set kvs = set kvs'" using assms by (rule mset_eq_setD)
  then have same: "list_all P kvs \<longleftrightarrow> list_all P kvs'" for P by (simp add: list_all_iff)
  have sorted: "sort (map f kvs) = sort (map f kvs')" for f :: "string \<times> string \<Rightarrow> string \<times> string"
    using assms by (intro properties_for_sort) simp_all
  have result: "linux_result (Some (l\<lparr>lx_sysctl := kvs\<rparr>)) = linux_result (Some (l\<lparr>lx_sysctl := kvs'\<rparr>))"
    by (simp add: linux_result_def sorted)
  have supp: "supported (cfg\<lparr>oc_linux := Some (l\<lparr>lx_sysctl := kvs\<rparr>)\<rparr>) \<longleftrightarrow>
      supported (cfg\<lparr>oc_linux := Some (l\<lparr>lx_sysctl := kvs'\<rparr>)\<rparr>)"
    by (cases "oc_process cfg"; cases "oc_root cfg")
       (simp_all add: supported_def linux_supported_def same)
  have spec: "translated bundle (cfg\<lparr>oc_linux := Some (l\<lparr>lx_sysctl := kvs\<rparr>)\<rparr>) =
      translated bundle (cfg\<lparr>oc_linux := Some (l\<lparr>lx_sysctl := kvs'\<rparr>)\<rparr>)"
    by (simp add: translated_def build_spec_def result)
  show ?thesis unfolding config_to_spec_Ok supp spec ..
qed

theorem sysctl_order_irrelevant_witness:
  "\<exists>l. oc_linux demo_config = Some l \<and>
     config_to_spec ''/b''
       (demo_config\<lparr>oc_linux := Some (l\<lparr>lx_sysctl := [(''net.a'', ''0''), (''net.b'', ''1'')]\<rparr>)\<rparr>)
     = Ok (translated ''/b'' demo_config)"
proof -
  obtain l where l: "oc_linux demo_config = Some l" by (simp add: demo_config_def)
  then have k: "lx_sysctl l = [(''net.b'', ''1''), (''net.a'', ''0'')]"
    by (auto simp: demo_config_def)
  have same: "demo_config\<lparr>oc_linux := Some (l\<lparr>lx_sysctl := [(''net.b'', ''1''), (''net.a'', ''0'')]\<rparr>)\<rparr>
      = demo_config"
    using l k by simp
  have "mset [(''net.b'', ''1''), (''net.a'', ''0'')] = mset [(''net.a'', ''0''), (''net.b'', ''1'')]"
    by simp
  from sysctl_order_irrelevant [OF this, of "''/b''" l demo_config, unfolded same]
  show ?thesis using l demo_accepted by blast
qed

text \<open>The conversion of CPU shares never wraps around.\<close>

lemma unat_shares_to_weight:
  "unat (shares_to_weight s) = (if s = 0 then 0
     else 1 + (max 2 (min (unat s) 262144) - 2) * 9999 div 262142)"
proof (cases "s = 0")
  case True
  then show ?thesis by (simp add: shares_to_weight_def)
next
  case False
  define c where "c = clamp s 2 262144"
  have c: "unat c = max 2 (min (unat s) 262144)"
    by (auto simp: c_def clamp_def word_less_nat_alt)
  define d where "d = c - 2"
  have d: "unat d = max 2 (min (unat s) 262144) - 2"
    by (simp add: d_def unat_sub_if' c word_le_nat_alt)
  then have small: "unat d \<le> 262142" by simp
  have mul: "unat (d * 9999) = unat d * 9999"
    using small by (simp add: unat_mult_lem [THEN iffD1])
  have div: "unat ((d * 9999) div 262142) = unat d * 9999 div 262142"
    by (simp add: unat_div mul)
  have le: "unat d * 9999 div 262142 \<le> 9999"
    using small div_le_mono [of "unat d * 9999" "262142 * 9999" 262142] by simp
  have w: "unat (1 + (d * 9999) div 262142) = 1 + unat d * 9999 div 262142"
    using le div by (simp add: unat_add_lem [THEN iffD1])
  have "clamp (1 + (d * 9999) div 262142) 1 10000 = 1 + (d * 9999) div 262142"
    using le w by (auto simp: clamp_def word_less_nat_alt)
  then show ?thesis
    using False by (simp add: shares_to_weight_def Let_def c_def [symmetric] d_def [symmetric] w d)
qed

text \<open>
Cgroup values are in range. The CPU weight the runtime writes is between 1 and 10000, grows
with the shares of the configuration, and takes both end values, with no wrap-around on the way;
a memory limit it writes is never negative.
\<close>

theorem cgroup_values_in_range:
  "(case cg_cpu_weight (cgroup_config_of cfg) of Some w \<Rightarrow> 1 \<le> unat w \<and> unat w \<le> 10000 | None \<Rightarrow> True)
   \<and> (case cg_memory_limit (cgroup_config_of cfg) of Some m \<Rightarrow> 0 \<le> m | None \<Rightarrow> True)
   \<and> mono shares_to_weight \<and> shares_to_weight 2 = 1 \<and> shares_to_weight 262144 = 10000"
proof (intro conjI)
  have top: "(max 2 (min n 262144) - 2) * 9999 div 262142 \<le> (9999::nat)" for n
    using div_le_mono [of "(max 2 (min n 262144) - 2) * 9999" "262142 * 9999" 262142] by simp
  show "case cg_cpu_weight (cgroup_config_of cfg) of
      Some w \<Rightarrow> 1 \<le> unat w \<and> unat w \<le> 10000 | None \<Rightarrow> True"
    using top by (auto simp: cgroup_config_of_def Let_def unat_shares_to_weight
        split: option.splits bind_splits if_splits)
  show "case cg_memory_limit (cgroup_config_of cfg) of Some m \<Rightarrow> 0 \<le> m | None \<Rightarrow> True"
    by (auto simp: cgroup_config_of_def Let_def split: option.splits bind_splits if_splits)
  show "mono shares_to_weight"
    by (rule monoI)
       (auto simp: word_le_nat_alt unat_shares_to_weight unsigned_eq_0_iff intro!: div_le_mono mult_le_mono1)
qed (simp_all add: shares_to_weight_def clamp_def)

end
