(* ===== verification/Kernel_Init_Properties.thy ===== *)
theory Kernel_Init_Properties
  imports Kernel_Init
begin

text \<open>
  What the init task of a container does in every case: it ends in an exec or in an exit, it
  execs only after its rootfs was entered and sealed and right after its credentials were set,
  and it masks every path it was asked to mask.
\<close>

section \<open>What the stages append\<close>

definition trace_of :: "trace + int \<times> trace \<Rightarrow> trace" where
  "trace_of r = (case r of Err tr \<Rightarrow> tr | Ok (_, tr) \<Rightarrow> tr)"

lemma trace_of_simps [simp]: "trace_of (Err tr) = tr" "trace_of (Ok (rc, tr)) = tr"
  by (simp_all add: trace_of_def)

fun setup_call :: "hcall \<Rightarrow> bool" where
  "setup_call (HMount _ _ _ _) = True"
| "setup_call (HMkdir _ _) = True"
| "setup_call (HMknod _ _ _ _) = True"
| "setup_call (HSymlink _ _) = True"
| "setup_call (HWriteFile _ _) = True"
| "setup_call (HApplyRlimit _ _ _) = True"
| "setup_call (HSetOomScoreAdj _) = True"
| "setup_call _ = False"

fun is_exec :: "hcall \<Rightarrow> bool" where
  "is_exec (HExecve _ _ _) = True"
| "is_exec _ = False"

fun is_exit :: "hcall \<Rightarrow> bool" where
  "is_exit (HExit _) = True"
| "is_exit _ = False"

fun is_mount :: "hcall \<Rightarrow> bool" where
  "is_mount (HMount _ _ _ _) = True"
| "is_mount _ = False"

definition appends :: "(hcall \<Rightarrow> bool) \<Rightarrow> trace \<Rightarrow> trace \<Rightarrow> bool" where
  "appends P tr tr' \<longleftrightarrow> (\<exists>ys. tr' = tr @ ys \<and> list_all P ys)"

lemma appends_refl [simp, intro]: "appends P tr tr"
  by (auto simp: appends_def)

lemma appends_trans [trans]: "appends P tr tr' \<Longrightarrow> appends P tr' tr'' \<Longrightarrow> appends P tr tr''"
  by (auto simp: appends_def)

lemma appends_add: "list_all P ys \<Longrightarrow> appends P tr (tr @ ys)"
  by (auto simp: appends_def)

lemma appends_add_trans: "list_all P ys \<Longrightarrow> appends P (tr @ ys) tr' \<Longrightarrow> appends P tr tr'"
  by (auto simp: appends_def)

lemma appends_mask: "appends setup_call tr (mask_paths ans ps tr)"
proof (induction ps arbitrary: tr)
  case (Cons p ps)
  then show ?case by (auto simp: Let_def intro!: appends_add_trans [OF _ Cons.IH])
qed simp

lemma appends_readonly: "appends setup_call tr (readonly_paths ans ps tr)"
proof (induction ps arbitrary: tr)
  case (Cons p ps)
  then show ?case by (auto simp: Let_def intro!: appends_add_trans [OF _ Cons.IH])
qed simp

lemma appends_sysctls: "appends setup_call tr (apply_sysctls es tr)"
proof (induction es arbitrary: tr)
  case (Cons e es)
  then show ?case
    by (auto intro!: appends_add_trans [OF _ Cons.IH] split: option.split)
qed simp

lemma appends_mounts: "appends setup_call tr (apply_mounts ms tr)"
proof (induction ms arbitrary: tr)
  case (Cons m ms)
  have "list_all setup_call (mount_calls m)" by (simp add: mount_calls_def Let_def)
  then show ?case using Cons by (auto intro: appends_add_trans)
qed simp

lemma appends_devices: "appends setup_call tr (apply_default_devices ms tr)"
  unfolding apply_default_devices_def
  by (auto intro!: appends_add simp: list_all_iff)

lemma appends_limits: "appends setup_call tr (apply_limits ctx tr)"
  unfolding apply_limits_def by (rule appends_add) (auto simp: list_all_iff split: option.splits)

lemma appends_confinement: "appends setup_call tr (apply_path_confinement ans ms ro tr)"
  unfolding apply_path_confinement_def using appends_mask appends_readonly by (rule appends_trans)

lemma appends_filesystem: "appends setup_call tr (setup_filesystem ans ctx tr)"
proof -
  have "appends setup_call tr (tr @ [make_private])" by (simp add: appends_add make_private_def)
  then show ?thesis
    unfolding setup_filesystem_def Let_def
    by (meson appends_trans appends_mounts appends_devices appends_sysctls appends_confinement
        appends_limits)
qed

section \<open>The shape of a run\<close>

text \<open>The calls before the chroot, and the prefixes of a run that reaches the exec.\<close>

definition before_chroot :: "container_ctx \<Rightarrow> trace" where
  "before_chroot ctx = set_hostname ctx [] @ (if cx_userns ctx then [HUsernsSetupCreds] else [])
     @ (if cx_readonly_rootfs ctx then [make_private, bind_rootfs ctx] else [])"

definition chroot_call :: "container_ctx \<Rightarrow> hcall" where
  "chroot_call ctx = HChroot (c_str (cx_rootfs ctx))"

definition after_setup :: "answers \<Rightarrow> container_ctx \<Rightarrow> trace" where
  "after_setup ans ctx = setup_filesystem ans ctx (before_chroot ctx @ [chroot_call ctx])"

definition with_seal :: "answers \<Rightarrow> container_ctx \<Rightarrow> trace" where
  "with_seal ans ctx = after_setup ans ctx @ (if cx_readonly_rootfs ctx then [seal_call] else [])"

definition exec_call :: "container_ctx \<Rightarrow> hcall" where
  "exec_call ctx =
     (let argv = map c_str (take K_MAX_ARGS (cx_argv ctx)) in
      HExecve (hd argv) argv
        (if cx_envp ctx = [] then default_env else map c_str (take K_MAX_ARGS (cx_envp ctx))))"

text \<open>What has to succeed for the task to get as far as its exec.\<close>

definition setup_succeeds :: "answers \<Rightarrow> container_ctx \<Rightarrow> bool" where
  "setup_succeeds ans ctx \<longleftrightarrow>
     (cx_userns ctx \<longrightarrow> ans (set_hostname ctx []) HUsernsSetupCreds = 0)
     \<and> (cx_readonly_rootfs ctx \<longrightarrow> ans (butlast (before_chroot ctx)) (bind_rootfs ctx) = 0)
     \<and> ans (before_chroot ctx) (chroot_call ctx) = 0
     \<and> (cx_readonly_rootfs ctx \<longrightarrow> ans (after_setup ans ctx) seal_call = 0)
     \<and> cx_argv ctx \<noteq> []"

lemma no_exec_before:
  "list_all (\<lambda>c. \<not> is_exec c \<and> \<not> is_exit c) (with_seal ans ctx)"
  "list_all (\<lambda>c. \<not> is_exec c \<and> \<not> is_exit c) (before_chroot ctx)"
  "list_all (\<lambda>c. \<not> is_exec c \<and> \<not> is_exit c) (after_setup ans ctx)"
proof -
  show b: "list_all (\<lambda>c. \<not> is_exec c \<and> \<not> is_exit c) (before_chroot ctx)"
    by (simp add: before_chroot_def set_hostname_def make_private_def bind_rootfs_def)
  obtain ys where ys: "after_setup ans ctx = (before_chroot ctx @ [chroot_call ctx]) @ ys"
      "list_all setup_call ys"
    using appends_filesystem unfolding after_setup_def appends_def by blast
  have quiet: "setup_call c \<Longrightarrow> \<not> is_exec c \<and> \<not> is_exit c" for c
    by (cases c) simp_all
  then have "list_all (\<lambda>c. \<not> is_exec c \<and> \<not> is_exit c) ys"
    using ys(2) unfolding list_all_iff by blast
  then show s: "list_all (\<lambda>c. \<not> is_exec c \<and> \<not> is_exit c) (after_setup ans ctx)"
    using b by (simp add: ys(1) chroot_call_def)
  then show "list_all (\<lambda>c. \<not> is_exec c \<and> \<not> is_exit c) (with_seal ans ctx)"
    by (simp add: with_seal_def seal_call_def)
qed

text \<open>A run either stops before the exec, with an exit after calls of neither kind, or execs.\<close>

lemma must_eq:
  "must ans c tr = (if ans tr c \<noteq> 0 then Err (tr @ [c] @ [HExit (ans tr c)]) else Ok (tr @ [c]))"
  by (simp add: must_def exit_task_def Let_def)

lemma do_exec_eq:
  "do_exec ans ctx tr =
     (if cx_argv ctx = [] then Err (tr @ [HExit (- 22)])
      else if ans tr (exec_call ctx) \<noteq> 0
        then Err (tr @ [exec_call ctx] @ [HExit (ans tr (exec_call ctx))])
      else Ok (0, tr @ [exec_call ctx]))"
  by (simp add: do_exec_def exec_call_def exit_task_def Let_def K_MAX_ARGS_def)

lemma entry_stages:
  assumes "\<not> doomed"
  shows "entry_after_gate ans doomed ctx =
    (let t1 = set_hostname ctx [] @ (if cx_userns ctx then [HUsernsSetupCreds] else []);
         u = ans (set_hostname ctx []) HUsernsSetupCreds;
         b = ans (t1 @ [make_private]) (bind_rootfs ctx);
         c = ans (before_chroot ctx) (chroot_call ctx);
         s = ans (after_setup ans ctx) seal_call in
     if cx_userns ctx \<and> u \<noteq> 0 then Err (t1 @ [HExit u])
     else if cx_readonly_rootfs ctx \<and> b \<noteq> 0 then Err (before_chroot ctx @ [HExit b])
     else if c \<noteq> 0 then Err ((before_chroot ctx @ [chroot_call ctx]) @ [HExit c])
     else if cx_readonly_rootfs ctx \<and> s \<noteq> 0 then Err (with_seal ans ctx @ [HExit s])
     else do_exec ans ctx (with_seal ans ctx @ [creds_call ctx]))"
  using assms
  by (simp add: entry_after_gate_def setup_userns_def prepare_readonly_def seal_rootfs_def must_eq
      before_chroot_def chroot_call_def with_seal_def after_setup_def Let_def)

lemma entry_cases:
  obtains
    (stopped) pre code where "entry_after_gate ans doomed ctx = Err (pre @ [HExit code])"
      "list_all (\<lambda>c. \<not> is_exec c \<and> \<not> is_exit c) pre" "doomed \<or> \<not> setup_succeeds ans ctx"
  | (returned) "\<not> doomed" "setup_succeeds ans ctx"
      "ans (with_seal ans ctx @ [creds_call ctx]) (exec_call ctx) = 0"
      "entry_after_gate ans doomed ctx =
         Ok (0, with_seal ans ctx @ [creds_call ctx, exec_call ctx])"
  | (failed) rc where "\<not> doomed" "setup_succeeds ans ctx" "rc \<noteq> 0"
      "ans (with_seal ans ctx @ [creds_call ctx]) (exec_call ctx) = rc"
      "entry_after_gate ans doomed ctx =
         Err (with_seal ans ctx @ [creds_call ctx, exec_call ctx, HExit rc])"
proof (cases doomed)
  case True
  then have "entry_after_gate ans doomed ctx = Err ([] @ [HExit 0])"
    by (simp add: entry_after_gate_def exit_task_def)
  then show thesis using True by (intro stopped [of "[]"]) simp_all
next
  case False
  let ?t1 = "set_hostname ctx [] @ (if cx_userns ctx then [HUsernsSetupCreds] else [])"
  have quiet: "list_all (\<lambda>c. \<not> is_exec c \<and> \<not> is_exit c) ?t1"
      "list_all (\<lambda>c. \<not> is_exec c \<and> \<not> is_exit c) (before_chroot ctx @ [chroot_call ctx])"
      "list_all (\<lambda>c. \<not> is_exec c \<and> \<not> is_exit c) (with_seal ans ctx @ [creds_call ctx])"
    using no_exec_before(1) [of ans ctx] no_exec_before(2) [of ctx]
    by (simp_all add: set_hostname_def chroot_call_def creds_call_def Let_def)
  have last: "cx_readonly_rootfs ctx \<Longrightarrow> butlast (before_chroot ctx) = ?t1 @ [make_private]"
    by (simp add: before_chroot_def butlast_append)
  note stages = entry_stages [OF False, of ans ctx, unfolded Let_def]
  consider (u) "cx_userns ctx" "ans (set_hostname ctx []) HUsernsSetupCreds \<noteq> 0"
    | (b) "\<not> (cx_userns ctx \<and> ans (set_hostname ctx []) HUsernsSetupCreds \<noteq> 0)"
        "cx_readonly_rootfs ctx" "ans (?t1 @ [make_private]) (bind_rootfs ctx) \<noteq> 0"
    | (c) "\<not> (cx_userns ctx \<and> ans (set_hostname ctx []) HUsernsSetupCreds \<noteq> 0)"
        "\<not> (cx_readonly_rootfs ctx \<and> ans (?t1 @ [make_private]) (bind_rootfs ctx) \<noteq> 0)"
        "ans (before_chroot ctx) (chroot_call ctx) \<noteq> 0"
    | (s) "\<not> (cx_userns ctx \<and> ans (set_hostname ctx []) HUsernsSetupCreds \<noteq> 0)"
        "\<not> (cx_readonly_rootfs ctx \<and> ans (?t1 @ [make_private]) (bind_rootfs ctx) \<noteq> 0)"
        "ans (before_chroot ctx) (chroot_call ctx) = 0"
        "cx_readonly_rootfs ctx" "ans (after_setup ans ctx) seal_call \<noteq> 0"
    | (e) "\<not> (cx_userns ctx \<and> ans (set_hostname ctx []) HUsernsSetupCreds \<noteq> 0)"
        "\<not> (cx_readonly_rootfs ctx \<and> ans (?t1 @ [make_private]) (bind_rootfs ctx) \<noteq> 0)"
        "ans (before_chroot ctx) (chroot_call ctx) = 0"
        "\<not> (cx_readonly_rootfs ctx \<and> ans (after_setup ans ctx) seal_call \<noteq> 0)"
    by blast
  then show thesis
  proof cases
    case u
    then show thesis using quiet(1) stages by (intro stopped [of ?t1]) (simp_all add: setup_succeeds_def)
  next
    case b
    have "entry_after_gate ans doomed ctx =
        Err (before_chroot ctx @ [HExit (ans (?t1 @ [make_private]) (bind_rootfs ctx))])"
      unfolding stages if_not_P [OF b(1)] if_P [OF conjI [OF b(2,3)]] ..
    then show thesis
    proof (rule stopped)
      show "doomed \<or> \<not> setup_succeeds ans ctx" using b last by (simp add: setup_succeeds_def)
    qed (rule no_exec_before(2))
  next
    case c
    then show thesis
      using stages quiet(2)
      by (intro stopped [of "before_chroot ctx @ [chroot_call ctx]"]) (auto simp: setup_succeeds_def)
  next
    case s
    then show thesis
      using stages no_exec_before(1) [of ans ctx]
      by (intro stopped [of "with_seal ans ctx"]) (auto simp: setup_succeeds_def)
  next
    case e
    then have run: "entry_after_gate ans doomed ctx =
        do_exec ans ctx (with_seal ans ctx @ [creds_call ctx])"
      using stages by auto
    have ok: "setup_succeeds ans ctx" if "cx_argv ctx \<noteq> []"
      using e last that by (auto simp: setup_succeeds_def)
    show thesis
    proof (cases "cx_argv ctx = []")
      case True
      then show thesis
        using run quiet(3)
        by (intro stopped [of "with_seal ans ctx @ [creds_call ctx]"])
           (simp_all add: do_exec_eq setup_succeeds_def)
    next
      case argv: False
      show thesis
        using run ok [OF argv] argv False
        by (cases "ans (with_seal ans ctx @ [creds_call ctx]) (exec_call ctx) = 0")
           (auto simp: do_exec_eq intro: returned failed)
    qed
  qed
qed

text \<open>A trace that contains an exec, by the shape of the run.\<close>

lemma exec_in_trace:
  assumes "HExecve f argv envp \<in> set (trace_of (entry_after_gate ans doomed ctx))"
  obtains rest where "\<not> doomed" "setup_succeeds ans ctx" "HExecve f argv envp = exec_call ctx"
    "trace_of (entry_after_gate ans doomed ctx) =
       with_seal ans ctx @ [creds_call ctx, exec_call ctx] @ rest"
    "rest = (let rc = ans (with_seal ans ctx @ [creds_call ctx]) (exec_call ctx) in
       if rc = 0 then [] else [HExit rc])"
proof -
  have quiet: "HExecve f argv envp \<notin> set tr" if "list_all (\<lambda>c. \<not> is_exec c \<and> \<not> is_exit c) tr" for tr
    using that by (auto simp: list_all_iff)
  have only: "HExecve f argv envp = exec_call ctx"
    if "HExecve f argv envp \<in> set (with_seal ans ctx @ [creds_call ctx, exec_call ctx] @ rest)"
      "list_all is_exit rest" for rest
    using that quiet [OF no_exec_before(1)] by (auto simp: creds_call_def Let_def list_all_iff)
  show thesis
  proof (cases rule: entry_cases [where ans = ans and doomed = doomed and ctx = ctx])
    case (stopped pre code)
    then show thesis using assms quiet by simp
  next
    case returned
    have "HExecve f argv envp = exec_call ctx"
      using assms returned(4) by (intro only [of "[]"]) simp_all
    then show thesis using returned by (intro that [of "[]"]) (simp_all add: Let_def)
  next
    case (failed rc)
    have "HExecve f argv envp = exec_call ctx"
      using assms failed(5) by (intro only [of "[HExit rc]"]) simp_all
    then show thesis using failed by (intro that [of "[HExit rc]"]) (simp_all add: Let_def)
  qed
qed

lemma entry_of_container:
  assumes "container_entry ans load ctx = Some r"
  obtains doomed where "r = entry_after_gate ans doomed ctx"
    "cx_ctrl ctx = None \<and> \<not> doomed \<or> gate_poll load 0 = Some doomed"
  using assms that by (cases "cx_ctrl ctx") (auto simp: container_entry_def)

section \<open>Properties\<close>

text \<open>
Exec or exit. The init task never returns to user mode without a program: it returns only
after an exec the kernel answered with 0, as its last call; in every other case its last call
is the exit, and it makes exactly one.
\<close>

theorem entry_ends:
  assumes "container_entry ans load ctx = Some r"
  shows "case r of
      Ok (rc, tr) \<Rightarrow> rc = 0 \<and> is_exec (last tr) \<and> ans (butlast tr) (last tr) = 0
        \<and> list_all (\<lambda>c. \<not> is_exit c) tr
    | Err tr \<Rightarrow> tr \<noteq> [] \<and> is_exit (last tr) \<and> list_all (\<lambda>c. \<not> is_exit c) (butlast tr)"
proof -
  obtain doomed where r: "r = entry_after_gate ans doomed ctx"
    using assms by (blast elim: entry_of_container)
  have weaker: "list_all (\<lambda>c. \<not> is_exit c) tr" if "list_all (\<lambda>c. \<not> is_exec c \<and> \<not> is_exit c) tr" for tr
    using that by (auto simp: list_all_iff)
  have calls: "\<not> is_exit (creds_call ctx)" "\<not> is_exit (exec_call ctx)" "is_exec (exec_call ctx)"
    by (simp_all add: creds_call_def exec_call_def Let_def)
  show ?thesis
  proof (cases rule: entry_cases [where ans = ans and doomed = doomed and ctx = ctx])
    case stopped
    then show ?thesis using weaker by (simp add: r butlast_append)
  next
    case returned
    then show ?thesis
      using weaker [OF no_exec_before(1)] calls by (simp add: r butlast_append)
  next
    case failed
    then show ?thesis
      using weaker [OF no_exec_before(1)] calls by (simp add: r butlast_append)
  qed
qed

text \<open>A context with everything on, for concrete runs.\<close>

definition demo_ctx :: container_ctx where
  "demo_ctx = \<lparr>cx_hostname = to_cvec [0x68], cx_rootfs = to_cvec [0x2f, 0x72],
     cx_argv = [to_cvec [0x69]], cx_envp = [],
     cx_cap_sets = \<lparr>cs_present = True, cs_bounding = 0, cs_effective = 0, cs_permitted = 0,
       cs_inheritable = 0, cs_ambient = 0\<rparr>,
     cx_no_new_privs = True, cx_readonly_rootfs = True, cx_masked = [to_cvec [0x2f, 0x6b]],
     cx_readonly = [], cx_rlimits = [], cx_oom_score_adj = None, cx_uid = 1000, cx_gid = 1000,
     cx_mounts = [], cx_sysctls = [], cx_userns = True, cx_ctrl = None\<rparr>"

lemma demo_run:
  assumes "\<And>tr c. c \<noteq> creds_call demo_ctx \<Longrightarrow> ans tr c = 0"
  shows "container_entry ans load demo_ctx = Some (entry_after_gate ans False demo_ctx)"
    "entry_after_gate ans False demo_ctx =
       Ok (0, with_seal ans demo_ctx @ [creds_call demo_ctx, exec_call demo_ctx])"
proof -
  show "container_entry ans load demo_ctx = Some (entry_after_gate ans False demo_ctx)"
    by (simp add: container_entry_def demo_ctx_def)
  have ok: "ans tr HUsernsSetupCreds = 0" "ans tr (bind_rootfs demo_ctx) = 0"
    "ans tr (chroot_call demo_ctx) = 0" "ans tr seal_call = 0" "ans tr (exec_call demo_ctx) = 0" for tr
    by (intro assms, simp add: creds_call_def bind_rootfs_def chroot_call_def seal_call_def
        exec_call_def Let_def)+
  have "setup_succeeds ans demo_ctx" by (simp add: setup_succeeds_def ok, simp add: demo_ctx_def)
  then show "entry_after_gate ans False demo_ctx =
       Ok (0, with_seal ans demo_ctx @ [creds_call demo_ctx, exec_call demo_ctx])"
    by (cases rule: entry_cases [where ans = ans and doomed = False and ctx = demo_ctx])
       (simp_all add: ok)
qed

theorem entry_ends_witness:
  "\<exists>tr. container_entry (\<lambda>_ _. 0) (\<lambda>_. 1) demo_ctx = Some (Ok (0, tr)) \<and> is_exec (last tr)"
proof -
  have run: "container_entry (\<lambda>_ _. 0) (\<lambda>_. 1) demo_ctx =
      Some (Ok (0, with_seal (\<lambda>_ _. 0) demo_ctx @ [creds_call demo_ctx, exec_call demo_ctx]))"
    using demo_run(1) [of "\<lambda>_ _. 0" "\<lambda>_. 1"] demo_run(2) [of "\<lambda>_ _. 0"] by simp
  from entry_ends [OF run] show ?thesis using run by auto
qed

text \<open>
C5 (credentials right before the exec). If the init task execs at all, it does so once, as its
last call but a possible exit after a failed exec; the call right before sets exactly the
context's capability sets, ids and no-new-privs; the program and arguments are the context's
(at most 32 of them); and a created container execs only when its gate said start.
\<close>

theorem exec_under_credentials:
  assumes "container_entry ans load ctx = Some r" "HExecve f argv envp \<in> set (trace_of r)"
  shows "(\<exists>pre rc. trace_of r = pre @ [creds_call ctx, HExecve f argv envp]
        @ (if rc = 0 then [] else [HExit rc])
      \<and> rc = ans (pre @ [creds_call ctx]) (HExecve f argv envp)
      \<and> list_all (\<lambda>c. \<not> is_exec c \<and> \<not> is_exit c) pre)
    \<and> argv = map c_str (take K_MAX_ARGS (cx_argv ctx)) \<and> f = hd argv
    \<and> (cx_ctrl ctx = None \<or> gate_poll load 0 = Some False)"
proof -
  obtain doomed where r: "r = entry_after_gate ans doomed ctx"
      and gate: "cx_ctrl ctx = None \<and> \<not> doomed \<or> gate_poll load 0 = Some doomed"
    using assms(1) by (rule entry_of_container)
  let ?pre = "with_seal ans ctx"
  show ?thesis
  proof (rule exec_in_trace [OF assms(2) [unfolded r]])
    fix rest
    let ?rc = "ans (?pre @ [creds_call ctx]) (exec_call ctx)"
    assume nd: "\<not> doomed" and e: "HExecve f argv envp = exec_call ctx"
      and tr: "trace_of (entry_after_gate ans doomed ctx) = ?pre @ [creds_call ctx, exec_call ctx] @ rest"
      and rest: "rest = (let rc = ?rc in if rc = 0 then [] else [HExit rc])"
    have "argv = map c_str (take K_MAX_ARGS (cx_argv ctx))" "f = hd argv"
      using e by (simp_all add: exec_call_def Let_def)
    moreover have "cx_ctrl ctx = None \<or> gate_poll load 0 = Some False" using gate nd by auto
    moreover have "trace_of r = ?pre @ [creds_call ctx, HExecve f argv envp]
        @ (if ?rc = 0 then [] else [HExit ?rc])"
      unfolding e r tr rest Let_def ..
    ultimately show ?thesis unfolding e using no_exec_before(1) by blast
  qed
qed

theorem exec_under_credentials_witness:
  "\<exists>pre. trace_of (entry_after_gate (\<lambda>_ _. 0) False demo_ctx) = pre @ [creds_call demo_ctx, exec_call demo_ctx]
     \<and> cx_ctrl demo_ctx = None"
proof -
  note run = demo_run(1) [of "\<lambda>_ _. 0" "\<lambda>_. 1", OF refl] demo_run(2) [of "\<lambda>_ _. 0", OF refl]
  obtain f argv envp where e: "exec_call demo_ctx = HExecve f argv envp"
    by (simp add: exec_call_def Let_def)
  have "HExecve f argv envp \<in> set (trace_of (entry_after_gate (\<lambda>_ _. 0) False demo_ctx))"
    by (simp add: run(2) e)
  moreover have "cx_ctrl demo_ctx = None" by (simp add: demo_ctx_def)
  ultimately show ?thesis
    using exec_under_credentials [OF run(1), of f argv envp] by (auto simp: e)
qed

text \<open>Where the decisive calls stand in a trace that execs.\<close>

lemma after_setup_split:
  obtains ys where "after_setup ans ctx = before_chroot ctx @ chroot_call ctx # ys"
    "list_all setup_call ys"
  using appends_filesystem [of "before_chroot ctx @ [chroot_call ctx]" ans ctx]
  unfolding after_setup_def appends_def by auto

lemma before_chroot_calls:
  "c \<in> set (before_chroot ctx) \<Longrightarrow>
   c \<in> {HUsernsSetupCreds, make_private, bind_rootfs ctx} \<or> (\<exists>n. c = HSetHostname n)"
  by (auto simp: before_chroot_def set_hostname_def split: if_splits)

lemma no_mount_after_seal:
  "\<not> is_mount (creds_call ctx)" "\<not> is_mount (exec_call ctx)" "\<not> is_mount (HExit code)"
  by (simp_all add: creds_call_def exec_call_def Let_def)

text \<open>
C6 (fails closed). If the init task execs, then it entered its rootfs: the chroot into the
context's rootfs was answered with 0, and before it nothing was called but the host name, the
user-namespace set-up and the two mounts of the read-only preparation. If a read-only rootfs was
requested, the remount that seals it was answered with 0 after all other mounts, and no mount
follows it. If a user namespace was requested, its set-up succeeded before the chroot.
\<close>

theorem exec_fails_closed:
  assumes "container_entry ans load ctx = Some r" "HExecve f argv envp \<in> set (trace_of r)"
  shows "(\<exists>pre post. trace_of r = pre @ chroot_call ctx # post \<and> ans pre (chroot_call ctx) = 0
      \<and> (\<forall>c\<in>set pre. c \<in> {HUsernsSetupCreds, make_private, bind_rootfs ctx}
           \<or> (\<exists>n. c = HSetHostname n)))
    \<and> (cx_readonly_rootfs ctx \<longrightarrow> (\<exists>pre post. trace_of r = pre @ seal_call # post
         \<and> ans pre seal_call = 0 \<and> \<not> list_ex is_mount post))
    \<and> (cx_userns ctx \<longrightarrow> (\<exists>pre post. trace_of r = pre @ HUsernsSetupCreds # post
         \<and> ans pre HUsernsSetupCreds = 0 \<and> chroot_call ctx \<in> set post))"
proof -
  obtain doomed where r: "r = entry_after_gate ans doomed ctx"
    using assms(1) by (blast elim: entry_of_container)
  obtain rest where ok: "setup_succeeds ans ctx"
    and tr: "trace_of r = with_seal ans ctx @ [creds_call ctx, exec_call ctx] @ rest"
    and rest: "rest = (let rc = ans (with_seal ans ctx @ [creds_call ctx]) (exec_call ctx) in
        if rc = 0 then [] else [HExit rc])"
    using assms(2) unfolding r by (rule exec_in_trace) blast
  obtain ys where ys: "after_setup ans ctx = before_chroot ctx @ chroot_call ctx # ys"
    by (rule after_setup_split)
  define tl where "tl = [creds_call ctx, exec_call ctx] @ rest"
  have quiet: "\<not> list_ex is_mount tl"
    by (auto simp: tl_def rest Let_def no_mount_after_seal)
  define cs where "cs = ys @ (if cx_readonly_rootfs ctx then [seal_call] else []) @ tl"
  have cut: "trace_of r = before_chroot ctx @ chroot_call ctx # cs"
    unfolding tr with_seal_def ys tl_def cs_def by simp
  have "\<exists>pre post. trace_of r = pre @ chroot_call ctx # post \<and> ans pre (chroot_call ctx) = 0
      \<and> (\<forall>c\<in>set pre. c \<in> {HUsernsSetupCreds, make_private, bind_rootfs ctx}
           \<or> (\<exists>n. c = HSetHostname n))"
    using cut ok before_chroot_calls unfolding setup_succeeds_def by blast
  moreover have "\<exists>pre post. trace_of r = pre @ seal_call # post
         \<and> ans pre seal_call = 0 \<and> \<not> list_ex is_mount post" if ro: "cx_readonly_rootfs ctx"
  proof (intro exI conjI)
    show "trace_of r = after_setup ans ctx @ seal_call # tl"
      unfolding tr with_seal_def tl_def using ro by simp
    show "ans (after_setup ans ctx) seal_call = 0" using ok ro by (simp add: setup_succeeds_def)
  qed (rule quiet)
  moreover have "\<exists>pre post. trace_of r = pre @ HUsernsSetupCreds # post
         \<and> ans pre HUsernsSetupCreds = 0 \<and> chroot_call ctx \<in> set post" if u: "cx_userns ctx"
  proof (intro exI conjI)
    show "trace_of r = set_hostname ctx [] @ HUsernsSetupCreds
        # ((if cx_readonly_rootfs ctx then [make_private, bind_rootfs ctx] else []) @ chroot_call ctx # cs)"
      unfolding cut before_chroot_def using u by simp
    show "ans (set_hostname ctx []) HUsernsSetupCreds = 0" using ok u by (simp add: setup_succeeds_def)
  qed simp
  ultimately show ?thesis by blast
qed

lemma demo_exec:
  "\<exists>f argv envp. HExecve f argv envp \<in> set (trace_of (entry_after_gate (\<lambda>_ _. 0) False demo_ctx))"
proof -
  obtain f argv envp where e: "exec_call demo_ctx = HExecve f argv envp"
    by (simp add: exec_call_def Let_def)
  have "HExecve f argv envp \<in> set (trace_of (entry_after_gate (\<lambda>_ _. 0) False demo_ctx))"
    by (simp add: demo_run(2) [of "\<lambda>_ _. 0", OF refl] e)
  then show ?thesis by blast
qed

theorem exec_fails_closed_witness:
  "\<exists>pre post. trace_of (entry_after_gate (\<lambda>_ _. 0) False demo_ctx) = pre @ seal_call # post
     \<and> \<not> list_ex is_mount post"
proof -
  obtain f argv envp where
    e: "HExecve f argv envp \<in> set (trace_of (entry_after_gate (\<lambda>_ _. 0) False demo_ctx))"
    using demo_exec by blast
  have "cx_readonly_rootfs demo_ctx" by (simp add: demo_ctx_def)
  then show ?thesis
    using exec_fails_closed [OF demo_run(1) [of "\<lambda>_ _. 0" "\<lambda>_. 1", OF refl] e] by blast
qed

text \<open>Masking one path, in a list of paths to mask.\<close>

definition mask_bind :: "u8 list \<Rightarrow> hcall" where
  "mask_bind p = HMount (Some (as_bytes ''/dev/null'')) (c_str p) None MS_BIND"

definition mask_tmpfs :: "u8 list \<Rightarrow> hcall" where
  "mask_tmpfs p =
     HMount (Some (as_bytes ''tmpfs'')) (c_str p) (Some (as_bytes ''tmpfs'')) MS_RDONLY"

lemma mask_paths_calls:
  "p \<in> set ps \<Longrightarrow> 1 < length p \<Longrightarrow>
   \<exists>xs ys. mask_paths ans ps tr = tr @ xs @ mask_bind p # ys
     \<and> (ans (tr @ xs) (mask_bind p) \<noteq> 0 \<longrightarrow> (\<exists>zs. ys = mask_tmpfs p # zs))"
proof (induction ps arbitrary: tr)
  case (Cons q ps)
  show ?case
  proof (cases "p = q")
    case True
    let ?tr = "tr @ [mask_bind p] @ (if ans tr (mask_bind p) \<noteq> 0 then [mask_tmpfs p] else [])"
    obtain zs where "mask_paths ans ps ?tr = ?tr @ zs"
      using appends_mask [of ?tr ans ps] unfolding appends_def by blast
    then have eq: "mask_paths ans (q # ps) tr = tr @ [] @ mask_bind p
        # ((if ans tr (mask_bind p) \<noteq> 0 then [mask_tmpfs p] else []) @ zs)"
      using True Cons.prems(2) by (auto simp: mask_bind_def mask_tmpfs_def Let_def)
    show ?thesis
    proof (intro exI conjI)
      show "ans (tr @ []) (mask_bind p) \<noteq> 0 \<longrightarrow> (\<exists>us. (if ans tr (mask_bind p) \<noteq> 0 then [mask_tmpfs p] else []) @ zs
          = mask_tmpfs p # us)" by simp
    qed (rule eq)
  next
    case False
    then have p: "p \<in> set ps" using Cons.prems(1) by simp
    obtain us where us: "mask_paths ans (q # ps) tr = mask_paths ans ps (tr @ us)"
    proof (cases "length q \<le> 1")
      case True
      then show thesis by (intro that [of "[]"]) simp
    next
      case False
      then show thesis
        by (intro that [of "mask_bind q # (if ans tr (mask_bind q) \<noteq> 0 then [mask_tmpfs q] else [])"])
           (simp add: mask_bind_def mask_tmpfs_def Let_def)
    qed
    obtain xs ys where "mask_paths ans ps (tr @ us) = (tr @ us) @ xs @ mask_bind p # ys"
        "ans ((tr @ us) @ xs) (mask_bind p) \<noteq> 0 \<longrightarrow> (\<exists>zs. ys = mask_tmpfs p # zs)"
      using Cons.IH [OF p Cons.prems(2)] by blast
    then show ?thesis unfolding us by - (rule exI [of _ "us @ xs"], rule exI [of _ ys], simp)
  qed
qed simp

lemma after_setup_masks:
  assumes "p \<in> set (cx_masked ctx)" "1 < length p"
  shows "\<exists>pre ys. after_setup ans ctx = pre @ mask_bind p # ys \<and> chroot_call ctx \<in> set pre
    \<and> (ans pre (mask_bind p) \<noteq> 0 \<longrightarrow> (\<exists>zs. ys = mask_tmpfs p # zs))"
proof -
  let ?c = "(before_chroot ctx @ [chroot_call ctx]) @ [make_private]"
  let ?t0 = "apply_sysctls (cx_sysctls ctx) (apply_default_devices (cx_mounts ctx)
      (apply_mounts (cx_mounts ctx) ?c))"
  have "appends setup_call ?c ?t0"
    by (meson appends_trans appends_mounts appends_devices appends_sysctls)
  then obtain us where us: "?t0 = ?c @ us" unfolding appends_def by blast
  obtain xs ys where m: "mask_paths ans (cx_masked ctx) ?t0 = ?t0 @ xs @ mask_bind p # ys"
      "ans (?t0 @ xs) (mask_bind p) \<noteq> 0 \<longrightarrow> (\<exists>zs. ys = mask_tmpfs p # zs)"
    using mask_paths_calls [OF assms] by blast
  have "appends setup_call (mask_paths ans (cx_masked ctx) ?t0) (after_setup ans ctx)"
    unfolding after_setup_def setup_filesystem_def Let_def apply_path_confinement_def
    by (rule appends_trans [OF appends_readonly appends_limits])
  then obtain vs where "after_setup ans ctx = (?t0 @ xs @ mask_bind p # ys) @ vs"
    unfolding m(1) appends_def by blast
  then have "after_setup ans ctx = (?t0 @ xs) @ mask_bind p # (ys @ vs)" by simp
  moreover have "chroot_call ctx \<in> set (?t0 @ xs)" unfolding us by simp
  moreover have "ans (?t0 @ xs) (mask_bind p) \<noteq> 0 \<longrightarrow> (\<exists>zs. ys @ vs = mask_tmpfs p # zs)" using m(2) by auto
  ultimately show ?thesis by blast
qed

text \<open>
C29 (a masked path is covered before the exec, unless both mounts are refused). If the init task
execs, then for each masked path it had before, inside the new root, mounted something over the
path, \<open>/dev/null\<close> or an empty read-only tmpfs, and the mount succeeded; or it had tried the one
right after the other and both were refused. In that last case the path is left as it is and the
exec goes on: the code does not look at the result of the tmpfs.
\<close>

theorem masked_before_exec:
  assumes "container_entry ans load ctx = Some r" "HExecve f argv envp \<in> set (trace_of r)"
    and "p \<in> set (cx_masked ctx)" "1 < length p"
  shows "(\<exists>pre c post. trace_of r = pre @ c # post \<and> c \<in> {mask_bind p, mask_tmpfs p} \<and> ans pre c = 0
        \<and> chroot_call ctx \<in> set pre \<and> HExecve f argv envp \<in> set post)
    \<or> (\<exists>pre post. trace_of r = pre @ mask_bind p # mask_tmpfs p # post
        \<and> ans pre (mask_bind p) \<noteq> 0 \<and> ans (pre @ [mask_bind p]) (mask_tmpfs p) \<noteq> 0
        \<and> chroot_call ctx \<in> set pre \<and> HExecve f argv envp \<in> set post)"
proof -
  obtain doomed where r: "r = entry_after_gate ans doomed ctx"
    using assms(1) by (blast elim: entry_of_container)
  obtain rest where e: "HExecve f argv envp = exec_call ctx"
    and tr: "trace_of r = with_seal ans ctx @ [creds_call ctx, exec_call ctx] @ rest"
    using assms(2) unfolding r by (rule exec_in_trace) blast
  obtain pre ys where s: "after_setup ans ctx = pre @ mask_bind p # ys" "chroot_call ctx \<in> set pre"
      "ans pre (mask_bind p) \<noteq> 0 \<longrightarrow> (\<exists>zs. ys = mask_tmpfs p # zs)"
    using after_setup_masks [OF assms(3,4)] by blast
  let ?tail = "(if cx_readonly_rootfs ctx then [seal_call] else []) @ [creds_call ctx, exec_call ctx] @ rest"
  have cut: "trace_of r = pre @ mask_bind p # ys @ ?tail" unfolding tr with_seal_def s(1) by simp
  have exec: "HExecve f argv envp \<in> set (zs @ ?tail)" for zs unfolding e by simp
  show ?thesis
  proof (cases "ans pre (mask_bind p) = 0")
    case True
    then show ?thesis using cut s(2) exec by blast
  next
    case False
    then obtain zs where ys: "ys = mask_tmpfs p # zs" using s(3) by blast
    then have both: "trace_of r = pre @ mask_bind p # mask_tmpfs p # zs @ ?tail"
        "trace_of r = (pre @ [mask_bind p]) @ mask_tmpfs p # zs @ ?tail"
      using cut by simp_all
    show ?thesis
    proof (cases "ans (pre @ [mask_bind p]) (mask_tmpfs p) = 0")
      case True
      have "chroot_call ctx \<in> set (pre @ [mask_bind p])" using s(2) by simp
      then show ?thesis using True both(2) exec by blast
    next
      case False
      then show ?thesis using \<open>ans pre (mask_bind p) \<noteq> 0\<close> both(1) s(2) exec by blast
    qed
  qed
qed

theorem masked_before_exec_witness:
  "\<exists>pre c post. trace_of (entry_after_gate (\<lambda>_ _. 0) False demo_ctx) = pre @ c # post
     \<and> c \<in> {mask_bind (to_cvec [0x2f, 0x6b]), mask_tmpfs (to_cvec [0x2f, 0x6b])}
     \<and> chroot_call demo_ctx \<in> set pre"
proof -
  obtain f argv envp where
    e: "HExecve f argv envp \<in> set (trace_of (entry_after_gate (\<lambda>_ _. 0) False demo_ctx))"
    using demo_exec by blast
  have "to_cvec [0x2f, 0x6b] \<in> set (cx_masked demo_ctx)" by (simp add: demo_ctx_def)
  from masked_before_exec [OF demo_run(1) [of "\<lambda>_ _. 0" "\<lambda>_. 1", OF refl] e this]
  have "\<exists>pre c post. trace_of (entry_after_gate (\<lambda>_ _. 0) False demo_ctx) = pre @ c # post
     \<and> c \<in> {mask_bind (to_cvec [0x2f, 0x6b]), mask_tmpfs (to_cvec [0x2f, 0x6b])} \<and> (0::int) = 0
     \<and> chroot_call demo_ctx \<in> set pre \<and> HExecve f argv envp \<in> set post"
    by simp
  then show ?thesis by blast
qed

text \<open>
A doomed container does nothing. A created container that is deleted before it starts
makes no helper call but its exit; one that is neither started nor deleted makes none at all.
\<close>

theorem doomed_does_nothing:
  assumes "cx_ctrl ctx = Some a"
  shows "(gate_poll load 0 = Some True \<longrightarrow> container_entry ans load ctx = Some (Err [HExit 0]))
    \<and> (gate_poll load 0 = None \<longrightarrow> container_entry ans load ctx = None)"
  using assms by (simp add: container_entry_def entry_after_gate_def exit_task_def)

theorem doomed_does_nothing_witness:
  "container_entry (\<lambda>_ _. 0) (\<lambda>_. ACT_DOOM) (demo_ctx\<lparr>cx_ctrl := Some 0\<rparr>) = Some (Err [HExit 0])"
proof -
  have "gate_poll (\<lambda>_. ACT_DOOM) 0 = Some True"
    by (subst gate_poll.simps) (simp add: act_defs)
  then show ?thesis using doomed_does_nothing [of "demo_ctx\<lparr>cx_ctrl := Some 0\<rparr>" 0 "\<lambda>_. ACT_DOOM" "\<lambda>_ _. 0"] by simp
qed

text \<open>
A failure to drop privileges is ignored. Whatever the helper answers to the call that
applies the credentials, an error included, the init task goes on exactly as if it had
succeeded: it execs the program, then with the privileges it still has.
\<close>

theorem creds_failure_ignored:
  "container_entry (\<lambda>tr c. if c = creds_call ctx then v tr else ans tr c) load ctx =
   container_entry ans load ctx"
proof -
  let ?ans = "\<lambda>tr c. if c = creds_call ctx then v tr else ans tr c"
  have mounts: "HMount a b c d \<noteq> creds_call ctx" "HChroot p \<noteq> creds_call ctx"
    "HUsernsSetupCreds \<noteq> creds_call ctx" "exec_call ctx \<noteq> creds_call ctx" for a b c d p
    by (simp_all add: creds_call_def exec_call_def Let_def)
  have "mask_paths ?ans ps tr = mask_paths ans ps tr" for ps tr
    by (induction ps arbitrary: tr) (simp_all add: mounts Let_def)
  moreover have "readonly_paths ?ans ps tr = readonly_paths ans ps tr" for ps tr
    by (induction ps arbitrary: tr) (simp_all add: mounts Let_def)
  ultimately have fs: "setup_filesystem ?ans ctx = setup_filesystem ans ctx"
    by (simp add: setup_filesystem_def apply_path_confinement_def fun_eq_iff)
  have m: "must ?ans c = must ans c" if "c \<noteq> creds_call ctx" for c
    using that by (simp add: must_def fun_eq_iff)
  have x: "do_exec ?ans ctx = do_exec ans ctx"
    by (simp add: fun_eq_iff do_exec_eq mounts)
  have "setup_userns ?ans ctx = setup_userns ans ctx"
    "prepare_readonly ?ans ctx = prepare_readonly ans ctx"
    "seal_rootfs ?ans ctx = seal_rootfs ans ctx"
    by (simp_all add: fun_eq_iff setup_userns_def prepare_readonly_def seal_rootfs_def m mounts
        bind_rootfs_def seal_call_def)
  then have e: "entry_after_gate ?ans doomed ctx = entry_after_gate ans doomed ctx" for doomed
    by (simp add: entry_after_gate_def fs m mounts x)
  show ?thesis unfolding container_entry_def e ..
qed

end
