(* ===== verification/Sysctl_Pipeline.thy ===== *)
theory Sysctl_Pipeline
  imports Oci_Properties Kernel_Create Kernel_Init_Properties
begin

text \<open>
  One configuration all the way: \<open>config_to_spec\<close> in userspace, the encoding, the kernel's
  \<open>create\<close>, and the files the init task of that container writes.
\<close>

section \<open>What the configuration lets through\<close>

text \<open>
  A path below \<open>/proc/sys\<close> that belongs to a namespace the container owns and cannot leave its
  directory: no \<open>.\<close> at all, hence no \<open>..\<close>, and no empty component.
\<close>

definition sysctl_confined :: "u32 \<Rightarrow> string \<Rightarrow> bool" where
  "sysctl_confined ns rel \<longleftrightarrow>
     CHR ''.'' \<notin> set rel \<and> CHR ''='' \<notin> set rel \<and> CHR 0x00 \<notin> set rel \<and> [] \<notin> set (split_slash rel)
     \<and> (starts_with rel ''net/'' \<and> ns AND NS_NET \<noteq> 0
        \<or> (rel = ''kernel/sem'' \<or> starts_with rel ''kernel/shm'' \<or> starts_with rel ''kernel/msg''
            \<or> starts_with rel ''fs/mqueue/'') \<and> ns AND NS_IPC \<noteq> 0)"

lemma starts_with_dots: "starts_with k pre \<Longrightarrow> starts_with (dots_to_slashes k) (dots_to_slashes pre)"
  by (simp add: starts_with_def dots_to_slashes_def take_map)

lemma dots_literals:
  "dots_to_slashes ''net.'' = ''net/''" "dots_to_slashes ''kernel.sem'' = ''kernel/sem''"
  "dots_to_slashes ''kernel.shm'' = ''kernel/shm''" "dots_to_slashes ''kernel.msg'' = ''kernel/msg''"
  "dots_to_slashes ''fs.mqueue.'' = ''fs/mqueue/''"
  by (simp_all add: dots_to_slashes_def)

lemma sysctl_ok_confined:
  assumes "sysctl_ok (ns AND NS_IPC \<noteq> 0) (ns AND NS_NET \<noteq> 0) (k, v)"
  shows "sysctl_confined ns (dots_to_slashes k)"
proof -
  have name: "sysctl_namespaced k (ns AND NS_IPC \<noteq> 0) (ns AND NS_NET \<noteq> 0)" "sysctl_name_ok k"
    using assms by (simp_all add: sysctl_ok_def)
  have "CHR ''='' \<notin> set (dots_to_slashes k)" "CHR 0x00 \<notin> set (dots_to_slashes k)"
    using name(2) by (auto simp: sysctl_name_ok_def dots_to_slashes_def list_all_iff
        is_ascii_alphanumeric_def split: if_splits)
  moreover have "starts_with (dots_to_slashes k) ''net/'' \<and> ns AND NS_NET \<noteq> 0
      \<or> (dots_to_slashes k = ''kernel/sem'' \<or> starts_with (dots_to_slashes k) ''kernel/shm''
         \<or> starts_with (dots_to_slashes k) ''kernel/msg''
         \<or> starts_with (dots_to_slashes k) ''fs/mqueue/'') \<and> ns AND NS_IPC \<noteq> 0"
    using name(1) starts_with_dots [of k "''net.''"] starts_with_dots [of k "''kernel.shm''"]
      starts_with_dots [of k "''kernel.msg''"] starts_with_dots [of k "''fs.mqueue.''"]
    unfolding sysctl_namespaced_def Let_def dots_literals
    by (auto simp: dots_literals split: if_splits)
  ultimately show ?thesis
    using name(2) no_dot_in_path by (simp add: sysctl_confined_def sysctl_name_ok_def)
qed

lemma accepted_sysctls:
  assumes "config_to_spec bundle cfg = Ok s" "e \<in> set (sp_sysctls s)"
  obtains rel v where "e = rel @ ''='' @ v" "sysctl_confined (sp_namespaces s) rel"
    "sysctl_value_ok v"
proof -
  have ok: "supported cfg" "s = translated bundle cfg"
    using assms(1) by (simp_all add: config_to_spec_Ok)
  then have lx: "linux_supported (oc_linux cfg)"
    by (auto simp: supported_def split: option.splits)
  have parts: "sp_sysctls s = lp_sysctls (linux_result (oc_linux cfg))"
      "sp_namespaces s = lp_namespaces (linux_result (oc_linux cfg))"
    by (simp_all add: ok(2) translated_def build_spec_def Let_def)
  then obtain l where l: "oc_linux cfg = Some l"
    using assms(2) by (cases "oc_linux cfg") (simp_all add: linux_result_def no_linux_def)
  then obtain k v where kv: "(k, v) \<in> set (lx_sysctl l)" "e = dots_to_slashes k @ ''='' @ v"
    using assms(2) parts by (auto simp: linux_result_def sysctl_line_def Let_def)
  then have "sysctl_ok (sp_namespaces s AND NS_IPC \<noteq> 0) (sp_namespaces s AND NS_NET \<noteq> 0) (k, v)"
    using lx l parts(2) by (auto simp: linux_supported_def linux_result_def Let_def list_all_iff)
  then have "sysctl_confined (sp_namespaces s) (dots_to_slashes k)" "sysctl_value_ok v"
    by (auto simp: sysctl_ok_confined sysctl_ok_def)
  then show thesis using kv(2) that by blast
qed

section \<open>What the init task writes\<close>

lemma byte_in_as_bytes: "word_of_nat (of_char c) \<in> set (as_bytes s) \<longleftrightarrow> c \<in> set s"
proof -
  have "inj (\<lambda>c. word_of_nat (of_char c) :: u8)"
  proof (rule injI)
    fix c d :: char
    assume "(word_of_nat (of_char c) :: u8) = word_of_nat (of_char d)"
    then have "as_bytes [c] = as_bytes [d]" by (simp add: as_bytes_def)
    then show "c = d" by simp
  qed
  from inj_image_mem_iff [OF this, of c "set s"] show ?thesis by (simp add: as_bytes_def)
qed

lemma special_bytes:
  "0x3d \<in> set (as_bytes s) \<longleftrightarrow> CHR ''='' \<in> set s" "0 \<in> set (as_bytes s) \<longleftrightarrow> CHR 0x00 \<in> set s"
  using byte_in_as_bytes [of "CHR ''=''" s] byte_in_as_bytes [of "CHR 0x00" s] by simp_all

lemma sysctl_write_line:
  assumes "CHR ''='' \<notin> set rel" "CHR 0x00 \<notin> set rel"
  shows "sysctl_write (cstring (rel @ ''='' @ v)) =
    Some (as_bytes (''/proc/sys/'' @ rel), as_bytes v)"
proof -
  have entry: "cstring (rel @ ''='' @ v) = as_bytes rel @ 0x3d # as_bytes v @ [0]"
    by (simp add: cstring_def to_cvec_def) (simp add: as_bytes_def)
  have eq: "position (\<lambda>b. b = 0x3d) (as_bytes rel @ 0x3d # as_bytes v @ [0]) = Some (length rel)"
    using position_append [of "as_bytes rel" "\<lambda>b. b = 0x3d" "0x3d" "as_bytes v @ [0]"] assms(1)
      special_bytes(1) [of rel]
    by auto
  have path: "c_str (as_bytes pre @ as_bytes rel @ [0]) = as_bytes (pre @ rel)"
    if "CHR 0x00 \<notin> set pre" for pre
    using c_str_to_cvec [of "as_bytes (pre @ rel)"] that assms(2)
    by (simp add: to_cvec_def special_bytes)
  show ?thesis unfolding entry sysctl_write_def eq
    using path [of "''/proc/sys/''"] by simp
qed

text \<open>The only files the init task writes are the ones its sysctl entries stand for.\<close>

fun writes_from :: "u8 list list \<Rightarrow> hcall \<Rightarrow> bool" where
  "writes_from es (HWriteFile path v) \<longleftrightarrow> (\<exists>e\<in>set es. sysctl_write e = Some (path, v))"
| "writes_from es _ \<longleftrightarrow> True"

lemma appends_writes:
  "appends (writes_from es) tr (mask_paths ans ps tr)"
  "appends (writes_from es) tr (readonly_paths ans ps tr)"
  "appends (writes_from es) tr (apply_mounts ms tr)"
  "appends (writes_from es) tr (apply_default_devices ms tr)"
  "appends (writes_from es) tr (apply_limits ctx tr)"
proof -
  show "appends (writes_from es) tr (mask_paths ans ps tr)"
  proof (induction ps arbitrary: tr)
    case (Cons p ps)
    then show ?case
      by (auto simp: Let_def intro!: appends_add_trans [OF _ Cons.IH])
  qed simp
  show "appends (writes_from es) tr (readonly_paths ans ps tr)"
  proof (induction ps arbitrary: tr)
    case (Cons p ps)
    then show ?case
      by (auto simp: Let_def intro!: appends_add_trans [OF _ Cons.IH])
  qed simp
  show "appends (writes_from es) tr (apply_mounts ms tr)"
  proof (induction ms arbitrary: tr)
    case (Cons m ms)
    have "list_all (writes_from es) (mount_calls m)"
      by (simp add: mount_calls_def Let_def)
    then show ?case using Cons by (auto intro: appends_add_trans)
  qed simp
  show "appends (writes_from es) tr (apply_default_devices ms tr)"
    unfolding apply_default_devices_def
    by (auto intro!: appends_add simp: list_all_iff)
  show "appends (writes_from es) tr (apply_limits ctx tr)"
    unfolding apply_limits_def
    by (rule appends_add) (auto simp: list_all_iff split: option.splits)
qed

lemma appends_writes_sysctls:
  "set es \<subseteq> set all \<Longrightarrow> appends (writes_from all) tr (apply_sysctls es tr)"
proof (induction es arbitrary: tr)
  case (Cons e es)
  then show ?case
    by (auto intro!: appends_add_trans [OF _ Cons.IH] split: option.split)
qed simp

lemma after_setup_writes: "list_all (writes_from (cx_sysctls ctx)) (after_setup ans ctx)"
proof -
  let ?W = "writes_from (cx_sysctls ctx)" and ?t = "before_chroot ctx @ [chroot_call ctx]"
  have start: "list_all ?W ?t"
    by (simp add: before_chroot_def set_hostname_def chroot_call_def make_private_def
        bind_rootfs_def)
  have "appends ?W ?t (?t @ [make_private])"
    by (rule appends_add) (simp add: make_private_def)
  moreover have "appends ?W tr (apply_path_confinement ans ms ro tr)" for ms ro tr
    unfolding apply_path_confinement_def by (rule appends_trans [OF appends_writes(1,2)])
  ultimately have "appends ?W ?t (after_setup ans ctx)"
    unfolding after_setup_def setup_filesystem_def Let_def
    by (meson appends_trans appends_writes(3-5) appends_writes_sysctls subset_refl)
  then show ?thesis using start by (auto simp: appends_def)
qed

lemma entry_writes:
  assumes "container_entry ans load ctx = Some r" "HWriteFile path v \<in> set (trace_of r)"
  shows "\<exists>e\<in>set (cx_sysctls ctx). sysctl_write e = Some (path, v)"
proof -
  obtain doomed where r: "r = entry_after_gate ans doomed ctx"
    using assms(1) by (blast elim: entry_of_container)
  have all: "list_all (writes_from (cx_sysctls ctx)) (with_seal ans ctx)"
    "list_all (writes_from (cx_sysctls ctx)) (before_chroot ctx)"
    using after_setup_writes [of ctx ans]
    by (simp_all add: with_seal_def seal_call_def before_chroot_def
        set_hostname_def make_private_def bind_rootfs_def)
  have hit: ?thesis if "HWriteFile path v \<in> set tr" "list_all (writes_from (cx_sysctls ctx)) tr" for tr
  proof -
    have "writes_from (cx_sysctls ctx) (HWriteFile path v)" using that unfolding list_all_iff by blast
    then show ?thesis by simp
  qed
  have calls: "writes_from es (creds_call ctx)" "writes_from es (exec_call ctx)"
      "writes_from es (chroot_call ctx)" "writes_from es (HExit n)" for es n
    by (simp_all add: creds_call_def exec_call_def chroot_call_def Let_def)
  have "list_all (writes_from (cx_sysctls ctx)) (trace_of r)"
  proof (cases doomed)
    case True
    then show ?thesis by (simp add: r entry_after_gate_def exit_task_def calls)
  next
    case False
    show ?thesis
      using all calls after_setup_writes [of ctx ans]
      by (auto simp: r entry_stages [OF False] do_exec_eq Let_def set_hostname_def)
  qed
  then show ?thesis using hit assms(2) by blast
qed

section \<open>From the configuration to the files\<close>

lemma translated_canonical: "canonical_caps (translated bundle cfg)"
  by (simp add: canonical_caps_def translated_def build_spec_def caps_result_def Let_def
      split: option.split)

lemma accepted_required:
  assumes "config_to_spec bundle cfg = Ok s"
  shows "sp_rootfs s \<noteq> []" "sp_argv s \<noteq> []" "canonical_caps s" "checked_bounds s"
proof -
  have ok: "supported cfg" "s = translated bundle cfg" "checked_bounds s"
    using assms by (simp_all add: config_to_spec_Ok)
  then obtain p r where "oc_process cfg = Some p" "oc_root cfg = Some r" "pr_args p \<noteq> []"
      "rt_path r \<noteq> []"
    by (auto simp: supported_def split: option.splits)
  then show "sp_rootfs s \<noteq> []" "sp_argv s \<noteq> []"
    by (auto simp: ok(2) translated_def build_spec_def resolve_rootfs_def path_join_def)
  show "canonical_caps s" "checked_bounds s" using ok translated_canonical by simp_all
qed

text \<open>
  A helper that only records what its kernel-thread call is given: the context of the init task
  and the clone flags.
\<close>

definition recording :: "int \<Rightarrow> (container_ctx \<times> u64) list helper" where
  "recording pid = \<lparr>h_spawn = (\<lambda>ctx flags log. (pid, log @ [(ctx, flags)])),
     h_kill = (\<lambda>_ _ log. (0, log)), h_task_exit_status = (\<lambda>_ log. ((1, 0), log)),
     h_watch_pid = (\<lambda>_ log. (0, log)), h_unwatch_pid = (\<lambda>_ log. log),
     h_get_exit_code = (\<lambda>_ log. ((0, 0), log))\<rparr>"

lemma spawn_recorded:
  assumes "spawn (recording pid) hostname rootfs argv envp flags paused caps nnp ro masked readonly
      rlimits oom uid gid mounts sysctls st = (Ok (i, p), st')"
  shows "\<exists>ctx. ks_os st' = ks_os st @ [(ctx, flags)] \<and> cx_sysctls ctx = sysctls"
  using assms by (auto simp: spawn_def recording_def new_gate_def Let_def split: if_splits)

lemma created_from_config:
  assumes "config_to_spec bundle cfg = Ok s" "wf_spec s" "entry_bounds s"
    and "encode s Create = Ok buf" "length buf \<le> K_MAX_SPEC"
  shows "create_from_blob h buf st =
    spawn h (if sp_hostname s \<noteq> [] then cstring (sp_hostname s) else cstring ''krunc'')
      (cstring (sp_rootfs s)) (kernel_strvec (sp_argv s)) (kernel_strvec (sp_env s))
      ((if sp_namespaces s \<noteq> 0 then ucast (sp_namespaces s) else ALL_NS) OR SIGCHLD) True
      (caps_of s) (sp_flags s AND OPT_NO_NEW_PRIVS \<noteq> 0) (sp_flags s AND OPT_ROOTFS_RO \<noteq> 0)
      (kernel_strvec (sp_masked_paths s)) (kernel_strvec (sp_readonly_paths s))
      (take K_MAX_RLIMITS (map kernel_rlimit (sp_rlimits s))) (sp_oom_score_adj s)
      (sp_uid s) (sp_gid s) (take K_MAX_MOUNTS (map kernel_mount (sp_mounts s)))
      (kernel_strvec (sp_sysctls s)) st"
proof -
  note req = accepted_required [OF assms(1)]
  have "decode buf = Ok (Create, s)"
    using assms req by (intro decode_encoded_fits) (simp_all add: fits_spec_def)
  then obtain d where "decode_spec buf = Ok d" "mirrors s d"
    using decode_simulated assms(5) by blast
  then show ?thesis using req(1,2) by (rule create_of_mirror)
qed

section \<open>Property\<close>

text \<open>
C1 (no configuration writes a sysctl of the host). Take any accepted configuration whose strings
are UTF-8 and within the entry bounds, encode it and create the container from the buffer. Then
every file the container's init task ever writes, whatever the kernel answers to its calls, is
\<open>/proc/sys/\<close> followed by a path that cannot leave that directory and that belongs to the network
or IPC namespace, and the task was cloned with the flags that give it its own; the value is one
line without a NUL.
\<close>

theorem config_writes_only_owned_sysctls:
  assumes "config_to_spec bundle cfg = Ok s" "wf_spec s" "entry_bounds s"
    and "encode s Create = Ok buf" "length buf \<le> K_MAX_SPEC"
    and "create_from_blob (recording pid) buf st = (Ok (i, p), st')"
  shows "\<exists>ctx flags. ks_os st' = ks_os st @ [(ctx, flags)] \<and>
    (\<forall>ans load r path v. container_entry ans load ctx = Some r \<longrightarrow>
       HWriteFile path v \<in> set (trace_of r) \<longrightarrow>
       flags = ucast (sp_namespaces s) OR SIGCHLD \<and>
       (\<exists>rel w. path = as_bytes (''/proc/sys/'' @ rel) \<and> sysctl_confined (sp_namespaces s) rel
          \<and> v = as_bytes w \<and> sysctl_value_ok w))"
proof -
  let ?flags = "(if sp_namespaces s \<noteq> 0 then ucast (sp_namespaces s) else ALL_NS) OR SIGCHLD"
  obtain ctx where ctx: "ks_os st' = ks_os st @ [(ctx, ?flags)]"
      "cx_sysctls ctx = kernel_strvec (sp_sysctls s)"
    using assms(6) unfolding created_from_config [OF assms(1-5)]
    by (auto dest!: spawn_recorded)
  have "?flags = ucast (sp_namespaces s) OR SIGCHLD \<and>
       (\<exists>rel w. path = as_bytes (''/proc/sys/'' @ rel) \<and> sysctl_confined (sp_namespaces s) rel
          \<and> v = as_bytes w \<and> sysctl_value_ok w)"
    if run: "container_entry ans load ctx = Some r" "HWriteFile path v \<in> set (trace_of r)"
    for ans load r path v
  proof -
    obtain e where e: "e \<in> set (kernel_strvec (sp_sysctls s))" "sysctl_write e = Some (path, v)"
      using entry_writes [OF run] ctx(2) by auto
    then obtain line where line: "line \<in> set (sp_sysctls s)" "e = cstring line"
      using in_set_takeD by (fastforce simp: kernel_strvec_def)
    obtain rel w where w: "line = rel @ ''='' @ w" "sysctl_confined (sp_namespaces s) rel"
        "sysctl_value_ok w"
      using accepted_sysctls [OF assms(1) line(1)] .
    then have "path = as_bytes (''/proc/sys/'' @ rel)" "v = as_bytes w"
      using e(2) line(2) sysctl_write_line [of rel w] by (simp_all add: sysctl_confined_def)
    moreover have "sp_namespaces s \<noteq> 0" using w(2) by (auto simp: sysctl_confined_def)
    ultimately show ?thesis using w by auto
  qed
  then show ?thesis using ctx(1) by blast
qed

text \<open>A configuration with one network sysctl.\<close>

definition net_config :: oci_config where
  "net_config = \<lparr>oc_hostname = None,
     oc_process = Some \<lparr>pr_terminal = False, pr_args = [''/i''], pr_env = [], pr_cwd = None,
       pr_user = None, pr_capabilities = None, pr_no_new_privileges = False, pr_rlimits = [],
       pr_oom_score_adj = None, pr_extra = []\<rparr>,
     oc_root = Some \<lparr>rt_path = ''/r'', rt_readonly = False\<rparr>,
     oc_linux = Some \<lparr>lx_namespaces = [\<lparr>on_ns_type = ''network'', on_path = None\<rparr>],
       lx_uid_mappings = [], lx_gid_mappings = [], lx_resources = None, lx_cgroups_path = None,
       lx_masked_paths = [], lx_readonly_paths = [], lx_sysctl = [(''net.a'', ''1'')],
       lx_extra = []\<rparr>,
     oc_mounts = [], oc_annotations = [], oc_extra = []\<rparr>"

definition net_spec :: domain_spec where
  "net_spec = default_spec\<lparr>sp_rootfs := ''/r'', sp_argv := [''/i''], sp_namespaces := NS_NET,
     sp_sysctls := [''net/a=1'']\<rparr>"

lemma net_union: "ns_union [''network''] = NS_NET"
  by (simp add: ns_union_def ns_bit_def ns_flag_def)

lemma net_accepted: "config_to_spec ''/b'' net_config = Ok net_spec"
proof -
  have "supported net_config"
    by (simp add: supported_def net_config_def linux_supported_def net_union ns_defs
        ns_supported_def sysctl_ok_def sysctl_namespaced_def starts_with_def sysctl_name_ok_def
        dots_to_slashes_def is_ascii_alphanumeric_def sysctl_value_ok_def Let_def)
  moreover have "translated ''/b'' net_config = net_spec"
    by (simp add: net_config_def net_spec_def translated_def build_spec_def default_spec_def
        resolve_rootfs_def is_absolute_def linux_result_def net_union option_flags_def
        caps_result_def user_uid_def user_gid_def sysctl_line_def dots_to_slashes_def Let_def)
  moreover have "checked_bounds net_spec"
    by (simp add: checked_bounds_def net_spec_def default_spec_def abi_max_defs)
  ultimately show ?thesis by (simp add: config_to_spec_Ok)
qed

lemma net_fits: "wf_spec net_spec" "entry_bounds net_spec"
  by (simp_all add: wf_spec_def entry_bounds_def net_spec_def default_spec_def wf_str_ascii
      abi_max_defs)

theorem config_writes_only_owned_sysctls_witness:
  "\<exists>buf st' ctx flags. encode net_spec Create = Ok buf
     \<and> create_from_blob (recording 7) buf (kstate_init []) = (Ok (1, 7), st')
     \<and> ks_os st' = [(ctx, flags)]"
proof -
  define buf where "buf = wire (op_code Create) (spec_sections net_spec)"
  have len: "length buf \<le> K_MAX_SPEC"
    by (simp add: buf_def spec_sections_def opt_section_def net_spec_def default_spec_def
        write_strvec_def K_MAX_SPEC_def)
  have enc: "encode net_spec Create = Ok buf"
    using accepted_required(4) [OF net_accepted] net_fits len
    by (simp add: encode_Ok_iff buf_def K_MAX_SPEC_def MAX_SPEC_def)
  note created = created_from_config [OF net_accepted net_fits enc len]
  obtain st' where st': "create_from_blob (recording 7) buf (kstate_init []) = (Ok (1, 7), st')"
    unfolding created by (simp add: spawn_def Let_def new_gate_def recording_def kstate_init_def)
  from config_writes_only_owned_sysctls [OF net_accepted net_fits enc len st'] show ?thesis
    using enc st' by (auto simp: kstate_init_def)
qed

end
