(* ===== verification/Creds_Pipeline.thy ===== *)
theory Creds_Pipeline
  imports Helper_Creds Sysctl_Pipeline
begin

text \<open>
  From \<open>process.user\<close> and \<open>process.capabilities\<close> of a configuration to the credentials the program
  of the container runs with: translation, encoding, the kernel's parser, the init task and the
  helper composed.
\<close>

lemma spawn_context:
  assumes "spawn (recording pid) hostname rootfs argv envp flags paused caps nnp ro masked readonly
      rlimits oom uid gid mounts sysctls st = (Ok (i, p), st')"
    "ks_os st' = ks_os st @ [(ctx, flags')]"
  shows "cx_cap_sets ctx = caps \<and> cx_no_new_privs ctx = nnp \<and> cx_uid ctx = uid \<and> cx_gid ctx = gid
    \<and> cx_argv ctx = argv"
  using assms by (auto simp: spawn_def recording_def new_gate_def Let_def split: if_splits)

lemma no_creds_before:
  "list_all (\<lambda>c. \<forall>bset eff perm inh amb uid gid nnp present.
     c \<noteq> HApplyCreds bset eff perm inh amb uid gid nnp present) (with_seal ans ctx)"
proof -
  obtain ys where s: "after_setup ans ctx = before_chroot ctx @ chroot_call ctx # ys" "list_all setup_call ys"
    by (rule after_setup_split)
  have "c \<noteq> HApplyCreds b e q i a u g n r" if "c \<in> set (with_seal ans ctx)" for c b e q i a u g n r
    using that s before_chroot_calls [of c ctx]
    by (auto simp: with_seal_def chroot_call_def seal_call_def make_private_def bind_rootfs_def
        list_all_iff split: if_splits)
  then show ?thesis by (simp add: list_all_iff)
qed

section \<open>What the program has\<close>

definition names_exactly :: "string list \<Rightarrow> u64 \<Rightarrow> bool" where
  "names_exactly names m \<longleftrightarrow> (\<forall>i. bit m i \<longleftrightarrow> (\<exists>n\<in>set names. (n, i) \<in> set CAPS))"

definition has_caps :: "capabilities \<Rightarrow> cred \<Rightarrow> bool" where
  "has_caps c cr \<longleftrightarrow> names_exactly (cp_bounding c) (cr_bset cr)
     \<and> names_exactly (cp_effective c) (cr_effective cr) \<and> names_exactly (cp_permitted c) (cr_permitted cr)
     \<and> names_exactly (cp_inheritable c) (cr_inheritable cr) \<and> names_exactly (cp_ambient c) (cr_ambient cr)"

text \<open>The ids of \<open>process.user\<close> as the namespace maps them; those of \<open>before\<close> where it does not.\<close>

definition has_ids :: "kernel_env \<Rightarrow> process \<Rightarrow> cred \<Rightarrow> cred \<Rightarrow> bool" where
  "has_ids e p before cr \<longleftrightarrow>
     (case ke_make_kuid e (user_uid p) of
        Some k \<Rightarrow> cr_uid cr = k \<and> cr_euid cr = k \<and> cr_suid cr = k \<and> cr_fsuid cr = k \<and> cr_user cr = k
      | None \<Rightarrow> cr_uid cr = cr_uid before \<and> cr_euid cr = cr_euid before \<and> cr_suid cr = cr_suid before)
     \<and> (case ke_make_kgid e (user_gid p) of
        Some k \<Rightarrow> cr_gid cr = k \<and> cr_egid cr = k \<and> cr_sgid cr = k \<and> cr_fsgid cr = k
      | None \<Rightarrow> cr_gid cr = cr_gid before \<and> cr_egid cr = cr_egid before \<and> cr_sgid cr = cr_sgid before)"

lemma names_valid:
  assumes "list_all (\<lambda>n. cap_bit n \<noteq> None) names"
  shows "names_exactly names (cap_union names AND cap_valid)"
proof -
  have "i \<le> CAP_LAST_CAP" if "(n, i) \<in> set CAPS" for n i
    using cap_bit_small [of n i] that by (simp add: cap_bit_iff CAP_LAST_CAP_def)
  then show ?thesis
    unfolding names_exactly_def bit_cap_valid bit_cap_union_named [OF assms] by blast
qed

lemma creds_result:
  assumes "supported cfg" "oc_process cfg = Some pr" "cx_cap_sets ctx = caps_of (translated bundle cfg)"
    "cx_no_new_privs ctx = pr_no_new_privileges pr" "cx_uid ctx = user_uid pr" "cx_gid ctx = user_gid pr"
    "task_call e (creds_call ctx) t0 = (rc, t)"
  shows "tk_no_new_privs t = (tk_no_new_privs t0 \<or> pr_no_new_privileges pr)
    \<and> (case pr_capabilities pr of
         Some c \<Rightarrow> if rc = 0 then has_caps c (tk_cred t) \<and> has_ids e pr (tk_cred t0) (tk_cred t)
           else tk_cred t = tk_cred t0
       | None \<Rightarrow> rc = 0 \<and> tk_cred t = tk_cred t0)"
proof -
  obtain rt where rt: "oc_root cfg = Some rt"
    using assms(1,2) by (auto simp: supported_def split: option.splits)
  let ?m = "caps_result (pr_capabilities pr)"
  have call: "krunc_apply_creds (cm_bounding ?m) (cm_effective ?m) (cm_permitted ?m)
      (cm_inheritable ?m) (cm_ambient ?m) (user_uid pr) (user_gid pr) (pr_no_new_privileges pr)
      (pr_capabilities pr \<noteq> None) e t0 = (rc, t)"
    using assms(3-7)
    by (simp add: creds_call_def task_call_def caps_of_def translated_def build_spec_def assms(2) rt Let_def)
  show ?thesis
  proof (cases "pr_capabilities pr")
    case None
    then show ?thesis using call by (simp add: apply_creds_absent) auto
  next
    case (Some c)
    then have known: "caps_known c" using assms(1,2) rt by (simp add: supported_def)
    show ?thesis
    proof (cases "rc = 0")
      case True
      note t = apply_creds_zero [OF call [unfolded Some True, simplified]]
      have "has_caps c (tk_cred t)"
        using known by (simp add: t has_caps_def caps_known_def caps_result_def names_valid
            split: option.split)
      moreover have "has_ids e pr (tk_cred t0) (tk_cred t)"
        by (simp add: t has_ids_def split: option.split)
      ultimately show ?thesis using Some True by (simp add: t)
    next
      case False
      then have "t = t0\<lparr>tk_no_new_privs := tk_no_new_privs t0 \<or> pr_no_new_privileges pr\<rparr>"
        using apply_creds_refused [of "cm_bounding ?m" "cm_effective ?m" "cm_permitted ?m"
            "cm_inheritable ?m" "cm_ambient ?m" "user_uid pr" "user_gid pr" "pr_no_new_privileges pr"
            "pr_capabilities pr \<noteq> None" e t0] call by simp
      then show ?thesis using Some False by simp
    qed
  qed
qed

section \<open>Property\<close>

text \<open>
C4 (the credentials of the program). Take an accepted configuration within the entry bounds, encode
it, create the container and run its init task on any host task, with any answers of the
kernel. If it execs, the call right before the exec sets no-new-privs if the configuration asks for
it. With a \<open>capabilities\<close> object, when the kernel grants the call, each capability set holds exactly
the capabilities the configuration names, and the user and group ids are those the user namespace
gives for \<open>process.user\<close>; an id that it does not map stays as the host task had it, which is root.
Without the object, or when the call is refused, the program has the identity and capabilities of
the host task, whatever \<open>process.user\<close> says.
\<close>

theorem program_credentials:
  assumes "config_to_spec bundle cfg = Ok s" "wf_spec s" "entry_bounds s"
    and "encode s Create = Ok buf" "length buf \<le> K_MAX_SPEC"
    and "create_from_blob (recording pid) buf st = (Ok (i, p), st')"
    and "ks_os st' = ks_os st @ [(ctx, flags)]"
    and "container_entry ans load ctx = Some r" "HExecve f argv envp \<in> set (trace_of r)"
    and "oc_process cfg = Some pr"
  shows "\<exists>pre rest. trace_of r = pre @ creds_call ctx # HExecve f argv envp # rest \<and>
    (let t0 = task_after env [] pre host; e = env pre; (rc, t) = task_call e (creds_call ctx) t0 in
     tk_no_new_privs t = (tk_no_new_privs host \<or> pr_no_new_privileges pr)
     \<and> identity (tk_cred t0) = identity (tk_cred host)
     \<and> (case pr_capabilities pr of
          Some c \<Rightarrow> if rc = 0 then has_caps c (tk_cred t) \<and> has_ids e pr (tk_cred host) (tk_cred t)
            else identity (tk_cred t) = identity (tk_cred host)
        | None \<Rightarrow> rc = 0 \<and> identity (tk_cred t) = identity (tk_cred host)))"
proof -
  have ok: "supported cfg" "s = translated bundle cfg"
    using assms(1) by (simp_all add: config_to_spec_Ok)
  obtain rt where rt: "oc_root cfg = Some rt"
    using ok(1) assms(10) by (auto simp: supported_def split: option.splits)
  have "(sp_flags s AND OPT_NO_NEW_PRIVS \<noteq> 0) = pr_no_new_privileges pr"
    by (simp add: ok(2) translated_def build_spec_def assms(10) rt option_flags_def opt_defs Let_def)
  then have cx: "cx_cap_sets ctx = caps_of (translated bundle cfg)" "cx_no_new_privs ctx = pr_no_new_privileges pr"
      "cx_uid ctx = user_uid pr" "cx_gid ctx = user_gid pr"
    using spawn_context [OF assms(6) [unfolded created_from_config [OF assms(1-5)]] assms(7)]
    by (simp_all add: ok(2) translated_def build_spec_def assms(10) Let_def)
  obtain doomed where r: "r = entry_after_gate ans doomed ctx" using assms(8) by (rule entry_of_container)
  obtain rest where "HExecve f argv envp = exec_call ctx"
      "trace_of (entry_after_gate ans doomed ctx) = with_seal ans ctx @ [creds_call ctx, exec_call ctx] @ rest"
    by (rule exec_in_trace [OF assms(9) [unfolded r]])
  then have tr: "trace_of r = with_seal ans ctx @ creds_call ctx # HExecve f argv envp # rest"
    by (simp add: r)
  let ?t0 = "task_after env [] (with_seal ans ctx) host"
  obtain rc t where call: "task_call (env (with_seal ans ctx)) (creds_call ctx) ?t0 = (rc, t)" by fastforce
  have same: "identity (tk_cred ?t0) = identity (tk_cred host)" "tk_no_new_privs ?t0 = tk_no_new_privs host"
    using other_calls_after [OF no_creds_before] by simp_all
  then have ids: "has_ids e pr (tk_cred ?t0) cr \<longleftrightarrow> has_ids e pr (tk_cred host) cr" for e cr
    by (simp add: has_ids_def identity_def split: option.split)
  note res = creds_result [OF ok(1) assms(10) cx call]
  have nnp: "tk_no_new_privs t = (tk_no_new_privs host \<or> pr_no_new_privileges pr)"
    using res same(2) by simp
  have creds: "case pr_capabilities pr of
      Some c \<Rightarrow> if rc = 0 then has_caps c (tk_cred t) \<and> has_ids (env (with_seal ans ctx)) pr (tk_cred host) (tk_cred t)
        else identity (tk_cred t) = identity (tk_cred host)
    | None \<Rightarrow> rc = 0 \<and> identity (tk_cred t) = identity (tk_cred host)"
    using res same(1) ids by (cases "pr_capabilities pr") (simp_all split: if_splits)
  show ?thesis
    by (rule exI [of _ "with_seal ans ctx"], rule exI [of _ rest], rule conjI [OF tr])
       (simp only: Let_def call prod.case nnp same creds simp_thms)
qed

text \<open>When every call succeeds and the gate says start, the task execs.\<close>

lemma exec_reached:
  assumes "cx_argv ctx \<noteq> []"
  shows "container_entry (\<lambda>_ _. 0) (\<lambda>_. ACT_START) ctx = Some (entry_after_gate (\<lambda>_ _. 0) False ctx)"
    and "exec_call ctx \<in> set (trace_of (entry_after_gate (\<lambda>_ _. 0) False ctx))"
proof -
  have "gate_poll (\<lambda>_. ACT_START) 0 = Some False"
    by (subst gate_poll.simps) (simp add: act_defs)
  then show "container_entry (\<lambda>_ _. 0) (\<lambda>_. ACT_START) ctx = Some (entry_after_gate (\<lambda>_ _. 0) False ctx)"
    by (simp add: container_entry_def split: option.split)
  have "setup_succeeds (\<lambda>_ _. 0) ctx" using assms by (simp add: setup_succeeds_def)
  then show "exec_call ctx \<in> set (trace_of (entry_after_gate (\<lambda>_ _. 0) False ctx))"
    by (cases rule: entry_cases [where ans = "\<lambda>_ _. 0" and doomed = False and ctx = ctx]) simp_all
qed

text \<open>The demonstration configuration, on a host task of root, in a namespace that maps 1000 to 101000.\<close>

definition root_task :: task where
  "root_task = \<lparr>tk_cred = \<lparr>cr_uid = 0, cr_euid = 0, cr_suid = 0, cr_fsuid = 0, cr_gid = 0, cr_egid = 0,
       cr_sgid = 0, cr_fsgid = 0, cr_bset = cap_valid, cr_effective = cap_valid,
       cr_permitted = cap_valid, cr_inheritable = 0, cr_ambient = 0, cr_user = 0\<rparr>,
     tk_no_new_privs = False, tk_rlim = (\<lambda>_. (RLIM_INFINITY, RLIM_INFINITY)),
     tk_oom_score_adj = 0, tk_oom_score_adj_min = 0, tk_nodename = replicate (NEW_UTS_LEN + 1) 0\<rparr>"

definition mapping_env :: kernel_env where
  "mapping_env = \<lparr>ke_prepare = True, ke_alloc_uid = (\<lambda>_. True), ke_ucounts = (\<lambda>_. True),
     ke_make_kuid = (\<lambda>i. if i < 65536 then Some (i + 100000) else None),
     ke_make_kgid = (\<lambda>i. if i < 65536 then Some (i + 100000) else None)\<rparr>"

lemma demo_fits:
  "wf_spec (translated ''/b'' demo_config)" "entry_bounds (translated ''/b'' demo_config)"
  "\<exists>buf. encode (translated ''/b'' demo_config) Create = Ok buf \<and> length buf \<le> K_MAX_SPEC"
proof -
  have sp: "translated ''/b'' demo_config = default_spec\<lparr>sp_rootfs := ''/b/rootfs'', sp_hostname := ''web'',
      sp_argv := [''/init''], sp_env := [''A=b''], sp_namespaces := 0x40020000, sp_flags := 3,
      sp_caps_present := True, sp_cap_bounding := cap_union [''CAP_KILL'', ''CAP_BPF''],
      sp_cap_effective := cap_union [''CAP_KILL''], sp_cap_permitted := cap_union [''CAP_KILL''],
      sp_masked_paths := [''/proc/kcore''], sp_uid := 1000, sp_gid := 1000,
      sp_mounts := [mount_result \<lparr>om_destination = ''/tmp'', om_mount_type = ''tmpfs'',
        om_source = ''tmpfs'', om_options = [''ro'', ''nosuid'', ''rw'']\<rparr>],
      sp_sysctls := [''net/a=0'', ''net/b=1'']\<rparr>"
    by (simp add: translated_def build_spec_def demo_config_def default_spec_def linux_result_def
        demo_namespaces caps_result_def cap_union_def option_flags_def opt_defs resolve_rootfs_def
        is_absolute_def path_join_def user_uid_def user_gid_def sysctl_line_def dots_to_slashes_def Let_def)
  show wf: "wf_spec (translated ''/b'' demo_config)" "entry_bounds (translated ''/b'' demo_config)"
    unfolding sp by (simp_all add: wf_spec_def entry_bounds_def default_spec_def wf_str_ascii
        abi_max_defs mount_result_def wf_mount_def short_mount_def)
  define buf where "buf = wire (op_code Create) (spec_sections (translated ''/b'' demo_config))"
  have len: "length buf \<le> K_MAX_SPEC"
    unfolding buf_def sp by (simp add: spec_sections_def opt_section_def default_spec_def
        write_strvec_def write_mounts_def write_str_def K_MAX_SPEC_def mount_result_def)
  have "checked_bounds (translated ''/b'' demo_config)" using demo_accepted by (simp add: config_to_spec_Ok)
  then show "\<exists>buf. encode (translated ''/b'' demo_config) Create = Ok buf \<and> length buf \<le> K_MAX_SPEC"
    using wf len by (simp add: encode_Ok_iff buf_def K_MAX_SPEC_def MAX_SPEC_def)
qed

theorem program_credentials_witness:
  "\<exists>ctx pre rest. trace_of (entry_after_gate (\<lambda>_ _. 0) False ctx) = pre @ creds_call ctx # exec_call ctx # rest
     \<and> cr_uid (tk_cred (snd (task_call mapping_env (creds_call ctx)
          (task_after (\<lambda>_. mapping_env) [] pre root_task)))) = 101000"
proof -
  obtain buf where buf: "encode (translated ''/b'' demo_config) Create = Ok buf" "length buf \<le> K_MAX_SPEC"
    using demo_fits(3) by blast
  note created = created_from_config [OF demo_accepted demo_fits(1,2) buf]
  obtain st' ctx flags where st': "create_from_blob (recording 7) buf (kstate_init []) = (Ok (1, 7), st')"
      "ks_os st' = [(ctx, flags)]"
    unfolding created by (simp add: spawn_def Let_def new_gate_def recording_def kstate_init_def)
  have os: "ks_os st' = ks_os (kstate_init []) @ [(ctx, flags)]" using st'(2) by (simp add: kstate_init_def)
  have cx: "cx_argv ctx = kernel_strvec (sp_argv (translated ''/b'' demo_config))"
      "cx_uid ctx = 1000" "cx_cap_sets ctx = caps_of (translated ''/b'' demo_config)"
    using spawn_context [OF st'(1) [unfolded created] os]
    by (simp_all add: translated_def build_spec_def demo_config_def user_uid_def Let_def)
  have "sp_argv (translated ''/b'' demo_config) = [''/init'']"
    by (simp add: translated_def build_spec_def demo_config_def Let_def)
  then have "cx_argv ctx \<noteq> []" by (simp add: cx(1) kernel_strvec_def K_MAX_ARGS_def)
  note run = exec_reached [OF this]
  obtain f argv envp where e: "exec_call ctx = HExecve f argv envp" by (simp add: exec_call_def Let_def)
  obtain pr where pr: "oc_process demo_config = Some pr" by (simp add: demo_config_def)
  have u: "user_uid pr = 1000" "pr_capabilities pr \<noteq> None"
    using pr by (auto simp: demo_config_def user_uid_def)
  have g: "fst (task_call mapping_env (creds_call ctx) t) = 0" for t
    using apply_creds_granted [of mapping_env "cx_uid ctx"]
    by (simp add: task_call_def creds_call_def cx(2) creds_granted_def mapping_env_def Let_def)
  obtain c where c: "pr_capabilities pr = Some c" using u(2) by blast
  have "\<exists>pre rest. trace_of (entry_after_gate (\<lambda>_ _. 0) False ctx) =
        pre @ creds_call ctx # HExecve f argv envp # rest
      \<and> has_ids mapping_env pr (tk_cred root_task) (tk_cred (snd
          (task_call mapping_env (creds_call ctx) (task_after (\<lambda>_. mapping_env) [] pre root_task))))"
    using program_credentials [OF demo_accepted demo_fits(1,2) buf st'(1) os run(1)
      run(2) [unfolded e] pr, where env = "\<lambda>_. mapping_env" and host = root_task]
    by (elim ex_forward conj_forward) (simp_all add: c g Let_def split_def)
  then obtain pre rest where *: "trace_of (entry_after_gate (\<lambda>_ _. 0) False ctx) =
        pre @ creds_call ctx # exec_call ctx # rest"
      "has_ids mapping_env pr (tk_cred root_task) (tk_cred (snd
          (task_call mapping_env (creds_call ctx) (task_after (\<lambda>_. mapping_env) [] pre root_task))))"
    unfolding e by blast
  have "cr_uid (tk_cred (snd (task_call mapping_env (creds_call ctx)
      (task_after (\<lambda>_. mapping_env) [] pre root_task)))) = 101000"
    using *(2) u(1) by (simp add: has_ids_def mapping_env_def)
  then show ?thesis using *(1) by blast
qed

end
