(* ===== verification/Helper_Watch.thy ===== *)
theory Helper_Watch
  imports Kernel_Lifecycle
begin

text \<open>
  \<open>module/krunc_helper.c\<close>, the capture of exit codes: a table of 64 entries that \<open>spawn\<close> and
  \<open>delete\<close> of the registry fill and empty, and that the probe on \<open>do_exit\<close> writes the status word
  of an ending task to. Every function holds the lock of the table, so each is one step. A pid is
  an \<open>int\<close>, as in the registry.
\<close>

section \<open>The table\<close>

definition KRUNC_MAX_WATCH :: nat where "KRUNC_MAX_WATCH = 64"
definition ENOSPC_nr :: int where "ENOSPC_nr = 28"

record watch_entry =
  we_pid :: int
  we_code :: int
  we_in_use :: bool
  we_exited :: bool

record watch_table =
  wt_slots :: "watch_entry list"
  wt_num :: int

definition watch_init :: watch_table where
  "watch_init = \<lparr>wt_slots = replicate KRUNC_MAX_WATCH
     \<lparr>we_pid = 0, we_code = 0, we_in_use = False, we_exited = False\<rparr>, wt_num = 0\<rparr>"

definition krunc_watch_pid :: "int \<Rightarrow> watch_table \<Rightarrow> int \<times> watch_table" where
  "krunc_watch_pid nr t =
     (case position (\<lambda>e. \<not> we_in_use e) (wt_slots t) of
        Some slot \<Rightarrow>
          (0, \<lparr>wt_slots = (wt_slots t)[slot :=
                 \<lparr>we_pid = nr, we_code = 0, we_in_use = True, we_exited = False\<rparr>],
               wt_num = wt_num t + 1\<rparr>)
      | None \<Rightarrow> (- ENOSPC_nr, t))"

fun unwatch_loop :: "int \<Rightarrow> watch_entry list \<Rightarrow> int \<Rightarrow> watch_entry list \<times> int" where
  "unwatch_loop nr [] num = ([], num)"
| "unwatch_loop nr (e # es) num =
     (let (e, num) = (if we_in_use e \<and> we_pid e = nr then (e\<lparr>we_in_use := False\<rparr>, num - 1) else (e, num));
          (es, num) = unwatch_loop nr es num in
      (e # es, num))"

definition krunc_unwatch_pid :: "int \<Rightarrow> watch_table \<Rightarrow> watch_table" where
  "krunc_unwatch_pid nr t =
     (let (es, num) = unwatch_loop nr (wt_slots t) (wt_num t) in \<lparr>wt_slots = es, wt_num = num\<rparr>)"

text \<open>The result and, when it is 1, the word stored through the pointer.\<close>

definition krunc_get_exit_code :: "int \<Rightarrow> watch_table \<Rightarrow> int \<times> int option" where
  "krunc_get_exit_code nr t =
     (case position (\<lambda>e. we_in_use e \<and> we_pid e = nr \<and> we_exited e) (wt_slots t) of
        Some i \<Rightarrow> (1, Some (we_code (wt_slots t ! i)))
      | None \<Rightarrow> (0, None))"

text \<open>The probe: the task \<open>nr\<close> calls \<open>do_exit(code)\<close>; the entry keeps the low 32 bits.\<close>

definition krunc_do_exit_pre :: "int \<Rightarrow> 64 word \<Rightarrow> watch_table \<Rightarrow> watch_table" where
  "krunc_do_exit_pre nr code t =
     (if wt_num t = 0 then t
      else (case position (\<lambda>e. we_in_use e \<and> we_pid e = nr \<and> \<not> we_exited e) (wt_slots t) of
              Some i \<Rightarrow> t\<lparr>wt_slots := (wt_slots t)[i := (wt_slots t ! i)
                          \<lparr>we_code := sint (ucast code :: 32 word), we_exited := True\<rparr>]\<rparr>
            | None \<Rightarrow> t))"

section \<open>The contract\<close>

text \<open>
  What a client sees of a table: for each pid the entries in use, in the order of their slots, each
  with no code yet or the code of an end. A pid may be watched any number of times; the table
  chooses where the new entry goes, an end fills the first open entry and the first code is read.
\<close>

fun fill_first :: "'c \<Rightarrow> 'c option list \<Rightarrow> 'c option list" where
  "fill_first c [] = []"
| "fill_first c (None # es) = Some c # es"
| "fill_first c (Some d # es) = Some d # fill_first c es"

fun first_code :: "'c option list \<Rightarrow> 'c option" where
  "first_code [] = None"
| "first_code (None # es) = first_code es"
| "first_code (Some d # es) = Some d"

definition one_more :: "'c option list \<Rightarrow> 'c option list \<Rightarrow> bool" where
  "one_more es es' \<longleftrightarrow> (\<exists>xs ys. es = xs @ ys \<and> es' = xs @ None # ys)"

lemma first_code_open: "list_all (\<lambda>c. c = None) es \<Longrightarrow> first_code es = None"
  by (induction es) auto

lemma fill_first_open: "list_all (\<lambda>c. c = None) es \<Longrightarrow> es \<noteq> [] \<Longrightarrow> fill_first c es = Some c # tl es"
  by (cases es) auto

lemma one_more_open: "one_more es es' \<Longrightarrow> list_all (\<lambda>c. c = None) es \<Longrightarrow>
    es' \<noteq> [] \<and> list_all (\<lambda>c. c = None) es'"
  by (auto simp: one_more_def)

locale exit_watch =
  fixes watch :: "int \<Rightarrow> 't \<Rightarrow> int \<times> 't"
    and unwatch :: "int \<Rightarrow> 't \<Rightarrow> 't"
    and get :: "int \<Rightarrow> 't \<Rightarrow> int \<times> int option"
    and ended :: "int \<Rightarrow> 64 word \<Rightarrow> 't \<Rightarrow> 't"
    and inv :: "'t \<Rightarrow> bool"
    and view :: "'t \<Rightarrow> int \<Rightarrow> int option list"
  assumes watch_inv: "inv t \<Longrightarrow> inv (snd (watch p t))"
    and watch_view: "fst (watch p t) = 0 \<Longrightarrow> one_more (view t p) (view (snd (watch p t)) p)"
    and watch_full: "fst (watch p t) \<noteq> 0 \<Longrightarrow> snd (watch p t) = t"
    and watch_other: "q \<noteq> p \<Longrightarrow> view (snd (watch p t)) q = view t q"
    and unwatch_inv: "inv t \<Longrightarrow> inv (unwatch p t)"
    and unwatch_view: "view (unwatch p t) = (view t)(p := [])"
    and ended_inv: "inv t \<Longrightarrow> inv (ended p c t)"
    and ended_view: "inv t \<Longrightarrow> view (ended p c t) =
      (view t)(p := fill_first (sint (ucast c :: 32 word)) (view t p))"
    and get_view: "get p t = (case first_code (view t p) of Some c \<Rightarrow> (1, Some c) | None \<Rightarrow> (0, None))"

datatype watch_event = Watch int | Unwatch int | Ended int "64 word"

text \<open>What may happen while \<open>p\<close> stays watched: anything but watching or unwatching it.\<close>

fun about_others :: "int \<Rightarrow> watch_event \<Rightarrow> bool" where
  "about_others p (Watch q) = (q \<noteq> p)"
| "about_others p (Unwatch q) = (q \<noteq> p)"
| "about_others p (Ended q c) = True"

context exit_watch begin

fun happens :: "watch_event \<Rightarrow> 't \<Rightarrow> 't" where
  "happens (Watch q) t = snd (watch q t)"
| "happens (Unwatch q) t = unwatch q t"
| "happens (Ended q c) t = ended q c t"

lemma happens_inv: "inv t \<Longrightarrow> inv (happens ev t)"
  by (cases ev) (simp_all add: watch_inv unwatch_inv ended_inv)

lemma code_kept:
  assumes "inv t" "view t p = Some c # es" "list_all (about_others p) evs"
  shows "get p (fold happens evs t) = (1, Some c)"
proof -
  have "\<exists>es. view (fold happens evs t) p = Some c # es"
    using assms
  proof (induction evs arbitrary: t es)
    case (Cons ev evs)
    have "\<exists>es. view (happens ev t) p = Some c # es"
      using Cons.prems by (cases ev) (auto simp: watch_other unwatch_view ended_view)
    then show ?case using Cons by (auto simp: happens_inv)
  qed simp
  then show ?thesis by (auto simp: get_view)
qed

text \<open>
  The first code after a pid is watched is what is reported, whatever happens to other pids before
  and after it, and whether or not the pid had entries of its own that no end had filled.
\<close>

lemma first_code_reported:
  assumes "inv t" "list_all (\<lambda>c. c = None) (view t p)" "fst (watch p t) = 0"
    "list_all (about_others p) before" "list_all (\<lambda>ev. \<forall>c. ev \<noteq> Ended p c) before"
    "list_all (about_others p) after"
  shows "get p (fold happens (before @ Ended p c # after) (snd (watch p t))) =
    (1, Some (sint (ucast c :: 32 word)))"
proof -
  let ?t = "fold happens before (snd (watch p t))"
  have "inv (snd (watch p t))" "view (snd (watch p t)) p \<noteq> []"
      "list_all (\<lambda>c. c = None) (view (snd (watch p t)) p)"
    using assms(1) one_more_open [OF watch_view [OF assms(3)] assms(2)] by (simp_all add: watch_inv)
  then have "inv ?t \<and> view ?t p \<noteq> [] \<and> list_all (\<lambda>c. c = None) (view ?t p)"
    using assms(4,5)
  proof (induction before arbitrary: t rule: rev_induct)
    case (snoc ev evs)
    then have *: "inv (fold happens evs (snd (watch p t)))"
        "view (fold happens evs (snd (watch p t))) p \<noteq> []"
        "list_all (\<lambda>c. c = None) (view (fold happens evs (snd (watch p t))) p)"
      by simp_all
    moreover have "view (happens ev (fold happens evs (snd (watch p t)))) p =
        view (fold happens evs (snd (watch p t))) p"
      using snoc.prems * by (cases ev) (auto simp: watch_other unwatch_view ended_view)
    ultimately show ?case by (simp add: happens_inv)
  qed simp
  then have "inv (ended p c ?t)"
      "view (ended p c ?t) p = Some (sint (ucast c :: 32 word)) # tl (view ?t p)"
    by (simp_all add: ended_inv ended_view fill_first_open)
  from code_kept [OF this assms(6)] show ?thesis by simp
qed

end

section \<open>The table keeps the contract\<close>

definition used :: "watch_table \<Rightarrow> watch_entry list" where
  "used t = filter we_in_use (wt_slots t)"

definition watch_ok :: "watch_table \<Rightarrow> bool" where
  "watch_ok t \<longleftrightarrow> length (wt_slots t) = KRUNC_MAX_WATCH \<and> wt_num t = int (length (used t))"

definition entry_code :: "watch_entry \<Rightarrow> int option" where
  "entry_code e = (if we_exited e then Some (we_code e) else None)"

definition codes_of :: "int \<Rightarrow> watch_entry list \<Rightarrow> int option list" where
  "codes_of p es = map entry_code (filter (\<lambda>e. we_in_use e \<and> we_pid e = p) es)"

definition watch_view :: "watch_table \<Rightarrow> int \<Rightarrow> int option list" where
  "watch_view t p = codes_of p (wt_slots t)"

lemma codes_of_simps [simp]:
  "codes_of p [] = []"
  "codes_of p (e # es) = (if we_in_use e \<and> we_pid e = p then [entry_code e] else []) @ codes_of p es"
  by (simp_all add: codes_of_def)

lemma codes_of_append [simp]: "codes_of p (es @ fs) = codes_of p es @ codes_of p fs"
  by (simp add: codes_of_def)

lemma codes_of_slot: "i < length es \<Longrightarrow> codes_of p (es[i := e]) = codes_of p (take i es)
    @ (if we_in_use e \<and> we_pid e = p then [entry_code e] else []) @ codes_of p (drop (Suc i) es)"
  by (simp add: upd_conv_take_nth_drop)

lemma used_slot: "i < length es \<Longrightarrow> length (filter we_in_use (es[i := e])) + (if we_in_use (es ! i) then 1 else 0)
    = length (filter we_in_use es) + (if we_in_use e then 1 else 0)"
  by (subst (2) id_take_nth_drop [where xs = es and i = i]) (simp_all add: upd_conv_take_nth_drop)

lemma watch_slot:
  assumes "position (\<lambda>e. \<not> we_in_use e) (wt_slots t) = Some i"
  shows "krunc_watch_pid p t = (0, \<lparr>wt_slots = (wt_slots t)[i :=
        \<lparr>we_pid = p, we_code = 0, we_in_use = True, we_exited = False\<rparr>], wt_num = wt_num t + 1\<rparr>)"
    and "length (filter we_in_use ((wt_slots t)[i :=
        \<lparr>we_pid = p, we_code = 0, we_in_use = True, we_exited = False\<rparr>])) = length (used t) + 1"
    and "watch_view t q = codes_of q (take i (wt_slots t)) @ codes_of q (drop (Suc i) (wt_slots t))"
    and "codes_of q ((wt_slots t)[i := \<lparr>we_pid = p, we_code = 0, we_in_use = True, we_exited = False\<rparr>]) =
      codes_of q (take i (wt_slots t)) @ (if q = p then [None] else []) @ codes_of q (drop (Suc i) (wt_slots t))"
proof -
  have i: "i < length (wt_slots t)" "\<not> we_in_use (wt_slots t ! i)" using position_Some [OF assms] by blast+
  show "krunc_watch_pid p t = (0, \<lparr>wt_slots = (wt_slots t)[i :=
        \<lparr>we_pid = p, we_code = 0, we_in_use = True, we_exited = False\<rparr>], wt_num = wt_num t + 1\<rparr>)"
    by (simp add: krunc_watch_pid_def assms)
  show "length (filter we_in_use ((wt_slots t)[i :=
        \<lparr>we_pid = p, we_code = 0, we_in_use = True, we_exited = False\<rparr>])) = length (used t) + 1"
    using used_slot [OF i(1), of "\<lparr>we_pid = p, we_code = 0, we_in_use = True, we_exited = False\<rparr>"] i(2)
    by (simp add: used_def)
  show "watch_view t q = codes_of q (take i (wt_slots t)) @ codes_of q (drop (Suc i) (wt_slots t))"
    using codes_of_slot [OF i(1), of q "wt_slots t ! i"] i(2) by (simp add: watch_view_def)
  show "codes_of q ((wt_slots t)[i := \<lparr>we_pid = p, we_code = 0, we_in_use = True, we_exited = False\<rparr>]) =
      codes_of q (take i (wt_slots t)) @ (if q = p then [None] else []) @ codes_of q (drop (Suc i) (wt_slots t))"
    by (simp add: codes_of_slot [OF i(1)] entry_code_def)
qed

lemma watch_keeps:
  shows "watch_ok t \<Longrightarrow> watch_ok (snd (krunc_watch_pid p t))"
    and "fst (krunc_watch_pid p t) = 0 \<Longrightarrow> one_more (watch_view t p) (watch_view (snd (krunc_watch_pid p t)) p)"
    and "fst (krunc_watch_pid p t) \<noteq> 0 \<Longrightarrow> snd (krunc_watch_pid p t) = t"
    and "q \<noteq> p \<Longrightarrow> watch_view (snd (krunc_watch_pid p t)) q = watch_view t q"
proof -
  have full: "krunc_watch_pid p t = (- ENOSPC_nr, t)" if "position (\<lambda>e. \<not> we_in_use e) (wt_slots t) = None"
    using that by (simp add: krunc_watch_pid_def)
  consider "position (\<lambda>e. \<not> we_in_use e) (wt_slots t) = None"
    | i where "position (\<lambda>e. \<not> we_in_use e) (wt_slots t) = Some i" by fastforce
  note cases = this
  show "watch_ok t \<Longrightarrow> watch_ok (snd (krunc_watch_pid p t))"
    by (cases rule: cases) (simp_all add: full watch_ok_def, simp add: watch_slot used_def)
  show "fst (krunc_watch_pid p t) \<noteq> 0 \<Longrightarrow> snd (krunc_watch_pid p t) = t"
    by (cases rule: cases) (simp_all add: full watch_slot)
  show "fst (krunc_watch_pid p t) = 0 \<Longrightarrow> one_more (watch_view t p) (watch_view (snd (krunc_watch_pid p t)) p)"
  proof (cases rule: cases)
    case (2 i)
    have "watch_view (snd (krunc_watch_pid p t)) p =
        codes_of p (take i (wt_slots t)) @ None # codes_of p (drop (Suc i) (wt_slots t))"
      using watch_slot(4) [OF 2, of p p] by (simp add: watch_slot(1) [OF 2] watch_view_def)
    then show ?thesis using watch_slot(3) [OF 2] unfolding one_more_def by blast
  qed (simp add: full ENOSPC_nr_def)
  show "q \<noteq> p \<Longrightarrow> watch_view (snd (krunc_watch_pid p t)) q = watch_view t q"
  proof (cases rule: cases)
    case (2 i)
    assume "q \<noteq> p"
    then have "watch_view (snd (krunc_watch_pid p t)) q =
        codes_of q (take i (wt_slots t)) @ codes_of q (drop (Suc i) (wt_slots t))"
      using watch_slot(4) [OF 2, of q p] by (simp add: watch_slot(1) [OF 2] watch_view_def)
    then show ?thesis using watch_slot(3) [OF 2] by simp
  qed (simp add: full)
qed

lemma unwatch_loop_used:
  "filter we_in_use (fst (unwatch_loop nr es num)) = filter (\<lambda>e. we_pid e \<noteq> nr) (filter we_in_use es)"
  "length (fst (unwatch_loop nr es num)) = length es"
  "snd (unwatch_loop nr es num) = num - int (length (filter (\<lambda>e. we_pid e = nr) (filter we_in_use es)))"
  "codes_of p (fst (unwatch_loop nr es num)) = (if p = nr then [] else codes_of p es)"
  by (induction es arbitrary: num) (simp_all add: Let_def split_def entry_code_def)

lemma unwatch_keeps:
  shows "watch_ok t \<Longrightarrow> watch_ok (krunc_unwatch_pid p t)"
    and "watch_view (krunc_unwatch_pid p t) = (watch_view t)(p := [])"
proof -
  have "length (filter (\<lambda>e. we_pid e = p) (used t)) +
      length (filter (\<lambda>e. we_pid e \<noteq> p) (used t)) = length (used t)"
    by (rule sum_length_filter_compl)
  then show "watch_ok t \<Longrightarrow> watch_ok (krunc_unwatch_pid p t)"
    by (simp add: watch_ok_def used_def krunc_unwatch_pid_def split_def Let_def unwatch_loop_used del: filter_filter)
  show "watch_view (krunc_unwatch_pid p t) = (watch_view t)(p := [])"
    by (rule ext) (simp add: watch_view_def krunc_unwatch_pid_def split_def Let_def unwatch_loop_used)
qed

text \<open>The probe at the level of the slots.\<close>

lemma ended_slots:
  fixes c :: int
  defines "fill \<equiv> \<lambda>p es. case position (\<lambda>e. we_in_use e \<and> we_pid e = p \<and> \<not> we_exited e) es of
      Some i \<Rightarrow> es[i := (es ! i)\<lparr>we_code := c, we_exited := True\<rparr>] | None \<Rightarrow> es"
  shows "codes_of q (fill p es) = (if q = p then fill_first c (codes_of q es) else codes_of q es)"
    and "length (fill p es) = length es"
    and "length (filter we_in_use (fill p es)) = length (filter we_in_use es)"
  unfolding fill_def by (induction es) (auto simp: entry_code_def split: option.splits)

lemma ended_keeps:
  assumes "watch_ok t"
  shows "watch_ok (krunc_do_exit_pre p c t)"
    and "watch_view (krunc_do_exit_pre p c t) =
      (watch_view t)(p := fill_first (sint (ucast c :: 32 word)) (watch_view t p))"
proof -
  let ?c = "sint (ucast c :: 32 word)"
  have slots: "wt_slots (krunc_do_exit_pre p c t) =
      (case position (\<lambda>e. we_in_use e \<and> we_pid e = p \<and> \<not> we_exited e) (wt_slots t) of
        Some i \<Rightarrow> (wt_slots t)[i := (wt_slots t ! i)\<lparr>we_code := ?c, we_exited := True\<rparr>]
      | None \<Rightarrow> wt_slots t)" if "wt_num t \<noteq> 0"
    using that by (simp add: krunc_do_exit_pre_def split: option.splits)
  have num: "wt_num (krunc_do_exit_pre p c t) = wt_num t"
    by (simp add: krunc_do_exit_pre_def split: option.splits)
  show "watch_ok (krunc_do_exit_pre p c t)"
  proof (cases "wt_num t = 0")
    case True then show ?thesis using assms by (simp add: krunc_do_exit_pre_def)
  next
    case False
    then show ?thesis using assms by (simp add: watch_ok_def used_def slots num ended_slots)
  qed
  show "watch_view (krunc_do_exit_pre p c t) = (watch_view t)(p := fill_first ?c (watch_view t p))"
  proof (cases "wt_num t = 0")
    case True
    then have "filter we_in_use (wt_slots t) = []" using assms by (simp add: watch_ok_def used_def)
    then have "watch_view t q = []" for q
      by (auto simp: watch_view_def codes_of_def filter_empty_conv)
    then show ?thesis using True by (simp add: krunc_do_exit_pre_def fun_eq_iff)
  next
    case False
    show ?thesis by (rule ext) (simp add: watch_view_def slots [OF False] ended_slots)
  qed
qed

lemma get_viewed:
  "krunc_get_exit_code p t = (case first_code (watch_view t p) of Some c \<Rightarrow> (1, Some c) | None \<Rightarrow> (0, None))"
proof -
  have "first_code (codes_of p es) =
      map_option (\<lambda>i. we_code (es ! i)) (position (\<lambda>e. we_in_use e \<and> we_pid e = p \<and> we_exited e) es)" for es
    by (induction es) (auto simp: entry_code_def option.map_comp comp_def)
  then show ?thesis by (simp add: krunc_get_exit_code_def watch_view_def split: option.splits)
qed

text \<open>There is an entry for a new pid exactly when fewer than 64 are in use.\<close>

lemma watch_room:
  assumes "watch_ok t"
  shows "fst (krunc_watch_pid p t) = 0 \<longleftrightarrow> length (used t) < KRUNC_MAX_WATCH"
proof -
  have "position (\<lambda>e. \<not> we_in_use e) (wt_slots t) = None \<longleftrightarrow> used t = wt_slots t"
    unfolding position_None used_def by (auto simp: filter_id_conv)
  also have "\<dots> \<longleftrightarrow> length (used t) = length (wt_slots t)"
    unfolding used_def by (metis filter_True length_filter_less less_irrefl_nat)
  finally have "position (\<lambda>e. \<not> we_in_use e) (wt_slots t) = None \<longleftrightarrow> length (used t) = KRUNC_MAX_WATCH"
    using assms by (simp add: watch_ok_def)
  moreover have "length (used t) \<le> KRUNC_MAX_WATCH"
    using assms length_filter_le [of we_in_use "wt_slots t"] by (simp add: watch_ok_def used_def)
  ultimately show ?thesis
    by (cases "position (\<lambda>e. \<not> we_in_use e) (wt_slots t)")
       (auto simp: krunc_watch_pid_def ENOSPC_nr_def)
qed

lemma watch_init_ok: "watch_ok watch_init" "watch_view watch_init p = []"
  by (simp_all add: watch_ok_def watch_view_def codes_of_def used_def watch_init_def)

interpretation xw: exit_watch krunc_watch_pid krunc_unwatch_pid krunc_get_exit_code
  krunc_do_exit_pre watch_ok watch_view
  by unfold_locales (simp_all add: watch_keeps unwatch_keeps ended_keeps get_viewed)

end
