(* ===== verification/Helper_System.thy ===== *)
theory Helper_System
  imports Helper_Watch
begin

text \<open>
  \<open>module/krunc_helper.c\<close> below the registry of \<open>module/krunc.rs\<close>: the functions the registry
  calls, over a table of tasks of the kernel and the table of watched pids. The kernel's own
  functions (\<open>kernel_clone\<close>, \<open>kill_pid\<close>) are parameters.
\<close>

section \<open>The functions of the helper\<close>

text \<open>A task that can be found: whether it has ended, and its status word.\<close>

record 'k helper_os =
  hs_watch :: watch_table
  hs_tasks :: "int \<Rightarrow> (bool \<times> int) option"
  hs_kernel :: 'k

definition ESRCH_nr :: int where "ESRCH_nr = 3"

text \<open>\<open>kernel_clone\<close> gets the flags, the signal of the low byte and the context; \<open>kill_pid\<close> the pid and the signal.\<close>

record 'k kernel_calls =
  kc_clone :: "64 word \<Rightarrow> 64 word \<Rightarrow> container_ctx \<Rightarrow> 'k helper_os \<Rightarrow> int \<times> 'k helper_os"
  kc_kill_pid :: "int \<Rightarrow> int \<Rightarrow> 'k helper_os \<Rightarrow> int \<times> 'k helper_os"

definition CSIGNAL :: "64 word" where "CSIGNAL = 0xff"

definition krunc_spawn :: "'k kernel_calls \<Rightarrow> container_ctx \<Rightarrow> u64 \<Rightarrow> 'k helper_os \<Rightarrow> int \<times> 'k helper_os" where
  "krunc_spawn k arg flags os = kc_clone k (flags AND NOT CSIGNAL) (flags AND CSIGNAL) arg os"

definition krunc_kill :: "'k kernel_calls \<Rightarrow> int \<Rightarrow> int \<Rightarrow> 'k helper_os \<Rightarrow> int \<times> 'k helper_os" where
  "krunc_kill k nr sig os =
     (case hs_tasks os nr of None \<Rightarrow> (- ESRCH_nr, os) | Some _ \<Rightarrow> kc_kill_pid k nr sig os)"

text \<open>The result and the word behind the pointer, which is 0 at the call and may be left alone.\<close>

definition krunc_task_exit_status :: "int \<Rightarrow> 'k helper_os \<Rightarrow> int \<times> int" where
  "krunc_task_exit_status nr os =
     (case hs_tasks os nr of
        None \<Rightarrow> (- 1, 0)
      | Some (exit_state, exit_code) \<Rightarrow> if exit_state then (0, exit_code) else (1, 0))"

definition c_helper :: "'k kernel_calls \<Rightarrow> 'k helper_os helper" where
  "c_helper k =
     \<lparr>h_spawn = krunc_spawn k, h_kill = krunc_kill k,
      h_task_exit_status = (\<lambda>nr os. (krunc_task_exit_status nr os, os)),
      h_watch_pid = (\<lambda>nr os. let (rc, t) = krunc_watch_pid nr (hs_watch os) in (rc, os\<lparr>hs_watch := t\<rparr>)),
      h_unwatch_pid = (\<lambda>nr os. os\<lparr>hs_watch := krunc_unwatch_pid nr (hs_watch os)\<rparr>),
      h_get_exit_code = (\<lambda>nr os.
        (case krunc_get_exit_code nr (hs_watch os) of
           (r, Some code) \<Rightarrow> ((r, code), os) | (r, None) \<Rightarrow> ((r, 0), os)))\<rparr>"

section \<open>What happens to the table between two requests\<close>

text \<open>
  Pids are watched, unwatched and end in any order; watching a pid again adds a second entry for it,
  and a full table adds none.
\<close>

fun watch_step :: "watch_event \<Rightarrow> watch_table \<Rightarrow> watch_table" where
  "watch_step (Watch q) t = snd (krunc_watch_pid q t)"
| "watch_step (Unwatch q) t = krunc_unwatch_pid q t"
| "watch_step (Ended q c) t = krunc_do_exit_pre q c t"

lemma watch_step_happens: "watch_step = xw.happens"
  by (rule ext) (rule ext, case_tac x; simp)

fun before_end :: "int \<Rightarrow> watch_event \<Rightarrow> bool" where
  "before_end p (Watch q) = (q \<noteq> p)"
| "before_end p (Unwatch q) = (q \<noteq> p)"
| "before_end p (Ended q c) = (q \<noteq> p)"

lemma before_end_iff: "before_end p ev \<longleftrightarrow> about_others p ev \<and> (\<forall>c. ev \<noteq> Ended p c)"
  by (cases ev) auto

definition ended_task :: "int \<Rightarrow> 'k helper_os \<Rightarrow> bool" where
  "ended_task pid os = (case hs_tasks os pid of None \<Rightarrow> True | Some (exit_state, _) \<Rightarrow> exit_state)"

section \<open>Properties\<close>

text \<open>
C11 (exit codes survive reaping). Take a started container whose pid was given an entry when it was
spawned, and had no entry with the code of an earlier task. Whatever other pids are watched, unwatched or end meanwhile, once its init task has
called \<open>do_exit(code)\<close> and is a zombie or already gone, \<open>state\<close> reports it stopped with the status
word \<open>code\<close>. If the table had no entry for it and the task is gone, \<open>state\<close> reports the word 0 instead,
as if it had succeeded.
\<close>

theorem exit_code_survives_reaping:
  assumes "find_id cid (ks_registry st) = Some i" "ct_started (ks_registry st ! i)"
    "ct_exit_status (ks_registry st ! i) = None" "ct_pid (ks_registry st ! i) = pid"
    "watch_ok t" "list_all (\<lambda>c. c = None) (watch_view t pid)" "t1 = snd (krunc_watch_pid pid t)"
    "fst (krunc_watch_pid pid t) = 0"
    "list_all (before_end pid) before" "list_all (about_others pid) after"
    "hs_watch (ks_os st) = fold watch_step (before @ Ended pid code # after) t1"
    "ended_task pid (ks_os st)"
  shows "fst (container_state (c_helper k) cid st) = Ok (ST_STOPPED, pid, sint (ucast code :: 32 word))
    \<and> (watch_view t2 pid = [] \<longrightarrow>
         fst (container_state (c_helper k) cid
           (st\<lparr>ks_os := (ks_os st)\<lparr>hs_watch := t2, hs_tasks := (hs_tasks (ks_os st))(pid := None)\<rparr>\<rparr>)) =
         Ok (ST_STOPPED, pid, 0))"
proof -
  have "krunc_get_exit_code pid (hs_watch (ks_os st)) = (1, Some (sint (ucast code :: 32 word)))"
    unfolding assms(11) assms(7) watch_step_happens
    by (rule xw.first_code_reported) (use assms(5,6,8,9,10) in \<open>auto simp: list_all_iff before_end_iff\<close>)
  moreover have "krunc_get_exit_code pid t2 = (0, None)" if "watch_view t2 pid = []"
    using that by (simp add: xw.get_view)
  ultimately show ?thesis
    using assms(1-4,12)
    by (auto simp: container_state_def c_helper_def probe_exit_def krunc_task_exit_status_def
        ended_task_def split: option.splits prod.splits)
qed

definition demo_helper_state :: "unit helper_os kstate" where
  "demo_helper_state = \<lparr>ks_registry = [\<lparr>ct_id = 1, ct_pid = 7, ct_hostname = [], ct_ctrl = Some 0,
       ct_started = True, ct_exit_status = None\<rparr>],
     ks_next_id = 2, ks_gates = (\<lambda>_. ACT_START), ks_gate_next = 1,
     ks_os = \<lparr>hs_watch = fold watch_step [Ended 7 0x300] (snd (krunc_watch_pid 7 watch_init)),
       hs_tasks = (\<lambda>_. None), hs_kernel = ()\<rparr>\<rparr>"

theorem exit_code_survives_reaping_witness:
  "fst (container_state (c_helper (undefined :: unit kernel_calls)) 1 demo_helper_state)
    = Ok (ST_STOPPED, 7, 0x300)"
proof -
  have "fst (krunc_watch_pid 7 watch_init) = 0"
    using watch_init_ok watch_room [OF watch_init_ok(1), of 7]
    by (simp add: used_def watch_init_def KRUNC_MAX_WATCH_def)
  then have "fst (container_state (c_helper (undefined :: unit kernel_calls)) 1 demo_helper_state)
      = Ok (ST_STOPPED, 7, sint (ucast (0x300 :: 64 word) :: 32 word))"
    by (intro exit_code_survives_reaping [where i = 0 and t = watch_init and before = "[]" and after = "[]", THEN conjunct1])

       (simp_all add: watch_init_ok demo_helper_state_def find_id_def ended_task_def)
  then show ?thesis by simp
qed

text \<open>
Codes of an earlier task. The text command \<open>kill\<close> drops a container without unwatching its pid. When
the kernel gives the pid to the init task of a later container, the entry of the earlier one
is found first, and its code is reported for the later.
\<close>

theorem stale_code_reported:
  "krunc_get_exit_code 7 (krunc_do_exit_pre 7 2 (snd (krunc_watch_pid 7
     (krunc_do_exit_pre 7 1 (snd (krunc_watch_pid 7 watch_init)))))) = (1, Some 1)"
  by code_simp

end
