(* ===== verification/Json_Text.thy ===== *)
theory Json_Text
  imports Rust_Std
begin

text \<open>
  The JSON texts the command line reads and writes. \<open>serde_json\<close> itself is not part of the
  sources: this theory states the grammar of RFC 8259 as an executable reader, a lexer over
  characters and a stack machine over tokens, against which the hypotheses on the library are
  written. Texts on which readers may differ (numbers with an exponent or of more than 300
  characters, escaped surrogates, nesting of 100 levels and more) are \<open>Unsettled\<close>.
\<close>

section \<open>Verdicts\<close>

datatype 'a verdict = Accepted 'a | Rejected | Unsettled

definition v_bind :: "'a verdict \<Rightarrow> ('a \<Rightarrow> 'b verdict) \<Rightarrow> 'b verdict" where
  "v_bind v f = (case v of Accepted x \<Rightarrow> f x | Rejected \<Rightarrow> Rejected | Unsettled \<Rightarrow> Unsettled)"

lemma v_bind_simps [simp]:
  "v_bind (Accepted x) f = f x" "v_bind Rejected f = Rejected" "v_bind Unsettled f = Unsettled"
  by (simp_all add: v_bind_def)

lemma v_bind_Accepted: "v_bind v f = Accepted y \<longleftrightarrow> (\<exists>x. v = Accepted x \<and> f x = Accepted y)"
  by (cases v) simp_all

lemma v_bind_assoc: "v_bind (v_bind v f) g = v_bind v (\<lambda>x. v_bind (f x) g)"
  by (cases v) simp_all

fun v_map :: "('a \<Rightarrow> 'b verdict) \<Rightarrow> 'a list \<Rightarrow> 'b list verdict" where
  "v_map f [] = Accepted []"
| "v_map f (x # xs) = v_bind (f x) (\<lambda>y. v_bind (v_map f xs) (\<lambda>ys. Accepted (y # ys)))"

section \<open>Values\<close>

text \<open>
  Members stand in the order of the text, repeated names included. A number is its value
  when it is an integer; of any other number only the kind matters.
\<close>

datatype json =
    JNull
  | JBool bool
  | JNum int
  | JFrac
  | JStr string
  | JArr "json list"
  | JObj "(string \<times> json) list"

section \<open>The lexer\<close>

datatype token =
    LBrace | RBrace | LBracket | RBracket | Colon | Comma
  | Scalar json

text \<open>The text of a token read so far is kept in reverse.\<close>

datatype lex_mode =
    Between
  | In_string string
  | In_escape string
  | In_hex string nat nat
  | In_number string
  | In_word string

definition digit_value :: "char \<Rightarrow> int option" where
  "digit_value c = map_of (zip ''0123456789'' [0, 1, 2, 3, 4, 5, 6, 7, 8, 9]) c"

definition hex_value :: "char \<Rightarrow> nat option" where
  "hex_value c = map_of (zip ''0123456789abcdefABCDEF'' ([0..<16] @ [10..<16])) c"

definition json_digit :: "char \<Rightarrow> bool" where
  "json_digit c \<longleftrightarrow> c \<in> set ''0123456789''"

definition is_number_char :: "char \<Rightarrow> bool" where
  "is_number_char c \<longleftrightarrow> c \<in> set ''0123456789+-.eE''"

definition is_control :: "char \<Rightarrow> bool" where
  "is_control c \<longleftrightarrow> \<not> digit5 c \<and> \<not> digit6 c \<and> \<not> digit7 c"

fun dec_value :: "int \<Rightarrow> string \<Rightarrow> int" where
  "dec_value n [] = n"
| "dec_value n (c # cs) = dec_value (10 * n + (case digit_value c of Some d \<Rightarrow> d | None \<Rightarrow> 0)) cs"

text \<open>A number: \<open>-\<close>, an integer part without leading zeros, a fraction, an exponent.\<close>

definition number_token :: "string \<Rightarrow> token verdict" where
  "number_token s =
     (let neg = (take 1 s = ''-'');
          u = (if neg then drop 1 s else s);
          ds = takeWhile json_digit u;
          rest = dropWhile json_digit u in
      if ds = [] \<or> (length ds > 1 \<and> hd ds = CHR ''0'') then Rejected
      else if length s > 300 \<or> CHR ''e'' \<in> set rest \<or> CHR ''E'' \<in> set rest then Unsettled
      else if rest = [] then
        (if neg \<and> ds = ''0'' then Accepted (Scalar JFrac)
         else Accepted (Scalar (JNum (if neg then - dec_value 0 ds else dec_value 0 ds))))
      else if hd rest = CHR ''.'' \<and> tl rest \<noteq> [] \<and> list_all json_digit (tl rest)
        then Accepted (Scalar JFrac)
      else Rejected)"

definition word_token :: "string \<Rightarrow> token verdict" where
  "word_token s =
     (if s = ''true'' then Accepted (Scalar (JBool True))
      else if s = ''false'' then Accepted (Scalar (JBool False))
      else if s = ''null'' then Accepted (Scalar JNull)
      else Rejected)"

text \<open>The UTF-8 bytes of a code point below \<open>2 ^ 16\<close>.\<close>

definition utf8_of :: "nat \<Rightarrow> string" where
  "utf8_of n =
     (if n < 128 then [char_of n]
      else if n < 2048 then [char_of (192 + n div 64), char_of (128 + n mod 64)]
      else [char_of (224 + n div 4096), char_of (128 + n div 64 mod 64), char_of (128 + n mod 64)])"

definition escape_char :: "char \<Rightarrow> char option" where
  "escape_char c =
     map_of [(CHR 0x22, CHR 0x22), (CHR 0x5C, CHR 0x5C), (CHR ''/'', CHR ''/''),
       (CHR ''b'', CHR 0x08), (CHR ''f'', CHR 0x0C), (CHR ''n'', CHR 0x0A),
       (CHR ''r'', CHR 0x0D), (CHR ''t'', CHR 0x09)] c"

text \<open>A character outside any token: the tokens it completes and the mode after it.\<close>

definition lex_start :: "char \<Rightarrow> (token list \<times> lex_mode) verdict" where
  "lex_start c =
     (if c = CHR '' '' \<or> c = CHR 0x0A \<or> c = CHR 0x0D \<or> c = CHR 0x09 then Accepted ([], Between)
      else if c = CHR 0x22 then Accepted ([], In_string [])
      else if c = CHR '','' then Accepted ([Comma], Between)
      else if c = CHR '':'' then Accepted ([Colon], Between)
      else if c = CHR ''{'' then Accepted ([LBrace], Between)
      else if c = CHR ''}'' then Accepted ([RBrace], Between)
      else if c = CHR ''['' then Accepted ([LBracket], Between)
      else if c = CHR '']'' then Accepted ([RBracket], Between)
      else if c = CHR ''-'' \<or> json_digit c then Accepted ([], In_number [c])
      else if c \<in> {CHR ''t'', CHR ''f'', CHR ''n''} then Accepted ([], In_word [c])
      else Rejected)"

definition then_start :: "token verdict \<Rightarrow> char \<Rightarrow> (token list \<times> lex_mode) verdict" where
  "then_start v c = v_bind v (\<lambda>t. v_bind (lex_start c) (\<lambda>(ts, m). Accepted (t # ts, m)))"

fun lex_step :: "lex_mode \<Rightarrow> char \<Rightarrow> (token list \<times> lex_mode) verdict" where
  "lex_step Between c = lex_start c"
| "lex_step (In_string acc) c =
     (if c = CHR 0x22 then Accepted ([Scalar (JStr (rev acc))], Between)
      else if c = CHR 0x5C then Accepted ([], In_escape acc)
      else if is_control c then Rejected
      else Accepted ([], In_string (c # acc)))"
| "lex_step (In_escape acc) c =
     (if c = CHR ''u'' then Accepted ([], In_hex acc 4 0)
      else (case escape_char c of
              Some d \<Rightarrow> Accepted ([], In_string (d # acc)) | None \<Rightarrow> Rejected))"
| "lex_step (In_hex acc k v) c =
     (case hex_value c of
        None \<Rightarrow> Rejected
      | Some d \<Rightarrow>
          (let v = 16 * v + d in
           if k > 1 then Accepted ([], In_hex acc (k - 1) v)
           else if 0xD800 \<le> v \<and> v < 0xE000 then Unsettled
           else Accepted ([], In_string (rev (utf8_of v) @ acc))))"
| "lex_step (In_number acc) c =
     (if is_number_char c then Accepted ([], In_number (c # acc))
      else then_start (number_token (rev acc)) c)"
| "lex_step (In_word acc) c =
     (if c \<in> set ''abcdefghijklmnopqrstuvwxyz'' then Accepted ([], In_word (c # acc))
      else then_start (word_token (rev acc)) c)"

fun lex_run :: "lex_mode \<Rightarrow> string \<Rightarrow> (token list \<times> lex_mode) verdict" where
  "lex_run m [] = Accepted ([], m)"
| "lex_run m (c # cs) =
     (case lex_step m c of
        Accepted (ts, m) \<Rightarrow>
          (case lex_run m cs of
             Accepted (us, m) \<Rightarrow> Accepted (ts @ us, m)
           | Rejected \<Rightarrow> Rejected
           | Unsettled \<Rightarrow> Unsettled)
      | Rejected \<Rightarrow> Rejected
      | Unsettled \<Rightarrow> Unsettled)"

text \<open>The end of the text ends a number or a word.\<close>

fun lex_end :: "lex_mode \<Rightarrow> token list verdict" where
  "lex_end Between = Accepted []"
| "lex_end (In_number acc) = v_bind (number_token (rev acc)) (\<lambda>t. Accepted [t])"
| "lex_end (In_word acc) = v_bind (word_token (rev acc)) (\<lambda>t. Accepted [t])"
| "lex_end _ = Rejected"

definition json_lex :: "string \<Rightarrow> token list verdict" where
  "json_lex s =
     v_bind (lex_run Between s) (\<lambda>(ts, m). v_bind (lex_end m) (\<lambda>us. Accepted (ts @ us)))"

section \<open>The parser\<close>

text \<open>
  The machine keeps the arrays and objects it is inside of, and what may come next. Elements
  and members read so far are in reverse.
\<close>

datatype json_frame = In_array "json list" | In_object "(string \<times> json) list" string

datatype expecting =
    Want_value
  | Want_value_or_end
  | Want_name_or_end
  | Want_name "(string \<times> json) list"
  | Want_colon "(string \<times> json) list" string
  | Have json

fun value_step :: "json_frame list \<Rightarrow> token \<Rightarrow> (expecting \<times> json_frame list) verdict" where
  "value_step st (Scalar v) = Accepted (Have v, st)"
| "value_step st LBrace = (if length st < 100 then Accepted (Want_name_or_end, st) else Unsettled)"
| "value_step st LBracket =
     (if length st < 100 then Accepted (Want_value_or_end, In_array [] # st) else Unsettled)"
| "value_step st _ = Rejected"

fun after_step :: "json \<Rightarrow> json_frame list \<Rightarrow> token \<Rightarrow> (expecting \<times> json_frame list) verdict" where
  "after_step v [] t = Rejected"
| "after_step v (In_array xs # st) t =
     (if t = Comma then Accepted (Want_value, In_array (v # xs) # st)
      else if t = RBracket then Accepted (Have (JArr (rev (v # xs))), st)
      else Rejected)"
| "after_step v (In_object ms k # st) t =
     (if t = Comma then Accepted (Want_name ((k, v) # ms), st)
      else if t = RBrace then Accepted (Have (JObj (rev ((k, v) # ms))), st)
      else Rejected)"

fun name_step :: "(string \<times> json) list \<Rightarrow> json_frame list \<Rightarrow> token \<Rightarrow>
    (expecting \<times> json_frame list) verdict" where
  "name_step ms st (Scalar (JStr k)) = Accepted (Want_colon ms k, st)"
| "name_step _ _ _ = Rejected"

fun token_step :: "expecting \<times> json_frame list \<Rightarrow> token \<Rightarrow> (expecting \<times> json_frame list) verdict" where
  "token_step (Want_value, st) t = value_step st t"
| "token_step (Want_value_or_end, st) t =
     (if t = RBracket then (case st of In_array _ # st \<Rightarrow> Accepted (Have (JArr []), st) | _ \<Rightarrow> Rejected)
      else value_step st t)"
| "token_step (Want_name_or_end, st) t =
     (if t = RBrace then Accepted (Have (JObj []), st) else name_step [] st t)"
| "token_step (Want_name ms, st) t = name_step ms st t"
| "token_step (Want_colon ms k, st) t =
     (if t = Colon then Accepted (Want_value, In_object ms k # st) else Rejected)"
| "token_step (Have v, st) t = after_step v st t"

fun token_run :: "expecting \<times> json_frame list \<Rightarrow> token list \<Rightarrow> (expecting \<times> json_frame list) verdict" where
  "token_run s [] = Accepted s"
| "token_run s (t # ts) =
     (case token_step s t of
        Accepted s \<Rightarrow> token_run s ts | Rejected \<Rightarrow> Rejected | Unsettled \<Rightarrow> Unsettled)"

definition json_parse :: "token list \<Rightarrow> json verdict" where
  "json_parse ts =
     v_bind (token_run (Want_value, []) ts)
       (\<lambda>s. case s of (Have v, []) \<Rightarrow> Accepted v | _ \<Rightarrow> Rejected)"

definition json_read :: "string \<Rightarrow> json verdict" where
  "json_read s = v_bind (json_lex s) json_parse"

section \<open>Texts in pieces\<close>

lemma lex_run_append:
  "lex_run m (s @ t) =
     (case lex_run m s of
        Accepted (ts, m) \<Rightarrow>
          (case lex_run m t of
             Accepted (us, m) \<Rightarrow> Accepted (ts @ us, m)
           | Rejected \<Rightarrow> Rejected
           | Unsettled \<Rightarrow> Unsettled)
      | Rejected \<Rightarrow> Rejected
      | Unsettled \<Rightarrow> Unsettled)"
proof (induction s arbitrary: m)
  case Nil
  show ?case by (simp split: verdict.splits prod.splits)
next
  case (Cons c s)
  show ?case by (simp add: Cons split: verdict.splits prod.splits)
qed

text \<open>Reading a text written as lines and pieces, piece by piece.\<close>

lemmas piecewise = json_read_def json_lex_def join_lines.simps lex_run_append

end
