(* ===== verification/Oci_Serde.thy ===== *)
theory Oci_Serde
  imports Json_Text Oci_Translate "HOL-Library.Multiset"
begin

text \<open>
  \<open>userspace/krunc-oci/src/lib.rs\<close>, the declarations of the configuration: the structures
  with their \<open>serde\<close> attributes (\<open>rename_all\<close>, \<open>rename\<close>, \<open>default\<close>, \<open>deny_unknown_fields\<close>,
  \<open>flatten\<close>) as readers of JSON values, one per structure. The library that executes the
  attributes, and so \<open>parse_config\<close>, stays a parameter: \<open>conforms\<close> says of it that a text whose
  verdict here is settled is parsed or refused accordingly. An array in the place of a
  structure is left open.
\<close>

section \<open>Scalars and lists\<close>

type_synonym 'a from_json = "json \<Rightarrow> 'a verdict"

fun j_string :: "string from_json" where
  "j_string (JStr s) = Accepted s"
| "j_string _ = Rejected"

fun j_bool :: "bool from_json" where
  "j_bool (JBool b) = Accepted b"
| "j_bool _ = Rejected"

text \<open>An integer within the range of its type.\<close>

definition j_int :: "int \<Rightarrow> int \<Rightarrow> (int \<Rightarrow> 'a) \<Rightarrow> 'a from_json" where
  "j_int lo hi f j =
     (case j of JNum i \<Rightarrow> if lo \<le> i \<and> i \<le> hi then Accepted (f i) else Rejected | _ \<Rightarrow> Rejected)"

definition j_u32 :: "u32 from_json" where
  "j_u32 = j_int 0 4294967295 word_of_int"

definition j_u64 :: "u64 from_json" where
  "j_u64 = j_int 0 18446744073709551615 word_of_int"

definition j_i32 :: "i32 from_json" where
  "j_i32 = j_int (- 2147483648) 2147483647 word_of_int"

definition j_i64 :: "int from_json" where
  "j_i64 = j_int (- 9223372036854775808) 9223372036854775807 (\<lambda>i. i)"

text \<open>\<open>Option<T>\<close>, \<open>Vec<T>\<close> and \<open>HashMap<String, String>\<close>, where the last of two equal names wins.\<close>

definition j_option :: "'a from_json \<Rightarrow> 'a option from_json" where
  "j_option f j = (if j = JNull then Accepted None else v_bind (f j) (\<lambda>x. Accepted (Some x)))"

fun j_list :: "'a from_json \<Rightarrow> 'a list from_json" where
  "j_list f (JArr xs) = v_map f xs"
| "j_list f _ = Rejected"

fun last_wins :: "('k \<times> 'v) list \<Rightarrow> ('k \<times> 'v) list" where
  "last_wins [] = []"
| "last_wins ((k, v) # ms) = (if k \<in> fst ` set ms then last_wins ms else (k, v) # last_wins ms)"

fun j_string_map :: "(string \<times> string) list from_json" where
  "j_string_map (JObj ms) =
     v_map (\<lambda>(k, v). v_bind (j_string v) (\<lambda>s. Accepted (k, s))) (last_wins ms)"
| "j_string_map _ = Rejected"

section \<open>Structures\<close>

text \<open>
  A field that is missing has its default, if it has one; a field given twice is an error.
  \<open>deny_unknown_fields\<close> refuses a name that is no field, and \<open>flatten\<close> collects it.
\<close>

definition j_struct :: "json \<Rightarrow> ((string \<times> json) list \<Rightarrow> 'a verdict) \<Rightarrow> 'a verdict" where
  "j_struct j f = (case j of JObj ms \<Rightarrow> f ms | JArr _ \<Rightarrow> Unsettled | _ \<Rightarrow> Rejected)"

definition field :: "(string \<times> json) list \<Rightarrow> string \<Rightarrow> 'a from_json \<Rightarrow> 'a verdict \<Rightarrow> 'a verdict" where
  "field ms name f missing =
     (case filter (\<lambda>(k, _). k = name) ms of
        [] \<Rightarrow> missing
      | [(_, v)] \<Rightarrow> f v
      | _ \<Rightarrow> Rejected)"

abbreviation required :: "(string \<times> json) list \<Rightarrow> string \<Rightarrow> 'a from_json \<Rightarrow> 'a verdict" where
  "required ms name f \<equiv> field ms name f Rejected"

abbreviation defaulted :: "(string \<times> json) list \<Rightarrow> string \<Rightarrow> 'a from_json \<Rightarrow> 'a \<Rightarrow> 'a verdict" where
  "defaulted ms name f d \<equiv> field ms name f (Accepted d)"

abbreviation optional :: "(string \<times> json) list \<Rightarrow> string \<Rightarrow> 'a from_json \<Rightarrow> 'a option verdict" where
  "optional ms name f \<equiv> field ms name (j_option f) (Accepted None)"

definition deny_unknown :: "string list \<Rightarrow> (string \<times> json) list \<Rightarrow> 'a verdict \<Rightarrow> 'a verdict" where
  "deny_unknown names ms v = (if list_all (\<lambda>(k, _). k \<in> set names) ms then v else Rejected)"

definition others :: "string list \<Rightarrow> (string \<times> json) list \<Rightarrow> string list" where
  "others names ms = remdups (filter (\<lambda>k. k \<notin> set names) (map fst ms))"

definition j_mount :: "oci_mount from_json" where
  "j_mount j = j_struct j (\<lambda>ms.
     deny_unknown [''destination'', ''type'', ''source'', ''options''] ms
     (v_bind (required ms ''destination'' j_string) (\<lambda>d.
      v_bind (defaulted ms ''type'' j_string []) (\<lambda>t.
      v_bind (defaulted ms ''source'' j_string []) (\<lambda>s.
      v_bind (defaulted ms ''options'' (j_list j_string) []) (\<lambda>opts.
      Accepted \<lparr>om_destination = d, om_mount_type = t, om_source = s, om_options = opts\<rparr>))))))"

definition j_rlimit :: "oci_rlimit from_json" where
  "j_rlimit j = j_struct j (\<lambda>ms.
     deny_unknown [''type'', ''soft'', ''hard''] ms
     (v_bind (required ms ''type'' j_string) (\<lambda>t.
      v_bind (defaulted ms ''soft'' j_u64 0) (\<lambda>s.
      v_bind (defaulted ms ''hard'' j_u64 0) (\<lambda>h.
      Accepted \<lparr>ol_limit_type = t, ol_soft = s, ol_hard = h\<rparr>)))))"

definition j_user :: "oci_user from_json" where
  "j_user j = j_struct j (\<lambda>ms.
     deny_unknown [''uid'', ''gid'', ''additionalGids''] ms
     (v_bind (defaulted ms ''uid'' j_u32 0) (\<lambda>u.
      v_bind (defaulted ms ''gid'' j_u32 0) (\<lambda>g.
      v_bind (defaulted ms ''additionalGids'' (j_list j_u32) []) (\<lambda>gs.
      Accepted \<lparr>ou_uid = u, ou_gid = g, ou_additional_gids = gs\<rparr>)))))"

definition j_capabilities :: "capabilities from_json" where
  "j_capabilities j = j_struct j (\<lambda>ms.
     deny_unknown [''bounding'', ''effective'', ''permitted'', ''inheritable'', ''ambient''] ms
     (v_bind (defaulted ms ''bounding'' (j_list j_string) []) (\<lambda>b.
      v_bind (defaulted ms ''effective'' (j_list j_string) []) (\<lambda>e.
      v_bind (defaulted ms ''permitted'' (j_list j_string) []) (\<lambda>p.
      v_bind (defaulted ms ''inheritable'' (j_list j_string) []) (\<lambda>i.
      v_bind (defaulted ms ''ambient'' (j_list j_string) []) (\<lambda>a.
      Accepted \<lparr>cp_bounding = b, cp_effective = e, cp_permitted = p, cp_inheritable = i,
        cp_ambient = a\<rparr>)))))))"

definition process_fields :: "string list" where
  "process_fields = [''terminal'', ''args'', ''env'', ''cwd'', ''user'', ''capabilities'',
     ''noNewPrivileges'', ''rlimits'', ''oomScoreAdj'']"

definition j_process :: "process from_json" where
  "j_process j = j_struct j (\<lambda>ms.
     v_bind (defaulted ms ''terminal'' j_bool False) (\<lambda>t.
     v_bind (defaulted ms ''args'' (j_list j_string) []) (\<lambda>args.
     v_bind (defaulted ms ''env'' (j_list j_string) []) (\<lambda>env.
     v_bind (optional ms ''cwd'' j_string) (\<lambda>cwd.
     v_bind (optional ms ''user'' j_user) (\<lambda>user.
     v_bind (optional ms ''capabilities'' j_capabilities) (\<lambda>caps.
     v_bind (defaulted ms ''noNewPrivileges'' j_bool False) (\<lambda>nnp.
     v_bind (defaulted ms ''rlimits'' (j_list j_rlimit) []) (\<lambda>rls.
     v_bind (optional ms ''oomScoreAdj'' j_i32) (\<lambda>oom.
     Accepted \<lparr>pr_terminal = t, pr_args = args, pr_env = env, pr_cwd = cwd, pr_user = user,
       pr_capabilities = caps, pr_no_new_privileges = nnp, pr_rlimits = rls,
       pr_oom_score_adj = oom, pr_extra = others process_fields ms\<rparr>))))))))))"

definition j_root :: "oci_root from_json" where
  "j_root j = j_struct j (\<lambda>ms.
     deny_unknown [''path'', ''readonly''] ms
     (v_bind (required ms ''path'' j_string) (\<lambda>p.
      v_bind (defaulted ms ''readonly'' j_bool False) (\<lambda>r.
      Accepted \<lparr>rt_path = p, rt_readonly = r\<rparr>))))"

definition j_cpu :: "oci_cpu from_json" where
  "j_cpu j = j_struct j (\<lambda>ms.
     deny_unknown [''quota'', ''period'', ''shares''] ms
     (v_bind (optional ms ''quota'' j_i64) (\<lambda>q.
      v_bind (optional ms ''period'' j_u64) (\<lambda>p.
      v_bind (optional ms ''shares'' j_u64) (\<lambda>s.
      Accepted \<lparr>cu_quota = q, cu_period = p, cu_shares = s\<rparr>)))))"

text \<open>\<open>Pids\<close> is its only field, and so is \<open>Memory\<close>.\<close>

definition j_pids :: "int from_json" where
  "j_pids j = j_struct j (\<lambda>ms. deny_unknown [''limit''] ms (required ms ''limit'' j_i64))"

definition j_memory :: "int option from_json" where
  "j_memory j = j_struct j (\<lambda>ms. deny_unknown [''limit''] ms (optional ms ''limit'' j_i64))"

definition j_resources :: "resources from_json" where
  "j_resources j = j_struct j (\<lambda>ms.
     v_bind (optional ms ''pids'' j_pids) (\<lambda>p.
     v_bind (optional ms ''memory'' j_memory) (\<lambda>m.
     v_bind (optional ms ''cpu'' j_cpu) (\<lambda>c.
     Accepted \<lparr>rs_pids = p, rs_memory = m, rs_cpu = c,
       rs_extra = others [''pids'', ''memory'', ''cpu''] ms\<rparr>))))"

definition j_namespace :: "oci_namespace from_json" where
  "j_namespace j = j_struct j (\<lambda>ms.
     deny_unknown [''type'', ''path''] ms
     (v_bind (required ms ''type'' j_string) (\<lambda>t.
      v_bind (optional ms ''path'' j_string) (\<lambda>p.
      Accepted \<lparr>on_ns_type = t, on_path = p\<rparr>))))"

definition j_id_mapping :: "linux_id_mapping from_json" where
  "j_id_mapping j = j_struct j (\<lambda>ms.
     deny_unknown [''containerID'', ''hostID'', ''size''] ms
     (v_bind (required ms ''containerID'' j_u32) (\<lambda>c.
      v_bind (required ms ''hostID'' j_u32) (\<lambda>h.
      v_bind (required ms ''size'' j_u32) (\<lambda>s.
      Accepted \<lparr>lm_container_id = c, lm_host_id = h, lm_size = s\<rparr>)))))"

definition linux_fields :: "string list" where
  "linux_fields = [''namespaces'', ''uidMappings'', ''gidMappings'', ''resources'', ''cgroupsPath'',
     ''maskedPaths'', ''readonlyPaths'', ''sysctl'']"

definition j_linux :: "linux from_json" where
  "j_linux j = j_struct j (\<lambda>ms.
     v_bind (defaulted ms ''namespaces'' (j_list j_namespace) []) (\<lambda>ns.
     v_bind (defaulted ms ''uidMappings'' (j_list j_id_mapping) []) (\<lambda>um.
     v_bind (defaulted ms ''gidMappings'' (j_list j_id_mapping) []) (\<lambda>gm.
     v_bind (optional ms ''resources'' j_resources) (\<lambda>rs.
     v_bind (optional ms ''cgroupsPath'' j_string) (\<lambda>cg.
     v_bind (defaulted ms ''maskedPaths'' (j_list j_string) []) (\<lambda>mp.
     v_bind (defaulted ms ''readonlyPaths'' (j_list j_string) []) (\<lambda>rp.
     v_bind (defaulted ms ''sysctl'' j_string_map []) (\<lambda>sc.
     Accepted \<lparr>lx_namespaces = ns, lx_uid_mappings = um, lx_gid_mappings = gm, lx_resources = rs,
       lx_cgroups_path = cg, lx_masked_paths = mp, lx_readonly_paths = rp, lx_sysctl = sc,
       lx_extra = others linux_fields ms\<rparr>)))))))))"

definition config_fields :: "string list" where
  "config_fields = [''ociVersion'', ''hostname'', ''process'', ''root'', ''linux'', ''mounts'',
     ''annotations'']"

text \<open>The version is read and not looked at again.\<close>

definition j_config :: "oci_config from_json" where
  "j_config j = j_struct j (\<lambda>ms.
     v_bind (optional ms ''ociVersion'' j_string) (\<lambda>_.
     v_bind (optional ms ''hostname'' j_string) (\<lambda>h.
     v_bind (optional ms ''process'' j_process) (\<lambda>p.
     v_bind (optional ms ''root'' j_root) (\<lambda>r.
     v_bind (optional ms ''linux'' j_linux) (\<lambda>l.
     v_bind (defaulted ms ''mounts'' (j_list j_mount) []) (\<lambda>mts.
     v_bind (defaulted ms ''annotations'' j_string_map []) (\<lambda>an.
     Accepted \<lparr>oc_hostname = h, oc_process = p, oc_root = r, oc_linux = l, oc_mounts = mts,
       oc_annotations = an, oc_extra = others config_fields ms\<rparr>))))))))"

definition json_config :: "string \<Rightarrow> oci_config verdict" where
  "json_config s = v_bind (json_read s) j_config"

section \<open>The parser of the library\<close>

text \<open>
  The maps of a parsed configuration have no order of their own: two results are the same when
  they differ in the order of their maps only.
\<close>

definition same_process :: "process \<Rightarrow> process \<Rightarrow> bool" where
  "same_process a b \<longleftrightarrow> mset (pr_extra a) = mset (pr_extra b) \<and> a\<lparr>pr_extra := []\<rparr> = b\<lparr>pr_extra := []\<rparr>"

definition same_resources :: "resources \<Rightarrow> resources \<Rightarrow> bool" where
  "same_resources a b \<longleftrightarrow> mset (rs_extra a) = mset (rs_extra b) \<and> a\<lparr>rs_extra := []\<rparr> = b\<lparr>rs_extra := []\<rparr>"

definition same_linux :: "linux \<Rightarrow> linux \<Rightarrow> bool" where
  "same_linux a b \<longleftrightarrow> mset (lx_extra a) = mset (lx_extra b) \<and> mset (lx_sysctl a) = mset (lx_sysctl b)
     \<and> rel_option same_resources (lx_resources a) (lx_resources b)
     \<and> a\<lparr>lx_extra := [], lx_sysctl := [], lx_resources := None\<rparr> =
       b\<lparr>lx_extra := [], lx_sysctl := [], lx_resources := None\<rparr>"

definition same_config :: "oci_config \<Rightarrow> oci_config \<Rightarrow> bool" where
  "same_config a b \<longleftrightarrow> mset (oc_extra a) = mset (oc_extra b)
     \<and> mset (oc_annotations a) = mset (oc_annotations b)
     \<and> rel_option same_process (oc_process a) (oc_process b)
     \<and> rel_option same_linux (oc_linux a) (oc_linux b)
     \<and> a\<lparr>oc_extra := [], oc_annotations := [], oc_process := None, oc_linux := None\<rparr> =
       b\<lparr>oc_extra := [], oc_annotations := [], oc_process := None, oc_linux := None\<rparr>"

text \<open>
  What \<open>parse_config\<close> relies on: \<open>serde_json::from_str\<close> follows the grammar and the attributes.
\<close>

definition conforms :: "(string \<Rightarrow> oci_error + oci_config) \<Rightarrow> bool" where
  "conforms parse \<longleftrightarrow>
     (\<forall>s. case json_config s of
            Accepted c \<Rightarrow> (\<exists>c'. parse s = Ok c' \<and> same_config c' c)
          | Rejected \<Rightarrow> (\<exists>e. parse s = Err (Json e))
          | Unsettled \<Rightarrow> True)"

text \<open>The reader of this theory, as a parser.\<close>

definition reference_parse :: "string \<Rightarrow> oci_error + oci_config" where
  "reference_parse s = (case json_config s of Accepted c \<Rightarrow> Ok c | _ \<Rightarrow> Err (Json []))"

lemma same_config_refl [simp]: "same_config c c"
proof -
  have "same_resources r r" for r by (simp add: same_resources_def)
  then have "same_linux l l" for l by (simp add: same_linux_def option.rel_refl)
  moreover have "same_process p p" for p by (simp add: same_process_def)
  ultimately show ?thesis by (simp add: same_config_def option.rel_refl)
qed

lemma reference_conforms: "conforms reference_parse"
  by (auto simp: conforms_def reference_parse_def split: verdict.splits)

text \<open>Where every map has at most one entry, the same is equal.\<close>

definition all_of :: "('a \<Rightarrow> bool) \<Rightarrow> 'a option \<Rightarrow> bool" where
  "all_of p x = (case x of None \<Rightarrow> True | Some y \<Rightarrow> p y)"

definition few_linux :: "linux \<Rightarrow> bool" where
  "few_linux l \<longleftrightarrow> length (lx_extra l) \<le> 1 \<and> length (lx_sysctl l) \<le> 1
     \<and> all_of (\<lambda>r. length (rs_extra r) \<le> 1) (lx_resources l)"

definition few_entries :: "oci_config \<Rightarrow> bool" where
  "few_entries c \<longleftrightarrow> length (oc_extra c) \<le> 1 \<and> length (oc_annotations c) \<le> 1
     \<and> all_of (\<lambda>p. length (pr_extra p) \<le> 1) (oc_process c)
     \<and> all_of few_linux (oc_linux c)"

lemma mset_few: "mset xs = mset ys \<Longrightarrow> length ys \<le> 1 \<Longrightarrow> xs = ys"
  by (cases ys) (auto simp: le_Suc_eq)

lemma rel_option_few:
  assumes "rel_option q x y" "all_of g y" "\<And>a b. q a b \<Longrightarrow> g b \<Longrightarrow> a = b"
  shows "x = y"
  using assms by (cases x; cases y) (simp_all add: all_of_def)

lemma same_config_few:
  assumes "same_config c' c" "few_entries c"
  shows "c' = c"
proof -
  have r: "a = b" if "same_resources a b" "length (rs_extra b) \<le> 1" for a b
    using that mset_few [of "rs_extra a" "rs_extra b"] by (cases a; cases b) (simp add: same_resources_def)
  have l: "a = b" if "same_linux a b" "few_linux b" for a b
  proof -
    have "lx_resources a = lx_resources b"
      using that r by (intro rel_option_few [of same_resources _ _ "\<lambda>r. length (rs_extra r) \<le> 1"])
        (simp_all add: same_linux_def few_linux_def)
    then show ?thesis
      using that mset_few [of "lx_extra a" "lx_extra b"] mset_few [of "lx_sysctl a" "lx_sysctl b"]
      by (cases a; cases b) (simp add: same_linux_def few_linux_def)
  qed
  have p: "a = b" if "same_process a b" "length (pr_extra b) \<le> 1" for a b
    using that mset_few [of "pr_extra a" "pr_extra b"] by (cases a; cases b) (simp add: same_process_def)
  have "oc_process c' = oc_process c"
    using assms p by (intro rel_option_few [of same_process _ _ "\<lambda>p. length (pr_extra p) \<le> 1"])
      (simp_all add: same_config_def few_entries_def)
  moreover have "oc_linux c' = oc_linux c"
    using assms l by (intro rel_option_few [of same_linux _ _ few_linux])
      (simp_all add: same_config_def few_entries_def)
  ultimately show ?thesis
    using assms mset_few [of "oc_extra c'" "oc_extra c"] mset_few [of "oc_annotations c'" "oc_annotations c"]
    by (cases c'; cases c) (simp add: same_config_def few_entries_def)
qed

lemma conformsD:
  assumes "conforms parse"
  shows "json_config s = Accepted c \<Longrightarrow> \<exists>c'. parse s = Ok c' \<and> same_config c' c"
    and "json_config s = Rejected \<Longrightarrow> \<exists>e. parse s = Err (Json e)"
  using assms [unfolded conforms_def, rule_format, of s] by simp_all

lemma conforms_Ok:
  assumes "conforms parse" "json_config s = Accepted c" "few_entries c"
  shows "parse s = Ok c"
  using conformsD(1) [OF assms(1,2)] same_config_few [OF _ assms(3)] by blast

text \<open>Evaluating the readers.\<close>

lemma v_map_strings [simp]: "v_map j_string (map JStr ss) = Accepted ss"
  by (induction ss) simp_all

lemmas j_defs = j_struct_def field_def j_option_def deny_unknown_def others_def
  j_u32_def j_u64_def j_i32_def j_i64_def j_int_def

end
