(* ===== verification/Oci_Tests.thy ===== *)
theory Oci_Tests
  imports Oci_Serde Abi_Tests
begin

text \<open>
  \<open>userspace/krunc-oci/src/lib.rs\<close>, the module \<open>tests\<close>: the unit tests of the crate as
  predicates of the parser \<open>parse_config\<close>, which they all start from, and of the model of what
  comes after it; and the proof that they pass with any parser that conforms. The test that
  looks for a panic on arbitrary text is left out.
\<close>

section \<open>The unit tests\<close>

type_synonym config_parser = "string \<Rightarrow> oci_error + oci_config"

text \<open>The patterns of \<open>matches!(.., Err(OciError::X(_)))\<close>.\<close>

fun is_json :: "oci_error \<Rightarrow> bool" where
  "is_json (Json _) = True"
| "is_json _ = False"

fun is_missing :: "string \<Rightarrow> oci_error \<Rightarrow> bool" where
  "is_missing f (Missing_field g) = (g = f)"
| "is_missing f _ = False"

fun is_unsupported :: "oci_error \<Rightarrow> bool" where
  "is_unsupported (Unsupported _) = True"
| "is_unsupported _ = False"

fun is_unsupported_property :: "oci_error \<Rightarrow> bool" where
  "is_unsupported_property (Unsupported_property _) = True"
| "is_unsupported_property _ = False"

fun is_unknown_capability :: "oci_error \<Rightarrow> bool" where
  "is_unknown_capability (Unknown_capability _) = True"
| "is_unknown_capability _ = False"

definition SAMPLE :: string where
  \<open>SAMPLE = (join_lines [
        ''{'',
        ''      "ociVersion": "1.0.2-dev",'',
        ''      "hostname": "oci-demo",'',
        ''      "process": {'',
        ''        "terminal": false,'',
        ''        "user": { "uid": 65534, "gid": 65534 },'',
        ''        "args": ["/bin/sh", "/init.sh"],'',
        ''        "env": ["PATH=/bin:/sbin", "TERM=linux"],'',
        ''        "cwd": "/",'',
        ''        "noNewPrivileges": true,'',
        ''        "capabilities": {'',
        ''          "bounding": ["CAP_NET_BIND_SERVICE", "CAP_KILL", "CAP_AUDIT_WRITE"],'',
        ''          "effective": ["CAP_KILL"]'',
        ''        },'',
        ''        "oomScoreAdj": -500,'',
        ''        "rlimits": ['',
        ''          { "type": "RLIMIT_NOFILE", "soft": 1024, "hard": 4096 },'',
        ''          { "type": "RLIMIT_CORE", "soft": 0, "hard": 0 }'',
        ''        ]'',
        ''      },'',
        ''      "root": { "path": "rootfs", "readonly": false },'',
        ''      "linux": {'',
        ''        "namespaces": ['',
        ''          { "type": "pid" }, { "type": "mount" }, { "type": "uts" },'',
        ''          { "type": "ipc" }, { "type": "network" }'',
        ''        ],'',
        ''        "maskedPaths": ["/proc/kcore", "/proc/sysrq-trigger"],'',
        ''        "readonlyPaths": ["/proc/sys", "/bin"]'',
        ''      },'',
        ''      "mounts": ['',
        ''        { "destination": "/proc", "type": "proc", "source": "proc" },'',
        ''        { "destination": "/tmp", "type": "tmpfs", "source": "tmpfs",'',
        ''          "options": ["nosuid", "nodev", "noexec"] },'',
        ''        { "destination": "/etc/hosts", "type": "bind",''
        @ '' "source": "/host/hosts",'',
        ''          "options": ["rbind", "ro"] }'',
        ''      ]'',
        ''    }''])\<close>

text \<open>\<open>examples/bundle/config.json\<close>, which the test includes.\<close>

definition example_bundle :: string where
  \<open>example_bundle = (join_lines [
        ''{'',
        ''  "ociVersion": "1.0.2-dev",'',
        ''  "hostname": "oci-demo",'',
        ''  "process": {'',
        ''    "terminal": false,'',
        ''    "user": { "uid": 65534, "gid": 65534 },'',
        ''    "args": ["/bin/sh", "/init.sh"],'',
        ''    "env": ['',
        ''      "PATH=/bin:/sbin:/usr/bin:/usr/sbin",'',
        ''      "TERM=linux",'',
        ''      "container=krunc",'',
        ''      "KRUNC_PIDS_TEST=1"'',
        ''    ],'',
        ''    "cwd": "/",'',
        ''    "noNewPrivileges": true,'',
        ''    "capabilities": {'',
        ''      "bounding": ['',
        ''        "CAP_CHOWN", "CAP_KILL", "CAP_SETGID", "CAP_SETUID",'',
        ''        "CAP_NET_BIND_SERVICE", "CAP_AUDIT_WRITE"'',
        ''      ]'',
        ''    },'',
        ''    "oomScoreAdj": -500,'',
        ''    "rlimits": ['',
        ''      { "type": "RLIMIT_NOFILE", "soft": 256, "hard": 512 },'',
        ''      { "type": "RLIMIT_CORE", "soft": 0, "hard": 0 }'',
        ''    ]'',
        ''  },'',
        ''  "root": { "path": "rootfs", "readonly": true },'',
        ''  "linux": {'',
        ''    "namespaces": ['',
        ''      { "type": "pid" },'',
        ''      { "type": "mount" },'',
        ''      { "type": "uts" },'',
        ''      { "type": "ipc" },'',
        ''      { "type": "network" }'',
        ''    ],'',
        ''    "cgroupsPath": "krunc/oci1",'',
        ''    "resources": { "pids": { "limit": 16 }, "memory": { "limit": 67108864 },'',
        ''      "cpu": { "quota": 10000, "period": 100000 } },'',
        ''    "maskedPaths": ["/proc/kcore", "/proc/sysrq-trigger"],'',
        ''    "readonlyPaths": ["/proc/sys", "/etc"],'',
        ''    "sysctl": { "net.ipv4.ip_forward": "1" }'',
        ''  },'',
        ''  "mounts": ['',
        ''    { "destination": "/proc", "type": "proc", "source": "proc" },'',
        ''    { "destination": "/sys", "type": "sysfs", "source": "sysfs",'',
        ''      "options": ["nosuid", "nodev", "noexec", "ro"] },'',
        ''    { "destination": "/tmp", "type": "tmpfs", "source": "tmpfs",'',
        ''      "options": ["nosuid", "nodev", "noexec"] }'',
        ''  ]'',
        ''}'',
        []])\<close>

definition translates_sample :: "config_parser \<Rightarrow> bool" where
  \<open>translates_sample parse \<longleftrightarrow>
     unwraps (parse SAMPLE) (\<lambda>cfg.
        unwraps (config_to_spec ''/bundle'' cfg) (\<lambda>spec.
          sp_rootfs spec = ''/bundle/rootfs'' \<and> sp_hostname spec = ''oci-demo''
          \<and> sp_argv spec = [''/bin/sh'', ''/init.sh'']
          \<and> sp_env spec = [''PATH=/bin:/sbin'', ''TERM=linux'']
          \<and> sp_namespaces spec = NS_PID OR NS_MOUNT OR NS_UTS OR NS_IPC OR NS_NET
          \<and> sp_flags spec = OPT_NO_NEW_PRIVS
          \<and> sp_uid_maps spec = [] \<and> sp_gid_maps spec = []
          \<and> sp_caps_present spec
          \<and> sp_cap_bounding spec = push_bit 10 1 OR push_bit 5 1 OR push_bit 29 1
          \<and> sp_cap_effective spec = push_bit 5 1
          \<and> sp_cap_permitted spec = 0 \<and> sp_cap_inheritable spec = 0 \<and> sp_cap_ambient spec = 0
          \<and> sp_masked_paths spec = [''/proc/kcore'', ''/proc/sysrq-trigger'']
          \<and> sp_readonly_paths spec = [''/proc/sys'', ''/bin'']
          \<and> sp_rlimits spec = [\<lparr>rl_resource = 7, rl_soft = 1024, rl_hard = 4096\<rparr>,
              \<lparr>rl_resource = 4, rl_soft = 0, rl_hard = 0\<rparr>]
          \<and> sp_oom_score_adj spec = Some (- 500)
          \<and> sp_uid spec = 65534 \<and> sp_gid spec = 65534
          \<and> length (sp_mounts spec) = 3
          \<and> mt_destination (sp_mounts spec ! 0) = ''/proc''
          \<and> mt_fs_type (sp_mounts spec ! 0) = ''proc''
          \<and> mt_destination (sp_mounts spec ! 1) = ''/tmp''
          \<and> mt_flags (sp_mounts spec ! 1) = 2 OR 4 OR 8
          \<and> mt_fs_type (sp_mounts spec ! 2) = []
          \<and> mt_flags (sp_mounts spec ! 2) = 4096 OR 16384 OR 1))\<close>

definition translated_spec_round_trips_through_abi :: "config_parser \<Rightarrow> bool" where
  \<open>translated_spec_round_trips_through_abi parse \<longleftrightarrow>
     unwraps (parse SAMPLE) (\<lambda>cfg.
        unwraps (config_to_spec ''/bundle'' cfg) (\<lambda>spec.
        unwraps (encode spec Create) (\<lambda>buf.
        unwraps (decode buf) (\<lambda>(p, decoded). p = Create \<and> decoded = spec))))\<close>

definition absolute_rootfs_kept :: "config_parser \<Rightarrow> bool" where
  \<open>absolute_rootfs_kept parse \<longleftrightarrow>
     unwraps (parse ''{"process":{"args":["/x"]},"root":{"path":"/abs/root"}}'') (\<lambda>cfg.
        unwraps (config_to_spec ''/bundle'' cfg) (\<lambda>spec. sp_rootfs spec = ''/abs/root''))\<close>

definition missing_process_rejected :: "config_parser \<Rightarrow> bool" where
  \<open>missing_process_rejected parse \<longleftrightarrow>
     unwraps (parse ''{"root":{"path":"rootfs"}}'') (\<lambda>cfg.
        fails_with (config_to_spec ''/b'' cfg) (is_missing ''process''))\<close>

definition missing_args_rejected :: "config_parser \<Rightarrow> bool" where
  \<open>missing_args_rejected parse \<longleftrightarrow>
     unwraps (parse ''{"process":{"args":[]},"root":{"path":"r"}}'') (\<lambda>cfg.
        fails_with (config_to_spec ''/b'' cfg) (is_missing ''process.args''))\<close>

definition missing_root_rejected :: "config_parser \<Rightarrow> bool" where
  \<open>missing_root_rejected parse \<longleftrightarrow>
     unwraps (parse ''{"process":{"args":["/x"]}}'') (\<lambda>cfg.
        fails_with (config_to_spec ''/b'' cfg) (is_missing ''root''))\<close>

definition empty_capabilities_drops_all :: "config_parser \<Rightarrow> bool" where
  \<open>empty_capabilities_drops_all parse \<longleftrightarrow>
     unwraps (parse (''{"process":{"args":["/x"],"capabilities":{"bounding":[],"effective":[],''
        @ ''"permitted":[],"inheritable":[],"ambient":[]}},"root":{"path":"r"}}'')) (\<lambda>cfg.
        unwraps (config_to_spec ''/b'' cfg) (\<lambda>spec. 
          sp_caps_present spec \<and> sp_cap_bounding spec = 0 \<and> sp_cap_effective spec = 0))\<close>

definition no_capabilities_leaves_caps_untouched :: "config_parser \<Rightarrow> bool" where
  \<open>no_capabilities_leaves_caps_untouched parse \<longleftrightarrow>
     unwraps (parse ''{"process":{"args":["/x"]},"root":{"path":"r"}}'') (\<lambda>cfg.
        unwraps (config_to_spec ''/b'' cfg) (\<lambda>spec. \<not> sp_caps_present spec))\<close>

definition nonroot_cwd_rejected :: "config_parser \<Rightarrow> bool" where
  \<open>nonroot_cwd_rejected parse \<longleftrightarrow>
     unwraps (parse ''{"process":{"args":["/x"],"cwd":"/app"},"root":{"path":"r"}}'') (\<lambda>cfg.
        fails_with (config_to_spec ''/b'' cfg) is_unsupported_property)\<close>

definition root_cwd_accepted :: "config_parser \<Rightarrow> bool" where
  \<open>root_cwd_accepted parse \<longleftrightarrow>
     unwraps (parse ''{"process":{"args":["/x"],"cwd":"/"},"root":{"path":"r"}}'') (\<lambda>cfg.
        is_ok (config_to_spec ''/b'' cfg))\<close>

definition additional_gids_rejected :: "config_parser \<Rightarrow> bool" where
  \<open>additional_gids_rejected parse \<longleftrightarrow>
     unwraps (parse (''{"process":{"args":["/x"],"user":{"uid":0,"gid":0,"additionalGids":[10]}},''
        @ ''"root":{"path":"r"}}'')) (\<lambda>cfg.
        fails_with (config_to_spec ''/b'' cfg) is_unsupported_property)\<close>

definition terminal_rejected :: "config_parser \<Rightarrow> bool" where
  \<open>terminal_rejected parse \<longleftrightarrow>
     unwraps (parse ''{"process":{"args":["/x"],"terminal":true},"root":{"path":"r"}}'') (\<lambda>cfg.
        fails_with (config_to_spec ''/b'' cfg) is_unsupported_property)\<close>

definition unmodeled_property_rejected :: "config_parser \<Rightarrow> bool" where
  \<open>unmodeled_property_rejected parse \<longleftrightarrow>
     unwraps (parse (''{"process":{"args":["/x"]},"root":{"path":"r"},''
        @ ''"linux":{"rootfsPropagation":"private"}}'')) (\<lambda>cfg.
        fails_with (config_to_spec ''/b'' cfg) is_unsupported_property)\<close>

definition sysctl_applied_and_path_safe :: "config_parser \<Rightarrow> bool" where
  \<open>sysctl_applied_and_path_safe parse \<longleftrightarrow>
     unwraps (parse (''{"process":{"args":["/x"],"cwd":"/"},"root":{"path":"r"},''
        @ ''"linux":{"namespaces":[{"type":"network"}],''
        @ ''"sysctl":{"net.ipv4.ip_forward":"1"}}}'')) (\<lambda>cfg.
        unwraps (config_to_spec ''/b'' cfg) (\<lambda>spec. sp_sysctls spec = [''net/ipv4/ip_forward=1'']))
      \<and> unwraps (parse (''{"process":{"args":["/x"],"cwd":"/"},"root":{"path":"r"},''
        @ ''"linux":{"namespaces":[{"type":"ipc"}],"sysctl":{"kernel.shmmax":"4096"}}}'')) (\<lambda>cfg.
        unwraps (config_to_spec ''/b'' cfg) (\<lambda>spec. sp_sysctls spec = [''kernel/shmmax=4096'']))
      \<and> unwraps (parse (''{"process":{"args":["/x"],"cwd":"/"},"root":{"path":"r"},''
        @ ''"linux":{"namespaces":[{"type":"network"}],"sysctl":{"../secret":"x"}}}'')) (\<lambda>cfg.
        \<not> is_ok (config_to_spec ''/b'' cfg))
      \<and> unwraps (parse (''{"process":{"args":["/x"],"cwd":"/"},"root":{"path":"r"},''
        @ ''"linux":{"namespaces":[{"type":"ipc"}],"sysctl":{"kernel.sem":"a''
        @ [CHR 0x5C]
        @ ''nb"}}}'')) (\<lambda>cfg.
        \<not> is_ok (config_to_spec ''/b'' cfg))\<close>

definition sysctl_host_global_rejected :: "config_parser \<Rightarrow> bool" where
  \<open>sysctl_host_global_rejected parse \<longleftrightarrow>
     list_all (\<lambda>bad. unwraps (parse bad) (\<lambda>cfg.
        fails_with (config_to_spec ''/b'' cfg) is_unsupported_property))
      [''{"process":{"args":["/x"],"cwd":"/"},"root":{"path":"r"},''
        @ ''"linux":{"namespaces":[{"type":"network"},{"type":"ipc"}],''
        @ ''"sysctl":{"kernel.core_pattern":"|/evil"}}}'',
       ''{"process":{"args":["/x"],"cwd":"/"},"root":{"path":"r"},''
        @ ''"linux":{"namespaces":[{"type":"ipc"}],"sysctl":{"kernel.modprobe":"/evil"}}}'',
       ''{"process":{"args":["/x"],"cwd":"/"},"root":{"path":"r"},''
        @ ''"linux":{"sysctl":{"net.ipv4.ip_forward":"1"}}}'',
       ''{"process":{"args":["/x"],"cwd":"/"},"root":{"path":"r"},''
        @ ''"linux":{"sysctl":{"kernel.shmmax":"4096"}}}'']\<close>

definition unmodeled_resource_rejected :: "config_parser \<Rightarrow> bool" where
  \<open>unmodeled_resource_rejected parse \<longleftrightarrow>
     unwraps (parse (''{"process":{"args":["/x"]},"root":{"path":"r"},''
        @ ''"linux":{"resources":{"devices":[{"allow":false,"access":"rwm"}]}}}'')) (\<lambda>cfg.
        fails_with (config_to_spec ''/b'' cfg) is_unsupported_property)\<close>

definition id_mappings_translated :: "config_parser \<Rightarrow> bool" where
  \<open>id_mappings_translated parse \<longleftrightarrow>
     unwraps (parse (join_lines [
        ''{"process":{"args":["/x"]},"root":{"path":"r"},''
        @ ''"linux":{"namespaces":[{"type":"user"}],'',
        ''                "uidMappings":[{"containerID":0,"hostID":100000,''
        @ ''"size":65536}],'',
        ''                "gidMappings":[{"containerID":0,"hostID":100000,''
        @ ''"size":65536}]}}''])) (\<lambda>cfg.
        unwraps (config_to_spec ''/b'' cfg) (\<lambda>spec. 
          sp_namespaces spec AND NS_USER = NS_USER \<and> length (sp_uid_maps spec) = 1
          \<and> im_container_id (sp_uid_maps spec ! 0) = 0 \<and> im_host_id (sp_uid_maps spec ! 0) = 100000
          \<and> im_size (sp_uid_maps spec ! 0) = 65536
          \<and> length (sp_gid_maps spec) = 1 \<and> im_host_id (sp_gid_maps spec ! 0) = 100000))\<close>

definition id_mappings_without_user_namespace_rejected :: "config_parser \<Rightarrow> bool" where
  \<open>id_mappings_without_user_namespace_rejected parse \<longleftrightarrow>
     unwraps (parse (join_lines [
        ''{"process":{"args":["/x"]},"root":{"path":"r"},''
        @ ''"linux":{"namespaces":[{"type":"pid"}],'',
        ''                "uidMappings":[{"containerID":0,"hostID":100000,''
        @ ''"size":65536}]}}''])) (\<lambda>cfg.
        fails_with (config_to_spec ''/b'' cfg) is_unsupported)\<close>

definition id_mapping_size_zero_rejected :: "config_parser \<Rightarrow> bool" where
  \<open>id_mapping_size_zero_rejected parse \<longleftrightarrow>
     unwraps (parse (join_lines [
        ''{"process":{"args":["/x"]},"root":{"path":"r"},''
        @ ''"linux":{"namespaces":[{"type":"user"}],'',
        ''                "uidMappings":[{"containerID":0,"hostID":100000,"size":0}]}}''])) (\<lambda>cfg.
        fails_with (config_to_spec ''/b'' cfg) is_unsupported_property)\<close>

definition unsupported_mount_option_rejected :: "config_parser \<Rightarrow> bool" where
  \<open>unsupported_mount_option_rejected parse \<longleftrightarrow>
     unwraps (parse (''{"process":{"args":["/x"]},"root":{"path":"r"},''
        @ ''"mounts":[{"destination":"/tmp","type":"tmpfs","source":"tmpfs",''
        @ ''"options":["nosuid","size=64m"]}]}'')) (\<lambda>cfg.
        fails_with (config_to_spec ''/b'' cfg) is_unsupported_property)\<close>

definition mount_propagation_option_rejected :: "config_parser \<Rightarrow> bool" where
  \<open>mount_propagation_option_rejected parse \<longleftrightarrow>
     unwraps (parse (''{"process":{"args":["/x"]},"root":{"path":"r"},"mounts":[{"destination":"/d",''
        @ ''"type":"bind","source":"/s","options":["rbind","rprivate"]}]}'')) (\<lambda>cfg.
        fails_with (config_to_spec ''/b'' cfg) is_unsupported_property)\<close>

definition must_mount_option_flags_applied :: "config_parser \<Rightarrow> bool" where
  \<open>must_mount_option_flags_applied parse \<longleftrightarrow>
     unwraps (parse (''{"process":{"args":["/x"]},"root":{"path":"r"},"mounts":[{"destination":"/m",''
        @ ''"type":"tmpfs","source":"tmpfs","options":["defaults","nosuid","async",''
        @ ''"dirsync","lazytime","iversion"]}]}'')) (\<lambda>cfg.
        unwraps (config_to_spec ''/b'' cfg) (\<lambda>spec. 
          sp_mounts spec \<noteq> [] \<and> (let f = mt_flags (sp_mounts spec ! 0) in
          f AND 2 = 2 \<and> f AND 128 = 128 \<and> f AND push_bit 25 1 = push_bit 25 1
          \<and> f AND push_bit 23 1 = push_bit 23 1 \<and> f AND 16 = 0)))\<close>

definition unknown_struct_fields_rejected :: "config_parser \<Rightarrow> bool" where
  \<open>unknown_struct_fields_rejected parse \<longleftrightarrow>
     fails_with (parse (''{"process":{"args":["/x"],"user":{"uid":0,"gid":0,"umask":18}},''
        @ ''"root":{"path":"r"}}'')) is_json
      \<and> fails_with (parse (''{"process":{"args":["/x"]},"root":{"path":"r"},''
        @ ''"linux":{"resources":{"memory":{"limit":1024,"swap":2048}}}}'')) is_json
      \<and> fails_with (parse (''{"process":{"args":["/x"]},"root":{"path":"r"},"mounts":[{"destination":"/d",''
        @ ''"type":"bind","source":"/s","uidMappings":[{"containerID":0,"hostID":0,''
        @ ''"size":1}]}]}'')) is_json\<close>

definition seccomp_and_readonly_rootfs_rejected :: "config_parser \<Rightarrow> bool" where
  \<open>seccomp_and_readonly_rootfs_rejected parse \<longleftrightarrow>
     unwraps (parse (''{"process":{"args":["/x"],"cwd":"/"},"root":{"path":"r"},''
        @ ''"linux":{"seccomp":{"defaultAction":"SCMP_ACT_ALLOW"}}}'')) (\<lambda>cfg.
        fails_with (config_to_spec ''/b'' cfg) is_unsupported_property)
      \<and> unwraps (parse ''{"process":{"args":["/x"],"cwd":"/"},"root":{"path":"r","readonly":true}}'') (\<lambda>cfg.
        unwraps (config_to_spec ''/b'' cfg) (\<lambda>spec. sp_flags spec AND OPT_ROOTFS_RO \<noteq> 0))\<close>

definition parses_example_bundle :: "config_parser \<Rightarrow> bool" where
  \<open>parses_example_bundle parse \<longleftrightarrow>
     unwraps (parse example_bundle) (\<lambda>cfg.
        is_ok (config_to_spec ''/bundle'' cfg))\<close>

definition annotations_allowed :: "config_parser \<Rightarrow> bool" where
  \<open>annotations_allowed parse \<longleftrightarrow>
     unwraps (parse ''{"process":{"args":["/x"]},"root":{"path":"r"},"annotations":{"foo":"bar"}}'') (\<lambda>cfg.
        is_ok (config_to_spec ''/b'' cfg))\<close>

definition unknown_capability_rejected :: "config_parser \<Rightarrow> bool" where
  \<open>unknown_capability_rejected parse \<longleftrightarrow>
     unwraps (parse (''{"process":{"args":["/x"],"capabilities":{"bounding":["CAP_BOGUS"]}},''
        @ ''"root":{"path":"r"}}'')) (\<lambda>cfg.
        fails_with (config_to_spec ''/b'' cfg) is_unknown_capability)\<close>

definition time_namespace_unsupported :: "config_parser \<Rightarrow> bool" where
  \<open>time_namespace_unsupported parse \<longleftrightarrow>
     unwraps (parse (''{"process":{"args":["/x"]},"root":{"path":"r"},''
        @ ''"linux":{"namespaces":[{"type":"time"}]}}'')) (\<lambda>cfg.
        fails_with (config_to_spec ''/b'' cfg) is_unsupported)\<close>

definition joining_namespace_path_unsupported :: "config_parser \<Rightarrow> bool" where
  \<open>joining_namespace_path_unsupported parse \<longleftrightarrow>
     unwraps (parse (''{"process":{"args":["/x"]},"root":{"path":"r"},''
        @ ''"linux":{"namespaces":[{"type":"net","path":"/proc/1/ns/net"}]}}'')) (\<lambda>cfg.
        fails_with (config_to_spec ''/b'' cfg) is_unsupported)\<close>

definition cap_table_is_consistent :: "config_parser \<Rightarrow> bool" where
  \<open>cap_table_is_consistent _ \<longleftrightarrow>
     cap_bit ''CAP_SYS_ADMIN'' = Some 21 \<and> cap_bit ''CAP_CHOWN'' = Some 0
      \<and> cap_bit ''CAP_CHECKPOINT_RESTORE'' = Some 40 \<and> cap_bit ''nope'' = None\<close>

definition invalid_json_rejected :: "config_parser \<Rightarrow> bool" where
  \<open>invalid_json_rejected parse \<longleftrightarrow>
     fails_with (parse ''{not json'') is_json\<close>

definition cgroup_config_extracted :: "config_parser \<Rightarrow> bool" where
  \<open>cgroup_config_extracted parse \<longleftrightarrow>
     unwraps (parse (join_lines [
        ''{"process":{"args":["/x"]},"root":{"path":"r"},'',
        ''                "linux":{"cgroupsPath":"krunc/c1",''
        @ ''"resources":{"pids":{"limit":64},'',
        ''                "memory":{"limit":33554432},"cpu":{"quota":20000,''
        @ ''"period":100000,"shares":512}}}}''])) (\<lambda>cfg.
        let cg = cgroup_config_of cfg in
        cg_path cg = Some ''krunc/c1'' \<and> cg_pids_limit cg = Some 64
        \<and> cg_memory_limit cg = Some 33554432 \<and> cg_cpu_max cg = Some ''20000 100000''
        \<and> (case cg_cpu_weight cg of Some w \<Rightarrow> 1 \<le> w \<and> w \<le> 10000 | None \<Rightarrow> False))\<close>

definition cgroup_negative_memory_is_unlimited :: "config_parser \<Rightarrow> bool" where
  \<open>cgroup_negative_memory_is_unlimited parse \<longleftrightarrow>
     unwraps (parse (join_lines [
        ''{"process":{"args":["/x"]},"root":{"path":"r"},'',
        ''                "linux":{"resources":{"memory":{"limit":-1}}}}''])) (\<lambda>cfg.
        cg_memory_limit (cgroup_config_of cfg) = None)\<close>

definition cgroup_config_absent :: "config_parser \<Rightarrow> bool" where
  \<open>cgroup_config_absent parse \<longleftrightarrow>
     unwraps (parse ''{"process":{"args":["/x"]},"root":{"path":"r"}}'') (\<lambda>cfg.
        cgroup_config_of cfg = \<lparr>cg_path = None, cg_pids_limit = None,
          cg_memory_limit = None, cg_cpu_max = None, cg_cpu_weight = None\<rparr>)\<close>

definition bpf_lsm_annotation_parsed :: "config_parser \<Rightarrow> bool" where
  \<open>bpf_lsm_annotation_parsed parse \<longleftrightarrow>
     unwraps (parse ''{"process":{"args":["/x"]},"root":{"path":"r"}}'') (\<lambda>cfg.
        bpf_lsm_mode_of cfg = Ok None)
      \<and> unwraps (parse (''{"process":{"args":["/x"]},"root":{"path":"r"},''
        @ ''"annotations":{"org.krunc.bpf-lsm":"block"}}'')) (\<lambda>cfg.
        bpf_lsm_mode_of cfg = Ok (Some Block) \<and> as_arg Block = ''block'')
      \<and> unwraps (parse (''{"process":{"args":["/x"]},"root":{"path":"r"},''
        @ ''"annotations":{"org.krunc.bpf-lsm":"kill"}}'')) (\<lambda>cfg.
        bpf_lsm_mode_of cfg = Ok (Some Kill))
      \<and> unwraps (parse (''{"process":{"args":["/x"]},"root":{"path":"r"},''
        @ ''"annotations":{"org.krunc.bpf-lsm":"on"}}'')) (\<lambda>cfg.
        \<not> is_ok (bpf_lsm_mode_of cfg))\<close>

definition annotations_do_not_trip_unknown_field_rejection :: "config_parser \<Rightarrow> bool" where
  \<open>annotations_do_not_trip_unknown_field_rejection parse \<longleftrightarrow>
     unwraps (parse (''{"process":{"args":["/x"]},"root":{"path":"rootfs"},''
        @ ''"annotations":{"com.example/foo":"bar"}}'')) (\<lambda>cfg.
        is_ok (config_to_spec ''/b'' cfg))\<close>

definition oci_unit_tests :: "(config_parser \<Rightarrow> bool) list" where
  "oci_unit_tests = [
     translates_sample,
     translated_spec_round_trips_through_abi,
     absolute_rootfs_kept,
     missing_process_rejected,
     missing_args_rejected,
     missing_root_rejected,
     empty_capabilities_drops_all,
     no_capabilities_leaves_caps_untouched,
     nonroot_cwd_rejected,
     root_cwd_accepted,
     additional_gids_rejected,
     terminal_rejected,
     unmodeled_property_rejected,
     sysctl_applied_and_path_safe,
     sysctl_host_global_rejected,
     unmodeled_resource_rejected,
     id_mappings_translated,
     id_mappings_without_user_namespace_rejected,
     id_mapping_size_zero_rejected,
     unsupported_mount_option_rejected,
     mount_propagation_option_rejected,
     must_mount_option_flags_applied,
     unknown_struct_fields_rejected,
     seccomp_and_readonly_rootfs_rejected,
     parses_example_bundle,
     annotations_allowed,
     unknown_capability_rejected,
     time_namespace_unsupported,
     joining_namespace_path_unsupported,
     cap_table_is_consistent,
     invalid_json_rejected,
     cgroup_config_extracted,
     cgroup_negative_memory_is_unlimited,
     cgroup_config_absent,
     bpf_lsm_annotation_parsed,
     annotations_do_not_trip_unknown_field_rejection]"

section \<open>Evaluating a test\<close>

text \<open>
  What a text is accepted as is computed by the reader of the grammar; a conforming parser
  returns just that, as the maps of the configurations of the tests have at most one entry.
\<close>

definition reads_as :: "string \<Rightarrow> (oci_config \<Rightarrow> bool) \<Rightarrow> bool" where
  "reads_as s p \<longleftrightarrow>
     (case json_config s of Accepted c \<Rightarrow> few_entries c \<and> p c | _ \<Rightarrow> False)"

definition refused :: "string \<Rightarrow> bool" where
  "refused s \<longleftrightarrow> (case json_config s of Rejected \<Rightarrow> True | _ \<Rightarrow> False)"

lemma unwraps_reads:
  assumes "conforms parse" "reads_as s p"
  shows "unwraps (parse s) p"
  using assms by (auto simp: reads_as_def dest: conforms_Ok split: verdict.splits)

lemma reads_asI: "json_config s = Accepted c \<Longrightarrow> few_entries c \<Longrightarrow> p c \<Longrightarrow> reads_as s p"
  by (simp add: reads_as_def)

lemma reads_as_mono: "reads_as s p \<Longrightarrow> (\<And>c. p c \<Longrightarrow> q c) \<Longrightarrow> reads_as s q"
  by (auto simp: reads_as_def split: verdict.splits)

lemma unwraps_mono: "unwraps r p \<Longrightarrow> (\<And>x. p x \<Longrightarrow> q x) \<Longrightarrow> unwraps r q"
  by (auto simp: unwraps_iff)

lemma fails_refused:
  assumes "conforms parse" "refused s"
  shows "fails_with (parse s) is_json"
  using conformsD(2) [OF assms(1)] assms(2) by (fastforce simp: refused_def split: verdict.splits)

lemmas in_pieces = reads_as_def refused_def json_config_def SAMPLE_def example_bundle_def piecewise

text \<open>
  The limits of \<open>validate\<close> are far above what the tests use: comparing with a smaller number
  first keeps the evaluation short.
\<close>

definition well_below_limits :: "domain_spec \<Rightarrow> bool" where
  "well_below_limits s \<longleftrightarrow>
     drop 50 (sp_rootfs s) = [] \<and> drop 50 (sp_hostname s) = []
     \<and> list_all (\<lambda>a. drop 50 a = []) (sp_argv s) \<and> list_all (\<lambda>a. drop 50 a = []) (sp_env s)
     \<and> drop 20 (sp_argv s) = [] \<and> drop 20 (sp_env s) = [] \<and> drop 20 (sp_uid_maps s) = []
     \<and> drop 20 (sp_gid_maps s) = [] \<and> drop 20 (sp_masked_paths s) = []
     \<and> drop 20 (sp_readonly_paths s) = [] \<and> drop 20 (sp_rlimits s) = []
     \<and> drop 20 (sp_mounts s) = [] \<and> drop 20 (sp_sysctls s) = []"

definition validate_in_full :: "domain_spec \<Rightarrow> abi_error + unit" where
  "validate_in_full s = validate s"

lemma validate_code [code]:
  "validate s = (if well_below_limits s then Ok () else validate_in_full s)"
proof -
  have *: "list_all (\<lambda>a. drop 50 a = []) xs \<Longrightarrow> list_all (\<lambda>a. length a \<le> 4096) xs" for xs :: "string list"
    by (erule list.pred_mono_strong) simp
  have "well_below_limits s \<Longrightarrow> checked_bounds s"
    by (simp add: well_below_limits_def checked_bounds_def abi_max_defs *)
  then show ?thesis by (simp add: validate_in_full_def validate_Ok_iff)
qed

lemmas validate_in_full_code [code] = validate_def [folded validate_in_full_def]

text \<open>A short specification of ASCII strings, as an evaluation can check it.\<close>

definition short_ascii :: "string \<Rightarrow> bool" where
  "short_ascii s \<longleftrightarrow> drop 24 s = [] \<and> list_all (\<lambda>c. \<not> digit7 c) s"

definition short_list :: "string list \<Rightarrow> bool" where
  "short_list xs \<longleftrightarrow> drop 4 xs = [] \<and> list_all short_ascii xs"

definition short_spec :: "domain_spec \<Rightarrow> bool" where
  "short_spec s \<longleftrightarrow> sp_caps_present s \<and> sp_rootfs s \<noteq> [] \<and> sp_argv s \<noteq> []
     \<and> short_ascii (sp_rootfs s) \<and> short_ascii (sp_hostname s) \<and> short_list (sp_argv s)
     \<and> short_list (sp_env s) \<and> short_list (sp_masked_paths s) \<and> short_list (sp_readonly_paths s)
     \<and> short_list (sp_sysctls s) \<and> drop 2 (sp_uid_maps s) = [] \<and> drop 2 (sp_gid_maps s) = []
     \<and> drop 2 (sp_rlimits s) = [] \<and> drop 4 (sp_mounts s) = []
     \<and> list_all (\<lambda>m. short_ascii (mt_destination m) \<and> short_ascii (mt_fs_type m)
          \<and> short_ascii (mt_source m)) (sp_mounts s)"

lemma short_asciiD:
  assumes "short_ascii s"
  shows "wf_str s" "length s \<le> 24"
proof -
  have "of_char c < (128 :: nat)" if "\<not> digit7 c" for c :: char
    using that by (cases c) (simp add: of_char_def)
  then have "list_all (\<lambda>c. of_char c < (128 :: nat)) s"
    using assms by (auto simp: short_ascii_def list_all_iff)
  then show "wf_str s" by (rule wf_str_ascii)
qed (use assms in \<open>simp add: short_ascii_def\<close>)

lemma short_listD: "short_list xs \<Longrightarrow> small_strings xs"
  by (auto simp: short_list_def small_strings_def list_all_iff dest: short_asciiD)

lemma short_spec_small: "short_spec s \<Longrightarrow> small_spec s"
  by (auto simp: short_spec_def small_spec_def canonical_caps_def small_mount_def wf_mount_def
      list_all_iff dest: short_asciiD short_listD)

lemma sample_translation:
  "reads_as SAMPLE (\<lambda>cfg. unwraps (config_to_spec ''/bundle'' cfg) (\<lambda>spec. short_spec spec \<and>
          sp_rootfs spec = ''/bundle/rootfs'' \<and> sp_hostname spec = ''oci-demo''
          \<and> sp_argv spec = [''/bin/sh'', ''/init.sh'']
          \<and> sp_env spec = [''PATH=/bin:/sbin'', ''TERM=linux'']
          \<and> sp_namespaces spec = NS_PID OR NS_MOUNT OR NS_UTS OR NS_IPC OR NS_NET
          \<and> sp_flags spec = OPT_NO_NEW_PRIVS
          \<and> sp_uid_maps spec = [] \<and> sp_gid_maps spec = []
          \<and> sp_caps_present spec
          \<and> sp_cap_bounding spec = push_bit 10 1 OR push_bit 5 1 OR push_bit 29 1
          \<and> sp_cap_effective spec = push_bit 5 1
          \<and> sp_cap_permitted spec = 0 \<and> sp_cap_inheritable spec = 0 \<and> sp_cap_ambient spec = 0
          \<and> sp_masked_paths spec = [''/proc/kcore'', ''/proc/sysrq-trigger'']
          \<and> sp_readonly_paths spec = [''/proc/sys'', ''/bin'']
          \<and> sp_rlimits spec = [\<lparr>rl_resource = 7, rl_soft = 1024, rl_hard = 4096\<rparr>,
              \<lparr>rl_resource = 4, rl_soft = 0, rl_hard = 0\<rparr>]
          \<and> sp_oom_score_adj spec = Some (- 500)
          \<and> sp_uid spec = 65534 \<and> sp_gid spec = 65534
          \<and> length (sp_mounts spec) = 3
          \<and> mt_destination (sp_mounts spec ! 0) = ''/proc''
          \<and> mt_fs_type (sp_mounts spec ! 0) = ''proc''
          \<and> mt_destination (sp_mounts spec ! 1) = ''/tmp''
          \<and> mt_flags (sp_mounts spec ! 1) = 2 OR 4 OR 8
          \<and> mt_fs_type (sp_mounts spec ! 2) = []
          \<and> mt_flags (sp_mounts spec ! 2) = 4096 OR 16384 OR 1))"
  unfolding in_pieces by code_simp

lemma oci_translates_sample:
  assumes "conforms parse"
  shows "translates_sample parse"
  unfolding translates_sample_def
  by (rule unwraps_reads [OF assms], rule reads_as_mono [OF sample_translation],
      erule unwraps_mono) blast

lemma oci_translated_spec_round_trips_through_abi:
  assumes "conforms parse"
  shows "translated_spec_round_trips_through_abi parse"
  unfolding translated_spec_round_trips_through_abi_def
proof (rule unwraps_reads [OF assms], rule reads_as_mono [OF sample_translation], erule unwraps_mono)
  fix spec
  assume "short_spec spec \<and> sp_rootfs spec = ''/bundle/rootfs'' \<and> sp_hostname spec = ''oci-demo''
          \<and> sp_argv spec = [''/bin/sh'', ''/init.sh'']
          \<and> sp_env spec = [''PATH=/bin:/sbin'', ''TERM=linux'']
          \<and> sp_namespaces spec = NS_PID OR NS_MOUNT OR NS_UTS OR NS_IPC OR NS_NET
          \<and> sp_flags spec = OPT_NO_NEW_PRIVS
          \<and> sp_uid_maps spec = [] \<and> sp_gid_maps spec = []
          \<and> sp_caps_present spec
          \<and> sp_cap_bounding spec = push_bit 10 1 OR push_bit 5 1 OR push_bit 29 1
          \<and> sp_cap_effective spec = push_bit 5 1
          \<and> sp_cap_permitted spec = 0 \<and> sp_cap_inheritable spec = 0 \<and> sp_cap_ambient spec = 0
          \<and> sp_masked_paths spec = [''/proc/kcore'', ''/proc/sysrq-trigger'']
          \<and> sp_readonly_paths spec = [''/proc/sys'', ''/bin'']
          \<and> sp_rlimits spec = [\<lparr>rl_resource = 7, rl_soft = 1024, rl_hard = 4096\<rparr>,
              \<lparr>rl_resource = 4, rl_soft = 0, rl_hard = 0\<rparr>]
          \<and> sp_oom_score_adj spec = Some (- 500)
          \<and> sp_uid spec = 65534 \<and> sp_gid spec = 65534
          \<and> length (sp_mounts spec) = 3
          \<and> mt_destination (sp_mounts spec ! 0) = ''/proc''
          \<and> mt_fs_type (sp_mounts spec ! 0) = ''proc''
          \<and> mt_destination (sp_mounts spec ! 1) = ''/tmp''
          \<and> mt_flags (sp_mounts spec ! 1) = 2 OR 4 OR 8
          \<and> mt_fs_type (sp_mounts spec ! 2) = []
          \<and> mt_flags (sp_mounts spec ! 2) = 4096 OR 16384 OR 1"
  then have "small_spec spec" by (intro short_spec_small) blast
  then show "unwraps (encode spec Create) (\<lambda>buf.
      unwraps (decode buf) (\<lambda>(p, decoded). p = Create \<and> decoded = spec))"
    by (rule small_round_trips [of _ Create]) simp
qed

lemma oci_absolute_rootfs_kept:
  assumes "conforms parse"
  shows "absolute_rootfs_kept parse"
  unfolding absolute_rootfs_kept_def
  by ((intro conjI)?; (rule unwraps_reads [OF assms], unfold in_pieces, code_simp))

lemma oci_missing_process_rejected:
  assumes "conforms parse"
  shows "missing_process_rejected parse"
  unfolding missing_process_rejected_def
  by ((intro conjI)?; (rule unwraps_reads [OF assms], unfold in_pieces, code_simp))

lemma oci_missing_args_rejected:
  assumes "conforms parse"
  shows "missing_args_rejected parse"
  unfolding missing_args_rejected_def
  by ((intro conjI)?; (rule unwraps_reads [OF assms], unfold in_pieces, code_simp))

lemma oci_missing_root_rejected:
  assumes "conforms parse"
  shows "missing_root_rejected parse"
  unfolding missing_root_rejected_def
  by ((intro conjI)?; (rule unwraps_reads [OF assms], unfold in_pieces, code_simp))

lemma oci_empty_capabilities_drops_all:
  assumes "conforms parse"
  shows "empty_capabilities_drops_all parse"
  unfolding empty_capabilities_drops_all_def
  by ((intro conjI)?; (rule unwraps_reads [OF assms], unfold in_pieces, code_simp))

lemma oci_no_capabilities_leaves_caps_untouched:
  assumes "conforms parse"
  shows "no_capabilities_leaves_caps_untouched parse"
  unfolding no_capabilities_leaves_caps_untouched_def
  by ((intro conjI)?; (rule unwraps_reads [OF assms], unfold in_pieces, code_simp))

lemma oci_nonroot_cwd_rejected:
  assumes "conforms parse"
  shows "nonroot_cwd_rejected parse"
  unfolding nonroot_cwd_rejected_def
  by ((intro conjI)?; (rule unwraps_reads [OF assms], unfold in_pieces, code_simp))

lemma oci_root_cwd_accepted:
  assumes "conforms parse"
  shows "root_cwd_accepted parse"
  unfolding root_cwd_accepted_def
  by ((intro conjI)?; (rule unwraps_reads [OF assms], unfold in_pieces, code_simp))

lemma oci_additional_gids_rejected:
  assumes "conforms parse"
  shows "additional_gids_rejected parse"
  unfolding additional_gids_rejected_def
  by ((intro conjI)?; (rule unwraps_reads [OF assms], unfold in_pieces, code_simp))

lemma oci_terminal_rejected:
  assumes "conforms parse"
  shows "terminal_rejected parse"
  unfolding terminal_rejected_def
  by ((intro conjI)?; (rule unwraps_reads [OF assms], unfold in_pieces, code_simp))

lemma oci_unmodeled_property_rejected:
  assumes "conforms parse"
  shows "unmodeled_property_rejected parse"
  unfolding unmodeled_property_rejected_def
  by ((intro conjI)?; (rule unwraps_reads [OF assms], unfold in_pieces, code_simp))

lemma oci_sysctl_applied_and_path_safe:
  assumes "conforms parse"
  shows "sysctl_applied_and_path_safe parse"
  unfolding sysctl_applied_and_path_safe_def
  by ((intro conjI)?; (rule unwraps_reads [OF assms], unfold in_pieces, code_simp))

lemma oci_sysctl_host_global_rejected:
  assumes "conforms parse"
  shows "sysctl_host_global_rejected parse"
  unfolding sysctl_host_global_rejected_def list_all_Cons_iff list_all_Nil_iff
  by (intro conjI; (rule TrueI | rule unwraps_reads [OF assms], unfold in_pieces, code_simp))

lemma oci_unmodeled_resource_rejected:
  assumes "conforms parse"
  shows "unmodeled_resource_rejected parse"
  unfolding unmodeled_resource_rejected_def
  by ((intro conjI)?; (rule unwraps_reads [OF assms], unfold in_pieces, code_simp))

lemma oci_id_mappings_translated:
  assumes "conforms parse"
  shows "id_mappings_translated parse"
  unfolding id_mappings_translated_def
  by ((intro conjI)?; (rule unwraps_reads [OF assms], unfold in_pieces, code_simp))

lemma oci_id_mappings_without_user_namespace_rejected:
  assumes "conforms parse"
  shows "id_mappings_without_user_namespace_rejected parse"
  unfolding id_mappings_without_user_namespace_rejected_def
  by ((intro conjI)?; (rule unwraps_reads [OF assms], unfold in_pieces, code_simp))

lemma oci_id_mapping_size_zero_rejected:
  assumes "conforms parse"
  shows "id_mapping_size_zero_rejected parse"
  unfolding id_mapping_size_zero_rejected_def
  by ((intro conjI)?; (rule unwraps_reads [OF assms], unfold in_pieces, code_simp))

lemma oci_unsupported_mount_option_rejected:
  assumes "conforms parse"
  shows "unsupported_mount_option_rejected parse"
  unfolding unsupported_mount_option_rejected_def
  by ((intro conjI)?; (rule unwraps_reads [OF assms], unfold in_pieces, code_simp))

lemma oci_mount_propagation_option_rejected:
  assumes "conforms parse"
  shows "mount_propagation_option_rejected parse"
  unfolding mount_propagation_option_rejected_def
  by ((intro conjI)?; (rule unwraps_reads [OF assms], unfold in_pieces, code_simp))

lemma oci_must_mount_option_flags_applied:
  assumes "conforms parse"
  shows "must_mount_option_flags_applied parse"
  unfolding must_mount_option_flags_applied_def
  by ((intro conjI)?; (rule unwraps_reads [OF assms], unfold in_pieces, code_simp))

lemma oci_unknown_struct_fields_rejected:
  assumes "conforms parse"
  shows "unknown_struct_fields_rejected parse"
  unfolding unknown_struct_fields_rejected_def
  by ((intro conjI)?; (rule fails_refused [OF assms], unfold in_pieces, code_simp))

lemma oci_seccomp_and_readonly_rootfs_rejected:
  assumes "conforms parse"
  shows "seccomp_and_readonly_rootfs_rejected parse"
  unfolding seccomp_and_readonly_rootfs_rejected_def
  by ((intro conjI)?; (rule unwraps_reads [OF assms], unfold in_pieces, code_simp))

lemma oci_parses_example_bundle:
  assumes "conforms parse"
  shows "parses_example_bundle parse"
  unfolding parses_example_bundle_def
  by ((intro conjI)?; (rule unwraps_reads [OF assms], unfold in_pieces, code_simp))

lemma oci_annotations_allowed:
  assumes "conforms parse"
  shows "annotations_allowed parse"
  unfolding annotations_allowed_def
  by ((intro conjI)?; (rule unwraps_reads [OF assms], unfold in_pieces, code_simp))

lemma oci_unknown_capability_rejected:
  assumes "conforms parse"
  shows "unknown_capability_rejected parse"
  unfolding unknown_capability_rejected_def
  by ((intro conjI)?; (rule unwraps_reads [OF assms], unfold in_pieces, code_simp))

lemma oci_time_namespace_unsupported:
  assumes "conforms parse"
  shows "time_namespace_unsupported parse"
  unfolding time_namespace_unsupported_def
  by ((intro conjI)?; (rule unwraps_reads [OF assms], unfold in_pieces, code_simp))

lemma oci_joining_namespace_path_unsupported:
  assumes "conforms parse"
  shows "joining_namespace_path_unsupported parse"
  unfolding joining_namespace_path_unsupported_def
  by ((intro conjI)?; (rule unwraps_reads [OF assms], unfold in_pieces, code_simp))

lemma oci_cap_table_is_consistent: "cap_table_is_consistent parse"
  unfolding cap_table_is_consistent_def by code_simp

lemma oci_invalid_json_rejected:
  assumes "conforms parse"
  shows "invalid_json_rejected parse"
  unfolding invalid_json_rejected_def
  by ((intro conjI)?; (rule fails_refused [OF assms], unfold in_pieces, code_simp))

lemma oci_cgroup_config_extracted:
  assumes "conforms parse"
  shows "cgroup_config_extracted parse"
  unfolding cgroup_config_extracted_def
proof (rule unwraps_reads [OF assms], rule reads_asI)
  show \<open>json_config (join_lines [
        ''{"process":{"args":["/x"]},"root":{"path":"r"},'',
        ''                "linux":{"cgroupsPath":"krunc/c1",''
        @ ''"resources":{"pids":{"limit":64},'',
        ''                "memory":{"limit":33554432},"cpu":{"quota":20000,''
        @ ''"period":100000,"shares":512}}}}'']) = Accepted \<lparr>oc_hostname = None,
      oc_process = Some \<lparr>pr_terminal = False, pr_args = [''/x''], pr_env = [], pr_cwd = None,
        pr_user = None, pr_capabilities = None, pr_no_new_privileges = False, pr_rlimits = [],
        pr_oom_score_adj = None, pr_extra = []\<rparr>,
      oc_root = Some \<lparr>rt_path = ''r'', rt_readonly = False\<rparr>,
      oc_linux = Some \<lparr>lx_namespaces = [], lx_uid_mappings = [], lx_gid_mappings = [],
        lx_resources = Some \<lparr>rs_pids = Some 64, rs_memory = Some (Some 33554432),
          rs_cpu = Some \<lparr>cu_quota = Some 20000, cu_period = Some 100000, cu_shares = Some 512\<rparr>,
          rs_extra = []\<rparr>,
        lx_cgroups_path = Some ''krunc/c1'', lx_masked_paths = [], lx_readonly_paths = [],
        lx_sysctl = [], lx_extra = []\<rparr>,
      oc_mounts = [], oc_annotations = [], oc_extra = []\<rparr>\<close>
    unfolding in_pieces by code_simp
qed (simp_all add: few_entries_def few_linux_def all_of_def cgroup_config_of_def shares_to_weight_def
    clamp_def dec_str_def dec_int_def of_bytes_def dec_nat.simps
    char_of_eq_iff)

lemma oci_cgroup_negative_memory_is_unlimited:
  assumes "conforms parse"
  shows "cgroup_negative_memory_is_unlimited parse"
  unfolding cgroup_negative_memory_is_unlimited_def
  by ((intro conjI)?; (rule unwraps_reads [OF assms], unfold in_pieces, code_simp))

lemma oci_cgroup_config_absent:
  assumes "conforms parse"
  shows "cgroup_config_absent parse"
  unfolding cgroup_config_absent_def
  by ((intro conjI)?; (rule unwraps_reads [OF assms], unfold in_pieces, code_simp))

lemma oci_bpf_lsm_annotation_parsed:
  assumes "conforms parse"
  shows "bpf_lsm_annotation_parsed parse"
  unfolding bpf_lsm_annotation_parsed_def
  by ((intro conjI)?; (rule unwraps_reads [OF assms], unfold in_pieces, code_simp))

lemma oci_annotations_do_not_trip_unknown_field_rejection:
  assumes "conforms parse"
  shows "annotations_do_not_trip_unknown_field_rejection parse"
  unfolding annotations_do_not_trip_unknown_field_rejection_def
  by ((intro conjI)?; (rule unwraps_reads [OF assms], unfold in_pieces, code_simp))

lemmas oci_tests_pass =
  oci_translates_sample
  oci_translated_spec_round_trips_through_abi
  oci_absolute_rootfs_kept
  oci_missing_process_rejected
  oci_missing_args_rejected
  oci_missing_root_rejected
  oci_empty_capabilities_drops_all
  oci_no_capabilities_leaves_caps_untouched
  oci_nonroot_cwd_rejected
  oci_root_cwd_accepted
  oci_additional_gids_rejected
  oci_terminal_rejected
  oci_unmodeled_property_rejected
  oci_sysctl_applied_and_path_safe
  oci_sysctl_host_global_rejected
  oci_unmodeled_resource_rejected
  oci_id_mappings_translated
  oci_id_mappings_without_user_namespace_rejected
  oci_id_mapping_size_zero_rejected
  oci_unsupported_mount_option_rejected
  oci_mount_propagation_option_rejected
  oci_must_mount_option_flags_applied
  oci_unknown_struct_fields_rejected
  oci_seccomp_and_readonly_rootfs_rejected
  oci_parses_example_bundle
  oci_annotations_allowed
  oci_unknown_capability_rejected
  oci_time_namespace_unsupported
  oci_joining_namespace_path_unsupported
  oci_cap_table_is_consistent
  oci_invalid_json_rejected
  oci_cgroup_config_extracted
  oci_cgroup_negative_memory_is_unlimited
  oci_cgroup_config_absent
  oci_bpf_lsm_annotation_parsed
  oci_annotations_do_not_trip_unknown_field_rejection

text \<open>
The unit tests of the configuration crate. With any parser that conforms to the grammar and to the
attributes of the structures, the tests of the list above pass on the model, from the text of the
configuration to the assertion. The randomized test of the pipeline is in \<open>Oci_Fuzz\<close>; the one that
feeds arbitrary bytes to see that nothing panics is left out, since a function of the model is total.
\<close>

theorem oci_unit_tests_pass:
  assumes "conforms parse"
  shows "list_all (\<lambda>t. t parse) oci_unit_tests"
  using assms unfolding oci_unit_tests_def by (simp add: oci_tests_pass)

theorem oci_unit_tests_pass_witness: "list_all (\<lambda>t. t reference_parse) oci_unit_tests"
  by (rule oci_unit_tests_pass [OF reference_conforms])

end
