(* ===== verification/Cli_Args.thy ===== *)
theory Cli_Args
  imports Rust_Std
begin

text \<open>
  \<open>userspace/krunc-cli/src/main.rs\<close>, the pure parts of the command line tool: the argument
  parser, signal names, status names and the decoding of wait statuses.
\<close>

section \<open>Arguments\<close>

definition valued_flags :: "string list" where
  "valued_flags = [''--root'', ''--log'', ''--log-format'', ''--criu'', ''--rootless'',
     ''--bundle'', ''-b'', ''--pid-file'', ''--console-socket'', ''--preserve-fds'',
     ''--process'', ''--pid'', ''--image'', ''--rootfs'', ''--name'']"

text \<open>The loop of \<open>parse_args\<close>; a \<open>HashMap\<close> is a map, of which only lookups are used.\<close>

fun parse_loop :: "string list \<Rightarrow> (string \<rightharpoonup> string) \<Rightarrow> string list \<Rightarrow>
    (string \<rightharpoonup> string) \<times> string list" where
  "parse_loop [] flags pos = (flags, pos)"
| "parse_loop (a # rest) flags pos =
     (if a = ''--'' then (flags, pos @ rest)
      else if starts_with a ''-'' then
        (case position (\<lambda>c. c = CHR ''='') a of
           Some eq \<Rightarrow> parse_loop rest (flags(take eq a \<mapsto> drop (eq + 1) a)) pos
         | None \<Rightarrow>
             if a \<in> set valued_flags \<and> rest \<noteq> [] then
               (case rest of v # rest' \<Rightarrow> parse_loop rest' (flags(a \<mapsto> v)) pos | [] \<Rightarrow> (flags, pos))
             else parse_loop rest (flags(a \<mapsto> ''true'')) pos)
      else parse_loop rest flags (pos @ [a]))"

definition parse_args :: "string list \<Rightarrow> (string \<rightharpoonup> string) \<times> string list" where
  "parse_args args =
     (let (flags, pos) = parse_loop args Map.empty [] in
      (case flags ''-b'' of Some b \<Rightarrow> flags(''--bundle'' \<mapsto> b) | None \<Rightarrow> flags, pos))"

section \<open>Numbers and upper case\<close>

text \<open>\<open>str::parse::<i32>\<close>: an optional sign, then decimal digits, in the range of the type.\<close>

definition is_digit :: "char \<Rightarrow> bool" where
  "is_digit c = (let n = of_char c :: nat in 48 \<le> n \<and> n \<le> 57)"

definition digits_value :: "string \<Rightarrow> int" where
  "digits_value ds = foldl (\<lambda>v c. v * 10 + (int (of_char c) - 48)) 0 ds"

definition from_str_i32 :: "string \<Rightarrow> int option" where
  "from_str_i32 s =
     (let (neg, digits) =
        (case s of c # rest \<Rightarrow>
           if c = CHR ''-'' then (True, rest) else if c = CHR ''+'' then (False, rest) else (False, s)
         | [] \<Rightarrow> (False, s));
        v = (if neg then - digits_value digits else digits_value digits) in
      if digits \<noteq> [] \<and> list_all is_digit digits \<and> - (2 ^ 31) \<le> v \<and> v < 2 ^ 31 then Some v
      else None)"

text \<open>
  \<open>str::to_uppercase\<close>, as far as its result can be ASCII: the ASCII letters, and the letters
  whose upper case is ASCII (dotless i, long s, sharp s and the Latin ligatures, in UTF-8). All
  others are left as they are; neither they nor their upper case are ASCII.
\<close>

definition upper_pair :: "nat \<Rightarrow> nat \<Rightarrow> string option" where
  "upper_pair a b =
     (if a = 0xC4 \<and> b = 0xB1 then Some ''I''
      else if a = 0xC5 \<and> b = 0xBF then Some ''S''
      else if a = 0xC3 \<and> b = 0x9F then Some ''SS''
      else None)"

definition upper_ligature :: "nat \<Rightarrow> nat \<Rightarrow> nat \<Rightarrow> string option" where
  "upper_ligature a b c =
     (if a = 0xEF \<and> b = 0xAC then
        map_of [(0x80, ''FF''), (0x81, ''FI''), (0x82, ''FL''), (0x83, ''FFI''), (0x84, ''FFL''),
          (0x85, ''ST''), (0x86, ''ST'')] c
      else None)"

fun to_uppercase :: "string \<Rightarrow> string" where
  "to_uppercase [] = []"
| "to_uppercase (a # s) =
     (if 97 \<le> (of_char a :: nat) \<and> (of_char a :: nat) \<le> 122
      then char_of ((of_char a :: nat) - 32) # to_uppercase s
      else (case s of
          [] \<Rightarrow> [a]
        | b # s1 \<Rightarrow>
            (case upper_pair (of_char a) (of_char b) of
               Some u \<Rightarrow> u @ to_uppercase s1
             | None \<Rightarrow>
                 (case s1 of
                    [] \<Rightarrow> a # to_uppercase s
                  | c # s2 \<Rightarrow>
                      (case upper_ligature (of_char a) (of_char b) (of_char c) of
                         Some u \<Rightarrow> u @ to_uppercase s2
                       | None \<Rightarrow> a # to_uppercase s)))))"

section \<open>Signals\<close>

definition parse_signal :: "string \<Rightarrow> int" where
  "parse_signal s0 =
     (let s = (case strip_prefix ''SIG'' s0 of Some r \<Rightarrow> r | None \<Rightarrow> s0);
          u = to_uppercase s in
      if u = ''KILL'' then 9
      else if u = ''TERM'' then 15
      else if u = ''INT'' then 2
      else if u = ''HUP'' then 1
      else if u = ''QUIT'' then 3
      else if u = ''STOP'' then 19
      else (case from_str_i32 u of Some n \<Rightarrow> n | None \<Rightarrow> 9))"

section \<open>States and wait statuses\<close>

datatype kstatus = Created | Running | Stopped

definition status_str :: "kstatus \<Rightarrow> string" where
  "status_str s = (case s of Created \<Rightarrow> ''created'' | Running \<Rightarrow> ''running'' | Stopped \<Rightarrow> ''stopped'')"

text \<open>The macros of \<open>sys/wait.h\<close> as the \<open>libc\<close> crate has them for Linux.\<close>

definition WTERMSIG :: "i32 \<Rightarrow> i32" where "WTERMSIG w = w AND 0x7f"
definition WEXITSTATUS :: "i32 \<Rightarrow> i32" where "WEXITSTATUS w = signed_drop_bit 8 w AND 0xff"
definition WIFEXITED :: "i32 \<Rightarrow> bool" where "WIFEXITED w = (WTERMSIG w = 0)"
definition WIFSIGNALED :: "i32 \<Rightarrow> bool" where
  "WIFSIGNALED w = (2 \<le> sint (ucast ((w AND 0x7f) + 1) :: 8 word))"

text \<open>The status word of a process that called \<open>exit\<close> with the code.\<close>

definition exited_word :: "nat \<Rightarrow> i32" where
  "exited_word c = push_bit 8 (word_of_nat c AND 0xff)"

text \<open>The annotation, and the exit code of \<open>run\<close> (\<open>wait_for_exit\<close>).\<close>

definition exit_annotations :: "i32 \<Rightarrow> (string \<times> string) list" where
  "exit_annotations status =
     (if WIFSIGNALED status then [(''org.krunc.exitSignal'', dec_str (sint (WTERMSIG status)))]
      else [(''org.krunc.exitCode'', dec_str (sint (WEXITSTATUS status)))])"

definition exit_code :: "i32 \<Rightarrow> int" where
  "exit_code status =
     (if WIFEXITED status then sint (WEXITSTATUS status)
      else if WIFSIGNALED status then 128 + sint (WTERMSIG status)
      else 0)"

text \<open>The code a parent that waited for the lifecycle child exits with (\<open>run_lifecycle_pty\<close>).\<close>

definition relay_code :: "i32 \<Rightarrow> int" where
  "relay_code status =
     (if WIFEXITED status then sint (WEXITSTATUS status)
      else if WIFSIGNALED status then 128 + sint (WTERMSIG status)
      else 1)"

end
