(* ===== verification/Cli_Args_Properties.thy ===== *)
theory Cli_Args_Properties
  imports Cli_Args
begin

text \<open>
  What the argument parser, the signal names and the wait statuses mean: a command line is read
  back as it was written, a number is the signal it names, and the reported exit is the exit.
\<close>

section \<open>Command lines\<close>

text \<open>The arguments a caller writes, and the tokens they are on the command line.\<close>

datatype argument =
    Flag_eq string string
  | Flag_value string string
  | Switch string
  | Positional string

fun arg_tokens :: "argument \<Rightarrow> string list" where
  "arg_tokens (Flag_eq f v) = [f @ ''='' @ v]"
| "arg_tokens (Flag_value f v) = [f, v]"
| "arg_tokens (Switch f) = [f]"
| "arg_tokens (Positional p) = [p]"

definition flag_name :: "string \<Rightarrow> bool" where
  "flag_name f \<longleftrightarrow> starts_with f ''-'' \<and> f \<noteq> ''--'' \<and> CHR ''='' \<notin> set f"

fun plain_arg :: "argument \<Rightarrow> bool" where
  "plain_arg (Flag_eq f v) \<longleftrightarrow> flag_name f"
| "plain_arg (Flag_value f v) \<longleftrightarrow> f \<in> set valued_flags"
| "plain_arg (Switch f) \<longleftrightarrow> flag_name f \<and> f \<notin> set valued_flags"
| "plain_arg (Positional p) \<longleftrightarrow> \<not> starts_with p ''-''"

fun arg_flags :: "argument \<Rightarrow> (string \<rightharpoonup> string) \<Rightarrow> (string \<rightharpoonup> string)" where
  "arg_flags (Flag_eq f v) m = m(f \<mapsto> v)"
| "arg_flags (Flag_value f v) m = m(f \<mapsto> v)"
| "arg_flags (Switch f) m = m(f \<mapsto> ''true'')"
| "arg_flags (Positional p) m = m"

fun arg_positionals :: "argument \<Rightarrow> string list" where
  "arg_positionals (Positional p) = [p]"
| "arg_positionals _ = []"

definition bundle_alias :: "(string \<rightharpoonup> string) \<Rightarrow> (string \<rightharpoonup> string)" where
  "bundle_alias m = (case m ''-b'' of Some b \<Rightarrow> m(''--bundle'' \<mapsto> b) | None \<Rightarrow> m)"

lemma no_eq: "CHR ''='' \<notin> set f \<Longrightarrow> position (\<lambda>c. c = CHR ''='') f = None"
  by (auto simp: position_None)

lemma valued_flag_name: "f \<in> set valued_flags \<Longrightarrow> flag_name f"
  by (auto simp: valued_flags_def flag_name_def starts_with_def)

lemma starts_with_append: "starts_with f p \<Longrightarrow> starts_with (f @ s) p"
proof -
  assume p: "starts_with f p"
  then have "length p \<le> length f" by (metis starts_with_def length_take min.cobounded1)
  then show "starts_with (f @ s) p" using p by (simp add: starts_with_def)
qed

lemma parse_loop_arg:
  assumes "plain_arg a"
  shows "parse_loop (arg_tokens a @ rest) flags pos =
    parse_loop rest (arg_flags a flags) (pos @ arg_positionals a)"
proof (cases a)
  case (Flag_eq f v)
  then have f: "flag_name f" using assms by simp
  have eq: "position (\<lambda>c. c = CHR ''='') (f @ ''='' @ v) = Some (length f)"
    using f position_append [of f "\<lambda>c. c = CHR ''=''" "CHR ''=''" v] by (auto simp: flag_name_def)
  have "f @ ''='' @ v \<noteq> ''--''" using f by (auto simp: flag_name_def append_eq_Cons_conv)
  moreover have "starts_with (f @ ''='' @ v) ''-''"
    using f starts_with_append by (auto simp: flag_name_def)
  ultimately show ?thesis using eq by (simp add: Flag_eq)
next
  case (Flag_value f v)
  then have "flag_name f" using assms valued_flag_name by simp
  then show ?thesis using assms by (simp add: Flag_value flag_name_def no_eq)
next
  case (Switch f)
  then show ?thesis using assms by (simp add: flag_name_def no_eq)
next
  case (Positional p)
  then show ?thesis using assms by (auto simp: starts_with_def)
qed

lemma parse_loop_args:
  assumes "list_all plain_arg as"
  shows "parse_loop (concat (map arg_tokens as) @ rest) flags pos =
    parse_loop rest (fold arg_flags as flags) (pos @ concat (map arg_positionals as))"
  using assms by (induction as arbitrary: flags pos) (simp_all add: parse_loop_arg)

section \<open>Numbers\<close>

lemma digits_value_snoc: "digits_value (ds @ [c]) = digits_value ds * 10 + (int (of_char c) - 48)"
  by (simp add: digits_value_def)

lemma digit_char: "n < 10 \<Longrightarrow> of_char (char_of (unat (word_of_nat (48 + n) :: u8)) :: char) = (48 + n :: nat)"
proof -
  assume "n < 10"
  then have "unat (word_of_nat (48 + n) :: u8) = 48 + n"
    by (simp only: unat_of_nat) (simp add: take_bit_nat_eq_self)
  then show ?thesis using \<open>n < 10\<close> by simp
qed

lemma dec_nat_string:
  "of_bytes (dec_nat n) \<noteq> [] \<and> list_all is_digit (of_bytes (dec_nat n))
   \<and> digits_value (of_bytes (dec_nat n)) = int n"
proof (induction n rule: dec_nat.induct)
  case (1 n)
  show ?case
  proof (cases "n < 10")
    case True
    then show ?thesis
      using digit_char [OF True]
      by (subst (1 2 3) dec_nat.simps)
         (simp add: of_bytes_def is_digit_def digits_value_def Let_def)
  next
    case False
    have c: "of_char (char_of (unat (word_of_nat (48 + n mod 10) :: u8)) :: char) = (48 + n mod 10 :: nat)"
      by (rule digit_char) simp
    have split: "of_bytes (dec_nat n) =
        of_bytes (dec_nat (n div 10)) @ [char_of (unat (word_of_nat (48 + n mod 10) :: u8))]"
      using False by (subst dec_nat.simps) (simp add: of_bytes_def)
    have "is_digit (char_of (unat (word_of_nat (48 + n mod 10) :: u8)))"
      unfolding is_digit_def Let_def c by simp
    moreover have "int (n div 10) * 10 + int (n mod 10) = int n"
      by (metis div_mult_mod_eq of_nat_add of_nat_mult of_nat_numeral)
    ultimately show ?thesis
      using 1 [OF False] unfolding split digits_value_snoc c by simp
  qed
qed

lemma digits_no_sign: "list_all is_digit (c # s) \<Longrightarrow> c \<noteq> CHR ''-'' \<and> c \<noteq> CHR ''+''"
  by (auto simp: is_digit_def)

lemma from_str_dec_str:
  assumes "- (2 ^ 31) \<le> n" "n < 2 ^ 31"
  shows "from_str_i32 (dec_str n) = Some n"
proof (cases "n < 0")
  case True
  let ?ds = "of_bytes (dec_nat (nat (- n)))"
  have s: "dec_str n = CHR ''-'' # ?ds"
    using True by (simp add: dec_str_def dec_int_def of_bytes_def char_of_eq_iff)
  show ?thesis
    using dec_nat_string [of "nat (- n)"] True assms
    unfolding s from_str_i32_def by (simp add: Let_def)
next
  case False
  let ?ds = "of_bytes (dec_nat (nat n))"
  have s: "dec_str n = ?ds" using False by (simp add: dec_str_def dec_int_def)
  obtain c cs where ds: "?ds = c # cs"
    using dec_nat_string [of "nat n"] by (cases ?ds) auto
  then have "c \<noteq> CHR ''-''" "c \<noteq> CHR ''+''"
    using dec_nat_string [of "nat n"] digits_no_sign [of c cs] by auto
  then show ?thesis
    using dec_nat_string [of "nat n"] False assms
    unfolding s from_str_i32_def ds by (simp add: Let_def)
qed

text \<open>Digits and signs are not letters.\<close>

lemma upper_pair_small: "a < 128 \<Longrightarrow> upper_pair a b = None"
  by (simp add: upper_pair_def)

lemma upper_ligature_small: "a < 128 \<Longrightarrow> upper_ligature a b c = None"
  by (simp add: upper_ligature_def)

lemma to_uppercase_fixed:
  "list_all (\<lambda>c. (of_char c :: nat) < 97) s \<Longrightarrow> to_uppercase s = s"
proof (induction s)
  case (Cons a s)
  then have "to_uppercase (a # s) = a # to_uppercase s"
    by (subst to_uppercase.simps)
       (auto simp: upper_pair_small upper_ligature_small simp del: to_uppercase.simps
         split: list.split)
  then show ?case using Cons by simp
qed simp

lemma dec_str_chars: "list_all (\<lambda>c. (of_char c :: nat) < 58) (dec_str n)"
proof -
  have "list_all (\<lambda>c. (of_char c :: nat) < 58) (of_bytes (dec_nat k))" for k
    using dec_nat_string [of k] by (auto simp: list_all_iff is_digit_def Let_def)
  then show ?thesis by (auto simp: dec_str_def dec_int_def of_bytes_def)
qed

lemma strip_prefix_small:
  "list_all (\<lambda>c. (of_char c :: nat) < 58) s \<Longrightarrow> strip_prefix ''SIG'' s = None"
proof -
  assume small: "list_all (\<lambda>c. (of_char c :: nat) < 58) s"
  have "take 3 s \<noteq> ''SIG''"
  proof
    assume "take 3 s = ''SIG''"
    then have "CHR ''S'' \<in> set (take 3 s)" by simp
    then have "CHR ''S'' \<in> set s" by (rule in_set_takeD)
    then show False using small by (auto simp: list_all_iff)
  qed
  then show ?thesis by (simp add: strip_prefix_def numeral_3_eq_3)
qed

section \<open>Properties\<close>

text \<open>
C39 (a command line is read back). Written as any mix of \<open>--flag=value\<close>, \<open>--flag value\<close> for the
flags that take one, switches and positional arguments, followed by \<open>--\<close> and anything, a command
line is parsed to exactly its flags, the last setting of a flag winning and \<open>-b\<close> standing for
\<open>--bundle\<close>, and its positional arguments in order, with all after \<open>--\<close> untouched.
\<close>

theorem command_line_read_back:
  assumes "list_all plain_arg as"
  shows "parse_args (concat (map arg_tokens as) @ ''--'' # rest) =
    (bundle_alias (fold arg_flags as Map.empty), concat (map arg_positionals as) @ rest)"
  by (simp add: parse_args_def parse_loop_args [OF assms] bundle_alias_def)

theorem command_line_read_back_witness:
  "parse_args [''--root'', ''-x'', ''run'', ''-b=/b'', ''--'', ''ls'', ''-l''] =
    ([''--root'' \<mapsto> ''-x'', ''-b'' \<mapsto> ''/b'', ''--bundle'' \<mapsto> ''/b''], [''run'', ''ls'', ''-l''])"
proof -
  let ?as = "[Flag_value ''--root'' ''-x'', Positional ''run'', Flag_eq ''-b'' ''/b'']"
  have "list_all plain_arg ?as"
    by (simp add: valued_flags_def flag_name_def starts_with_def)
  from command_line_read_back [OF this, of "[''ls'', ''-l'']"] show ?thesis
    by (simp add: bundle_alias_def)
qed

text \<open>
Signals of \<open>kill\<close>. A decimal number is the signal it names, whatever its value; the six names
the tool knows are their signals in any case, with or without an upper-case \<open>SIG\<close>; but every other
name, a standard signal or a lower-case \<open>sig\<close> prefix included, is signal 9: asking for \<open>USR1\<close>
kills the container.
\<close>

theorem signal_argument:
  assumes "- (2 ^ 31) \<le> n" "n < 2 ^ 31"
  shows "parse_signal (dec_str n) = n
    \<and> list_all (\<lambda>(name, sig). parse_signal name = sig \<and> parse_signal (''SIG'' @ name) = sig)
       [(''KILL'', 9), (''term'', 15), (''Int'', 2), (''HUP'', 1), (''QUIT'', 3), (''STOP'', 19)]
    \<and> list_all (\<lambda>name. parse_signal name = 9)
       [''USR1'', ''SIGUSR1'', ''USR2'', ''CONT'', ''WINCH'', ''ABRT'', ''sigterm'', ''2147483648'']"
proof (intro conjI)
  have small: "list_all (\<lambda>c. (of_char c :: nat) < 97) (dec_str n)"
    using dec_str_chars [of n] by (auto simp: list_all_iff)
  have letters: "dec_str n \<noteq> w" if "\<exists>c\<in>set w. (58 :: nat) \<le> of_char c" for w
    using dec_str_chars [of n] that by (auto simp: list_all_iff not_le)
  show "parse_signal (dec_str n) = n"
    unfolding parse_signal_def strip_prefix_small [OF dec_str_chars] option.case Let_def
      to_uppercase_fixed [OF small]
    by (simp add: letters from_str_dec_str [OF assms])
qed (simp_all add: parse_signal_def strip_prefix_def from_str_i32_def is_digit_def digits_value_def
    upper_pair_small upper_ligature_small char_of_def bit_0)

theorem signal_argument_witness: "parse_signal (dec_str 10) = 10 \<and> parse_signal ''USR1'' = 9"
  using signal_argument [of 10] by simp

text \<open>The status word of a process that a signal ended.\<close>

definition signaled_word :: "nat \<Rightarrow> bool \<Rightarrow> i32" where
  "signaled_word s core = word_of_nat s OR (if core then 0x80 else 0)"

lemma and_low: "w AND 0x7f = take_bit 7 w" "w AND 0xff = take_bit 8 w" for w :: i32
  by (simp_all add: take_bit_eq_mask mask_eq_exp_minus_1)

lemma sint_take_bit: "n < 32 \<Longrightarrow> sint (take_bit n w :: i32) = take_bit n (uint w)"
  by (simp add: sint_uint signed_take_bit_take_bit unsigned_take_bit_eq)

lemma exited_word_fields:
  "WTERMSIG (exited_word c) = 0" "sint (WEXITSTATUS (exited_word c)) = int (c mod 256)"
proof -
  show "WTERMSIG (exited_word c) = 0"
    unfolding WTERMSIG_def exited_word_def and_low by (simp add: take_bit_push_bit)
  have "WEXITSTATUS (exited_word c) = take_bit 8 (word_of_nat c)"
    unfolding WEXITSTATUS_def exited_word_def and_low
    by (rule bit_word_eqI) (auto simp: bit_take_bit_iff bit_signed_drop_bit_iff bit_push_bit_iff)
  also have "\<dots> = word_of_nat (c mod 256)"
  proof -
    have "take_bit 8 c = c mod 256" by (simp add: take_bit_eq_mod)
    then show ?thesis by (simp only: take_bit_of_nat)
  qed
  finally have w: "WEXITSTATUS (exited_word c) = word_of_nat (c mod 256)" .
  have b: "0 \<le> int c mod 256" "int c mod 256 < 256" by simp_all
  moreover have "(256::int) \<le> 2 ^ 31" "- (2 ^ 31) \<le> (0::int)" by simp_all
  ultimately have "- (2 ^ 31) \<le> int c mod 256" "int c mod 256 < 2 ^ 31"
    by (blast intro: order_trans, blast intro: order_less_le_trans)
  then have "signed_take_bit 31 (int c mod 256) = int c mod 256"
    by (rule signed_take_bit_int_eq_self)
  then show "sint (WEXITSTATUS (exited_word c)) = int (c mod 256)"
    unfolding w signed_of_nat zmod_int by simp
qed

lemma signaled_word_fields:
  assumes "1 \<le> s" "s \<le> 126"
  shows "sint (WTERMSIG (signaled_word s core)) = int s" "WIFSIGNALED (signaled_word s core)"
    "\<not> WIFEXITED (signaled_word s core)"
proof -
  have low: "signaled_word s core AND 0x7f = word_of_nat s"
  proof -
    have "take_bit 7 (signaled_word s core) = take_bit 7 (word_of_nat s)"
      by (simp add: signaled_word_def)
    also have "\<dots> = (word_of_nat s :: i32)"
      using assms by (simp add: take_bit_of_nat take_bit_nat_eq_self flip: of_nat_take_bit)
    finally show ?thesis by (simp add: and_low)
  qed
  have t: "sint (word_of_nat s :: i32) = int s"
    using assms by (simp add: signed_of_nat signed_take_bit_int_eq_self)
  then show "sint (WTERMSIG (signaled_word s core)) = int s" unfolding WTERMSIG_def low .
  then show "\<not> WIFEXITED (signaled_word s core)"
    using assms unfolding WIFEXITED_def by auto
  have "unat (word_of_nat (Suc s) :: i32) = Suc s"
    using assms by (simp only: unat_of_nat) (simp add: take_bit_nat_eq_self)
  then have "ucast (word_of_nat s + 1 :: i32) = (word_of_nat (Suc s) :: 8 word)"
    by (metis add.commute of_nat_Suc of_nat_unat)
  moreover have "sint (word_of_nat (Suc s) :: 8 word) = int (Suc s)"
    using assms by (simp only: signed_of_nat) (simp add: signed_take_bit_int_eq_self)
  ultimately show "WIFSIGNALED (signaled_word s core)"
    using assms unfolding WIFSIGNALED_def low by simp
qed

text \<open>
The exit is the exit. For the status word of a process that called \<open>exit\<close> with code \<open>c\<close>, the
annotation and the exit code of \<open>run\<close> are \<open>c mod 256\<close>; for one ended by signal \<open>s\<close>, with or without
a core dump, the annotation names the signal and \<open>run\<close> exits with \<open>128 + s\<close>, in both of its forms.
\<close>

theorem exit_reported:
  assumes "1 \<le> s" "s \<le> 126"
  shows "exit_annotations (exited_word c) = [(''org.krunc.exitCode'', dec_str (int (c mod 256)))]
    \<and> exit_code (exited_word c) = int (c mod 256) \<and> relay_code (exited_word c) = int (c mod 256)
    \<and> exit_annotations (signaled_word s core) = [(''org.krunc.exitSignal'', dec_str (int s))]
    \<and> exit_code (signaled_word s core) = 128 + int s
    \<and> relay_code (signaled_word s core) = 128 + int s"
proof -
  have "\<not> WIFSIGNALED (exited_word c)"
    using exited_word_fields(1) [of c] unfolding WIFSIGNALED_def WTERMSIG_def by simp
  then show ?thesis
    using exited_word_fields [of c] signaled_word_fields [OF assms, of core]
    by (simp add: exit_annotations_def exit_code_def relay_code_def WIFEXITED_def)
qed

theorem exit_reported_witness:
  "exit_code (exited_word 42) = 42 \<and> exit_code (signaled_word 9 False) = 137"
  using exit_reported [of 9 42 False] by simp

end
