(* ===== verification/Json_Properties.thy ===== *)
theory Json_Properties
  imports Json_Text Cli_Args_Properties
begin

text \<open>
  Facts on the reader of \<open>Json_Text\<close> that the texts with inserted parts need: the tokens of a
  rendered number, of a string literal and of a comma-separated list of string literals,
  wherever they stand in a text.
\<close>

section \<open>Reading a rendered number\<close>

lemma digit_agrees: "Cli_Args.is_digit c \<Longrightarrow> json_digit c \<and> is_number_char c \<and> \<not> is_control c
    \<and> c \<noteq> CHR 0x22 \<and> c \<noteq> CHR 0x5C \<and> digit_value c = Some (int (of_char c) - 48)"
proof -
  assume d: "Cli_Args.is_digit c"
  then have "of_char c \<in> {48..57::nat}" by (simp add: Cli_Args.is_digit_def Let_def)
  then have "c \<in> char_of ` {48..57::nat}" by (metis char_of_char imageI)
  moreover have "{48..57::nat} = {48,49,50,51,52,53,54,55,56,57}"
    by (simp only: atLeastAtMost_upt) (simp add: upt_rec)
  ultimately have "c \<in> set ''0123456789''" by (auto simp: char_of_eq_iff)
  then show ?thesis
    unfolding list.set by (elim insertE emptyE)
       (simp_all add: json_digit_def is_number_char_def is_control_def digit_value_def)
qed

lemma dec_value_digits:
  "list_all Cli_Args.is_digit ds \<Longrightarrow>
   dec_value n ds = foldl (\<lambda>v c. v * 10 + (int (of_char c) - 48)) n ds"
  by (induction ds arbitrary: n) (auto dest!: digit_agrees simp: ac_simps)

text \<open>The decimal digits of a number below a million, and no leading zero.\<close>

lemma dec_nat_first: "0 < n \<Longrightarrow> hd (of_bytes (dec_nat n)) \<noteq> CHR ''0''"
proof (induction n rule: dec_nat.induct)
  case (1 n)
  show ?case
  proof (cases "n < 10")
    case True
    have "hd (of_bytes (dec_nat n)) = char_of (unat (word_of_nat (48 + n) :: u8))"
      using True by (subst dec_nat.simps) (simp add: of_bytes_def)
    then have "of_char (hd (of_bytes (dec_nat n))) = (48 + n :: nat)"
      using digit_char [OF True] by (simp only:)
    then show ?thesis using 1(2) by auto
  next
    case False
    then have "hd (of_bytes (dec_nat n)) = hd (of_bytes (dec_nat (n div 10)))"
      using dec_nat_string [of "n div 10"] by (subst dec_nat.simps) (simp add: of_bytes_def hd_append)
    then show ?thesis using 1(1) False by (simp add: div_greater_zero_iff)
  qed
qed

lemma dec_nat_length: "n < 10 ^ Suc k \<Longrightarrow> length (of_bytes (dec_nat n)) \<le> Suc k"
proof (induction k arbitrary: n)
  case 0
  then show ?case by (subst dec_nat.simps) (simp add: of_bytes_def)
next
  case (Suc k)
  show ?case
  proof (cases "n < 10")
    case True
    then show ?thesis by (subst dec_nat.simps) (simp add: of_bytes_def)
  next
    case False
    have "n div 10 < 10 ^ Suc k" using Suc.prems by (simp add: less_mult_imp_div_less)
    then show ?thesis using Suc.IH [of "n div 10"] False by (subst dec_nat.simps) (simp add: of_bytes_def)
  qed
qed

lemma number_token_nat:
  assumes "n < 10 ^ 20"
  shows "number_token (of_bytes (dec_nat n)) = Accepted (Scalar (JNum (int n)))"
proof -
  let ?ds = "of_bytes (dec_nat n)"
  note d = dec_nat_string [of n]
  have dig: "list_all json_digit ?ds" using d by (auto simp: list_all_iff dest: digit_agrees)
  then have tw: "takeWhile json_digit ?ds = ?ds" "dropWhile json_digit ?ds = []"
    by (simp_all add: list_all_iff)
  have sign: "take 1 ?ds \<noteq> ''-''"
    using d digits_no_sign [of "hd ?ds" "tl ?ds"] by (cases ?ds) auto
  have zero: "\<not> (1 < length ?ds \<and> hd ?ds = CHR ''0'')"
  proof (cases "n = 0")
    case True
    then show ?thesis by (subst dec_nat.simps) (simp add: of_bytes_def)
  next
    case False
    then show ?thesis using dec_nat_first [of n] by simp
  qed
  have len: "length ?ds \<le> 20" using dec_nat_length [of n 19] assms by simp
  have "dec_value 0 ?ds = int n"
    using d by (simp add: dec_value_digits Cli_Args.digits_value_def)
  then show ?thesis
    using d sign zero len by (simp add: number_token_def tw Let_def)
qed

lemma lex_digits:
  "list_all Cli_Args.is_digit ds \<Longrightarrow> lex_run (In_number acc) ds = Accepted ([], In_number (rev ds @ acc))"
  "list_all Cli_Args.is_digit ds \<Longrightarrow> lex_run (In_string acc) ds = Accepted ([], In_string (rev ds @ acc))"
  by (induction ds arbitrary: acc) (auto dest: digit_agrees)

lemma lex_start_digit: "json_digit c \<Longrightarrow> lex_start c = Accepted ([], In_number [c])"
  unfolding json_digit_def by (simp, elim disjE) (simp_all add: lex_start_def json_digit_def)

lemma dec_str_nat: "0 \<le> v \<Longrightarrow> dec_str v = of_bytes (dec_nat (nat v))"
  by (simp add: dec_str_def dec_int_def)

lemma lex_dec_string:
  "0 \<le> v \<Longrightarrow> lex_run (In_string acc) (dec_str v) = Accepted ([], In_string (rev (dec_str v) @ acc))"
  using dec_nat_string [of "nat v"] by (simp add: dec_str_nat lex_digits)

lemma lex_dec_number:
  assumes "0 \<le> v"
  shows "lex_run Between (dec_str v) = Accepted ([], In_number (rev (dec_str v)))"
proof -
  obtain c cs where ds: "dec_str v = c # cs"
    using dec_nat_string [of "nat v"] assms by (cases "dec_str v") (auto simp: dec_str_nat)
  then have "Cli_Args.is_digit c" "list_all Cli_Args.is_digit cs"
    using dec_nat_string [of "nat v"] assms by (auto simp: dec_str_nat)
  moreover from this(1) have "lex_start c = Accepted ([], In_number [c])"
    by (intro lex_start_digit) (simp add: digit_agrees)
  ultimately show ?thesis by (simp add: ds lex_digits)
qed

lemma number_token_dec:
  "0 \<le> v \<Longrightarrow> v < 10 ^ 20 \<Longrightarrow> number_token (dec_str v) = Accepted (Scalar (JNum v))"
  using number_token_nat [of "nat v"] by (simp add: dec_str_nat nat_less_iff)

section \<open>Tokens in pieces\<close>

lemma token_run_append:
  "token_run s (ts @ us) =
     (case token_run s ts of
        Accepted s \<Rightarrow> token_run s us | Rejected \<Rightarrow> Rejected | Unsettled \<Rightarrow> Unsettled)"
  by (induction ts arbitrary: s) (simp_all split: verdict.splits)

text \<open>The tokens of a list of strings, and the array they make.\<close>

fun string_tokens :: "string list \<Rightarrow> token list" where
  "string_tokens [] = []"
| "string_tokens [s] = [Scalar (JStr s)]"
| "string_tokens (s # ss) = Scalar (JStr s) # Comma # string_tokens ss"

lemma string_tokens_more:
  "ss \<noteq> [] \<Longrightarrow> token_run (Want_value, In_array xs # st) (string_tokens ss @ RBracket # ts) =
     token_run (Have (JArr (rev xs @ map JStr ss)), st) ts"
proof (induction ss arbitrary: xs rule: string_tokens.induct)
  case (3 s s' ss)
  show ?case by (simp add: "3.IH" [simplified])
qed simp_all

lemma string_tokens_array:
  "token_run (Want_value_or_end, In_array [] # st) (string_tokens ss @ RBracket # ts) =
     token_run (Have (JArr (map JStr ss)), st) ts"
proof (cases ss)
  case (Cons s ss')
  have "token_run (Want_value_or_end, In_array [] # st) (string_tokens ss @ RBracket # ts) =
      token_run (Want_value, In_array [] # st) (string_tokens ss @ RBracket # ts)"
    by (cases ss') (simp_all add: Cons)
  then show ?thesis by (simp add: string_tokens_more Cons)
qed simp

text \<open>
  A text that is one string literal, with white space around it at most, gives just that token
  wherever it stands.
\<close>

definition string_literal :: "string \<Rightarrow> string \<Rightarrow> bool" where
  "string_literal t s \<longleftrightarrow> lex_run Between t = Accepted ([Scalar (JStr s)], Between)"

fun compound :: "expecting \<times> json_frame list \<Rightarrow> bool" where
  "compound (Have (JArr _), st) = True"
| "compound (Have (JObj _), st) = True"
| "compound (Have _, st) = (st \<noteq> [])"
| "compound (Want_value, st) = (st \<noteq> [])"
| "compound (Want_value_or_end, st) = (st \<noteq> [])"
| "compound _ = True"

lemma compound_scalar: "st \<noteq> [] \<Longrightarrow> compound (Have v, st)"
  by (cases v) simp_all

lemma value_step_compound: "value_step st t = Accepted s' \<Longrightarrow> st \<noteq> [] \<Longrightarrow> compound s'"
  by (cases "(st, t)" rule: value_step.cases) (auto split: if_splits simp: compound_scalar)

lemma token_step_compound:
  assumes "token_step s t = Accepted s'" "compound s"
  shows "compound s'"
proof (cases s)
  case (Pair e st)
  show ?thesis
  proof (cases e)
    case Want_value
    then show ?thesis using assms value_step_compound by (simp add: Pair)
  next
    case Want_value_or_end
    then show ?thesis
      using assms value_step_compound [of st t s']
      by (cases st rule: list.exhaust; cases t)
         (auto simp: Pair split: if_splits list.splits json_frame.splits)
  next
    case Want_name_or_end
    then show ?thesis
      using assms by (cases "([] :: (string \<times> json) list, st, t)" rule: name_step.cases)
        (auto simp: Pair split: if_splits)
  next
    case (Want_name ms)
    then show ?thesis
      using assms by (cases "(ms, st, t)" rule: name_step.cases) (auto simp: Pair)
  next
    case (Want_colon ms k)
    then show ?thesis using assms by (auto simp: Pair split: if_splits)
  next
    case (Have v)
    then show ?thesis
      using assms by (cases "(v, st, t)" rule: after_step.cases) (auto simp: Pair split: if_splits)
  qed
qed

lemma token_run_compound: "token_run s ts = Accepted s' \<Longrightarrow> compound s \<Longrightarrow> compound s'"
  by (induction ts arbitrary: s) (auto dest: token_step_compound split: verdict.splits)

lemma json_parse_Accepted:
  "json_parse ts = Accepted v \<longleftrightarrow> token_run (Want_value, []) ts = Accepted (Have v, [])"
proof (cases "token_run (Want_value, []) ts")
  case (Accepted s)
  obtain e st where s: "s = (e, st)" by (cases s)
  show ?thesis by (cases e; cases st) (simp_all add: json_parse_def Accepted s)
qed (simp_all add: json_parse_def)

lemma one_token:
  assumes "json_parse ts = Accepted (JStr s)"
  shows "ts = [Scalar (JStr s)]"
proof -
  have run: "token_run (Want_value, []) ts = Accepted (Have (JStr s), [])"
    using assms by (simp add: json_parse_Accepted)
  then obtain t us where ts: "ts = t # us" by (cases ts) auto
  show ?thesis
  proof (cases t)
    case (Scalar v)
    then have "token_run (Have v, []) us = Accepted (Have (JStr s), [])" using run ts by simp
    then have "us = []" "v = JStr s" by (cases us; simp)+
    then show ?thesis by (simp add: ts Scalar)
  qed (use run ts in \<open>auto dest!: token_run_compound\<close>)
qed

lemma number_token_kind: "number_token s = Accepted t \<Longrightarrow> (\<exists>i. t = Scalar (JNum i)) \<or> t = Scalar JFrac"
  by (auto simp: number_token_def Let_def split: if_splits)

lemma word_token_kind: "word_token s = Accepted t \<Longrightarrow> (\<exists>b. t = Scalar (JBool b)) \<or> t = Scalar JNull"
  by (auto simp: word_token_def split: if_splits)

lemma string_literal_read:
  assumes "json_read t = Accepted (JStr s)"
  shows "string_literal t s"
proof -
  obtain ts m us where t: "lex_run Between t = Accepted (ts, m)" "lex_end m = Accepted us"
      "json_parse (ts @ us) = Accepted (JStr s)"
    using assms by (auto simp: json_read_def json_lex_def v_bind_Accepted)
  have one: "ts @ us = [Scalar (JStr s)]" using one_token [OF t(3)] .
  have "m = Between"
    using t(2) one by (cases m)
      (auto simp: v_bind_Accepted append_eq_Cons_conv dest: number_token_kind word_token_kind)
  then show ?thesis using t one by (simp add: string_literal_def)
qed

text \<open>A literal of plain characters: quotation marks around them.\<close>

definition plain_char :: "char \<Rightarrow> bool" where
  "plain_char c \<longleftrightarrow> c \<noteq> CHR 0x22 \<and> c \<noteq> CHR 0x5C \<and> \<not> is_control c"

lemma lex_plain:
  "list_all plain_char s \<Longrightarrow> lex_run (In_string acc) s = Accepted ([], In_string (rev s @ acc))"
  by (induction s arbitrary: acc) (simp_all add: plain_char_def)

lemma string_literal_plain: "list_all plain_char s \<Longrightarrow> string_literal ([CHR 0x22] @ s @ [CHR 0x22]) s"
  by (simp add: string_literal_def lex_run_append lex_plain lex_start_def)

text \<open>A list of literals separated by a comma and a space.\<close>

lemma lex_literals:
  assumes "list_all2 string_literal ts ss"
    and "j [] = []" "\<And>a. j [a] = a" "\<And>a b as. j (a # b # as) = a @ '', '' @ j (b # as)"
  shows "lex_run Between (j ts) = Accepted (string_tokens ss, Between)"
  using assms(1)
proof (induction ss arbitrary: ts rule: string_tokens.induct)
  case 1
  then show ?case by (simp add: assms(2))
next
  case (2 s)
  then show ?case by (auto simp: list_all2_Cons2 assms(3) string_literal_def)
next
  case (3 s s' ss)
  then obtain t t' ts' where ts: "ts = t # t' # ts'" "string_literal t s"
      "list_all2 string_literal (t' # ts') (s' # ss)"
    by (auto simp: list_all2_Cons2)
  show ?case
    using "3.IH" [OF ts(3)] ts(2)
    by (simp add: ts(1) assms(4) lex_run_append string_literal_def lex_start_def)
qed

section \<open>Evaluating the lexer\<close>

lemma word_tokens: "word_token ''true'' = Accepted (Scalar (JBool True))"
  "word_token ''false'' = Accepted (Scalar (JBool False))" "word_token ''null'' = Accepted (Scalar JNull)"
  by (simp_all add: word_token_def)

lemmas lexer_simps = then_start_def lex_start_def is_control_def json_digit_def
  is_number_char_def word_tokens

end
