(* ===== verification/Oci_Fuzz.thy ===== *)
theory Oci_Fuzz
  imports Oci_Tests Json_Properties
begin

text \<open>
  \<open>userspace/krunc-oci/src/lib.rs\<close>, the randomized test \<open>valid_configs_round_trip_through_abi\<close>:
  the family of configurations it draws, rendered as JSON, parsed, translated, encoded and
  decoded again, for every seed of the generator.
\<close>

section \<open>The drawn configurations\<close>

record fuzz_case =
  fz_uid :: u32
  fz_gid :: u32
  fz_nnp :: bool
  fz_ncap :: nat
  fz_nofile :: u64
  fz_with_tmpfs :: bool

definition fuzz_caps :: "string list" where
  "fuzz_caps = [''CAP_KILL'', ''CAP_CHOWN'', ''CAP_NET_BIND_SERVICE'', ''CAP_SETUID'']"

fun comma_joined :: "string list \<Rightarrow> string" where
  "comma_joined [] = []"
| "comma_joined [s] = s"
| "comma_joined (s # ss) = s @ '', '' @ comma_joined ss"

definition fuzz_draw :: "(u64, fuzz_case) state" where
  "fuzz_draw = do {
     uid \<leftarrow> sm64; gid \<leftarrow> sm64; nnp \<leftarrow> sm64; ncap \<leftarrow> sm64; nofile \<leftarrow> sm64; tmpfs \<leftarrow> sm64;
     State_Monad.return \<lparr>fz_uid = ucast (uid mod 70000), fz_gid = ucast (gid mod 70000),
       fz_nnp = (nnp AND 1 = 0), fz_ncap = unat (ncap mod (word_of_nat (length fuzz_caps) + 1)),
       fz_nofile = 256 + nofile mod 4096, fz_with_tmpfs = (tmpfs AND 1 = 0)\<rparr>
   }"

definition fuzz_json :: "fuzz_case \<Rightarrow> string" where
  \<open>fuzz_json z =
     (let uid = dec_str (uint (fz_uid z)); gid = dec_str (uint (fz_gid z));
          nnp = (if fz_nnp z then ''true'' else ''false'');
          caps_csv = comma_joined (map quoted (take (fz_ncap z) fuzz_caps));
          nofile = dec_str (uint (fz_nofile z));
          mounts = (if fz_with_tmpfs z then
              ''{ "destination": "/tmp", "type": "tmpfs", "source": "tmpfs", "options": ["nosuid"] },''
            else []) in
      join_lines [
        ''{'',
        ''                  "ociVersion": "1.0.2-dev",'',
        ''                  "hostname": "fuzz-'' @ uid @ ''",'',
        ''                  "process": {'',
        ''                    "user": { "uid": '' @ uid @ '', "gid": '' @ gid @ '' },'',
        ''                    "args": ["/bin/app", "--id='' @ gid @ ''"],'',
        ''                    "env": ["PATH=/bin"],'',
        ''                    "cwd": "/",'',
        ''                    "noNewPrivileges": '' @ nnp @ '','',
        ''                    "capabilities": { "bounding": ['' @ caps_csv @ ''] },'',
        ''                    "rlimits": [{ "type": "RLIMIT_NOFILE", "soft": '' @ nofile
          @ '', "hard": '' @ nofile @ '' }]'',
        ''                  },'',
        ''                  "root": { "path": "rootfs", "readonly": false },'',
        ''                  "linux": { "namespaces": [{ "type": "pid" }, { "type": "mount" }] },'',
        ''                  "mounts": ['' @ mounts
          @ '' { "destination": "/proc", "type": "proc", "source": "proc" }]'',
        ''                }''])\<close>

definition fuzz_round_trips :: "config_parser \<Rightarrow> fuzz_case \<Rightarrow> bool" where
  "fuzz_round_trips parse z =
     unwraps (parse (fuzz_json z)) (\<lambda>cfg.
     unwraps (config_to_spec ''/bundle'' cfg) (\<lambda>spec.
     unwraps (encode spec Create) (\<lambda>blob.
     unwraps (decode blob) (\<lambda>(p, decoded).
       p = Create \<and> sp_uid decoded = fz_uid z \<and> sp_gid decoded = fz_gid z
       \<and> (sp_flags decoded AND OPT_NO_NEW_PRIVS \<noteq> 0) = fz_nnp z
       \<and> sp_argv decoded = [''/bin/app'', ''--id='' @ dec_str (uint (fz_gid z))]
       \<and> sp_hostname decoded = ''fuzz-'' @ dec_str (uint (fz_uid z))))))"

definition valid_configs_round_trip_through_abi :: "config_parser \<Rightarrow> nat \<Rightarrow> u64 \<Rightarrow> bool" where
  "valid_configs_round_trip_through_abi parse n seed =
     list_all (fuzz_round_trips parse) (fst (run_state (times n fuzz_draw) seed))"

section \<open>Reading the drawn text\<close>

text \<open>What a draw can be.\<close>

definition fuzz_ok :: "fuzz_case \<Rightarrow> bool" where
  "fuzz_ok z \<longleftrightarrow> uint (fz_uid z) < 70000 \<and> uint (fz_gid z) < 70000 \<and> uint (fz_nofile z) < 5000
     \<and> fz_ncap z \<le> 4"

lemma yields_fuzz: "yields fuzz_draw fuzz_ok"
  unfolding fuzz_draw_def
proof (intro yields_step yields_return)
  fix uid gid nnp ncap nofile tmpfs :: u64
  have id: "uint (ucast (v mod 70000) :: u32) < 70000" for v :: u64
    by (simp add: unsigned_ucast_eq uint_mod take_bit_int_eq_self)
  have "uint (nofile mod 4096) < 4096" by (simp add: uint_mod)
  then have nof: "uint (256 + nofile mod 4096) < 5000"
    by (simp add: uint_word_ariths take_bit_int_eq_self)
  have caps: "unat (ncap mod (word_of_nat (length fuzz_caps) + 1)) \<le> 4"
    using mod_less_divisor [of 5 "unat ncap"] by (simp add: fuzz_caps_def unat_mod)
  show "fuzz_ok \<lparr>fz_uid = ucast (uid mod 70000), fz_gid = ucast (gid mod 70000),
       fz_nnp = (nnp AND 1 = 0), fz_ncap = unat (ncap mod (word_of_nat (length fuzz_caps) + 1)),
       fz_nofile = 256 + nofile mod 4096, fz_with_tmpfs = (tmpfs AND 1 = 0)\<rparr>"
    using id nof caps by (simp add: fuzz_ok_def)
qed

text \<open>The text with its inserted parts as variables.\<close>

definition fuzz_mount :: json where
  "fuzz_mount = JObj [(''destination'', JStr ''/tmp''), (''type'', JStr ''tmpfs''),
     (''source'', JStr ''tmpfs''), (''options'', JArr [JStr ''nosuid''])]"

definition fuzz_value :: "fuzz_case \<Rightarrow> json" where
  "fuzz_value z = JObj [
     (''ociVersion'', JStr ''1.0.2-dev''),
     (''hostname'', JStr (''fuzz-'' @ dec_str (uint (fz_uid z)))),
     (''process'', JObj [
       (''user'', JObj [(''uid'', JNum (uint (fz_uid z))), (''gid'', JNum (uint (fz_gid z)))]),
       (''args'', JArr [JStr ''/bin/app'', JStr (''--id='' @ dec_str (uint (fz_gid z)))]),
       (''env'', JArr [JStr ''PATH=/bin'']),
       (''cwd'', JStr ''/''),
       (''noNewPrivileges'', JBool (fz_nnp z)),
       (''capabilities'', JObj [(''bounding'', JArr (map JStr (take (fz_ncap z) fuzz_caps)))]),
       (''rlimits'', JArr [JObj [(''type'', JStr ''RLIMIT_NOFILE''),
          (''soft'', JNum (uint (fz_nofile z))), (''hard'', JNum (uint (fz_nofile z)))]])]),
     (''root'', JObj [(''path'', JStr ''rootfs''), (''readonly'', JBool False)]),
     (''linux'', JObj [(''namespaces'', JArr [JObj [(''type'', JStr ''pid'')],
        JObj [(''type'', JStr ''mount'')]])]),
     (''mounts'', JArr ((if fz_with_tmpfs z then [fuzz_mount] else []) @
        [JObj [(''destination'', JStr ''/proc''), (''type'', JStr ''proc''),
           (''source'', JStr ''proc'')]]))]"

lemma fuzz_read:
  assumes "fuzz_ok z"
  shows "json_read (fuzz_json z) = Accepted (fuzz_value z)"
proof -
  define nnp where "nnp = (if fz_nnp z then ''true'' else ''false'')"
  define caps where "caps = comma_joined (map quoted (take (fz_ncap z) fuzz_caps))"
  define mounts where "mounts = (if fz_with_tmpfs z then
    ''{ \"destination\": \"/tmp\", \"type\": \"tmpfs\", \"source\": \"tmpfs\", \"options\": [\"nosuid\"] },'' else [])"
  define mts where "mts = (if fz_with_tmpfs z then [LBrace, Scalar (JStr ''destination''), Colon,
    Scalar (JStr ''/tmp''), Comma, Scalar (JStr ''type''), Colon, Scalar (JStr ''tmpfs''), Comma,
    Scalar (JStr ''source''), Colon, Scalar (JStr ''tmpfs''), Comma, Scalar (JStr ''options''), Colon,
    LBracket, Scalar (JStr ''nosuid''), RBracket, RBrace, Comma] else [])"
  have c: "lex_run Between caps = Accepted (string_tokens (take (fz_ncap z) fuzz_caps), Between)"
    unfolding caps_def
  proof (rule lex_literals)
    have "list_all (\<lambda>s. list_all plain_char s) fuzz_caps"
      by (simp add: fuzz_caps_def plain_char_def is_control_def)
    then show "list_all2 string_literal (map quoted (take (fz_ncap z) fuzz_caps)) (take (fz_ncap z) fuzz_caps)"
      by (auto simp: list_all2_map1 list_all2_same list_all_iff quoted_def intro!: string_literal_plain
          [simplified] dest: in_set_takeD)
  qed simp_all
  have n: "lex_run Between nnp = Accepted ([], In_word (rev nnp))"
      "word_token nnp = Accepted (Scalar (JBool (fz_nnp z)))"
    by (simp_all add: nnp_def lexer_simps word_token_def)
  have m: "lex_run Between mounts = Accepted (mts, Between)"
    by (simp add: mounts_def mts_def lexer_simps)
  have r: "uint (fz_nofile z) < 10 ^ 20" "uint (fz_uid z) < 10 ^ 20" "uint (fz_gid z) < 10 ^ 20"
    using assms by (simp_all add: fuzz_ok_def)
  have nt: "number_token (dec_str (uint (fz_nofile z))) = Accepted (Scalar (JNum (uint (fz_nofile z))))"
      "number_token (dec_str (uint (fz_uid z))) = Accepted (Scalar (JNum (uint (fz_uid z))))"
      "number_token (dec_str (uint (fz_gid z))) = Accepted (Scalar (JNum (uint (fz_gid z))))"
    by (rule number_token_dec, simp, rule r)+
  have "\<exists>ts. json_lex (fuzz_json z) = Accepted ts \<and> json_parse ts = Accepted (fuzz_value z)"
    unfolding fuzz_json_def piecewise Let_def nnp_def [symmetric] caps_def [symmetric]
      mounts_def [symmetric] json_parse_Accepted
    by (simp add: c n m nt lex_dec_string lex_dec_number lexer_simps string_tokens_array mts_def
        fuzz_value_def fuzz_mount_def)
  then show ?thesis by (auto simp: json_read_def)
qed

section \<open>What it is translated to\<close>

definition fuzz_config :: "fuzz_case \<Rightarrow> oci_config" where
  "fuzz_config z = \<lparr>oc_hostname = Some (''fuzz-'' @ dec_str (uint (fz_uid z))),
     oc_process = Some \<lparr>pr_terminal = False,
       pr_args = [''/bin/app'', ''--id='' @ dec_str (uint (fz_gid z))], pr_env = [''PATH=/bin''],
       pr_cwd = Some ''/'',
       pr_user = Some \<lparr>ou_uid = fz_uid z, ou_gid = fz_gid z, ou_additional_gids = []\<rparr>,
       pr_capabilities = Some \<lparr>cp_bounding = take (fz_ncap z) fuzz_caps, cp_effective = [],
         cp_permitted = [], cp_inheritable = [], cp_ambient = []\<rparr>,
       pr_no_new_privileges = fz_nnp z,
       pr_rlimits = [\<lparr>ol_limit_type = ''RLIMIT_NOFILE'', ol_soft = fz_nofile z,
         ol_hard = fz_nofile z\<rparr>],
       pr_oom_score_adj = None, pr_extra = []\<rparr>,
     oc_root = Some \<lparr>rt_path = ''rootfs'', rt_readonly = False\<rparr>,
     oc_linux = Some \<lparr>lx_namespaces = [\<lparr>on_ns_type = ''pid'', on_path = None\<rparr>,
         \<lparr>on_ns_type = ''mount'', on_path = None\<rparr>],
       lx_uid_mappings = [], lx_gid_mappings = [], lx_resources = None, lx_cgroups_path = None,
       lx_masked_paths = [], lx_readonly_paths = [], lx_sysctl = [], lx_extra = []\<rparr>,
     oc_mounts = (if fz_with_tmpfs z then [\<lparr>om_destination = ''/tmp'', om_mount_type = ''tmpfs'',
         om_source = ''tmpfs'', om_options = [''nosuid'']\<rparr>] else [])
       @ [\<lparr>om_destination = ''/proc'', om_mount_type = ''proc'', om_source = ''proc'',
           om_options = []\<rparr>],
     oc_annotations = [], oc_extra = []\<rparr>"

lemma fuzz_config_read:
  assumes "fuzz_ok z"
  shows "j_config (fuzz_value z) = Accepted (fuzz_config z)"
proof -
  have user: "j_user (JObj [(''uid'', JNum (uint (fz_uid z))), (''gid'', JNum (uint (fz_gid z)))]) =
      Accepted \<lparr>ou_uid = fz_uid z, ou_gid = fz_gid z, ou_additional_gids = []\<rparr>"
    using assms by (simp add: j_user_def j_defs fuzz_ok_def)
  have rl: "j_rlimit (JObj [(''type'', JStr ''RLIMIT_NOFILE''),
        (''soft'', JNum (uint (fz_nofile z))), (''hard'', JNum (uint (fz_nofile z)))]) =
      Accepted \<lparr>ol_limit_type = ''RLIMIT_NOFILE'', ol_soft = fz_nofile z, ol_hard = fz_nofile z\<rparr>"
    using assms by (simp add: j_rlimit_def j_defs fuzz_ok_def)
  show ?thesis
    by (cases "fz_with_tmpfs z")
       (simp_all add: fuzz_value_def fuzz_config_def fuzz_mount_def j_config_def j_process_def user rl
         j_root_def j_linux_def j_namespace_def j_mount_def j_capabilities_def j_defs
         process_fields_def linux_fields_def config_fields_def)
qed

lemma fuzz_supported: "supported (fuzz_config z)"
proof -
  have "list_all (\<lambda>n. cap_bit n \<noteq> None) fuzz_caps"
    by (simp add: fuzz_caps_def cap_bit_def CAPS_def)
  then have "list_all (\<lambda>n. cap_bit n \<noteq> None) (take (fz_ncap z) fuzz_caps)"
    by (auto simp: list_all_iff dest: in_set_takeD)
  then show ?thesis
    by (simp add: supported_def fuzz_config_def linux_supported_def ns_supported_def caps_known_def
        rlimit_resource_def known_mount_options_def Let_def)
qed

lemma wf_ascii_lit: "list_all Cli_Args.is_digit s \<Longrightarrow> wf_str s"
  by (rule wf_str_ascii) (auto simp: list_all_iff Cli_Args.is_digit_def Let_def)

lemma dec_str_small:
  assumes "0 \<le> v" "v < 100000"
  shows "length (dec_str v) \<le> 5" "wf_str (dec_str v)"
  using assms dec_nat_length [of "nat v" 4] dec_nat_string [of "nat v"]
  by (simp_all add: dec_str_nat wf_ascii_lit nat_less_iff)

lemma fuzz_small:
  assumes "fuzz_ok z"
  shows "small_spec (translated ''/bundle'' (fuzz_config z))"
proof -
  have u: "length (dec_str (uint (fz_uid z))) \<le> 5" "wf_str (dec_str (uint (fz_uid z)))"
      "length (dec_str (uint (fz_gid z))) \<le> 5" "wf_str (dec_str (uint (fz_gid z)))"
    using assms by (simp_all add: fuzz_ok_def dec_str_small)
  have w: "wf_str (''fuzz-'' @ dec_str (uint (fz_uid z)))" "wf_str (''--id='' @ dec_str (uint (fz_gid z)))"
    by (rule wf_str_append; simp add: u wf_str_ascii)+
  show ?thesis
    using u w
    by (simp add: small_spec_def translated_def build_spec_def fuzz_config_def canonical_caps_def
        resolve_rootfs_def is_absolute_def path_join_def small_strings_def linux_result_def
        small_mount_def wf_mount_def wf_str_ascii Let_def mount_result_def)
qed

lemma fuzz_passes:
  assumes "conforms parse" "fuzz_ok z"
  shows "fuzz_round_trips parse z"
proof -
  let ?s = "translated ''/bundle'' (fuzz_config z)"
  have "json_config (fuzz_json z) = Accepted (fuzz_config z)"
    by (simp add: json_config_def fuzz_read [OF assms(2)] fuzz_config_read [OF assms(2)])
  then have p: "parse (fuzz_json z) = Ok (fuzz_config z)"
    by (rule conforms_Ok [OF assms(1)])
       (simp add: few_entries_def all_of_def few_linux_def fuzz_config_def)
  have sm: "small_spec ?s" by (rule fuzz_small [OF assms(2)])
  then have "checked_bounds ?s" using small_fits by (simp add: fits_spec_def)
  then have t: "config_to_spec ''/bundle'' (fuzz_config z) = Ok ?s"
    by (simp add: config_to_spec_Ok fuzz_supported)
  obtain buf where b: "encode ?s Create = Ok buf" "decode buf = Ok (Create, ?s)"
    by (rule small_round_trips [OF sm])
  have "(option_flags (the (oc_process (fuzz_config z))) (the (oc_root (fuzz_config z)))
      AND OPT_NO_NEW_PRIVS \<noteq> 0) = fz_nnp z"
    by (simp add: option_flags_def fuzz_config_def opt_defs)
  then show ?thesis
    by (simp add: fuzz_round_trips_def p t b)
       (simp add: translated_def build_spec_def fuzz_config_def user_uid_def user_gid_def)
qed

text \<open>
C23 (randomized configurations). With any parser that conforms, the randomized test passes for
every seed and every number of rounds: each configuration it draws is parsed, translated,
encoded and decoded, and the decoded specification has the user, the flags, the arguments and
the host name of the text.
\<close>

theorem random_configs_round_trip:
  assumes "conforms parse"
  shows "valid_configs_round_trip_through_abi parse n seed"
proof -
  have "list_all fuzz_ok (fst (run_state (times n fuzz_draw) seed))"
    using yields_times [OF yields_fuzz, of n] by (simp add: yields_def)
  then show ?thesis
    unfolding valid_configs_round_trip_through_abi_def
    by (rule list.pred_mono_strong) (rule fuzz_passes [OF assms])
qed

theorem random_configs_round_trip_witness:
  "valid_configs_round_trip_through_abi reference_parse 2000 0xFEEDFACECAFE0001"
  by (rule random_configs_round_trip [OF reference_conforms])

end
