(* ===== verification/Cli_Device.thy ===== *)
theory Cli_Device
  imports Kernel_Create Cli_Args
begin

text \<open>
  \<open>userspace/krunc-cli/src/device.rs\<close>: the ioctl client, talking to the model of the kernel
  module. Each call lays its command block out in the memory of the process, enters
  \<open>ioctl_dispatch\<close> and reads the block back; the equivalence theorem shows that all of this
  amounts to one lifecycle request.
\<close>

section \<open>The request numbers\<close>

definition iowr :: "u64 \<Rightarrow> u64" where
  "iowr nr = push_bit 30 3 OR push_bit 16 32 OR push_bit 8 0x6b OR nr"

definition DEV_CREATE :: u64 where "DEV_CREATE = 1"
definition DEV_START :: u64 where "DEV_START = 2"
definition DEV_STATE :: u64 where "DEV_STATE = 3"
definition DEV_KILL :: u64 where "DEV_KILL = 4"
definition DEV_DELETE :: u64 where "DEV_DELETE = 5"

lemmas dev_defs = DEV_CREATE_def DEV_START_def DEV_STATE_def DEV_KILL_def DEV_DELETE_def

lemma ioc_nr_iowr:
  "ioc_nr (ucast (iowr DEV_CREATE)) = NR_CREATE" "ioc_nr (ucast (iowr DEV_START)) = NR_START"
  "ioc_nr (ucast (iowr DEV_STATE)) = NR_STATE" "ioc_nr (ucast (iowr DEV_KILL)) = NR_KILL"
  "ioc_nr (ucast (iowr DEV_DELETE)) = NR_DELETE"
  by (simp_all add: ioc_nr_def iowr_def dev_defs nr_defs)

section \<open>The calls\<close>

text \<open>
  The memory of the client, with the address of the local \<open>cmd\<close> and of the buffer of the
  encoded specification. An error is the errno of the system call, positive as
  \<open>last_os_error\<close> has it, or the specification that does not encode.
\<close>

record client =
  cl_mem :: umem
  cl_cmd :: u64
  cl_blob :: u64

datatype io_error = Os int | Invalid_input abi_error

definition cmd_default :: krunc_cmd where
  "cmd_default = \<lparr>kc_spec_ptr = 0, kc_id = 0, kc_spec_len = 0, kc_pid = 0, kc_sig = 0, kc_state = 0\<rparr>"

text \<open>The process stores to its own variables; a mapped variable reads as its bytes.\<close>

definition poke :: "u64 \<Rightarrow> u8 list \<Rightarrow> umem \<Rightarrow> umem" where
  "poke addr bs mem = mem\<lparr>um_bytes := store_bytes addr bs (um_bytes mem)\<rparr>"

definition peek_cmd :: "u64 \<Rightarrow> umem \<Rightarrow> krunc_cmd" where
  "peek_cmd addr mem = cmd_of_bytes
     (map (\<lambda>i. case um_bytes mem (addr + word_of_nat i) of Some b \<Rightarrow> b | None \<Rightarrow> 0) [0..<32])"

definition dev_ioctl :: "'os helper \<Rightarrow> client \<Rightarrow> u64 \<Rightarrow> krunc_cmd \<Rightarrow> 'os kstate \<Rightarrow>
    (io_error + krunc_cmd) \<times> 'os kstate" where
  "dev_ioctl h cl nr cmd st =
     (let mem = poke (cl_cmd cl) (cmd_bytes cmd) (cl_mem cl);
          (ret, mem, st) = ioctl_dispatch h (ucast (iowr nr)) (cl_cmd cl) mem st in
      (case ret of Err e \<Rightarrow> (Err (Os (- e)), st) | Ok _ \<Rightarrow> (Ok (peek_cmd (cl_cmd cl) mem), st)))"

definition dev_create_raw :: "'os helper \<Rightarrow> client \<Rightarrow> u8 list \<Rightarrow> 'os kstate \<Rightarrow>
    (io_error + u64 \<times> int) \<times> 'os kstate" where
  "dev_create_raw h cl blob st =
     (let cl = cl\<lparr>cl_mem := poke (cl_blob cl) blob (cl_mem cl)\<rparr>;
          cmd = cmd_default\<lparr>kc_spec_ptr := cl_blob cl, kc_spec_len := word_of_nat (length blob)\<rparr>;
          (r, st) = dev_ioctl h cl DEV_CREATE cmd st in
      (and_then r (\<lambda>cmd. Ok (kc_id cmd, sint (kc_pid cmd))), st))"

definition dev_create :: "'os helper \<Rightarrow> client \<Rightarrow> domain_spec \<Rightarrow> 'os kstate \<Rightarrow>
    (io_error + u64 \<times> int) \<times> 'os kstate" where
  "dev_create h cl spec st =
     (case encode spec Create of
        Err e \<Rightarrow> (Err (Invalid_input e), st)
      | Ok blob \<Rightarrow>
          (let cl = cl\<lparr>cl_mem := poke (cl_blob cl) blob (cl_mem cl)\<rparr>;
               cmd = cmd_default\<lparr>kc_spec_ptr := cl_blob cl, kc_spec_len := word_of_nat (length blob)\<rparr>;
               (r, st) = dev_ioctl h cl DEV_CREATE cmd st in
           (and_then r (\<lambda>cmd. Ok (kc_id cmd, sint (kc_pid cmd))), st)))"

definition dev_start :: "'os helper \<Rightarrow> client \<Rightarrow> u64 \<Rightarrow> 'os kstate \<Rightarrow>
    (io_error + unit) \<times> 'os kstate" where
  "dev_start h cl i st =
     (let (r, st) = dev_ioctl h cl DEV_START (cmd_default\<lparr>kc_id := i\<rparr>) st in
      (and_then r (\<lambda>_. Ok ()), st))"

definition kstatus_of :: "u32 \<Rightarrow> kstatus" where
  "kstatus_of s = (if s = 0 then Created else if s = 1 then Running else Stopped)"

definition dev_state :: "'os helper \<Rightarrow> client \<Rightarrow> u64 \<Rightarrow> 'os kstate \<Rightarrow>
    (io_error + kstatus \<times> int \<times> i32) \<times> 'os kstate" where
  "dev_state h cl i st =
     (let (r, st) = dev_ioctl h cl DEV_STATE (cmd_default\<lparr>kc_id := i\<rparr>) st in
      (and_then r (\<lambda>cmd. Ok (kstatus_of (kc_state cmd), sint (kc_pid cmd), kc_sig cmd)), st))"

definition dev_kill :: "'os helper \<Rightarrow> client \<Rightarrow> u64 \<Rightarrow> int \<Rightarrow> 'os kstate \<Rightarrow>
    (io_error + unit) \<times> 'os kstate" where
  "dev_kill h cl i sig st =
     (let (r, st) = dev_ioctl h cl DEV_KILL (cmd_default\<lparr>kc_id := i, kc_sig := word_of_int sig\<rparr>) st in
      (and_then r (\<lambda>_. Ok ()), st))"

definition dev_delete :: "'os helper \<Rightarrow> client \<Rightarrow> u64 \<Rightarrow> 'os kstate \<Rightarrow>
    (io_error + unit) \<times> 'os kstate" where
  "dev_delete h cl i st =
     (let (r, st) = dev_ioctl h cl DEV_DELETE (cmd_default\<lparr>kc_id := i\<rparr>) st in
      (and_then r (\<lambda>_. Ok ()), st))"

section \<open>What an ioctl amounts to\<close>

text \<open>The errors of the kernel as the client sees them.\<close>

definition os_result :: "errno + 'a \<Rightarrow> io_error + 'a" where
  "os_result r = (case r of Err e \<Rightarrow> Err (Os (- e)) | Ok x \<Rightarrow> Ok x)"

lemma os_result_simps [simp]: "os_result (Err e) = Err (Os (- e))" "os_result (Ok x) = Ok x"
  by (simp_all add: os_result_def)

text \<open>A sane layout: the block is writable, and does not overlap a buffer of \<open>n\<close> bytes.\<close>

definition layout_ok :: "client \<Rightarrow> nat \<Rightarrow> bool" where
  "layout_ok cl n \<longleftrightarrow>
     list_all (\<lambda>i. um_writable (cl_mem cl) (cl_cmd cl + word_of_nat i)) [0..<32]
     \<and> (\<forall>i<32. \<forall>j<n. cl_blob cl + word_of_nat j \<noteq> cl_cmd cl + word_of_nat i)"

lemma layout_mono: "layout_ok cl n \<Longrightarrow> m \<le> n \<Longrightarrow> layout_ok cl m"
  unfolding layout_ok_def by auto

lemma copy_from_poke: "length bs \<le> 2 ^ 64 \<Longrightarrow> copy_from_user (poke a bs mem) a (length bs) = Ok bs"
  by (simp add: copy_from_user_Ok_iff poke_def store_bytes_nth)

lemma copy_from_poke_other:
  assumes "\<forall>i<length bs. \<forall>j<n. b + word_of_nat j \<noteq> a + word_of_nat i"
  shows "copy_from_user (poke a bs mem) b n = copy_from_user mem b n"
proof -
  have "map (\<lambda>i. store_bytes a bs (um_bytes mem) (b + word_of_nat i)) [0..<n]
      = map (\<lambda>i. um_bytes mem (b + word_of_nat i)) [0..<n]"
    using assms by (intro map_cong refl store_bytes_other) auto
  then show ?thesis by (simp add: copy_from_user_def poke_def del: map_eq_conv)
qed

lemma peek_written: "copy_to_user mem a (cmd_bytes c) = Ok mem' \<Longrightarrow> peek_cmd a mem' = c"
proof -
  assume "copy_to_user mem a (cmd_bytes c) = Ok mem'"
  from copy_back [OF this] have "\<forall>i<32. um_bytes mem' (a + word_of_nat i) = Some (cmd_bytes c ! i)"
    by (simp add: copy_from_user_Ok_iff)
  then have "map (\<lambda>i. case um_bytes mem' (a + word_of_nat i) of Some b \<Rightarrow> b | None \<Rightarrow> 0) [0..<32]
      = map (\<lambda>i. cmd_bytes c ! i) [0..<32]"
    by (simp cong: map_cong)
  also have "\<dots> = cmd_bytes c" using map_nth [of "cmd_bytes c"] by simp
  finally show ?thesis by (simp add: peek_cmd_def)
qed

lemma dev_ioctl_dispatch:
  assumes "layout_ok cl n"
  shows "dev_ioctl h cl nr cmd st =
    (let (r, st') = dispatch h (ioc_nr (ucast (iowr nr))) (poke (cl_cmd cl) (cmd_bytes cmd) (cl_mem cl))
        cmd st in (os_result r, st'))"
proof -
  let ?mem = "poke (cl_cmd cl) (cmd_bytes cmd) (cl_mem cl)"
  have rd: "copy_from_user ?mem (cl_cmd cl) 32 = Ok (cmd_bytes cmd)"
    using copy_from_poke [of "cmd_bytes cmd"] by simp
  have wr: "copy_to_user ?mem (cl_cmd cl) (cmd_bytes c) =
      Ok (poke (cl_cmd cl) (cmd_bytes c) ?mem)" for c
    using assms by (simp add: layout_ok_def copy_to_user_def poke_def)
  obtain r st' where d: "dispatch h (ioc_nr (ucast (iowr nr))) ?mem cmd st = (r, st')" by fastforce
  show ?thesis
    using peek_written [OF wr]
    by (cases r) (simp_all add: dev_ioctl_def ioctl_dispatch_def rd d wr)
qed

definition as_i32 :: "int \<Rightarrow> int" where
  "as_i32 v = sint (word_of_int v :: i32)"

lemma dev_create_raw_eq:
  assumes "layout_ok cl K_MAX_SPEC" "length blob < 2 ^ 32"
  shows "dev_create_raw h cl blob st =
    (if length blob > K_MAX_SPEC then (Err (Os 22), st)
     else (let (r, st') = create_from_blob h blob st in
           (and_then (os_result r) (\<lambda>(i, pid). Ok (i, as_i32 pid)), st')))"
proof -
  let ?cl = "cl\<lparr>cl_mem := poke (cl_blob cl) blob (cl_mem cl)\<rparr>"
  let ?cmd = "cmd_default\<lparr>kc_spec_ptr := cl_blob cl, kc_spec_len := word_of_nat (length blob)\<rparr>"
  have lay: "layout_ok ?cl K_MAX_SPEC" using assms(1) by (simp add: layout_ok_def poke_def)
  have len: "unat (kc_spec_len ?cmd) = length blob" using assms(2) by (simp add: unat_of_nat_len)
  have "copy_from_user (poke (cl_cmd cl) (cmd_bytes ?cmd) (cl_mem ?cl)) (cl_blob cl) (length blob) = Ok blob"
    if "length blob \<le> K_MAX_SPEC"
  proof -
    have "copy_from_user (poke (cl_cmd cl) (cmd_bytes ?cmd) (cl_mem ?cl)) (cl_blob cl) (length blob)
        = copy_from_user (cl_mem ?cl) (cl_blob cl) (length blob)"
      using assms(1) that by (intro copy_from_poke_other) (simp add: layout_ok_def)
    also have "\<dots> = Ok blob" using assms(2) by (simp add: copy_from_poke)
    finally show ?thesis .
  qed
  then show ?thesis
    using len by (auto simp: dev_create_raw_def dev_ioctl_dispatch [OF lay] dispatch_def ioc_nr_iowr
        EINVAL_def as_i32_def Let_def split_def and_then_def split: sum.splits)
qed

lemma dev_create_eq:
  "dev_create h cl spec st =
    (case encode spec Create of
       Err e \<Rightarrow> (Err (Invalid_input e), st) | Ok blob \<Rightarrow> dev_create_raw h cl blob st)"
  by (simp add: dev_create_def dev_create_raw_def split: sum.split)

lemma nr_distinct:
  "NR_START \<noteq> NR_CREATE" "NR_STATE \<noteq> NR_CREATE" "NR_KILL \<noteq> NR_CREATE" "NR_DELETE \<noteq> NR_CREATE"
  "NR_STATE \<noteq> NR_START" "NR_KILL \<noteq> NR_START" "NR_DELETE \<noteq> NR_START" "NR_KILL \<noteq> NR_STATE"
  "NR_DELETE \<noteq> NR_STATE" "NR_DELETE \<noteq> NR_KILL"
  by (simp_all add: nr_defs)

lemma dev_start_eq:
  assumes "layout_ok cl n"
  shows "dev_start h cl i st = (let (r, st') = start_container i st in (os_result r, st'))"
  by (simp add: dev_start_def dev_ioctl_dispatch [OF assms] dispatch_def ioc_nr_iowr nr_distinct
      Let_def split_def and_then_def os_result_def split: sum.splits)

lemma dev_state_eq:
  assumes "layout_ok cl n"
  shows "dev_state h cl i st = (let (r, st') = container_state h i st in
    (and_then (os_result r) (\<lambda>(s, pid, x). Ok (kstatus_of s, as_i32 pid, word_of_int x)), st'))"
  by (simp add: dev_state_def dev_ioctl_dispatch [OF assms] dispatch_def ioc_nr_iowr nr_distinct
      Let_def split_def and_then_def os_result_def as_i32_def split: sum.splits)

lemma dev_kill_eq:
  assumes "layout_ok cl n"
  shows "dev_kill h cl i sig st = (let (r, st') = kill_container h i
      (if word_of_int sig = (0 :: i32) then SIGKILL else as_i32 sig) st in (os_result r, st'))"
  by (simp add: dev_kill_def dev_ioctl_dispatch [OF assms] dispatch_def ioc_nr_iowr nr_distinct
      Let_def split_def and_then_def os_result_def as_i32_def split: sum.splits)

lemma dev_delete_eq:
  assumes "layout_ok cl n"
  shows "dev_delete h cl i st = (let (r, st') = delete_container h i st in (os_result r, st'))"
  by (simp add: dev_delete_def dev_ioctl_dispatch [OF assms] dispatch_def ioc_nr_iowr nr_distinct
      Let_def split_def and_then_def os_result_def split: sum.splits)

lemmas dev_eqs = dev_create_raw_eq dev_create_eq dev_start_eq dev_state_eq dev_kill_eq dev_delete_eq

text \<open>
C24 (a call of the device client is one lifecycle request). Given a client whose command block is
writable and does not overlap the buffer of the specification, every method of \<open>Device\<close>, through
its command block, the request number and the copies of the dispatcher, does to the module exactly
what the lifecycle function of the same name does, and returns its result: \<open>create\<close> fails without
a request when the specification does not encode, \<open>create\_raw\<close> of more than 16 KiB is EINVAL, a
signal 0 is SIGKILL, and numbers pass through 32 bits.
\<close>

theorem device_is_lifecycle:
  assumes "layout_ok cl K_MAX_SPEC" "length blob < 2 ^ 32"
  shows "dev_create_raw h cl blob st =
      (if length blob > K_MAX_SPEC then (Err (Os 22), st)
       else (let (r, st') = create_from_blob h blob st in
             (and_then (os_result r) (\<lambda>(i, pid). Ok (i, as_i32 pid)), st')))
    \<and> dev_create h cl spec st =
      (case encode spec Create of
         Err e \<Rightarrow> (Err (Invalid_input e), st) | Ok b \<Rightarrow> dev_create_raw h cl b st)
    \<and> dev_start h cl i st = (let (r, st') = start_container i st in (os_result r, st'))
    \<and> dev_state h cl i st = (let (r, st') = container_state h i st in
        (and_then (os_result r) (\<lambda>(s, pid, x). Ok (kstatus_of s, as_i32 pid, word_of_int x)), st'))
    \<and> dev_kill h cl i sig st = (let (r, st') = kill_container h i
        (if word_of_int sig = (0 :: i32) then SIGKILL else as_i32 sig) st in (os_result r, st'))
    \<and> dev_delete h cl i st = (let (r, st') = delete_container h i st in (os_result r, st'))"
  by (intro conjI dev_create_raw_eq dev_create_eq dev_start_eq dev_state_eq dev_kill_eq dev_delete_eq
      assms) (use assms in simp_all)

text \<open>A client with all of its memory mapped and writable: the block at 0, the buffer at 64.\<close>

definition demo_client :: client where
  "demo_client = \<lparr>cl_mem = all_mapped [], cl_cmd = 0, cl_blob = 64\<rparr>"

lemma demo_layout: "layout_ok demo_client K_MAX_SPEC"
proof -
  have "64 + word_of_nat j \<noteq> (word_of_nat i :: u64)" if "i < 32" "j < K_MAX_SPEC" for i j
  proof
    assume e: "64 + word_of_nat j = (word_of_nat i :: u64)"
    have "unat (word_of_nat (64 + j) :: u64) = 64 + j" "unat (word_of_nat i :: u64) = i"
      using that by (simp_all only: unat_of_nat K_MAX_SPEC_def) (simp_all add: take_bit_nat_eq_self)
    then show False using e that(1) by simp
  qed
  then show ?thesis by (simp add: layout_ok_def demo_client_def all_mapped_def list_all_iff)
qed

theorem device_is_lifecycle_witness:
  "\<exists>st. dev_create_raw quiet_helper demo_client tiny_blob (kstate_init ()) = (Ok (1, 7), st)"
proof -
  have "length tiny_blob < 2 ^ 32" using tiny_spec_ok(4) by (simp add: K_MAX_SPEC_def)
  from device_is_lifecycle [OF demo_layout this, of quiet_helper "kstate_init ()"] tiny_create
  show ?thesis using tiny_spec_ok(4) by (auto simp: as_i32_def)
qed

end
