(* ===== verification/Cli_Host.thy ===== *)
theory Cli_Host
  imports Cli_Device Oci_Translate
begin

text \<open>
  The machine a \<open>krunc\<close> process runs on, as far as the sources use it through the standard
  library: files and directories, environment variables, programs, the terminal, and the krunc
  device. \<open>userspace/krunc-cli\<close> is modelled over it in the theories \<open>Cli_Cgroup\<close>,
  \<open>Cli_Commands\<close> and \<open>Cli_Run\<close>.
\<close>

section \<open>State and environment\<close>

text \<open>
  A path is the list of the names from the root. The content of a file has an abstract type:
  what the sources write is text or the JSON of serde. \<open>/proc\<close> and \<open>/sys\<close> are the kernel's: a
  write there is an event and changes no entry. There are no symbolic links.
\<close>

type_synonym path = "string list"

datatype 'b node = Dir | File 'b

datatype 'b event =
    Mkdir path
  | Open_write path
  | Write path 'b
  | Read path
  | Read_dir path
  | Rmdir path
  | Rmtree path
  | Open_device
  | Tool "string list"
  | Print 'b
  | Waitpid int
  | Sleep
  | Open_pty
  | Fork

text \<open>What \<open>waitpid\<close> answers.\<close>

datatype wait_result = Reaped i32 | Interrupted | Wait_failed

record ('os, 'b) world =
  w_kernel :: "'os kstate"
  w_files :: "(path \<times> 'b node) list"
  w_log :: "'b event list"

text \<open>The state file of a container (\<open>State\<close>); a \<open>BTreeMap\<close> is a finite map.\<close>

record state_file =
  sd_oci_version :: string
  sd_id :: string
  sd_status :: string
  sd_pid :: int
  sd_bundle :: string
  sd_krunc_id :: u64
  sd_cgroup :: "string option"
  sd_bpf_lsm :: "string option"
  sd_annotations :: "(string \<rightharpoonup> string) option"

text \<open>
  What the process cannot decide. \<open>refuses\<close> lets any call fail, whatever happened before;
  \<open>torn\<close> is what a failed write leaves in the file, \<open>survives\<close> what a failed removal leaves of
  a tree. \<open>text\<close>, \<open>to_json\<close>, \<open>from_json\<close>, \<open>parse_config\<close> and \<open>json_string\<close> stand for the
  encoding of text and for serde. While the process waits, the rest of the machine goes on as
  \<open>elapse\<close> says.
\<close>

record ('os, 'b) host =
  ho_helper :: "'os helper"
  ho_client :: client
  ho_refuses :: "'b event list \<Rightarrow> 'b event \<Rightarrow> bool"
  ho_torn :: "'b event list \<Rightarrow> 'b \<Rightarrow> 'b"
  ho_survives :: "'b event list \<Rightarrow> path \<Rightarrow> bool"
  ho_text :: "string \<Rightarrow> 'b"
  ho_to_json :: "state_file \<Rightarrow> 'b"
  ho_from_json :: "'b \<Rightarrow> state_file option"
  ho_parse_config :: "'b \<Rightarrow> oci_error + oci_config"
  ho_json_string :: "string \<Rightarrow> string"
  ho_cwd :: path
  ho_temp_dir :: string
  ho_var :: "string \<Rightarrow> string option"
  ho_now :: nat
  ho_waitpid :: "'b event list \<Rightarrow> int \<Rightarrow> wait_result"
  ho_elapse :: "'b event list \<Rightarrow> 'os \<Rightarrow> 'os"

section \<open>Processes\<close>

text \<open>A computation ends by \<open>die\<close> with a message, by \<open>exit\<close> with a code, or with a value.\<close>

datatype halt = Die string | Exit int

type_synonym ('os, 'b, 'a) proc = "('os, 'b) world \<Rightarrow> (halt + 'a) \<times> ('os, 'b) world"

definition ret :: "'a \<Rightarrow> ('os, 'b, 'a) proc" where
  "ret a w = (Ok a, w)"

definition die :: "string \<Rightarrow> ('os, 'b, 'a) proc" where
  "die m w = (Err (Die m), w)"

definition seq :: "('os, 'b, 'a) proc \<Rightarrow> ('a \<Rightarrow> ('os, 'b, 'c) proc) \<Rightarrow> ('os, 'b, 'c) proc" where
  "seq m f w = (case m w of (Err x, w) \<Rightarrow> (Err x, w) | (Ok a, w) \<Rightarrow> f a w)"

definition or_die :: "string \<Rightarrow> 'a option \<Rightarrow> ('os, 'b, 'a) proc" where
  "or_die m r = (case r of None \<Rightarrow> die m | Some a \<Rightarrow> ret a)"

text \<open>\<open>?\<close> on an \<open>io::Result\<close>; which error it was is never looked at.\<close>

definition try_io :: "('os, 'b, 'a option) proc \<Rightarrow> ('a \<Rightarrow> ('os, 'b, 'c option) proc) \<Rightarrow>
    ('os, 'b, 'c option) proc" where
  "try_io m f = seq m (\<lambda>r. case r of None \<Rightarrow> ret None | Some a \<Rightarrow> f a)"

text \<open>A question to the state of the machine.\<close>

definition ask :: "(('os, 'b) world \<Rightarrow> 'a) \<Rightarrow> ('os, 'b, 'a) proc" where
  "ask f w = (Ok (f w), w)"

text \<open>A call that may be refused; it is recorded in any case.\<close>

definition perform :: "('os, 'b) host \<Rightarrow> 'b event \<Rightarrow> ('os, 'b, bool) proc" where
  "perform e ev w = (Ok (\<not> ho_refuses e (w_log w) ev), w\<lparr>w_log := w_log w @ [ev]\<rparr>)"

definition exit_with :: "int \<Rightarrow> ('os, 'b, 'a) proc" where
  "exit_with code w = (Err (Exit code), w)"

text \<open>A call that blocks: the operating system is another one when it comes back.\<close>

definition block :: "('os, 'b) host \<Rightarrow> 'b event \<Rightarrow> ('os, 'b) world \<Rightarrow> ('os, 'b) world" where
  "block e ev w =
     w\<lparr>w_kernel := (w_kernel w)\<lparr>ks_os := ho_elapse e (w_log w) (ks_os (w_kernel w))\<rparr>,
       w_log := w_log w @ [ev]\<rparr>"

text \<open>A call of the device client.\<close>

definition device :: "('os kstate \<Rightarrow> 'a \<times> 'os kstate) \<Rightarrow> ('os, 'b, 'a) proc" where
  "device f w = (let (r, k) = f (w_kernel w) in (Ok r, w\<lparr>w_kernel := k\<rparr>))"

section \<open>Paths\<close>

definition kernel_dir :: "path \<Rightarrow> bool" where
  "kernel_dir p = (case p of c # _ \<Rightarrow> c = ''proc'' \<or> c = ''sys'' | [] \<Rightarrow> False)"

definition node_at :: "('os, 'b) world \<Rightarrow> path \<Rightarrow> 'b node option" where
  "node_at w p = (if p = [] then Some Dir else map_of (w_files w) p)"

definition is_dir :: "('os, 'b) world \<Rightarrow> path \<Rightarrow> bool" where
  "is_dir w p \<longleftrightarrow> node_at w p = Some Dir"

text \<open>
  Path resolution; every name but the last must be looked up in a directory. Besides those of the
  table these are \<open>/proc\<close> and the directories of the tasks in it, which come and go with the tasks:
  whether a task is there is part of the answer to the call on the path, which may be refused.
\<close>

definition task_dir :: "path \<Rightarrow> bool" where
  "task_dir p = (case p of [a] \<Rightarrow> a = ''proc'' | [a, _] \<Rightarrow> a = ''proc'' | _ \<Rightarrow> False)"

definition searchable :: "('os, 'b) world \<Rightarrow> path \<Rightarrow> bool" where
  "searchable w p \<longleftrightarrow> is_dir w p \<or> node_at w p = None \<and> task_dir p"

fun walk :: "(path \<Rightarrow> bool) \<Rightarrow> path \<Rightarrow> string list \<Rightarrow> path option" where
  "walk d cur [] = Some cur"
| "walk d cur (c # cs) =
     (if \<not> d cur then None
      else if c = [] \<or> c = ''.'' then walk d cur cs
      else if c = ''..'' then walk d (butlast cur) cs
      else walk d (cur @ [c]) cs)"

definition start_dir :: "('os, 'b) host \<Rightarrow> string \<Rightarrow> path" where
  "start_dir e s = (if is_absolute s then [] else ho_cwd e)"

definition resolve :: "('os, 'b) host \<Rightarrow> ('os, 'b) world \<Rightarrow> string \<Rightarrow> path option" where
  "resolve e w s = (if s = [] then None else walk (searchable w) (start_dir e s) (split_slash s))"

definition render_path :: "path \<Rightarrow> string" where
  "render_path p = (if p = [] then ''/'' else concat (map (\<lambda>c. CHR ''/'' # c) p))"

text \<open>\<open>Path::components\<close> of an absolute path.\<close>

definition components :: "string \<Rightarrow> string list" where
  "components s = filter (\<lambda>c. c \<noteq> [] \<and> c \<noteq> ''.'') (split_slash s)"

section \<open>Files and directories\<close>

definition put_node :: "path \<Rightarrow> 'b node \<Rightarrow> ('os, 'b) world \<Rightarrow> ('os, 'b) world" where
  "put_node p n w = w\<lparr>w_files := (p, n) # filter (\<lambda>(q, _). q \<noteq> p) (w_files w)\<rparr>"

definition below :: "path \<Rightarrow> path \<Rightarrow> bool" where
  "below p q \<longleftrightarrow> take (length p) q = p"

text \<open>\<open>Path::exists\<close> and \<open>fs::canonicalize\<close>.\<close>

definition path_exists :: "('os, 'b) host \<Rightarrow> string \<Rightarrow> ('os, 'b) world \<Rightarrow> bool" where
  "path_exists e s w = (case resolve e w s of None \<Rightarrow> False | Some p \<Rightarrow> node_at w p \<noteq> None)"

definition canonicalize :: "('os, 'b) host \<Rightarrow> string \<Rightarrow> ('os, 'b) world \<Rightarrow> string option" where
  "canonicalize e s w =
     (case resolve e w s of
        None \<Rightarrow> None
      | Some p \<Rightarrow> if node_at w p \<noteq> None then Some (render_path p) else None)"

definition read_file :: "('os, 'b) host \<Rightarrow> string \<Rightarrow> ('os, 'b, 'b option) proc" where
  "read_file e s w =
     (case resolve e w s of
        None \<Rightarrow> (Ok None, w)
      | Some p \<Rightarrow>
          seq (perform e (Read p)) (\<lambda>ok. ret
            (case node_at w p of Some (File b) \<Rightarrow> if ok then Some b else None | _ \<Rightarrow> None)) w)"

text \<open>\<open>fs::write\<close>: open with truncation, then write.\<close>

definition write_file :: "('os, 'b) host \<Rightarrow> string \<Rightarrow> 'b \<Rightarrow> ('os, 'b, unit option) proc" where
  "write_file e s b w =
     (case resolve e w s of
        None \<Rightarrow> (Ok None, w)
      | Some p \<Rightarrow>
          if is_dir w p then (Ok None, w)
          else if kernel_dir p then
            seq (perform e (Write p b)) (\<lambda>ok. ret (if ok then Some () else None)) w
          else
            seq (perform e (Open_write p)) (\<lambda>ok.
              if \<not> ok then ret None
              else seq (perform e (Write p b)) (\<lambda>ok w.
                if ok then (Ok (Some ()), put_node p (File b) w)
                else (Ok None, put_node p (File (ho_torn e (w_log w) b)) w))) w)"

text \<open>\<open>fs::create_dir_all\<close>.\<close>

fun make_dirs :: "('os, 'b) host \<Rightarrow> path \<Rightarrow> string list \<Rightarrow> ('os, 'b, unit option) proc" where
  "make_dirs e cur [] w = (Ok (Some ()), w)"
| "make_dirs e cur (c # cs) w =
     (if c = [] \<or> c = ''.'' then make_dirs e cur cs w
      else if c = ''..'' then make_dirs e (butlast cur) cs w
      else if is_dir w (cur @ [c]) then make_dirs e (cur @ [c]) cs w
      else if node_at w (cur @ [c]) \<noteq> None then (Ok None, w)
      else seq (perform e (Mkdir (cur @ [c]))) (\<lambda>ok w.
        if ok then make_dirs e (cur @ [c]) cs (put_node (cur @ [c]) Dir w) else (Ok None, w)) w)"

definition create_dir_all :: "('os, 'b) host \<Rightarrow> string \<Rightarrow> ('os, 'b, unit option) proc" where
  "create_dir_all e s = make_dirs e (start_dir e s) (split_slash s)"

text \<open>\<open>fs::remove_dir\<close>: only an empty directory goes.\<close>

definition remove_dir :: "('os, 'b) host \<Rightarrow> string \<Rightarrow> ('os, 'b, unit option) proc" where
  "remove_dir e s w =
     (case resolve e w s of
        None \<Rightarrow> (Ok None, w)
      | Some p \<Rightarrow>
          if \<not> is_dir w p \<or> last (split_slash s) \<in> {''.'', ''..''} \<or> p = []
             \<or> list_ex (\<lambda>(q, _). q \<noteq> p \<and> below p q) (w_files w) then (Ok None, w)
          else seq (perform e (Rmdir p)) (\<lambda>ok w.
            if ok then (Ok (Some ()), w\<lparr>w_files := filter (\<lambda>(q, _). q \<noteq> p) (w_files w)\<rparr>)
            else (Ok None, w)) w)"

text \<open>
  \<open>fs::remove_dir_all\<close>: the entries below the directory, then the directory, which stays when
  the path names it by \<open>.\<close> or \<open>..\<close>.
\<close>

definition remove_dir_all :: "('os, 'b) host \<Rightarrow> string \<Rightarrow> ('os, 'b, unit option) proc" where
  "remove_dir_all e s w =
     (case resolve e w s of
        None \<Rightarrow> (Ok None, w)
      | Some p \<Rightarrow>
          if \<not> is_dir w p then (Ok None, w)
          else seq (perform e (Rmtree p)) (\<lambda>ok w.
            let stays = (last (split_slash s) \<in> {''.'', ''..''} \<or> p = []);
                keep = (\<lambda>q. \<not> below p q \<or> (stays \<and> q = p) \<or> (\<not> ok \<and> ho_survives e (w_log w) q)) in
            (Ok (if ok \<and> \<not> stays then Some () else None),
             w\<lparr>w_files := filter (\<lambda>(q, _). keep q) (w_files w)\<rparr>)) w)"

text \<open>\<open>fs::read_dir\<close>: the names of the entries, in the order of the table.\<close>

definition read_dir :: "('os, 'b) host \<Rightarrow> string \<Rightarrow> ('os, 'b, string list option) proc" where
  "read_dir e s w =
     (case resolve e w s of
        None \<Rightarrow> (Ok None, w)
      | Some p \<Rightarrow>
          if \<not> is_dir w p then (Ok None, w)
          else seq (perform e (Read_dir p)) (\<lambda>ok. ret
            (if ok then Some (map (\<lambda>(q, _). last q)
                (filter (\<lambda>(q, _). q \<noteq> [] \<and> butlast q = p) (w_files w))) else None)) w)"

text \<open>\<open>File::open\<close> of the device, a run of another program, and a line on the standard output.\<close>

definition open_device :: "('os, 'b) host \<Rightarrow> ('os, 'b, unit option) proc" where
  "open_device e = seq (perform e Open_device) (\<lambda>ok. ret (if ok then Some () else None))"

definition run_tool :: "('os, 'b) host \<Rightarrow> string list \<Rightarrow> ('os, 'b, unit option) proc" where
  "run_tool e args = seq (perform e (Tool args)) (\<lambda>ok. ret (if ok then Some () else None))"

definition print_out :: "('os, 'b) host \<Rightarrow> 'b \<Rightarrow> ('os, 'b, unit) proc" where
  "print_out e b = seq (perform e (Print b)) (\<lambda>_. ret ())"

section \<open>Facts about the machine\<close>

named_theorems proc_simps \<open>running a computation\<close>

lemma seq_ret [proc_simps]: "seq (ret a) f w = f a w"
  by (simp add: seq_def ret_def)

lemma seq_die [proc_simps]: "seq (die m) f w = (Err (Die m), w)"
  by (simp add: seq_def die_def)

lemma seq_ask [proc_simps]: "seq (ask g) f w = f (g w) w"
  by (simp add: seq_def ask_def)

lemma seq_perform [proc_simps]:
  "seq (perform e ev) f w = f (\<not> ho_refuses e (w_log w) ev) (w\<lparr>w_log := w_log w @ [ev]\<rparr>)"
  by (simp add: seq_def perform_def)

lemma seq_device [proc_simps]:
  "seq (device g) f w = (let (r, k) = g (w_kernel w) in f r (w\<lparr>w_kernel := k\<rparr>))"
  by (simp add: seq_def device_def Let_def split_def)

lemma seq_or_die [proc_simps]:
  "seq (or_die m r) f w = (case r of None \<Rightarrow> (Err (Die m), w) | Some a \<Rightarrow> f a w)"
  by (simp add: or_die_def seq_ret seq_die split: option.split)

lemma seq_assoc: "seq (seq m f) g = seq m (\<lambda>a. seq (f a) g)"
  by (rule ext) (simp add: seq_def split: prod.split sum.split)

lemma seq_cong: "m w = m' w \<Longrightarrow> (\<And>a w'. m' w = (Ok a, w') \<Longrightarrow> f a w' = f' a w') \<Longrightarrow>
    seq m f w = seq m' f' w"
  by (auto simp: seq_def split: prod.split sum.split)

lemma map_of_filter_key:
  "map_of (filter (\<lambda>(q, _). P q) xs) q = (if P q then map_of xs q else None)"
  by (induction xs) auto

lemma map_of_put_node: "map_of (w_files (put_node p n w)) = (map_of (w_files w))(p \<mapsto> n)"
  by (auto simp: put_node_def fun_eq_iff map_of_filter_key [of "\<lambda>q. q \<noteq> p"])

lemma node_at_put_node: "p \<noteq> [] \<Longrightarrow> node_at (put_node p n w) q = (if q = p then Some n else node_at w q)"
  by (simp add: node_at_def map_of_put_node)

lemma world_fields_put_node [simp]:
  "w_kernel (put_node p n w) = w_kernel w" "w_log (put_node p n w) = w_log w"
  by (simp_all add: put_node_def)

lemma node_at_fields [simp]:
  "node_at (w\<lparr>w_log := l\<rparr>) = node_at w" "node_at (w\<lparr>w_kernel := k\<rparr>) = node_at w"
  by (simp_all add: node_at_def fun_eq_iff)

lemma is_dir_fields [simp]:
  "is_dir (w\<lparr>w_log := l\<rparr>) = is_dir w" "is_dir (w\<lparr>w_kernel := k\<rparr>) = is_dir w"
  by (simp_all add: is_dir_def fun_eq_iff)

lemma searchable_fields [simp]:
  "searchable (w\<lparr>w_log := l\<rparr>) = searchable w" "searchable (w\<lparr>w_kernel := k\<rparr>) = searchable w"
  by (simp_all add: searchable_def fun_eq_iff)

lemma resolve_fields [simp]:
  "resolve e (w\<lparr>w_log := l\<rparr>) = resolve e w" "resolve e (w\<lparr>w_kernel := k\<rparr>) = resolve e w"
  by (simp_all add: resolve_def fun_eq_iff)

end
