(* ===== verification/Cli_Cgroup.thy ===== *)
theory Cli_Cgroup
  imports Cli_Host
begin

text \<open>
  \<open>userspace/krunc-cli/src/cgroup.rs\<close> and \<open>bpflsm.rs\<close>: the cgroup of a container, with the
  controller files its limits are written to, and the calls of the BPF-LSM helper program.
\<close>

section \<open>Trimming\<close>

definition trim_start_slash :: "string \<Rightarrow> string" where
  "trim_start_slash s = dropWhile (\<lambda>c. c = CHR ''/'') s"

definition trim_end_slash :: "string \<Rightarrow> string" where
  "trim_end_slash s = rev (dropWhile (\<lambda>c. c = CHR ''/'') (rev s))"

text \<open>\<open>trim_end\<close>; the strings it is used on hold no white space but blanks.\<close>

definition trim_end :: "string \<Rightarrow> string" where
  "trim_end s = rev (dropWhile (\<lambda>c. c = CHR '' '') (rev s))"

section \<open>The cgroup directory\<close>

definition CG_ROOT :: string where "CG_ROOT = ''/sys/fs/cgroup''"

definition dir_for :: "string \<Rightarrow> cgroup_config \<Rightarrow> string" where
  "dir_for cid cfg =
     (let rel = (case cg_path cfg of Some p \<Rightarrow> p | None \<Rightarrow> ''krunc/'' @ cid) in
      path_join CG_ROOT (trim_start_slash rel))"

definition controllers_of :: "cgroup_config \<Rightarrow> string" where
  "controllers_of cfg = trim_end
     ((if cg_pids_limit cfg \<noteq> None then ''+pids '' else [])
      @ (if cg_memory_limit cfg \<noteq> None then ''+memory '' else [])
      @ (if cg_cpu_max cfg \<noteq> None \<or> cg_cpu_weight cfg \<noteq> None then ''+cpu '' else []))"

text \<open>The loop over the ancestors of the leaf. Paths are compared by their components.\<close>

fun delegate :: "('os, 'b) host \<Rightarrow> string \<Rightarrow> string \<Rightarrow> string \<Rightarrow> string list \<Rightarrow> ('os, 'b, unit) proc" where
  "delegate e controllers dir cur [] = ret ()"
| "delegate e controllers dir cur (part # parts) =
     (let next = path_join cur part in
      if components next = components dir then ret ()
      else seq (write_file e (path_join next ''cgroup.subtree_control'') (ho_text e controllers))
        (\<lambda>_. delegate e controllers dir next parts))"

definition write_limit :: "('os, 'b) host \<Rightarrow> string \<Rightarrow> string \<Rightarrow> string option \<Rightarrow>
    ('os, 'b, unit option) proc" where
  "write_limit e dir name limit =
     (case limit of
        None \<Rightarrow> ret (Some ())
      | Some v \<Rightarrow> write_file e (path_join dir name) (ho_text e v))"

definition cgroup_create :: "('os, 'b) host \<Rightarrow> string \<Rightarrow> cgroup_config \<Rightarrow>
    ('os, 'b, string option option) proc" where
  "cgroup_create e cid cfg =
     (if cg_pids_limit cfg = None \<and> cg_memory_limit cfg = None \<and> cg_cpu_max cfg = None
         \<and> cg_cpu_weight cfg = None then ret (Some None)
      else
        (let controllers = controllers_of cfg; dir = dir_for cid cfg in
         try_io (create_dir_all e dir) (\<lambda>_.
         seq (write_file e (CG_ROOT @ ''/cgroup.subtree_control'') (ho_text e controllers)) (\<lambda>_.
         seq (delegate e controllers dir CG_ROOT (drop (length (components CG_ROOT)) (components dir))) (\<lambda>_.
         try_io (write_limit e dir ''pids.max'' (map_option dec_str (cg_pids_limit cfg))) (\<lambda>_.
         try_io (write_limit e dir ''memory.max'' (map_option dec_str (cg_memory_limit cfg))) (\<lambda>_.
         try_io (write_limit e dir ''cpu.max'' (cg_cpu_max cfg)) (\<lambda>_.
         try_io (write_limit e dir ''cpu.weight''
             (map_option (\<lambda>w. dec_str (uint w)) (cg_cpu_weight cfg))) (\<lambda>_.
         ret (Some (Some dir)))))))))))"

definition cgroup_place :: "('os, 'b) host \<Rightarrow> string \<Rightarrow> int \<Rightarrow> ('os, 'b, unit option) proc" where
  "cgroup_place e dir pid = write_file e (path_join dir ''cgroup.procs'') (ho_text e (dec_str pid))"

definition cgroup_remove :: "('os, 'b) host \<Rightarrow> string \<Rightarrow> ('os, 'b, unit) proc" where
  "cgroup_remove e dir = seq (remove_dir e dir) (\<lambda>_. ret ())"

section \<open>The BPF-LSM helper program\<close>

definition var_or :: "('os, 'b) host \<Rightarrow> string \<Rightarrow> string \<Rightarrow> string" where
  "var_or e name dflt = (case ho_var e name of Some v \<Rightarrow> v | None \<Rightarrow> dflt)"

definition bpf_tool :: "('os, 'b) host \<Rightarrow> string" where
  "bpf_tool e = var_or e ''KRUNC_BPF'' ''krunc-bpf''"

definition bpf_object :: "('os, 'b) host \<Rightarrow> string" where
  "bpf_object e = var_or e ''KRUNC_LSM_BPF'' ''/krunc_lsm.bpf.o''"

definition pin_dir :: "('os, 'b) host \<Rightarrow> string" where
  "pin_dir e = var_or e ''KRUNC_BPF_PIN'' ''/sys/fs/bpf/krunc''"

definition bpf_run :: "('os, 'b) host \<Rightarrow> string list \<Rightarrow> ('os, 'b, unit option) proc" where
  "bpf_run e args = run_tool e (bpf_tool e # args)"

definition bpf_arm :: "('os, 'b) host \<Rightarrow> string \<Rightarrow> string \<Rightarrow> ('os, 'b, unit option) proc" where
  "bpf_arm e cgroup_dir mode =
     try_io (bpf_run e [''init'', bpf_object e, pin_dir e]) (\<lambda>_.
     try_io (bpf_run e [''guard'', pin_dir e, cgroup_dir, mode]) (\<lambda>_. ret (Some ())))"

definition bpf_disarm :: "('os, 'b) host \<Rightarrow> string \<Rightarrow> ('os, 'b, unit) proc" where
  "bpf_disarm e cgroup_dir = seq (bpf_run e [''unguard'', pin_dir e, cgroup_dir]) (\<lambda>_. ret ())"

end
