(* ===== verification/Cli_Commands.thy ===== *)
theory Cli_Commands
  imports Cli_Cgroup
begin

text \<open>
  \<open>userspace/krunc-cli/src/main.rs\<close>: the state store and the commands that come back at once
  (\<open>create\<close>, \<open>start\<close>, \<open>state\<close>, \<open>kill\<close>, \<open>delete\<close>, \<open>list\<close>). The message of a \<open>die\<close> keeps its
  text up to the text of an I/O error; what is written to the standard error by a command that
  goes on is left out.
\<close>

section \<open>The state store\<close>

definition state_dir :: "string \<Rightarrow> string \<Rightarrow> string" where
  "state_dir root cid = path_join root cid"

definition state_path :: "string \<Rightarrow> string \<Rightarrow> string" where
  "state_path root cid = path_join (state_dir root cid) ''state.json''"

definition load_state :: "('os, 'b) host \<Rightarrow> string \<Rightarrow> string \<Rightarrow> ('os, 'b, state_file) proc" where
  "load_state e root cid =
     seq (read_file e (state_path root cid)) (\<lambda>raw.
     seq (or_die (''container '' @ quoted cid @ '' does not exist'') raw) (\<lambda>raw.
     or_die ''corrupt state: '' (ho_from_json e raw)))"

definition save_state :: "('os, 'b) host \<Rightarrow> string \<Rightarrow> state_file \<Rightarrow> ('os, 'b, unit) proc" where
  "save_state e root st =
     seq (create_dir_all e (state_dir root (sd_id st))) (\<lambda>r.
     seq (or_die ''mkdir state: '' r) (\<lambda>_.
     seq (write_file e (state_path root (sd_id st)) (ho_to_json e st)) (\<lambda>r.
     or_die ''write state: '' r)))"

text \<open>\<open>args.first()\<close> of a command, and the open device.\<close>

definition first_arg :: "string \<Rightarrow> string list \<Rightarrow> ('os, 'b, string) proc" where
  "first_arg usage args = or_die usage (case args of [] \<Rightarrow> None | a # _ \<Rightarrow> Some a)"

definition open_or_die :: "('os, 'b) host \<Rightarrow> string \<Rightarrow> ('os, 'b, unit) proc" where
  "open_or_die e m = seq (open_device e) (or_die m)"

text \<open>The result of a device call.\<close>

definition ok_result :: "'e + 'a \<Rightarrow> 'a option" where
  "ok_result r = (case r of Err _ \<Rightarrow> None | Ok x \<Rightarrow> Some x)"

section \<open>Preparing the root file system\<close>

definition default_path_dirs :: "string list" where
  "default_path_dirs = [''/usr/local/sbin'', ''/usr/local/bin'', ''/usr/sbin'', ''/usr/bin'',
     ''/sbin'', ''/bin'']"

fun split_colon :: "string \<Rightarrow> string list" where
  "split_colon [] = [[]]"
| "split_colon (c # cs) =
     (if c = CHR '':'' then [] # split_colon cs
      else (case split_colon cs of [] \<Rightarrow> [[c]] | w # ws \<Rightarrow> (c # w) # ws))"

text \<open>\<open>env.iter().find_map(|e| e.strip_prefix("PATH="))\<close>.\<close>

fun path_variable :: "string list \<Rightarrow> string option" where
  "path_variable [] = None"
| "path_variable (v # env) =
     (case strip_prefix ''PATH='' v of Some p \<Rightarrow> Some p | None \<Rightarrow> path_variable env)"

definition search_dirs :: "string list \<Rightarrow> string list" where
  "search_dirs env =
     (case path_variable env of Some p \<Rightarrow> split_colon p | None \<Rightarrow> default_path_dirs)"

fun search_path :: "('os, 'b) host \<Rightarrow> string \<Rightarrow> string \<Rightarrow> string list \<Rightarrow> ('os, 'b) world \<Rightarrow> string option" where
  "search_path e rootfs arg0 [] w = None"
| "search_path e rootfs arg0 (d # dirs) w =
     (let d = trim_end_slash d in
      if d \<noteq> [] \<and> path_exists e (path_join (path_join rootfs (trim_start_slash d)) arg0) w
      then Some (d @ ''/'' @ arg0)
      else search_path e rootfs arg0 dirs w)"

fun make_all :: "('os, 'b) host \<Rightarrow> string list \<Rightarrow> ('os, 'b, unit) proc" where
  "make_all e [] = ret ()"
| "make_all e (d # ds) = seq (create_dir_all e d) (\<lambda>_. make_all e ds)"

definition mount_points :: "string \<Rightarrow> oci_config \<Rightarrow> string list" where
  "mount_points rootfs cfg =
     map (path_join rootfs) [''proc'', ''sys'', ''dev'', ''tmp'']
     @ map (path_join rootfs)
         (filter (\<lambda>d. d \<noteq> []) (map (\<lambda>m. trim_start_slash (om_destination m)) (oc_mounts cfg)))"

definition prepare_rootfs :: "('os, 'b) host \<Rightarrow> string \<Rightarrow> oci_config \<Rightarrow> ('os, 'b, oci_config) proc" where
  "prepare_rootfs e bundle cfg =
     (case oc_root cfg of
        None \<Rightarrow> ret cfg
      | Some root \<Rightarrow>
          (let rootfs = (if is_absolute (rt_path root) then rt_path root
                         else path_join bundle (rt_path root)) in
           seq (make_all e (mount_points rootfs cfg)) (\<lambda>_.
           case oc_process cfg of
             None \<Rightarrow> ret cfg
           | Some proc \<Rightarrow>
               (case pr_args proc of
                  [] \<Rightarrow> ret cfg
                | arg0 # args \<Rightarrow>
                    if CHR ''/'' \<in> set arg0 then ret cfg
                    else
                      seq (ask (search_path e rootfs arg0 (search_dirs (pr_env proc)))) (\<lambda>found.
                      ret (case found of
                          Some a \<Rightarrow> cfg\<lparr>oc_process := Some (proc\<lparr>pr_args := a # args\<rparr>)\<rparr>
                        | None \<Rightarrow> cfg))))))"

section \<open>Identity maps\<close>

definition render_maps :: "id_map list \<Rightarrow> string" where
  "render_maps maps = join_lines (map (\<lambda>m. dec_str (uint (im_container_id m)) @ '' ''
     @ dec_str (uint (im_host_id m)) @ '' '' @ dec_str (uint (im_size m))) maps)"

definition write_id_maps :: "('os, 'b) host \<Rightarrow> int \<Rightarrow> id_map list \<Rightarrow> id_map list \<Rightarrow>
    ('os, 'b, unit option) proc" where
  "write_id_maps e pid uid_maps gid_maps =
     try_io (if uid_maps \<noteq> [] then
               write_file e (''/proc/'' @ dec_str pid @ ''/uid_map'') (ho_text e (render_maps uid_maps))
             else ret (Some ())) (\<lambda>_.
     try_io (if gid_maps \<noteq> [] then
               write_file e (''/proc/'' @ dec_str pid @ ''/gid_map'') (ho_text e (render_maps gid_maps))
             else ret (Some ())) (\<lambda>_. ret (Some ())))"

section \<open>create\<close>

definition OCI_VERSION :: string where "OCI_VERSION = ''1.0.2-dev''"

text \<open>\<open>config.json\<close> as read, parsed and adapted to the root file system.\<close>

definition read_bundle :: "('os, 'b) host \<Rightarrow> string \<Rightarrow> ('os, 'b, oci_config) proc" where
  "read_bundle e bundle =
     seq (read_file e (path_join bundle ''config.json'')) (\<lambda>raw.
     seq (or_die ''reading config.json: '' raw) (\<lambda>raw.
     case ho_parse_config e raw of
       Err err \<Rightarrow> die (oci_error_str err)
     | Ok cfg \<Rightarrow> prepare_rootfs e bundle cfg))"

text \<open>The cgroup of the container: its directory, or nothing when none is needed or it failed.\<close>

definition setup_cgroup :: "('os, 'b) host \<Rightarrow> string \<Rightarrow> oci_config \<Rightarrow> int \<Rightarrow>
    ('os, 'b, string option) proc" where
  "setup_cgroup e cid cfg pid =
     seq (cgroup_create e cid (cgroup_config_of cfg)) (\<lambda>r.
     case r of
       Some (Some dir) \<Rightarrow> seq (cgroup_place e dir pid) (\<lambda>_. ret (Some dir))
     | Some None \<Rightarrow> ret None
     | None \<Rightarrow> ret None)"

definition drop_container :: "('os, 'b) host \<Rightarrow> u64 \<Rightarrow> ('os, 'b, unit) proc" where
  "drop_container e kid = seq (device (dev_delete (ho_helper e) (ho_client e) kid)) (\<lambda>_. ret ())"

definition setup_guard :: "('os, 'b) host \<Rightarrow> oci_config \<Rightarrow> u64 \<Rightarrow> string option \<Rightarrow>
    ('os, 'b, string option) proc" where
  "setup_guard e cfg kid cgroup_dir =
     (case bpf_lsm_mode_of cfg of
        Err err \<Rightarrow> die (oci_error_str err)
      | Ok None \<Rightarrow> ret None
      | Ok (Some mode) \<Rightarrow>
          (case cgroup_dir of
             None \<Rightarrow> seq (drop_container e kid) (\<lambda>_.
               die ''org.krunc.bpf-lsm requires a cgroup (set linux.cgroupsPath)'')
           | Some cg \<Rightarrow>
               seq (bpf_arm e cg (as_arg mode)) (\<lambda>r.
               case r of
                 None \<Rightarrow> seq (drop_container e kid) (\<lambda>_. die ''arming BPF-LSM: '')
               | Some _ \<Rightarrow> ret (Some (as_arg mode)))))"

text \<open>The identity maps; a container that cannot have them is taken back.\<close>

definition map_or_drop :: "('os, 'b) host \<Rightarrow> domain_spec \<Rightarrow> u64 \<Rightarrow> int \<Rightarrow> ('os, 'b, unit) proc" where
  "map_or_drop e spec kid pid =
     (if sp_uid_maps spec \<noteq> [] \<or> sp_gid_maps spec \<noteq> [] then
        seq (write_id_maps e pid (sp_uid_maps spec) (sp_gid_maps spec)) (\<lambda>r.
        case r of
          None \<Rightarrow> seq (drop_container e kid) (\<lambda>_. die ''applying user-namespace ID maps: '')
        | Some _ \<Rightarrow> ret ())
      else ret ())"

text \<open>The state on disk and the \<open>--pid-file\<close>.\<close>

definition save_and_pid :: "('os, 'b) host \<Rightarrow> string \<Rightarrow> (string \<rightharpoonup> string) \<Rightarrow> int \<Rightarrow> state_file \<Rightarrow>
    ('os, 'b, state_file) proc" where
  "save_and_pid e root flags pid st =
     seq (save_state e root st) (\<lambda>_.
     seq (case flags ''--pid-file'' of
            Some pf \<Rightarrow> seq (write_file e pf (ho_text e (dec_str pid))) (\<lambda>_. ret ())
          | None \<Rightarrow> ret ()) (\<lambda>_.
     ret st))"

definition new_state :: "string \<Rightarrow> int \<Rightarrow> string \<Rightarrow> u64 \<Rightarrow> string option \<Rightarrow> string option \<Rightarrow> state_file" where
  "new_state cid pid bundle kid cgroup guard =
     \<lparr>sd_oci_version = OCI_VERSION, sd_id = cid, sd_status = ''created'', sd_pid = pid,
      sd_bundle = bundle, sd_krunc_id = kid, sd_cgroup = cgroup, sd_bpf_lsm = guard,
      sd_annotations = None\<rparr>"

text \<open>From the container in the kernel to the state on disk.\<close>

definition register_container :: "('os, 'b) host \<Rightarrow> string \<Rightarrow> (string \<rightharpoonup> string) \<Rightarrow> string \<Rightarrow> string \<Rightarrow>
    oci_config \<Rightarrow> domain_spec \<Rightarrow> u64 \<Rightarrow> int \<Rightarrow> ('os, 'b, state_file) proc" where
  "register_container e root flags cid bundle cfg spec kid pid =
     seq (map_or_drop e spec kid pid) (\<lambda>_.
     seq (setup_cgroup e cid cfg pid) (\<lambda>dir.
     seq (setup_guard e cfg kid dir) (\<lambda>guard.
     save_and_pid e root flags pid (new_state cid pid bundle kid dir guard))))"

text \<open>What comes before the device is asked: the checks, the bundle and its specification.\<close>

definition prepare_create :: "('os, 'b) host \<Rightarrow> string \<Rightarrow> string \<Rightarrow> string \<Rightarrow>
    ('os, 'b, oci_config \<times> domain_spec) proc" where
  "prepare_create e root cid bundle =
     seq (ask (path_exists e (state_path root cid))) (\<lambda>there.
     if there then die (''container '' @ quoted cid @ '' already exists'')
     else
       seq (read_bundle e bundle) (\<lambda>cfg.
       case config_to_spec bundle cfg of
         Err err \<Rightarrow> die (oci_error_str err)
       | Ok spec \<Rightarrow> seq (open_or_die e ''open /dev/krunc: '') (\<lambda>_. ret (cfg, spec))))"

definition create_from_bundle :: "('os, 'b) host \<Rightarrow> string \<Rightarrow> (string \<rightharpoonup> string) \<Rightarrow> string \<Rightarrow>
    string \<Rightarrow> ('os, 'b, state_file) proc" where
  "create_from_bundle e root flags cid bundle =
     seq (prepare_create e root cid bundle) (\<lambda>(cfg, spec).
     seq (device (dev_create (ho_helper e) (ho_client e) spec)) (\<lambda>r.
     seq (or_die ''create: '' (ok_result r)) (\<lambda>(kid, pid).
     register_container e root flags cid bundle cfg spec kid pid)))"

definition bundle_path :: "('os, 'b) host \<Rightarrow> (string \<rightharpoonup> string) \<Rightarrow> ('os, 'b, string) proc" where
  "bundle_path e flags =
     (let b = (case flags ''--bundle'' of Some b \<Rightarrow> b | None \<Rightarrow> ''.'') in
      seq (ask (canonicalize e b)) (or_die (''bundle '' @ quoted b @ '': '')))"

definition do_create :: "('os, 'b) host \<Rightarrow> string \<Rightarrow> (string \<rightharpoonup> string) \<Rightarrow> string list \<Rightarrow>
    ('os, 'b, unit) proc" where
  "do_create e root flags args =
     seq (first_arg ''usage: create --bundle <dir> <id>'' args) (\<lambda>cid.
     seq (bundle_path e flags) (\<lambda>bundle.
     seq (create_from_bundle e root flags cid bundle) (\<lambda>_. ret ())))"

section \<open>start, state, kill, delete, list\<close>

definition do_start :: "('os, 'b) host \<Rightarrow> string \<Rightarrow> string list \<Rightarrow> ('os, 'b, unit) proc" where
  "do_start e root args =
     seq (first_arg ''usage: start <id>'' args) (\<lambda>cid.
     seq (load_state e root cid) (\<lambda>st.
     seq (open_or_die e ''open: '') (\<lambda>_.
     seq (device (dev_start (ho_helper e) (ho_client e) (sd_krunc_id st))) (\<lambda>r.
     seq (or_die ''start: '' (ok_result r)) (\<lambda>_.
     save_state e root (st\<lparr>sd_status := ''running''\<rparr>))))))"

definition observed :: "kstatus \<Rightarrow> int \<Rightarrow> i32 \<Rightarrow> state_file \<Rightarrow> state_file" where
  "observed s pid exit_status st =
     (let st = st\<lparr>sd_status := status_str s, sd_pid := pid\<rparr> in
      if s = Stopped then st\<lparr>sd_annotations := Some (map_of (exit_annotations exit_status))\<rparr> else st)"

definition do_state :: "('os, 'b) host \<Rightarrow> string \<Rightarrow> string list \<Rightarrow> ('os, 'b, unit) proc" where
  "do_state e root args =
     seq (first_arg ''usage: state <id>'' args) (\<lambda>cid.
     seq (load_state e root cid) (\<lambda>st.
     seq (open_or_die e ''open: '') (\<lambda>_.
     seq (device (dev_state (ho_helper e) (ho_client e) (sd_krunc_id st))) (\<lambda>r.
     seq (case r of
            Ok (s, pid, exit_status) \<Rightarrow>
              (let st = observed s pid exit_status st in seq (save_state e root st) (\<lambda>_. ret st))
          | Err _ \<Rightarrow> ret st) (\<lambda>st.
     print_out e (ho_to_json e st))))))"

definition do_kill :: "('os, 'b) host \<Rightarrow> string \<Rightarrow> string list \<Rightarrow> ('os, 'b, unit) proc" where
  "do_kill e root args =
     seq (first_arg ''usage: kill <id> [signal]'' args) (\<lambda>cid.
     seq (load_state e root cid) (\<lambda>st.
     let sig = (case args of _ # s # _ \<Rightarrow> parse_signal s | _ \<Rightarrow> 9) in
     seq (open_or_die e ''open: '') (\<lambda>_.
     seq (device (dev_kill (ho_helper e) (ho_client e) (sd_krunc_id st) sig)) (\<lambda>r.
     or_die ''kill: '' (ok_result r)))))"

definition do_delete :: "('os, 'b) host \<Rightarrow> string \<Rightarrow> (string \<rightharpoonup> string) \<Rightarrow> string list \<Rightarrow>
    ('os, 'b, unit) proc" where
  "do_delete e root flags args =
     seq (first_arg ''usage: delete <id>'' args) (\<lambda>cid.
     seq (ask (path_exists e (state_path root cid))) (\<lambda>there.
     if \<not> there then
       (if flags ''--force'' \<noteq> None \<or> flags ''-f'' \<noteq> None then ret ()
        else die (''container '' @ quoted cid @ '' does not exist''))
     else
       seq (load_state e root cid) (\<lambda>st.
       seq (open_device e) (\<lambda>dev.
       seq (if dev \<noteq> None then drop_container e (sd_krunc_id st) else ret ()) (\<lambda>_.
       seq (case (sd_bpf_lsm st, sd_cgroup st) of
              (Some _, Some cg) \<Rightarrow> bpf_disarm e cg | _ \<Rightarrow> ret ()) (\<lambda>_.
       seq (case sd_cgroup st of Some cg \<Rightarrow> cgroup_remove e cg | None \<Rightarrow> ret ()) (\<lambda>_.
       seq (remove_dir_all e (state_dir root cid)) (\<lambda>_. ret ()))))))))"

text \<open>\<open>{:<n}\<close> pads a string to \<open>n\<close> characters: bytes that do not continue a character.\<close>

definition str_width :: "string \<Rightarrow> nat" where
  "str_width s = length (filter (\<lambda>c. \<not> cont (word_of_nat (of_char c))) s)"

definition pad_str :: "nat \<Rightarrow> string \<Rightarrow> string" where
  "pad_str n s = s @ replicate (n - str_width s) (CHR '' '')"

definition list_line :: "string \<Rightarrow> string \<Rightarrow> string \<Rightarrow> string \<Rightarrow> string" where
  "list_line a b c d = pad_str 20 a @ '' '' @ pad_str 10 b @ '' '' @ pad_str 8 c @ '' '' @ d"

fun list_entries :: "('os, 'b) host \<Rightarrow> string \<Rightarrow> string list \<Rightarrow> ('os, 'b, unit) proc" where
  "list_entries e root [] = ret ()"
| "list_entries e root (name # names) =
     seq (ask (\<lambda>w. case resolve e w (path_join root name) of Some p \<Rightarrow> is_dir w p | None \<Rightarrow> False)) (\<lambda>dir.
     if \<not> dir then list_entries e root names
     else
       seq (read_file e (path_join (path_join root name) ''state.json'')) (\<lambda>raw.
       seq (case Option.bind raw (ho_from_json e) of
              Some st \<Rightarrow> print_out e (ho_text e (list_line (sd_id st) (sd_status st)
                (dec_str (sd_pid st)) (sd_bundle st)))
            | None \<Rightarrow> ret ()) (\<lambda>_.
       list_entries e root names)))"

definition do_list :: "('os, 'b) host \<Rightarrow> string \<Rightarrow> ('os, 'b, unit) proc" where
  "do_list e root =
     seq (print_out e (ho_text e (list_line ''ID'' ''STATUS'' ''PID'' ''BUNDLE''))) (\<lambda>_.
     seq (read_dir e root) (\<lambda>names.
     case names of None \<Rightarrow> ret () | Some names \<Rightarrow> list_entries e root names))"

end
