(* ===== verification/Cli_Run.thy ===== *)
theory Cli_Run
  imports Cli_Commands
begin

text \<open>
  \<open>userspace/krunc-cli/src/main.rs\<close>: \<open>run\<close>, with the configuration it synthesizes and the
  loops that wait for the container, the self-test of the kernel's parser, and \<open>main\<close>. A loop
  that may go on for ever is a partial function: its value is \<open>None\<close> when it does not return.
  The bytes relayed to and from a pseudo-terminal are not part of the machine; \<open>Cli_Pty\<close> has them.
\<close>

section \<open>Waiting for the container\<close>

text \<open>The \<open>waitpid\<close> loop: the status word, or nothing when the task is not a child.\<close>

partial_function (option) wait_reap ::
  "('os, 'b) host \<Rightarrow> int \<Rightarrow> ('os, 'b) world \<Rightarrow> (i32 option \<times> ('os, 'b) world) option" where
  "wait_reap e pid w =
     (case ho_waitpid e (w_log w) pid of
        Reaped status \<Rightarrow> Some (Some status, block e (Waitpid pid) w)
      | Interrupted \<Rightarrow> wait_reap e pid (block e (Waitpid pid) w)
      | Wait_failed \<Rightarrow> Some (None, block e (Waitpid pid) w))"

text \<open>The loop that polls the kernel.\<close>

partial_function (option) wait_stopped ::
  "('os, 'b) host \<Rightarrow> u64 \<Rightarrow> ('os, 'b) world \<Rightarrow> ('os, 'b) world option" where
  "wait_stopped e kid w =
     (let (r, k) = dev_state (ho_helper e) (ho_client e) kid (w_kernel w);
          w = w\<lparr>w_kernel := k\<rparr> in
      case r of
        Err _ \<Rightarrow> Some w
      | Ok a \<Rightarrow> if fst a = Stopped then Some w else wait_stopped e kid (block e Sleep w))"

definition wait_for_exit ::
  "('os, 'b) host \<Rightarrow> int \<Rightarrow> u64 \<Rightarrow> ('os, 'b) world \<Rightarrow> (int \<times> ('os, 'b) world) option" where
  "wait_for_exit e pid kid w =
     (case wait_reap e pid w of
        None \<Rightarrow> None
      | Some (Some status, w) \<Rightarrow> Some (exit_code status, w)
      | Some (None, w) \<Rightarrow> map_option (\<lambda>w. (0, w)) (wait_stopped e kid w))"

section \<open>run\<close>

definition run_cleanup :: "('os, 'b) host \<Rightarrow> string \<Rightarrow> state_file \<Rightarrow> string option \<Rightarrow> bool \<Rightarrow>
    ('os, 'b, unit) proc" where
  "run_cleanup e root st tmp keep =
     seq (if keep then ret ()
          else
            seq (drop_container e (sd_krunc_id st)) (\<lambda>_.
            seq (case sd_cgroup st of Some cg \<Rightarrow> cgroup_remove e cg | None \<Rightarrow> ret ()) (\<lambda>_.
            seq (remove_dir_all e (state_dir root (sd_id st))) (\<lambda>_. ret ())))) (\<lambda>_.
     seq (case tmp of Some t \<Rightarrow> remove_dir_all e t | None \<Rightarrow> ret None) (\<lambda>_. ret ()))"

definition run_begin :: "('os, 'b) host \<Rightarrow> string \<Rightarrow> (string \<rightharpoonup> string) \<Rightarrow> string \<Rightarrow> string \<Rightarrow>
    ('os, 'b, state_file) proc" where
  "run_begin e root flags cid bundle =
     seq (create_from_bundle e root flags cid bundle) (\<lambda>st.
     seq (open_or_die e ''open: '') (\<lambda>_.
     seq (device (dev_start (ho_helper e) (ho_client e) (sd_krunc_id st))) (\<lambda>r.
     seq (or_die ''start: '' (ok_result r)) (\<lambda>_.
     let st = st\<lparr>sd_status := ''running''\<rparr> in
     seq (save_state e root st) (\<lambda>_. ret st)))))"

definition run_lifecycle :: "('os, 'b) host \<Rightarrow> string \<Rightarrow> (string \<rightharpoonup> string) \<Rightarrow> string \<Rightarrow> string \<Rightarrow>
    string option \<Rightarrow> bool \<Rightarrow> ('os, 'b) world \<Rightarrow> ((halt + unit) \<times> ('os, 'b) world) option" where
  "run_lifecycle e root flags cid bundle tmp keep w =
     (case run_begin e root flags cid bundle w of
        (Err x, w) \<Rightarrow> Some (Err x, w)
      | (Ok st, w) \<Rightarrow>
          (case wait_for_exit e (sd_pid st) (sd_krunc_id st) w of
             None \<Rightarrow> None
           | Some (code, w) \<Rightarrow>
               Some (seq (run_cleanup e root st tmp keep) (\<lambda>_. exit_with code) w)))"

text \<open>The code a process ends with, modulo 256 as \<open>wait\<close> reports it.\<close>

definition halt_code :: "halt + 'a \<Rightarrow> int" where
  "halt_code r = (case r of Err (Die _) \<Rightarrow> 1 | Err (Exit c) \<Rightarrow> c | Ok _ \<Rightarrow> 127)"

definition run_lifecycle_pty :: "('os, 'b) host \<Rightarrow> string \<Rightarrow> (string \<rightharpoonup> string) \<Rightarrow> string \<Rightarrow> string \<Rightarrow>
    string option \<Rightarrow> bool \<Rightarrow> ('os, 'b) world \<Rightarrow> ((halt + unit) \<times> ('os, 'b) world) option" where
  "run_lifecycle_pty e root flags cid bundle tmp keep w =
     (case seq (perform e Open_pty) (\<lambda>ok. if ok then ret () else die ''openpty: '') w of
        (Err x, w) \<Rightarrow> Some (Err x, w)
      | (Ok _, w) \<Rightarrow>
          (case seq (perform e Fork) (\<lambda>ok. if ok then ret () else die ''fork failed'') w of
             (Err x, w) \<Rightarrow> Some (Err x, w)
           | (Ok _, w) \<Rightarrow>
               (case run_lifecycle e root flags cid bundle tmp keep w of
                  None \<Rightarrow> None
                | Some (r, w) \<Rightarrow>
                    Some (exit_with (relay_code (exited_word (nat (halt_code r mod 256)))) w))))"

section \<open>The synthesized bundle\<close>

definition hex_digit :: "nat \<Rightarrow> char" where
  "hex_digit d = ''0123456789abcdef'' ! (d mod 16)"

text \<open>\<open>{:08x}\<close> of a number below \<open>2 ^ 32\<close>.\<close>

definition hex8 :: "nat \<Rightarrow> string" where
  "hex8 n = map (\<lambda>i. hex_digit (n div 16 ^ (7 - i))) [0..<8]"

definition gen_id :: "('os, 'b) host \<Rightarrow> string" where
  "gen_id e = ''krunc-'' @ hex8 (ho_now e mod 2 ^ 32)"

definition image_dir :: "('os, 'b) host \<Rightarrow> string \<Rightarrow> ('os, 'b, string) proc" where
  "image_dir e name =
     seq (ask (canonicalize e (path_join (var_or e ''KRUNC_IMAGES'' ''/images'') name)))
       (or_die (''image '' @ quoted name @ '' ''))"

definition canon_dir :: "('os, 'b) host \<Rightarrow> string \<Rightarrow> string \<Rightarrow> ('os, 'b, string) proc" where
  "canon_dir e what p = seq (ask (canonicalize e p)) (or_die (what @ '' '' @ quoted p @ '': ''))"

fun join_comma :: "string list \<Rightarrow> string" where
  "join_comma [] = []"
| "join_comma [a] = a"
| "join_comma (a # as) = a @ '', '' @ join_comma as"

definition synth_config :: "('os, 'b) host \<Rightarrow> string \<Rightarrow> string list \<Rightarrow> string \<Rightarrow> bool \<Rightarrow> string" where
  \<open>synth_config e rootfs_abs args hostname term =
     (let args_json = join_comma (map (ho_json_string e) args);
          host_json = ho_json_string e hostname;
          root_json = ho_json_string e rootfs_abs;
          terminal = (if term then ''true'' else ''false'') in
      join_lines [
       ''{'',
       ''  "ociVersion": "1.0.2-dev",'',
       ''  "hostname": '' @ host_json @ '','',
       ''  "process": {'',
       ''    "terminal": '' @ terminal @ '','',
       ''    "user": { "uid": 0, "gid": 0 },'',
       ''    "args": ['' @ args_json @ ''],'',
       ''    "env": ['',
       ''      "PATH=/usr/sbin:/usr/bin:/sbin:/bin",'',
       ''      "HOME=/root",'',
       ''      "TERM=xterm",'',
       ''      "container=krunc"'',
       ''    ],'',
       ''    "cwd": "/",'',
       ''    "noNewPrivileges": true,'',
       ''    "capabilities": {'',
       ''      "bounding": [], "effective": [], "permitted": [],'',
       ''      "inheritable": [], "ambient": []'',
       ''    }'',
       ''  },'',
       ''  "root": { "path": '' @ root_json @ '', "readonly": false },'',
       ''  "linux": {'',
       ''    "namespaces": ['',
       ''      { "type": "pid" }, { "type": "mount" }, { "type": "uts" },'',
       ''      { "type": "ipc" }, { "type": "network" }'',
       ''    ],'',
       ''    "cgroupsPath": "krunc/'' @ hostname @ ''",'',
       ''    "resources": {'',
       ''      "pids": { "limit": 256 },'',
       ''      "memory": { "limit": 268435456 }'',
       ''    },'',
       ''    "maskedPaths": ["/proc/kcore", "/proc/sysrq-trigger"],'',
       ''    "readonlyPaths": ["/proc/sys"]'',
       ''  },'',
       ''  "mounts": ['',
       ''    { "destination": "/proc", "type": "proc", "source": "proc" },'',
       ''    { "destination": "/sys", "type": "sysfs", "source": "sysfs",'',
       ''      "options": ["nosuid", "nodev", "noexec", "ro"] },'',
       ''    { "destination": "/tmp", "type": "tmpfs", "source": "tmpfs",'',
       ''      "options": ["nosuid", "nodev", "noexec"] }'',
       ''  ]'',
       ''}''])\<close>

text \<open>The root file system and the command of a \<open>run\<close> without a bundle.\<close>

definition run_target :: "('os, 'b) host \<Rightarrow> (string \<rightharpoonup> string) \<Rightarrow> string list \<Rightarrow>
    ('os, 'b, string \<times> string list) proc" where
  "run_target e flags args =
     (case flags ''--rootfs'' of
        Some r \<Rightarrow> seq (canon_dir e ''rootfs'' r) (\<lambda>d. ret (d, args))
      | None \<Rightarrow>
          (case flags ''--image'' of
             Some name \<Rightarrow> seq (image_dir e name) (\<lambda>d. ret (d, args))
           | None \<Rightarrow>
               seq (first_arg (''usage: run [--image <name>|--rootfs <dir>|<name>] <cmd> [args''
                   @ [CHR 0xE2, CHR 0x80, CHR 0xA6] @ '']'') args)
                 (\<lambda>name. seq (image_dir e name) (\<lambda>d. ret (d, drop 1 args)))))"

text \<open>The bundle of a \<open>run\<close>: its id and its directory.\<close>

definition synth_bundle :: "('os, 'b) host \<Rightarrow> (string \<rightharpoonup> string) \<Rightarrow> string list \<Rightarrow>
    ('os, 'b, string \<times> string) proc" where
  "synth_bundle e flags args =
     seq (run_target e flags args) (\<lambda>(rootfs, cmd).
     let cmd = (if cmd = [] then [''/bin/sh''] else cmd);
         cid = (case flags ''--name'' of Some n \<Rightarrow> n | None \<Rightarrow> gen_id e);
         tmp = path_join (ho_temp_dir e) (''krunc-bundle-'' @ cid) in
     seq (create_dir_all e tmp) (\<lambda>r.
     seq (or_die ''mkdir bundle: '' r) (\<lambda>_.
     seq (write_file e (path_join tmp ''config.json'')
         (ho_text e (synth_config e rootfs cmd cid False))) (\<lambda>r.
     seq (or_die ''write config: '' r) (\<lambda>_.
     ret (cid, tmp))))))"

definition do_run :: "('os, 'b) host \<Rightarrow> string \<Rightarrow> (string \<rightharpoonup> string) \<Rightarrow> string list \<Rightarrow>
    ('os, 'b) world \<Rightarrow> ((halt + unit) \<times> ('os, 'b) world) option" where
  "do_run e root flags args w =
     (let keep = (flags ''--keep'' \<noteq> None);
          terminal = (flags ''-t'' \<noteq> None \<or> flags ''--terminal'' \<noteq> None \<or> flags ''--tty'' \<noteq> None) in
      if flags ''--bundle'' \<noteq> None then
        (case bundle_path e flags w of
           (Err x, w) \<Rightarrow> Some (Err x, w)
         | (Ok bundle, w) \<Rightarrow>
             (let cid = (case args of a # _ \<Rightarrow> a | [] \<Rightarrow> gen_id e) in
              run_lifecycle e root flags cid bundle None keep w))
      else
        (case synth_bundle e flags args w of
           (Err x, w) \<Rightarrow> Some (Err x, w)
         | (Ok (cid, tmp), w) \<Rightarrow>
             if terminal then run_lifecycle_pty e root flags cid tmp (Some tmp) keep w
             else run_lifecycle e root flags cid tmp (Some tmp) keep w))"

section \<open>The self-test of the parser\<close>

definition decode_check_spec :: domain_spec where
  "decode_check_spec = default_spec\<lparr>sp_rootfs := ''/bundle/rootfs'', sp_argv := [''/bin/sh'']\<rparr>"

definition decode_check_cases :: "u8 list \<Rightarrow> (string \<times> u8 list) list" where
  "decode_check_cases base =
     [(''empty'', []),
      (''bad-magic'', base[0 := (base ! 0) XOR 0xff]),
      (''truncated'', take (length base div 2) base),
      (''trailing-byte'', base @ [0])]
     @ (if length base \<ge> 24 then
          [(''huge-section-len'', take 20 base @ put_u32 0xffffffff @ drop 24 base)] else [])
     @ (if length base \<ge> 24 then
          (let seclen = unat (le_word (take 4 (drop 20 base)) :: u32); fin = 24 + seclen in
           if fin \<le> length base then
             (let count = le_word (take 4 (drop 12 base)) :: u32;
                  first = take (fin - 16) (drop 16 base) in
              [(''duplicate-section'',
                take 12 base @ put_u32 (count + 1) @ drop 16 base @ first)])
           else [])
        else [])"

fun check_blobs :: "('os, 'b) host \<Rightarrow> (string \<times> u8 list) list \<Rightarrow> nat \<Rightarrow> ('os, 'b, nat) proc" where
  "check_blobs e [] failures = ret failures"
| "check_blobs e ((name, blob) # cases) failures =
     seq (device (dev_create_raw (ho_helper e) (ho_client e) blob)) (\<lambda>r.
     case r of
       Err _ \<Rightarrow>
         seq (print_out e (ho_text e (''[decode-check]   '' @ name @ '': rejected (ok)'')))
           (\<lambda>_. check_blobs e cases failures)
     | Ok (i, _) \<Rightarrow>
         seq (drop_container e i) (\<lambda>_. check_blobs e cases (failures + 1)))"

text \<open>A failed \<open>expect\<close> is a panic, which ends the process with code 101.\<close>

definition do_decode_check :: "('os, 'b) host \<Rightarrow> ('os, 'b, unit) proc" where
  "do_decode_check e =
     seq (open_or_die e ''open /dev/krunc: '') (\<lambda>_.
     case encode decode_check_spec Create of
       Err _ \<Rightarrow> exit_with 101
     | Ok base \<Rightarrow>
         (let cases = decode_check_cases base in
          seq (check_blobs e cases 0) (\<lambda>failures.
          if failures = 0 then
            print_out e (ho_text e (''[decode-check] all '' @ dec_str (int (length cases))
              @ '' malformed blobs rejected; kernel decoder is robust''))
          else die (''[decode-check] '' @ dec_str (int failures) @ '' malformed blob(s) accepted''))))"

section \<open>main\<close>

definition VERSION :: string where "VERSION = ''1.1.0-krunc''"

definition print_version :: "('os, 'b) host \<Rightarrow> ('os, 'b, unit) proc" where
  "print_version e =
     seq (print_out e (ho_text e (''runc version '' @ VERSION))) (\<lambda>_.
     seq (print_out e (ho_text e ''commit: krunc-poc'')) (\<lambda>_.
     print_out e (ho_text e (''spec: '' @ OCI_VERSION))))"

definition features :: string where
  \<open>features = ''{"ociVersionMin":"1.0.0","ociVersionMax":"1.0.2-dev"}''\<close>

text \<open>The match on the command.\<close>

definition run_command :: "('os, 'b) host \<Rightarrow> string \<Rightarrow> (string \<rightharpoonup> string) \<Rightarrow> string \<Rightarrow> string list \<Rightarrow>
    ('os, 'b) world \<Rightarrow> ((halt + unit) \<times> ('os, 'b) world) option" where
  "run_command e root flags cmd args w =
     (if cmd = ''create'' then Some (do_create e root flags args w)
      else if cmd = ''run'' then do_run e root flags args w
      else if cmd = ''start'' then Some (do_start e root args w)
      else if cmd = ''state'' then Some (do_state e root args w)
      else if cmd = ''kill'' then Some (do_kill e root args w)
      else if cmd = ''delete'' then Some (do_delete e root flags args w)
      else if cmd = ''list'' then Some (do_list e root w)
      else if cmd = ''features'' then Some (print_out e (ho_text e features) w)
      else if cmd = ''__decode-check'' then Some (do_decode_check e w)
      else Some (die (''unknown command '' @ quoted cmd) w))"

definition root_flag :: "(string \<rightharpoonup> string) \<Rightarrow> string" where
  "root_flag flags = (case flags ''--root'' of Some r \<Rightarrow> r | None \<Rightarrow> ''/run/krunc'')"

text \<open>The arguments without the name of the program.\<close>

definition krunc_main :: "('os, 'b) host \<Rightarrow> string list \<Rightarrow> ('os, 'b) world \<Rightarrow>
    ((halt + unit) \<times> ('os, 'b) world) option" where
  "krunc_main e argv w =
     (let (flags, pos) = parse_args argv in
      if flags ''--version'' \<noteq> None \<or> pos \<noteq> [] \<and> hd pos = ''version'' then Some (print_version e w)
      else
        (case pos of
           [] \<Rightarrow> Some (die ''no command'' w)
         | cmd # args \<Rightarrow> run_command e (root_flag flags) flags cmd args w))"

end
