(* ===== verification/Cli_Frame.thy ===== *)
theory Cli_Frame
  imports Cli_Run Cli_Args_Properties
begin

text \<open>
  What a computation leaves alone. A \<open>world_order\<close> is a reflexive and transitive relation between
  the machine before and after; a computation keeps it when its parts do. The theories
  after this one use it for the module's state (\<open>same_kernel\<close>), the state files (\<open>quiet\<close>), the
  other containers (\<open>beside\<close>) and the calls made (\<open>calls_in\<close>).
\<close>

named_theorems keeps_intros \<open>computations that keep a relation\<close>

definition keeps :: "(('os, 'b) world \<Rightarrow> ('os, 'b) world \<Rightarrow> bool) \<Rightarrow> ('os, 'b, 'a) proc \<Rightarrow> bool" where
  "keeps R m \<longleftrightarrow> (\<forall>w. R w (snd (m w)))"

lemma keepsD: "keeps R m \<Longrightarrow> m w = (r, w') \<Longrightarrow> R w w'"
  unfolding keeps_def by (metis snd_conv)

lemma keepsI: "(\<And>w r w'. m w = (r, w') \<Longrightarrow> R w w') \<Longrightarrow> keeps R m"
  unfolding keeps_def by (metis prod.collapse)

text \<open>A run of two computations in sequence.\<close>

lemma seq_result:
  "seq m f w = (r, w') \<longleftrightarrow>
     (\<exists>x. m w = (Err x, w') \<and> r = Err x) \<or> (\<exists>a w1. m w = (Ok a, w1) \<and> f a w1 = (r, w'))"
  by (auto simp: seq_def split: prod.split sum.split)

lemma seqE:
  assumes "seq m f w = (r, w')"
  obtains (halt) x where "m w = (Err x, w')" "r = Err x"
  | (go) a w1 where "m w = (Ok a, w1)" "f a w1 = (r, w')"
  using assms by (auto simp: seq_result)

lemma seq_OkE:
  assumes "seq m f w = (Ok b, w')"
  obtains a w1 where "m w = (Ok a, w1)" "f a w1 = (Ok b, w')"
  using assms by (auto simp: seq_result)

lemma or_die_Ok [simp]: "or_die m r w = (Ok a, w') \<longleftrightarrow> r = Some a \<and> w' = w"
  by (auto simp: or_die_def die_def ret_def split: option.splits)

lemma or_die_Err [simp]: "or_die m r w = (Err x, w') \<longleftrightarrow> r = None \<and> x = Die m \<and> w' = w"
  by (auto simp: or_die_def die_def ret_def split: option.splits)

lemma ret_eq [simp]: "ret a w = (r, w') \<longleftrightarrow> r = Ok a \<and> w' = w"
  by (auto simp: ret_def)

lemma die_eq [simp]: "die m w = (r, w') \<longleftrightarrow> r = Err (Die m) \<and> w' = w"
  by (auto simp: die_def)

lemma or_die_world: "or_die m r w = (x, w') \<Longrightarrow> w' = w"
  by (auto simp: or_die_def split: option.splits)

lemma ask_eq [simp]: "ask f w = (r, w') \<longleftrightarrow> r = Ok (f w) \<and> w' = w"
  by (auto simp: ask_def)

lemma perform_eq [simp]:
  "perform e ev w = (r, w') \<longleftrightarrow>
     r = Ok (\<not> ho_refuses e (w_log w) ev) \<and> w' = w\<lparr>w_log := w_log w @ [ev]\<rparr>"
  by (auto simp: perform_def)

lemma device_eq [simp]:
  "device f w = (r, w') \<longleftrightarrow>
     r = Ok (fst (f (w_kernel w))) \<and> w' = w\<lparr>w_kernel := snd (f (w_kernel w))\<rparr>"
  by (auto simp: device_def Let_def split_def)

lemma ok_result_simps [simp]: "ok_result (Ok x) = Some x" "ok_result (Err e) = None"
  "ok_result r = Some x \<longleftrightarrow> r = Ok x" "ok_result r = None \<longleftrightarrow> \<not> is_ok r"
  by (cases r; simp add: ok_result_def)+

section \<open>Relations a computation keeps\<close>

locale world_order =
  fixes R :: "('os, 'b) world \<Rightarrow> ('os, 'b) world \<Rightarrow> bool"
  assumes order_refl: "R w w"
    and order_trans: "R w1 w2 \<Longrightarrow> R w2 w3 \<Longrightarrow> R w1 w3"
begin

lemma keeps_pure: "keeps R (ret a)" "keeps R (die m)" "keeps R (ask f)" "keeps R (or_die m r)"
  "keeps R (exit_with c)"
  by (auto simp: keeps_def ret_def die_def ask_def or_die_def exit_with_def order_refl split: option.split)

lemma keeps_seq:
  assumes "keeps R m" "\<And>a. keeps R (f a)"
  shows "keeps R (seq m f)"
proof (rule keepsI)
  fix w r w' assume "seq m f w = (r, w')"
  then show "R w w'"
  proof (cases rule: seqE)
    case halt
    then show ?thesis using keepsD [OF assms(1)] by blast
  next
    case go
    then show ?thesis using order_trans [OF keepsD [OF assms(1)] keepsD [OF assms(2)]] by blast
  qed
qed

lemma keeps_if: "keeps R m \<Longrightarrow> keeps R m' \<Longrightarrow> keeps R (if c then m else m')"
  by simp

lemma keeps_option: "keeps R m \<Longrightarrow> (\<And>a. keeps R (f a)) \<Longrightarrow> keeps R (case v of None \<Rightarrow> m | Some a \<Rightarrow> f a)"
  by (cases v) simp_all

lemma keeps_sum: "(\<And>x. keeps R (g x)) \<Longrightarrow> (\<And>a. keeps R (f a)) \<Longrightarrow>
    keeps R (case v of Err x \<Rightarrow> g x | Ok a \<Rightarrow> f a)"
  by (cases v) simp_all

lemma keeps_pair: "(\<And>a b. keeps R (f a b)) \<Longrightarrow> keeps R (case v of (a, b) \<Rightarrow> f a b)"
  by (cases v) simp_all

lemma keeps_list: "keeps R m \<Longrightarrow> (\<And>a as. keeps R (f a as)) \<Longrightarrow>
    keeps R (case v of [] \<Rightarrow> m | a # as \<Rightarrow> f a as)"
  by (cases v) simp_all

lemma keeps_try: "keeps R m \<Longrightarrow> (\<And>a. keeps R (f a)) \<Longrightarrow> keeps R (try_io m f)"
  unfolding try_io_def by (intro keeps_seq keeps_option keeps_pure)

lemmas keeps_control = keeps_pure keeps_seq keeps_if keeps_option keeps_sum keeps_pair keeps_list keeps_try

end

text \<open>
  Relations that allow any call and any change to files and directories whose path satisfies
  \<open>P\<close>; a directory may always appear.
\<close>

locale file_order = world_order R
  for R :: "('os, 'b) world \<Rightarrow> ('os, 'b) world \<Rightarrow> bool" +
  fixes E :: "'b event \<Rightarrow> bool" and P :: "path \<Rightarrow> bool"
  assumes order_call: "E ev \<Longrightarrow> R w (w\<lparr>w_log := w_log w @ [ev]\<rparr>)"
    and order_mkdir: "node_at w p = None \<Longrightarrow> R w (put_node p Dir w)"
    and order_write: "P p \<Longrightarrow> node_at w p \<noteq> Some Dir \<Longrightarrow> R w (put_node p (File b) w)"
begin

lemma keeps_perform: "E ev \<Longrightarrow> keeps R (perform e ev)"
  by (rule keepsI) (simp add: order_call)

lemma keeps_read: "(\<And>p. E (Read p)) \<Longrightarrow> keeps R (read_file e s)"
  by (rule keepsI)
     (auto simp: read_file_def seq_perform order_refl order_call split: option.splits)

lemma keeps_read_dir: "(\<And>p. E (Read_dir p)) \<Longrightarrow> keeps R (read_dir e s)"
  by (rule keepsI)
     (auto simp: read_dir_def seq_perform order_refl order_call split: option.splits if_splits)

lemma keeps_simple_calls:
  "E Open_device \<Longrightarrow> keeps R (open_device e)" "E Open_device \<Longrightarrow> keeps R (open_or_die e m)"
  "E (Tool args) \<Longrightarrow> keeps R (run_tool e args)" "E (Print b) \<Longrightarrow> keeps R (print_out e b)"
  by (simp_all add: open_device_def open_or_die_def run_tool_def print_out_def keeps_control keeps_perform)

lemma keeps_write:
  assumes "\<And>w p. resolve e w s = Some p \<Longrightarrow>
      E (Write p b) \<and> E (Open_write p) \<and> (kernel_dir p \<or> P p)"
  shows "keeps R (write_file e s b)"
proof (rule keepsI)
  fix w r w' assume run: "write_file e s b w = (r, w')"
  show "R w w'"
  proof (cases "resolve e w s")
    case None
    then show ?thesis using run by (simp add: write_file_def order_refl)
  next
    case (Some p)
    note ev = assms [OF Some]
    let ?w1 = "w\<lparr>w_log := w_log w @ [Open_write p]\<rparr>"
    let ?w2 = "?w1\<lparr>w_log := w_log ?w1 @ [Write p b]\<rparr>"
    have calls: "R w (w\<lparr>w_log := w_log w @ [Write p b]\<rparr>)" "R w ?w1" "R ?w1 ?w2"
      using ev order_call by blast+
    have set: "R ?w2 (put_node p (File c) ?w2)" if "P p" "\<not> is_dir w p" for c
    proof (rule order_write [OF that(1)])
      show "node_at ?w2 p \<noteq> Some Dir" using that(2) by (auto simp: is_dir_def)
    qed
    have "R w (put_node p (File c) ?w2)" if "P p" "\<not> is_dir w p" for c
      using order_trans [OF calls(2) order_trans [OF calls(3) set [OF that]]] .
    then show ?thesis
      using run Some ev calls order_trans [OF calls(2,3)]
      by (auto simp: write_file_def seq_perform order_refl split: if_splits)
  qed
qed

lemma keeps_make_dirs:
  assumes "\<forall>ds. E (Mkdir (cur @ ds))" "''..'' \<in> set cs \<longrightarrow> (\<forall>p. E (Mkdir p))"
  shows "keeps R (make_dirs e cur cs)"
proof (rule keepsI)
  fix w r w' assume "make_dirs e cur cs w = (r, w')"
  then show "R w w'" using assms
  proof (induction cs arbitrary: cur w)
    case Nil
    then show ?case by (simp add: order_refl)
  next
    case (Cons c cs)
    have sub: "\<forall>ds. E (Mkdir ((cur @ [c]) @ ds))" using Cons.prems(2) by simp
    have up: "''..'' \<in> set cs \<longrightarrow> (\<forall>p. E (Mkdir p))" using Cons.prems(3) by simp
    show ?case
    proof (cases "c = [] \<or> c = ''.'' \<or> c = ''..'' \<or> is_dir w (cur @ [c]) \<or> node_at w (cur @ [c]) \<noteq> None")
      case True
      then show ?thesis
        using Cons.prems Cons.IH [of cur w] Cons.IH [of "butlast cur" w] Cons.IH [of "cur @ [c]" w] sub up
        by (auto simp: order_refl split: if_splits)
    next
      case False
      let ?w1 = "w\<lparr>w_log := w_log w @ [Mkdir (cur @ [c])]\<rparr>"
      have one: "R w ?w1" using sub [rule_format, of "[]"] by (simp add: order_call)
      have two: "R ?w1 (put_node (cur @ [c]) Dir ?w1)" using False by (intro order_mkdir) simp
      show ?thesis
        using False Cons.prems(1) one order_trans [OF one order_trans [OF two Cons.IH [OF _ sub up]]]
        by (auto simp: seq_perform split: if_splits)
    qed
  qed
qed

end

text \<open>Relations that allow removals as well.\<close>

locale removal_order = file_order R E P
  for R :: "('os, 'b) world \<Rightarrow> ('os, 'b) world \<Rightarrow> bool" and E and P +
  assumes order_remove: "R w (w\<lparr>w_files := filter (\<lambda>(q, _). keep q) (w_files w)\<rparr>)"
begin

lemma keeps_remove_dir:
  assumes "\<And>p. E (Rmdir p)"
  shows "keeps R (remove_dir e s)"
proof (rule keepsI)
  fix w r w' assume "remove_dir e s w = (r, w')"
  moreover have "R w (w\<lparr>w_log := w_log w @ [Rmdir p], w_files := filter (\<lambda>(q, _). q \<noteq> p) (w_files w)\<rparr>)" for p
    using order_trans [OF order_call [OF assms] order_remove [where keep = "\<lambda>q. q \<noteq> p"], of w] by simp
  ultimately show "R w w'"
    using order_call [OF assms]
    by (auto simp: remove_dir_def seq_perform order_refl split: option.splits if_splits)
qed

lemma keeps_remove_dir_all:
  assumes "\<And>p. E (Rmtree p)"
  shows "keeps R (remove_dir_all e s)"
proof (rule keepsI)
  fix w r w' assume "remove_dir_all e s w = (r, w')"
  moreover have "R w (w\<lparr>w_log := w_log w @ [Rmtree p], w_files := filter (\<lambda>(q, _). keep q) (w_files w)\<rparr>)"
    for p keep using order_trans [OF order_call [OF assms] order_remove [where keep = keep], of w] by simp
  ultimately show "R w w'"
    by (auto simp: remove_dir_all_def seq_perform order_refl Let_def split: option.splits if_splits)
qed

end

section \<open>Where a joined path leads\<close>

lemma split_slash_append: "split_slash (s @ CHR ''/'' # t) = split_slash s @ split_slash t"
proof (induction s)
  case (Cons c s)
  then show ?case by (cases "split_slash s") simp_all
qed simp

lemma split_slash_plain: "CHR ''/'' \<notin> set s \<Longrightarrow> split_slash s = [s]"
  by (induction s) auto

lemma split_slash_join:
  assumes "CHR ''/'' \<notin> set name"
  shows "\<exists>ws. split_slash (path_join d name) = ws @ [name]"
proof -
  have n: "\<not> is_absolute name" using assms by (cases name) (auto simp: is_absolute_def)
  show ?thesis
  proof (cases "d = []")
    case True
    then show ?thesis using n assms by (auto simp: path_join_def split_slash_plain)
  next
    case False
    then obtain d' c where d: "d = d' @ [c]" by (metis rev_exhaust)
    show ?thesis
    proof (cases "c = CHR ''/''")
      case True
      then have "path_join d name = d' @ CHR ''/'' # name" using d n by (simp add: path_join_def)
      then show ?thesis using assms by (auto simp: split_slash_append split_slash_plain)
    next
      case False
      then have "path_join d name = d @ CHR ''/'' # name" using d n by (simp add: path_join_def)
      then show ?thesis using assms by (auto simp: split_slash_append split_slash_plain)
    qed
  qed
qed

lemma dec_str_ends: "dec_str v \<noteq> [] \<and> last (dec_str v) \<noteq> CHR ''/''"
proof -
  have "of_bytes (dec_nat n) \<noteq> [] \<and> last (of_bytes (dec_nat n)) \<noteq> CHR ''/''" for n
    using dec_nat_string [of n] by (auto simp: list_all_iff is_digit_def Let_def dest!: last_in_set)
  moreover have "dec_str v = of_bytes (dec_nat (nat v))
      \<or> dec_str v = char_of (unat (0x2d :: u8)) # of_bytes (dec_nat (nat (- v)))"
    by (auto simp: dec_str_def dec_int_def of_bytes_def)
  ultimately show ?thesis by (metis last.simps list.distinct(1))
qed

definition plain :: "string \<Rightarrow> bool" where
  "plain s \<longleftrightarrow> s \<noteq> [] \<and> s \<noteq> ''.'' \<and> s \<noteq> ''..'' \<and> CHR ''/'' \<notin> set s"

lemma walk_append: "walk d cur (xs @ ys) = Option.bind (walk d cur xs) (\<lambda>c. walk d c ys)"
  by (induction d cur xs rule: walk.induct) auto

text \<open>
  The files of a task below \<open>/proc\<close>. The table has no entries there, and a write to one of them is a
  call like any other: with a kernel that refuses nothing, \<open>write_id_maps\<close> writes the rendered maps.
\<close>

lemma dec_str_plain: "plain (dec_str v)"
proof -
  have digits: "c \<notin> {CHR ''/'', CHR ''.''}" if "c \<in> set (of_bytes (dec_nat n))" for c n
    using dec_nat_string [of n] that by (auto simp: list_all_iff is_digit_def Let_def)
  have minus: "char_of (45 :: nat) = CHR ''-''" by code_simp
  have "dec_str v = of_bytes (dec_nat (nat v)) \<or> dec_str v = CHR ''-'' # of_bytes (dec_nat (nat (- v)))"
    using minus by (auto simp: dec_str_def dec_int_def of_bytes_def)
  then have "c \<notin> {CHR ''/'', CHR ''.''}" if "c \<in> set (dec_str v)" for c
    using that digits by fastforce
  moreover have "dec_str v \<noteq> []" using dec_str_ends by blast
  ultimately show ?thesis unfolding plain_def by (metis insertCI list.set_intros(1))
qed

lemma task_file_written:
  assumes "\<And>p. kernel_dir p \<Longrightarrow> node_at w p = None" "plain f"
  shows "write_file e (''/proc/'' @ dec_str pid @ CHR ''/'' # f) b w =
    seq (perform e (Write [''proc'', dec_str pid, f] b)) (\<lambda>ok. ret (if ok then Some () else None)) w"
proof -
  have plain: "plain (dec_str pid)" by (rule dec_str_plain)
  have "split_slash (''proc'' @ CHR ''/'' # dec_str pid @ CHR ''/'' # f) = [''proc'', dec_str pid, f]"
    unfolding split_slash_append using assms(2) plain by (simp add: plain_def split_slash_plain)
  then have "split_slash (''/proc/'' @ dec_str pid @ CHR ''/'' # f) = [[], ''proc'', dec_str pid, f]" by simp
  moreover have "node_at w [''proc''] = None" "node_at w [''proc'', dec_str pid] = None"
      "node_at w [''proc'', dec_str pid, f] = None"
    using assms(1) by (simp_all add: kernel_dir_def)
  moreover have "node_at w [] = Some Dir" by (simp add: node_at_def)
  ultimately have "resolve e w (''/proc/'' @ dec_str pid @ CHR ''/'' # f) = Some [''proc'', dec_str pid, f]"
    using assms(2) plain by (simp add: resolve_def start_dir_def is_absolute_def searchable_def task_dir_def
        is_dir_def plain_def)
  then show ?thesis
    using \<open>node_at w [''proc'', dec_str pid, f] = None\<close> by (simp add: write_file_def is_dir_def kernel_dir_def)
qed

lemma id_maps_written:
  assumes "\<And>p. kernel_dir p \<Longrightarrow> node_at w p = None" "\<And>l ev. \<not> ho_refuses e l ev"
  shows "write_id_maps e pid us gs w = (Ok (Some ()), w\<lparr>w_log := w_log w
    @ (if us \<noteq> [] then [Write [''proc'', dec_str pid, ''uid_map''] (ho_text e (render_maps us))] else [])
    @ (if gs \<noteq> [] then [Write [''proc'', dec_str pid, ''gid_map''] (ho_text e (render_maps gs))] else [])\<rparr>)"
proof -
  have wr: "write_file e (''/proc/'' @ dec_str pid @ CHR ''/'' # f) b (w\<lparr>w_log := l\<rparr>) =
      (Ok (Some ()), w\<lparr>w_log := l @ [Write [''proc'', dec_str pid, f] b]\<rparr>)" if "plain f" for f b l
    using assms by (subst task_file_written [OF _ that]) (simp_all add: node_at_def perform_def seq_def ret_def)
  have files: "plain ''uid_map''" "plain ''gid_map''" by (simp_all add: plain_def)
  note u = wr [OF files(1), simplified] wr [OF files(1), where l = "w_log w", simplified]
  note g = wr [OF files(2), simplified] wr [OF files(2), where l = "w_log w", simplified]
  show ?thesis by (simp add: write_id_maps_def try_io_def seq_def ret_def u g)
qed

lemma resolve_join_last:
  assumes "plain name" "resolve e w (path_join d name) = Some p"
  shows "p \<noteq> [] \<and> last p = name"
proof -
  obtain ws where "split_slash (path_join d name) = ws @ [name]"
    using assms(1) split_slash_join unfolding plain_def by blast
  then show ?thesis using assms
    by (auto simp: resolve_def walk_append plain_def split: if_splits Option.bind_splits)
qed

text \<open>
  Relations that allow everything but a change to a state file: all of the commands' work but
  \<open>save\_state\<close>, the \<open>--pid-file\<close> and the calls of the device.
\<close>

locale command_order = removal_order R E P
  for R :: "('os, 'b) world \<Rightarrow> ('os, 'b) world \<Rightarrow> bool" and E and P +
  assumes all_calls: "E ev"
    and other_names: "p \<noteq> [] \<Longrightarrow> last p \<noteq> ''state.json'' \<Longrightarrow> P p"
begin

lemma keeps_named: "plain name \<Longrightarrow> name \<noteq> ''state.json'' \<Longrightarrow> keeps R (write_file e (path_join d name) b)"
  by (rule keeps_write) (metis resolve_join_last other_names all_calls)

lemma keeps_any_dirs: "keeps R (create_dir_all e s)"
  unfolding create_dir_all_def by (rule keeps_make_dirs) (simp_all add: all_calls)

lemmas keeps_calls = keeps_perform [OF all_calls] keeps_read [OF all_calls] keeps_read_dir [OF all_calls]
  keeps_simple_calls [OF all_calls] keeps_remove_dir [OF all_calls] keeps_remove_dir_all [OF all_calls]
  keeps_any_dirs

lemmas keeps_all = keeps_control keeps_calls

lemma keeps_load: "keeps R (load_state e root cid)"
  unfolding load_state_def by (intro keeps_all)

lemma keeps_make_all: "keeps R (make_all e ds)"
  by (induction ds) (auto intro!: keeps_all)

lemma keeps_read_bundle: "keeps R (read_bundle e bundle)"
  unfolding read_bundle_def prepare_rootfs_def Let_def
  by (intro keeps_all keeps_make_all)

lemma keeps_prepare: "keeps R (prepare_create e root cid bundle)"
  unfolding prepare_create_def by (intro keeps_all keeps_read_bundle)

lemma keeps_id_maps: "keeps R (write_id_maps e pid us gs)"
proof -
  have "''/proc/'' @ x @ ''/uid_map'' = path_join (''/proc/'' @ x) ''uid_map''"
    "''/proc/'' @ x @ ''/gid_map'' = path_join (''/proc/'' @ x) ''gid_map''"
    if "last (''/proc/'' @ x) \<noteq> CHR ''/''" for x
    using that by (simp_all add: path_join_def is_absolute_def)
  moreover have "last (''/proc/'' @ dec_str pid) \<noteq> CHR ''/''"
    using dec_str_ends [of pid] by simp
  ultimately show ?thesis
    unfolding write_id_maps_def by (auto intro!: keeps_all keeps_named simp: plain_def)
qed

lemma keeps_delegate: "keeps R (delegate e cs dir cur parts)"
  by (induction parts arbitrary: cur) (auto simp: Let_def plain_def intro!: keeps_all keeps_named)

lemma keeps_write_limit: "plain name \<Longrightarrow> name \<noteq> ''state.json'' \<Longrightarrow> keeps R (write_limit e dir name v)"
  unfolding write_limit_def by (intro keeps_all keeps_named)

lemma keeps_cgroup: "keeps R (cgroup_create e cid cfg)" "keeps R (cgroup_place e dir pid)"
  "keeps R (cgroup_remove e dir)"
proof -
  have "CG_ROOT @ ''/cgroup.subtree_control'' = path_join CG_ROOT ''cgroup.subtree_control''"
    by (simp add: CG_ROOT_def path_join_def is_absolute_def)
  then show "keeps R (cgroup_create e cid cfg)"
    unfolding cgroup_create_def Let_def
    by (auto simp: plain_def intro!: keeps_all keeps_named keeps_delegate keeps_write_limit)
  show "keeps R (cgroup_place e dir pid)" "keeps R (cgroup_remove e dir)"
    unfolding cgroup_place_def cgroup_remove_def by (auto simp: plain_def intro!: keeps_all keeps_named)
qed

lemma keeps_setup_cgroup: "keeps R (setup_cgroup e cid cfg pid)"
  unfolding setup_cgroup_def by (intro keeps_all keeps_cgroup)

lemma keeps_bpf: "keeps R (bpf_arm e dir mode)" "keeps R (bpf_disarm e dir)"
  unfolding bpf_arm_def bpf_disarm_def bpf_run_def by (intro keeps_all)+

lemma keeps_bundle_path: "keeps R (bundle_path e flags)"
  unfolding bundle_path_def Let_def by (intro keeps_all)

lemmas keeps_parts = keeps_load keeps_read_bundle keeps_prepare keeps_id_maps keeps_cgroup keeps_setup_cgroup
  keeps_bpf keeps_bundle_path

end

end
