(* ===== verification/Cli_Create.thy ===== *)
theory Cli_Create
  imports Cli_Frame
begin

text \<open>
  What \<open>create\<close> does to the module: a create that ends without an error leaves one container
  more, one that dies leaves none, but for three places where the code dies without taking the
  container back.
\<close>

section \<open>Only the device calls change the module\<close>

definition same_kernel :: "('os, 'b) world \<Rightarrow> ('os, 'b) world \<Rightarrow> bool" where
  "same_kernel w w' \<longleftrightarrow> w_kernel w' = w_kernel w"

interpretation sk: command_order same_kernel "\<lambda>_. True" "\<lambda>_. True"
  by unfold_locales (simp_all add: same_kernel_def)

lemma same_kernelD: "keeps same_kernel m \<Longrightarrow> m w = (r, w') \<Longrightarrow> w_kernel w' = w_kernel w"
  by (drule keepsD) (simp_all add: same_kernel_def)

lemma sk_write: "keeps same_kernel (write_file e s b)"
  by (rule sk.keeps_write) simp

lemma sk_save: "keeps same_kernel (save_state e root st)"
  unfolding save_state_def by (intro sk.keeps_all sk_write)

section \<open>Computations that always come to their end\<close>

definition no_halt :: "('os, 'b, 'a) proc \<Rightarrow> bool" where
  "no_halt m \<longleftrightarrow> (\<forall>w. is_ok (fst (m w)))"

lemma no_haltD: "no_halt m \<Longrightarrow> m w \<noteq> (Err x, w')"
  unfolding no_halt_def by (metis fst_conv is_ok_simps(2))

lemma no_haltI: "(\<And>w x w'. m w \<noteq> (Err x, w')) \<Longrightarrow> no_halt m"
  unfolding no_halt_def by (metis is_ok_simps(1) prod.collapse sum.exhaust)

lemma no_halt_basic: "no_halt (ret a)" "no_halt (ask f)" "no_halt (perform e ev)" "no_halt (device g)"
  by (rule no_haltI, simp)+

lemma no_halt_seq: "no_halt m \<Longrightarrow> (\<And>a. no_halt (f a)) \<Longrightarrow> no_halt (seq m f)"
  by (rule no_haltI) (meson no_haltD seqE)

lemma no_halt_option: "no_halt m \<Longrightarrow> (\<And>a. no_halt (f a)) \<Longrightarrow> no_halt (case v of None \<Rightarrow> m | Some a \<Rightarrow> f a)"
  by (cases v) simp_all

lemma no_halt_if: "no_halt m \<Longrightarrow> no_halt m' \<Longrightarrow> no_halt (if c then m else m')"
  by simp

lemma no_halt_try: "no_halt m \<Longrightarrow> (\<And>a. no_halt (f a)) \<Longrightarrow> no_halt (try_io m f)"
  unfolding try_io_def by (intro no_halt_seq no_halt_option no_halt_basic)

lemma no_halt_make_dirs: "no_halt (make_dirs e cur cs)"
proof (rule no_haltI)
  show "make_dirs e cur cs w \<noteq> (Err x, w')" for w x w'
    by (induction cs arbitrary: cur w) (auto simp: seq_perform)
qed

lemma no_halt_files: "no_halt (read_file e s)" "no_halt (write_file e s b)" "no_halt (create_dir_all e s)"
  "no_halt (remove_dir e s)" "no_halt (remove_dir_all e s)"
proof -
  show "no_halt (create_dir_all e s)" unfolding create_dir_all_def by (rule no_halt_make_dirs)
  show "no_halt (read_file e s)" "no_halt (write_file e s b)" "no_halt (remove_dir e s)"
    "no_halt (remove_dir_all e s)"
    by (rule no_haltI, simp add: read_file_def write_file_def remove_dir_def remove_dir_all_def
        seq_perform Let_def split: option.split)+
qed

lemmas no_halt_intros = no_halt_basic no_halt_seq no_halt_option no_halt_if no_halt_try no_halt_files

lemma no_halt_delegate: "no_halt (delegate e cs dir cur parts)"
  by (induction parts arbitrary: cur) (auto simp: Let_def intro!: no_halt_intros)

lemma no_halt_setup_cgroup: "no_halt (setup_cgroup e cid cfg pid)"
  unfolding setup_cgroup_def cgroup_create_def cgroup_place_def write_limit_def Let_def
  by (intro no_halt_intros no_halt_delegate)

lemma no_halt_id_maps: "no_halt (write_id_maps e pid us gs)"
  unfolding write_id_maps_def by (intro no_halt_intros)

lemma no_halt_arm: "no_halt (bpf_arm e dir mode)"
  unfolding bpf_arm_def bpf_run_def run_tool_def by (intro no_halt_intros)

section \<open>A container created and deleted again\<close>

lemma dev_create_cases:
  assumes "layout_ok cl K_MAX_SPEC" "dev_create h cl spec st = (r, st')"
  obtains (failed) err where "r = Err err" "ks_registry st' = ks_registry st"
      "ks_next_id st' = ks_next_id st"
  | (created) c where "r = Ok (ks_next_id st, as_i32 (ct_pid c))" "ks_registry st' = ks_registry st @ [c]"
      "ct_id c = ks_next_id st" "\<not> ct_started c" "ks_next_id st' = ks_next_id st + 1"
proof (cases "encode spec Create")
  case (Inl err)
  then have "r = Err (Invalid_input err)" "st' = st" using assms(2) by (simp_all add: dev_create_eq)
  then show thesis using that(1) by blast
next
  case (Inr blob)
  have "length blob \<le> MAX_SPEC" using Inr by (auto simp: encode_Ok_iff simp del: length_wire)
  then have len: "length blob < 2 ^ 32" by (simp add: MAX_SPEC_def)
  note raw = assms(2) [unfolded dev_create_eq Inr sum.case dev_create_raw_eq [OF assms(1) len]]
  show thesis
  proof (cases "length blob > K_MAX_SPEC")
    case True
    then have "r = Err (Os 22)" "st' = st" using raw by simp_all
    then show thesis using that(1) by blast
  next
    case False
    obtain r0 st0 where c: "create_from_blob h blob st = (r0, st0)" by fastforce
    have rr: "r = and_then (os_result r0) (\<lambda>(i, pid). Ok (i, as_i32 pid))" "st' = st0"
      using raw False c by simp_all
    from c show thesis
    proof (cases rule: create_cases)
      case rejected
      then show thesis using rr that(1) by simp
    next
      case spawned
      then show thesis
      proof (cases rule: spawn_cases)
        case failed
        then show thesis using rr that(1) by simp
      next
        case (ok p c)
        then show thesis using rr by (intro that(2) [of c]) (simp_all add: spawned_def)
      qed
    qed
  qed
qed

lemma dev_create_failed:
  "layout_ok cl K_MAX_SPEC \<Longrightarrow> dev_create h cl spec st = (Err err, st') \<Longrightarrow>
   ks_registry st' = ks_registry st \<and> ks_next_id st' = ks_next_id st"
  by (erule dev_create_cases) auto

lemma find_new_id:
  assumes "reg_inv st" "ct_id c = ks_next_id st"
  shows "find_id (ks_next_id st) (ks_registry st @ [c]) = Some (length (ks_registry st))"
proof -
  have "ct_id x \<noteq> ks_next_id st" if "x \<in> set (ks_registry st)" for x
    using assms(1) that by (auto simp: reg_inv_def)
  then show ?thesis using assms(2) by (simp add: find_id_def position_append)
qed

lemma delete_new:
  assumes "layout_ok cl n" "reg_inv st" "ks_registry st' = ks_registry st @ [c]" "ct_id c = ks_next_id st"
  shows "fst (dev_delete h cl (ks_next_id st) st') = Ok ()
    \<and> ks_registry (snd (dev_delete h cl (ks_next_id st) st')) = ks_registry st"
  using find_new_id [OF assms(2,4)] assms(3)
  by (simp add: dev_delete_eq [OF assms(1)] delete_container_def Let_def split_def remove_nth_def)

lemma drop_new:
  assumes "layout_ok (ho_client e) n" "reg_inv st" "ks_registry (w_kernel w) = ks_registry st @ [c]"
    "ct_id c = ks_next_id st" "drop_container e (ks_next_id st) w = (r, w')"
  shows "r = Ok () \<and> ks_registry (w_kernel w') = ks_registry st"
  using delete_new [OF assms(1-4), of "ho_helper e"] assms(5)
  by (auto simp: drop_container_def seq_result)

section \<open>create\<close>

text \<open>The ways out of \<open>setup\_guard\<close>.\<close>

lemma setup_guard_halts:
  assumes "setup_guard e cfg kid dir w = (Err x, w')"
  obtains (annotation) err where "bpf_lsm_mode_of cfg = Err err" "x = Die (oci_error_str err)" "w' = w"
  | (taken_back) w1 u where "w_kernel w1 = w_kernel w" "drop_container e kid w1 = (Ok u, w')"
proof (cases "bpf_lsm_mode_of cfg")
  case (Inl err)
  then show thesis using assms annotation by (simp add: setup_guard_def)
next
  case (Inr m)
  then obtain mode where m: "m = Some mode" using assms by (cases m) (simp_all add: setup_guard_def)
  have drop: "\<exists>u w2. drop_container e kid w0 = (Ok u, w2)" for w0
    by (simp add: drop_container_def seq_result)
  show thesis
  proof (cases dir)
    case None
    then show thesis using assms Inr m drop [of w] taken_back
      by (auto simp: setup_guard_def seq_result)
  next
    case (Some cg)
    note run = assms [unfolded setup_guard_def Inr m sum.case option.case Some]
    from run obtain r w1 where arm: "bpf_arm e cg (as_arg mode) w = (Ok r, w1)"
      and rest: "(case r of None \<Rightarrow> seq (drop_container e kid) (\<lambda>_. die ''arming BPF-LSM: '')
          | Some u \<Rightarrow> ret (Some (as_arg mode))) w1 = (Err x, w')"
    proof (cases rule: seqE)
      case halt
      then show thesis using no_haltD [OF no_halt_arm] by blast
    qed
    have "r = None" using rest by (cases r) simp_all
    moreover obtain u w2 where d: "drop_container e kid w1 = (Ok u, w2)" using drop [of w1] by blast
    ultimately have "drop_container e kid w1 = (Ok u, w')" using rest by (simp add: seq_result)
    moreover have "w_kernel w1 = w_kernel w" using same_kernelD [OF sk.keeps_bpf(1) arm] .
    ultimately show thesis using taken_back by blast
  qed
qed

text \<open>The messages with which the code leaves a container of the kernel behind.\<close>

definition leaking_exit :: "oci_config \<Rightarrow> halt \<Rightarrow> bool" where
  "leaking_exit cfg x \<longleftrightarrow>
     x = Die ''mkdir state: '' \<or> x = Die ''write state: ''
     \<or> (\<exists>err. bpf_lsm_mode_of cfg = Err err \<and> x = Die (oci_error_str err))"

lemma save_state_halts: "save_state e root st w = (Err x, w') \<Longrightarrow>
    x = Die ''mkdir state: '' \<or> x = Die ''write state: ''"
  unfolding save_state_def using no_haltD [OF no_halt_files(2)] no_haltD [OF no_halt_files(3)]
  by (fastforce elim!: seqE)

lemma map_or_drop_outcome:
  assumes "layout_ok (ho_client e) n" "reg_inv st"
    "ks_registry (w_kernel w) = ks_registry st @ [c]" "ct_id c = ks_next_id st"
    "map_or_drop e spec (ks_next_id st) pid w = (m, w1)"
  shows "case m of Ok _ \<Rightarrow> w_kernel w1 = w_kernel w | Err x \<Rightarrow> ks_registry (w_kernel w1) = ks_registry st"
proof (cases "sp_uid_maps spec \<noteq> [] \<or> sp_gid_maps spec \<noteq> []")
  case False
  then show ?thesis using assms(5) by (auto simp: map_or_drop_def)
next
  case True
  obtain r w2 where w: "write_id_maps e pid (sp_uid_maps spec) (sp_gid_maps spec) w = (r, w2)" by fastforce
  then obtain v where r: "r = Ok v" using no_haltD [OF no_halt_id_maps] by (cases r) blast+
  have k: "w_kernel w2 = w_kernel w" using same_kernelD [OF sk.keeps_id_maps w] .
  have rest: "(case v of None \<Rightarrow> seq (drop_container e (ks_next_id st)) (\<lambda>_. die ''applying user-namespace ID maps: '')
      | Some _ \<Rightarrow> ret ()) w2 = (m, w1)"
    using assms(5) True w r by (cases v) (simp_all add: map_or_drop_def seq_def [of "write_id_maps e pid _ _"])
  show ?thesis
  proof (cases v)
    case None
    from rest [unfolded None option.case]
    show ?thesis using drop_new [OF assms(1,2) _ assms(4), of w2] k assms(3)
      by (cases rule: seqE) auto
  next
    case (Some u)
    then show ?thesis using rest k by auto
  qed
qed

lemma save_and_pid_outcome:
  assumes "save_and_pid e root flags pid st w = (r, w')"
  shows "w_kernel w' = w_kernel w \<and> (r = Ok st \<or> r = Err (Die ''mkdir state: '') \<or> r = Err (Die ''write state: ''))"
proof -
  have "keeps same_kernel (save_and_pid e root flags pid st)"
    unfolding save_and_pid_def by (intro sk.keeps_all sk_save sk_write)
  moreover from assms have "r = Ok st \<or> r = Err (Die ''mkdir state: '') \<or> r = Err (Die ''write state: '')"
    unfolding save_and_pid_def
  proof (cases rule: seqE)
    case halt
    then show ?thesis using save_state_halts by blast
  next
    case (go u w1)
    then show ?thesis using no_haltD [OF no_halt_files(2)]
      by (fastforce elim!: seqE split: option.splits)
  qed
  ultimately show ?thesis using same_kernelD assms by blast
qed

lemma register_outcome:
  assumes lay: "layout_ok (ho_client e) n" and inv: "reg_inv st"
    and reg: "ks_registry (w_kernel w) = ks_registry st @ [c]" "ct_id c = ks_next_id st"
    and run: "register_container e root flags cid bundle cfg spec (ks_next_id st) pid w = (r, w')"
  shows "(case r of
      Ok s \<Rightarrow> w_kernel w' = w_kernel w \<and> sd_krunc_id s = ks_next_id st \<and> sd_id s = cid
    | Err x \<Rightarrow> ks_registry (w_kernel w') = ks_registry st
        \<or> leaking_exit cfg x \<and> w_kernel w' = w_kernel w)"
proof -
  obtain m w1 where maps: "map_or_drop e spec (ks_next_id st) pid w = (m, w1)" by fastforce
  note run = run [unfolded register_container_def]
  show ?thesis
  proof (cases m)
    case (Inl x)
    then have "r = Err x" "w' = w1" using run maps by (simp_all add: seq_def)
    then show ?thesis using map_or_drop_outcome [OF lay inv reg maps] Inl by simp
  next
    case (Inr u)
    have k1: "w_kernel w1 = w_kernel w" using map_or_drop_outcome [OF lay inv reg maps] Inr by simp
    obtain d w2 where cg: "setup_cgroup e cid cfg pid w1 = (d, w2)" by fastforce
    then obtain dir where d: "d = Ok dir" using no_haltD [OF no_halt_setup_cgroup] by (cases d) blast+
    have k2: "w_kernel w2 = w_kernel w" using same_kernelD [OF sk.keeps_setup_cgroup cg] k1 by simp
    obtain g w3 where guard: "setup_guard e cfg (ks_next_id st) dir w2 = (g, w3)" by fastforce
    note run = run [unfolded seq_def [of "map_or_drop e spec (ks_next_id st) pid"] maps Inr prod.case
        sum.case seq_def [of "setup_cgroup e cid cfg pid"] cg d
        seq_def [of "setup_guard e cfg (ks_next_id st) dir"] guard]
    show ?thesis
    proof (cases g)
      case (Inl x)
      then have "r = Err x" "w' = w3" using run by simp_all
      moreover have "ks_registry (w_kernel w3) = ks_registry st \<or> leaking_exit cfg x \<and> w_kernel w3 = w_kernel w"
        using guard [unfolded Inl]
      proof (cases rule: setup_guard_halts)
        case annotation
        then show ?thesis using k2 by (auto simp: leaking_exit_def)
      next
        case (taken_back w4 u)
        then show ?thesis using drop_new [OF lay inv _ reg(2) taken_back(2)] reg(1) k2 by simp
      qed
      ultimately show ?thesis by simp
    next
      case (Inr guarded)
      have k3: "w_kernel w3 = w_kernel w"
        using guard Inr k2 same_kernelD [OF sk.keeps_bpf(1)]
        by (fastforce simp: setup_guard_def elim!: seq_OkE split: sum.splits option.splits)
      show ?thesis using save_and_pid_outcome [OF run [unfolded Inr sum.case]] k3
        by (auto simp: leaking_exit_def new_state_def)
    qed
  qed
qed

lemma sk_prepare: "prepare_create e root cid bundle w = (r, w') \<Longrightarrow> w_kernel w' = w_kernel w"
  by (rule same_kernelD [OF sk.keeps_prepare])

text \<open>A create either ends before the kernel has a container, or goes on with one.\<close>

lemma create_from_bundleE:
  assumes run: "create_from_bundle e root flags cid bundle w = (r, w')"
    and lay: "layout_ok (ho_client e) K_MAX_SPEC"
  obtains (unprepared) x where "r = Err x" "prepare_create e root cid bundle w = (Err x, w')"
  | (refused) x spec w1 err st' where "r = Err x" "prepare_create e root cid bundle w = (Ok spec, w1)"
      "dev_create (ho_helper e) (ho_client e) (snd spec) (w_kernel w1) = (Err err, st')"
      "w' = w1\<lparr>w_kernel := st'\<rparr>"
  | (made) cfg spec w1 c st' where "prepare_create e root cid bundle w = (Ok (cfg, spec), w1)"
      "dev_create (ho_helper e) (ho_client e) spec (w_kernel w1)
        = (Ok (ks_next_id (w_kernel w), as_i32 (ct_pid c)), st')"
      "ks_registry st' = ks_registry (w_kernel w) @ [c]" "ks_next_id st' = ks_next_id (w_kernel w) + 1"
      "ct_id c = ks_next_id (w_kernel w)" "\<not> ct_started c"
      "register_container e root flags cid bundle cfg spec (ks_next_id (w_kernel w)) (as_i32 (ct_pid c))
         (w1\<lparr>w_kernel := st'\<rparr>) = (r, w')"
  using run [unfolded create_from_bundle_def]
proof (cases rule: seqE)
  case halt
  then show thesis using unprepared by blast
next
  case (go cs w1)
  obtain cfg spec where cs: "cs = (cfg, spec)" by (cases cs)
  note k1 = sk_prepare [OF go(1)]
  obtain dr st' where dev: "dev_create (ho_helper e) (ho_client e) spec (w_kernel w1) = (dr, st')"
    by fastforce
  note rest = go(2) [unfolded cs prod.case seq_device dev Let_def]
  from lay dev show thesis
  proof (cases rule: dev_create_cases)
    case (failed err)
    then have "r = Err (Die ''create: '')" "w' = w1\<lparr>w_kernel := st'\<rparr>"
      using rest by (simp_all add: seq_or_die)
    then show thesis using refused [OF _ go(1)] dev failed cs by simp
  next
    case (created c)
    then show thesis
      using rest k1 go(1) dev cs by (intro made [of cfg spec w1 c st']) (simp_all add: seq_or_die)
  qed
qed

text \<open>
C20 (a create that fails leaves no container). When \<open>create\<close> ends without an error, the module has
exactly one container more, with the id recorded in the state. When it dies, the registry is what
it was before, however any file operation, cgroup or program failed on the way; but for three
exits that leave the new container behind: an annotation \<open>org.krunc.bpf-lsm\<close> that is neither
\<open>block\<close> nor \<open>kill\<close>, and a state directory or a state file that cannot be written.
\<close>

theorem failed_create_leaves_none:
  assumes "create_from_bundle e root flags cid bundle w = (r, w')"
    and "layout_ok (ho_client e) K_MAX_SPEC" "reg_inv (w_kernel w)"
  shows "(case r of
      Ok s \<Rightarrow> sd_id s = cid \<and> (\<exists>c. ks_registry (w_kernel w') = ks_registry (w_kernel w) @ [c]
        \<and> ct_id c = sd_krunc_id s \<and> ct_id c = ks_next_id (w_kernel w) \<and> \<not> ct_started c)
    | Err x \<Rightarrow> ks_registry (w_kernel w') = ks_registry (w_kernel w)
        \<or> (\<exists>cfg spec w1. prepare_create e root cid bundle w = (Ok (cfg, spec), w1) \<and> leaking_exit cfg x))"
  using assms(1,2)
proof (cases rule: create_from_bundleE)
  case (unprepared x)
  then show ?thesis using sk_prepare [OF unprepared(2)] by simp
next
  case (refused x spec w1 err st')
  then show ?thesis using dev_create_failed [OF assms(2) refused(3)] sk_prepare [OF refused(2)] by simp
next
  case (made cfg spec w1 c st')
  then show ?thesis
    using register_outcome [OF assms(2,3), of "w1\<lparr>w_kernel := st'\<rparr>" c] by (fastforce split: sum.splits)
qed

end
