(* ===== verification/Cli_Store.thy ===== *)
theory Cli_Store
  imports Cli_Create
begin

text \<open>
  The state store under \<open>--root\<close>, for ids that are plain file names: the commands as a step
  relation on the machine, other users of the device included, and the invariant that every state
  file names its own container, and no two the same one.
\<close>

section \<open>The files of the store\<close>

definition store_root :: "path \<Rightarrow> bool" where
  "store_root rp \<longleftrightarrow> rp \<noteq> [] \<and> list_all plain rp"

definition state_key :: "path \<Rightarrow> string \<Rightarrow> path" where
  "state_key rp cid = rp @ [cid, ''state.json'']"

definition file_at :: "('os, 'b) world \<Rightarrow> path \<Rightarrow> 'b option" where
  "file_at w p = (case node_at w p of Some (File b) \<Rightarrow> Some b | _ \<Rightarrow> None)"

text \<open>The state a command would load.\<close>

definition recorded :: "('os, 'b) host \<Rightarrow> ('os, 'b) world \<Rightarrow> path \<Rightarrow> string \<Rightarrow> state_file option" where
  "recorded e w rp cid = Option.bind (file_at w (state_key rp cid)) (ho_from_json e)"

lemma file_at_fields [simp]:
  "file_at (w\<lparr>w_log := l\<rparr>) = file_at w" "file_at (w\<lparr>w_kernel := k\<rparr>) = file_at w"
  by (simp_all add: file_at_def fun_eq_iff)

lemma file_at_put_node: "p \<noteq> [] \<Longrightarrow>
    file_at (put_node p n w) q = (if q = p then (case n of File b \<Rightarrow> Some b | Dir \<Rightarrow> None) else file_at w q)"
  by (simp add: file_at_def node_at_put_node split: node.split)

lemma recorded_fields [simp]:
  "recorded e (w\<lparr>w_log := l\<rparr>) = recorded e w" "recorded e (w\<lparr>w_kernel := k\<rparr>) = recorded e w"
  by (simp_all add: recorded_def fun_eq_iff)

lemma split_render:
  "list_all plain rp \<Longrightarrow>
   split_slash (concat (map (\<lambda>c. CHR ''/'' # c) rp) @ CHR ''/'' # t) = [] # rp @ split_slash t"
proof (induction rp)
  case (Cons c rp)
  obtain u where u: "concat (map (\<lambda>c. CHR ''/'' # c) rp) @ CHR ''/'' # t = CHR ''/'' # u"
    by (cases rp) simp_all
  have "split_slash u = rp @ split_slash t" using Cons u by simp
  then show ?case
    using Cons.prems u by (simp add: split_slash_append split_slash_plain plain_def)
qed simp

lemma walk_plain: "list_all plain cs \<Longrightarrow> walk d cur cs = Some p \<Longrightarrow> p = cur @ cs"
  by (induction d cur cs rule: walk.induct) (auto simp: plain_def split: if_splits)

lemma render_props:
  assumes "store_root rp"
  shows "is_absolute (render_path rp)" "render_path rp \<noteq> []" "last (render_path rp) \<noteq> CHR ''/''"
proof -
  obtain r rs where "rp = r # rs" using assms by (cases rp) (simp_all add: store_root_def)
  then show "is_absolute (render_path rp)" "render_path rp \<noteq> []"
    by (simp_all add: is_absolute_def render_path_def)
  obtain init c where rp: "rp = init @ [c]"
    using assms by (cases rp rule: rev_cases) (simp_all add: store_root_def)
  then have "c \<noteq> []" "CHR ''/'' \<notin> set c" using assms by (simp_all add: store_root_def plain_def)
  moreover have "render_path rp = concat (map (\<lambda>c. CHR ''/'' # c) init) @ CHR ''/'' # c"
    using rp by (simp add: render_path_def)
  ultimately show "last (render_path rp) \<noteq> CHR ''/''" by (auto dest: last_in_set)
qed

lemma state_path_render:
  assumes "store_root rp" "plain cid"
  shows "state_path (render_path rp) cid = render_path rp @ ''/'' @ cid @ ''/state.json''"
    "split_slash (state_path (render_path rp) cid) = [] # state_key rp cid"
proof -
  have n: "\<not> is_absolute cid" "cid \<noteq> []" "last cid \<noteq> CHR ''/''"
    using assms(2) by (auto simp: plain_def is_absolute_def dest: last_in_set list.set_sel(1))
  then show p: "state_path (render_path rp) cid = render_path rp @ ''/'' @ cid @ ''/state.json''"
    using render_props [OF assms(1)]
    by (simp add: state_path_def state_dir_def path_join_def is_absolute_def [of "''state.json''"])
  have "split_slash (cid @ CHR ''/'' # ''state.json'') = [cid, ''state.json'']"
    using assms(2) by (simp only: split_slash_append) (simp add: split_slash_plain plain_def)
  then show "split_slash (state_path (render_path rp) cid) = [] # state_key rp cid"
    unfolding p using assms(1) split_render [of rp "cid @ ''/state.json''"]
    by (simp add: store_root_def state_key_def render_path_def)
qed

lemma resolve_state:
  assumes "store_root rp" "plain cid" "resolve e w (state_path (render_path rp) cid) = Some p"
  shows "p = state_key rp cid"
proof -
  have abs: "is_absolute (state_path (render_path rp) cid)"
    using render_props [OF assms(1)] unfolding state_path_render(1) [OF assms(1,2)]
    by (simp add: is_absolute_def)
  have "walk (searchable w) [] ([] # state_key rp cid) = Some p"
    using assms(3) abs unfolding resolve_def start_dir_def state_path_render(2) [OF assms(1,2)]
    by (simp split: if_splits)
  moreover have "list_all plain (state_key rp cid)"
    using assms(1,2) by (simp add: store_root_def state_key_def plain_def)
  ultimately show ?thesis using walk_plain [of "state_key rp cid" "searchable w" "[]" p] by (simp split: if_splits)
qed

section \<open>What leaves the store as it is\<close>

text \<open>
  No state appears or changes (one may go), the module keeps its invariant and hands out no id.
\<close>

definition quiet :: "('os, 'b) host \<Rightarrow> ('os, 'b) world \<Rightarrow> ('os, 'b) world \<Rightarrow> bool" where
  "quiet e w w' \<longleftrightarrow>
     (\<forall>q b s. last q = ''state.json'' \<and> file_at w' q = Some b \<and> ho_from_json e b = Some s \<longrightarrow>
        (\<exists>b'. file_at w q = Some b' \<and> ho_from_json e b' = Some s))
     \<and> (reg_inv (w_kernel w) \<longrightarrow> reg_inv (w_kernel w'))
     \<and> ks_next_id (w_kernel w') = ks_next_id (w_kernel w)"

lemma quietI:
  assumes "\<And>q. last q = ''state.json'' \<Longrightarrow> file_at w' q = file_at w q \<or> file_at w' q = None"
    "w_kernel w' = w_kernel w"
  shows "quiet e w w'"
  using assms(1) unfolding quiet_def assms(2) by (metis option.distinct(1))

interpretation qt: command_order "quiet e" "\<lambda>_. True" "\<lambda>p. last p \<noteq> ''state.json''"
  for e :: "('os, 'b) host"
proof unfold_locales
  fix w :: "('os, 'b) world" and p :: path and b :: 'b and keep :: "path \<Rightarrow> bool" and ev :: "'b event"
  show "quiet e w w" by (simp add: quiet_def)
  show "quiet e w (w\<lparr>w_log := w_log w @ [ev]\<rparr>)" by (rule quietI) simp_all
  show "quiet e w (w\<lparr>w_files := filter (\<lambda>(q, _). keep q) (w_files w)\<rparr>)"
    by (rule quietI) (simp_all add: file_at_def node_at_def map_of_filter_key)
  show "quiet e w (put_node p Dir w)" if "node_at w p = None"
  proof -
    have "p \<noteq> []" using that by (auto simp: node_at_def)
    then show ?thesis by (intro quietI) (simp_all add: file_at_def node_at_put_node)
  qed
  show "quiet e w (put_node p (File b) w)" if "last p \<noteq> ''state.json''" "node_at w p \<noteq> Some Dir"
  proof -
    have "p \<noteq> []" using that(2) by (auto simp: node_at_def)
    then show ?thesis using that(1) by (intro quietI) (auto simp: file_at_def node_at_put_node)
  qed
next
  fix w1 w2 w3 :: "('os, 'b) world"
  show "quiet e w1 w2 \<Longrightarrow> quiet e w2 w3 \<Longrightarrow> quiet e w1 w3"
    unfolding quiet_def by metis
qed simp_all

lemma quiet_kernel:
  assumes "reg_inv (w_kernel w) \<longrightarrow> reg_inv k" "ks_next_id k = ks_next_id (w_kernel w)"
  shows "quiet e w (w\<lparr>w_kernel := k\<rparr>)"
  using assms by (simp add: quiet_def)

lemma qt_device:
  assumes "layout_ok (ho_client e) n"
  shows "keeps (quiet e) (device (dev_start (ho_helper e) (ho_client e) i))"
    "keeps (quiet e) (device (dev_state (ho_helper e) (ho_client e) i))"
    "keeps (quiet e) (device (dev_kill (ho_helper e) (ho_client e) i sig))"
    "keeps (quiet e) (device (dev_delete (ho_helper e) (ho_client e) i))"
  unfolding dev_start_eq [OF assms, abs_def] dev_state_eq [OF assms, abs_def]
    dev_kill_eq [OF assms, abs_def] dev_delete_eq [OF assms, abs_def]
  by (auto intro!: keepsI quiet_kernel reg_inv_start reg_inv_state reg_inv_kill reg_inv_delete
      simp: next_id_same Let_def split_def)

lemma qt_drop: "layout_ok (ho_client e) n \<Longrightarrow> keeps (quiet e) (drop_container e i)"
  unfolding drop_container_def by (intro qt.keeps_all qt_device)

lemma qt_guard: "layout_ok (ho_client e) n \<Longrightarrow> keeps (quiet e) (setup_guard e cfg kid dir)"
  unfolding setup_guard_def by (intro qt.keeps_all qt.keeps_parts qt_drop)

lemma qt_maps: "layout_ok (ho_client e) n \<Longrightarrow> keeps (quiet e) (map_or_drop e spec kid pid)"
  unfolding map_or_drop_def by (intro qt.keeps_all qt.keeps_parts qt_drop)

section \<open>The invariant\<close>

text \<open>
  The type of a state: the version is the tool's, the status is one of the three, the pid fits an
  \<open>i32\<close>, annotations are those of an exit status, and a guard goes with a cgroup to take it from.
\<close>

definition wf_state :: "state_file \<Rightarrow> bool" where
  "wf_state s \<longleftrightarrow>
     sd_oci_version s = OCI_VERSION
     \<and> sd_status s \<in> {''created'', ''running'', ''stopped''}
     \<and> as_i32 (sd_pid s) = sd_pid s
     \<and> (\<forall>a. sd_annotations s = Some a \<longrightarrow> (\<exists>x. a = map_of (exit_annotations x)))
     \<and> (\<forall>g. sd_bpf_lsm s = Some g \<longrightarrow> g \<in> {''block'', ''kill''} \<and> sd_cgroup s \<noteq> None)"

lemma wf_observed: "wf_state st \<Longrightarrow> as_i32 pid = pid \<Longrightarrow> wf_state (observed s pid x st)"
  by (cases s) (auto simp: wf_state_def observed_def status_str_def Let_def)

lemma wf_running: "wf_state st \<Longrightarrow> wf_state (st\<lparr>sd_status := ''running''\<rparr>)"
  by (simp add: wf_state_def)

lemma as_i32_idem [simp]: "as_i32 (as_i32 v) = as_i32 v" "as_i32 (sint (x :: i32)) = sint x"
  by (simp_all add: as_i32_def)

lemma dev_state_pid: "fst (dev_state h cl i st) = Ok (s, pid, x) \<Longrightarrow> as_i32 pid = pid"
  by (cases "fst (dev_ioctl h cl DEV_STATE (cmd_default\<lparr>kc_id := i\<rparr>) st)")
     (auto simp: dev_state_def and_then_def Let_def split_def)

lemma guard_needs_cgroup:
  assumes "setup_guard e cfg kid dir w = (Ok (Some g), w')"
  shows "g \<in> {''block'', ''kill''} \<and> dir \<noteq> None"
  using assms
  by (auto simp: setup_guard_def as_arg_def elim!: seq_OkE
      split: sum.splits option.splits bpf_lsm_mode.splits)

lemma wf_new_state:
  "setup_guard e cfg kid dir w = (Ok guard, w') \<Longrightarrow> wf_state (new_state cid (as_i32 pid) bundle kid dir guard)"
  using guard_needs_cgroup [of e cfg kid dir w] by (auto simp: wf_state_def new_state_def)

definition store_inv :: "('os, 'b) host \<Rightarrow> path \<Rightarrow> (string \<Rightarrow> u64 \<Rightarrow> bool) \<Rightarrow> ('os, 'b) world \<Rightarrow> bool" where
  "store_inv e rp own w \<longleftrightarrow>
     reg_inv (w_kernel w)
     \<and> (\<forall>c s. plain c \<and> recorded e w rp c = Some s \<longrightarrow>
          sd_id s = c \<and> sd_krunc_id s < ks_next_id (w_kernel w) \<and> own c (sd_krunc_id s) \<and> wf_state s)
     \<and> (\<forall>c c' s s'. plain c \<and> plain c' \<and> c \<noteq> c' \<and> recorded e w rp c = Some s
          \<and> recorded e w rp c' = Some s' \<longrightarrow> sd_krunc_id s \<noteq> sd_krunc_id s')"

text \<open>A create may happen: the module has an id to hand out, and a state may name it.\<close>

definition ready :: "(string \<Rightarrow> u64 \<Rightarrow> bool) \<Rightarrow> ('os, 'b) world \<Rightarrow> bool" where
  "ready own w \<longleftrightarrow> room (w_kernel w) \<and> (\<forall>c. own c (ks_next_id (w_kernel w)))"

text \<open>The container is one this state may name, and no other state names it.\<close>

definition alone :: "('os, 'b) host \<Rightarrow> path \<Rightarrow> (string \<Rightarrow> u64 \<Rightarrow> bool) \<Rightarrow> ('os, 'b) world \<Rightarrow> string
    \<Rightarrow> u64 \<Rightarrow> bool" where
  "alone e rp own w cid kid \<longleftrightarrow> own cid kid \<and>
     (\<forall>c s. plain c \<and> c \<noteq> cid \<and> recorded e w rp c = Some s \<longrightarrow> sd_krunc_id s \<noteq> kid)"

text \<open>
  What is used of serde: what is read back from a state that was written, whole or torn, is that
  state, and a number is not a state.
\<close>

definition serde_ok :: "('os, 'b) host \<Rightarrow> bool" where
  "serde_ok e \<longleftrightarrow>
     (\<forall>s s' l. (ho_from_json e (ho_to_json e s) = Some s'
          \<or> ho_from_json e (ho_torn e l (ho_to_json e s)) = Some s') \<longrightarrow>
        s' = s)
     \<and> (\<forall>n l. ho_from_json e (ho_text e (dec_str n)) = None
          \<and> ho_from_json e (ho_torn e l (ho_text e (dec_str n))) = None)"

lemma quiet_recorded: "quiet e w w' \<Longrightarrow> recorded e w' rp c = Some s \<Longrightarrow> recorded e w rp c = Some s"
proof -
  assume q: "quiet e w w'" and "recorded e w' rp c = Some s"
  then obtain b where "file_at w' (state_key rp c) = Some b" "ho_from_json e b = Some s"
    by (auto simp: recorded_def split: Option.bind_splits)
  moreover have "last (state_key rp c) = ''state.json''" by (simp add: state_key_def)
  ultimately obtain b' where "file_at w (state_key rp c) = Some b'" "ho_from_json e b' = Some s"
    using q unfolding quiet_def by blast
  then show ?thesis by (simp add: recorded_def)
qed

lemma quiet_inv: "quiet e w w' \<Longrightarrow> store_inv e rp own w \<Longrightarrow> store_inv e rp own w'"
proof -
  assume q: "quiet e w w'" and i: "store_inv e rp own w"
  then have "reg_inv (w_kernel w')" "ks_next_id (w_kernel w') = ks_next_id (w_kernel w)"
    by (simp_all add: quiet_def store_inv_def)
  then show ?thesis using i quiet_recorded [OF q] unfolding store_inv_def by metis
qed

lemma quiet_alone: "quiet e w w' \<Longrightarrow> alone e rp own w cid kid \<Longrightarrow> alone e rp own w' cid kid"
  unfolding alone_def by (blast dest: quiet_recorded)

lemma quiet_keepsD: "keeps (quiet e) m \<Longrightarrow> m w = (r, w') \<Longrightarrow> quiet e w w'"
  by (rule keepsD)

text \<open>A write changes the file it names, and only to what was to be written.\<close>

lemma write_effect:
  assumes "write_file e s b w = (r, w')"
  shows "w_kernel w' = w_kernel w"
    "file_at w' q = file_at w q
     \<or> resolve e w s = Some q \<and> (file_at w' q = Some b \<or> (\<exists>l. file_at w' q = Some (ho_torn e l b)))"
proof -
  show "w_kernel w' = w_kernel w" using same_kernelD [OF sk_write assms] .
  show "file_at w' q = file_at w q
     \<or> resolve e w s = Some q \<and> (file_at w' q = Some b \<or> (\<exists>l. file_at w' q = Some (ho_torn e l b)))"
  proof (cases "resolve e w s")
    case None
    then show ?thesis using assms by (simp add: write_file_def)
  next
    case (Some p)
    show ?thesis
    proof (cases "is_dir w p")
      case True
      then show ?thesis using assms Some by (simp add: write_file_def)
    next
      case False
      then have "p \<noteq> []" by (auto simp: is_dir_def node_at_def)
      then show ?thesis using assms Some False
        by (auto simp: write_file_def seq_perform file_at_put_node split: if_splits)
    qed
  qed
qed

lemma write_state_inv:
  assumes "store_root rp" "serde_ok e" "plain (sd_id st)" "store_inv e rp own w"
    and "alone e rp own w (sd_id st) (sd_krunc_id st)" "sd_krunc_id st < ks_next_id (w_kernel w)"
    and "wf_state st" "write_file e (state_path (render_path rp) (sd_id st)) (ho_to_json e st) w = (r, w')"
  shows "store_inv e rp own w'" "alone e rp own w' (sd_id st) (sd_krunc_id st)"
proof -
  have k: "w_kernel w' = w_kernel w" using write_effect(1) [OF assms(8)] .
  have rec: "recorded e w' rp c = recorded e w rp c
      \<or> c = sd_id st \<and> (\<forall>s. recorded e w' rp c = Some s \<longrightarrow> s = st)" if "plain c" for c
  proof (cases "file_at w' (state_key rp c) = file_at w (state_key rp c)")
    case True
    then show ?thesis by (simp add: recorded_def)
  next
    case False
    with write_effect(2) [OF assms(8), of "state_key rp c"] have
      at: "resolve e w (state_path (render_path rp) (sd_id st)) = Some (state_key rp c)"
      and b: "file_at w' (state_key rp c) = Some (ho_to_json e st)
        \<or> (\<exists>l. file_at w' (state_key rp c) = Some (ho_torn e l (ho_to_json e st)))" by blast+
    have "c = sd_id st" using resolve_state [OF assms(1,3) at] by (simp add: state_key_def)
    moreover have "s = st"
      if "recorded e w' rp c = Some s" for s
    proof -
      from that obtain x where x: "file_at w' (state_key rp c) = Some x" "ho_from_json e x = Some s"
        by (auto simp: recorded_def split: Option.bind_splits)
      with b have "x = ho_to_json e st \<or> (\<exists>l. x = ho_torn e l (ho_to_json e st))" by auto
      then show ?thesis using x(2) assms(2) unfolding serde_ok_def by blast
    qed
    ultimately show ?thesis by blast
  qed
  show "alone e rp own w' (sd_id st) (sd_krunc_id st)"
    using rec assms(5) unfolding alone_def by metis
  show "store_inv e rp own w'"
    unfolding store_inv_def k
  proof (intro conjI allI impI)
    show "reg_inv (w_kernel w)" using assms(4) by (simp add: store_inv_def)
  next
    fix c s assume "plain c \<and> recorded e w' rp c = Some s"
    then show "sd_id s = c" "sd_krunc_id s < ks_next_id (w_kernel w)" "own c (sd_krunc_id s)" "wf_state s"
      using rec [of c] assms(4-7) by (auto simp: store_inv_def alone_def)
  next
    fix c c' s s'
    assume a: "plain c \<and> plain c' \<and> c \<noteq> c' \<and> recorded e w' rp c = Some s \<and> recorded e w' rp c' = Some s'"
    then show "sd_krunc_id s \<noteq> sd_krunc_id s'"
      using rec [of c] rec [of c'] assms(4,5) unfolding store_inv_def alone_def by metis
  qed
qed

lemma save_state_inv:
  assumes "store_root rp" "serde_ok e" "plain (sd_id st)" "store_inv e rp own w"
    and "alone e rp own w (sd_id st) (sd_krunc_id st)" "sd_krunc_id st < ks_next_id (w_kernel w)"
    and "wf_state st" "save_state e (render_path rp) st w = (r, w')"
  shows "store_inv e rp own w' \<and> w_kernel w' = w_kernel w \<and> alone e rp own w' (sd_id st) (sd_krunc_id st)"
proof -
  obtain m w1 where mk: "create_dir_all e (state_dir (render_path rp) (sd_id st)) w = (m, w1)" by fastforce
  have q: "quiet e w w1" using keepsD [OF qt.keeps_any_dirs mk] .
  have k1: "w_kernel w1 = w_kernel w" using same_kernelD [OF sk.keeps_any_dirs mk] .
  note inv1 = quiet_inv [OF q assms(4)] and alone1 = quiet_alone [OF q assms(5)]
  from assms(8) [unfolded save_state_def] show ?thesis
  proof (cases rule: seqE)
    case halt
    then show ?thesis using mk inv1 k1 alone1 by simp
  next
    case (go a w2)
    then have w2: "w2 = w1" using mk by simp
    from go(2) show ?thesis
    proof (cases rule: seqE)
      case halt
      then show ?thesis using inv1 k1 w2 alone1 by simp
    next
      case (go u w3)
      then have "w3 = w1" using w2 by simp
      obtain v w4 where
        wr: "write_file e (state_path (render_path rp) (sd_id st)) (ho_to_json e st) w1 = (v, w4)"
        by fastforce
      then have "w4 = w'" using go(2) \<open>w3 = w1\<close> by (auto simp: seq_result dest: or_die_world)
      with wr show ?thesis
        using write_state_inv [OF assms(1-3) inv1 alone1 _ assms(7)] assms(6) write_effect(1) k1 by metis
    qed
  qed
qed

text \<open>A number written anywhere leaves the store with the states it had.\<close>

lemma quiet_number:
  assumes "serde_ok e"
  shows "keeps (quiet e) (write_file e pf (ho_text e (dec_str n)))"
proof (rule keepsI)
  fix w r w' assume w: "write_file e pf (ho_text e (dec_str n)) w = (r, w')"
  have "ho_from_json e b = Some s \<longrightarrow> file_at w q = Some b" if "file_at w' q = Some b" for q b s
    using write_effect(2) [OF w, of q] that assms by (auto simp: serde_ok_def)
  then show "quiet e w w'"
    unfolding quiet_def write_effect(1) [OF w] by blast
qed

lemma load_state_recorded:
  assumes "store_root rp" "plain cid" "load_state e (render_path rp) cid w = (Ok st, w')"
  shows "recorded e w rp cid = Some st"
proof -
  from assms(3) obtain b w1 where b: "read_file e (state_path (render_path rp) cid) w = (Ok (Some b), w1)"
      "ho_from_json e b = Some st"
    by (auto simp: load_state_def elim!: seq_OkE)
  then obtain p where p: "resolve e w (state_path (render_path rp) cid) = Some p" "file_at w p = Some b"
    by (auto simp: read_file_def seq_perform file_at_def split: option.splits node.splits if_splits)
  then show ?thesis using resolve_state [OF assms(1,2) p(1)] b(2) by (simp add: recorded_def)
qed

section \<open>The commands keep the invariant\<close>

text \<open>What a command knows after it loaded a state.\<close>

lemma loaded:
  assumes "store_root rp" "plain cid" "store_inv e rp own w"
    and "load_state e (render_path rp) cid w = (Ok st, w1)"
  shows "quiet e w w1" "sd_id st = cid" "sd_krunc_id st < ks_next_id (w_kernel w)"
    "alone e rp own w cid (sd_krunc_id st)" "recorded e w rp cid = Some st" "wf_state st"
proof -
  show r: "recorded e w rp cid = Some st" using load_state_recorded assms(1,2,4) .
  show "quiet e w w1" using keepsD [OF qt.keeps_load assms(4)] .
  show "sd_id st = cid" "sd_krunc_id st < ks_next_id (w_kernel w)" "alone e rp own w cid (sd_krunc_id st)"
      "wf_state st"
    using r assms(2,3) unfolding store_inv_def alone_def by blast+
qed

text \<open>A state with the ids of a loaded one, saved after steps that are quiet.\<close>

lemma resave_inv:
  assumes "store_root rp" "serde_ok e" "plain cid" "store_inv e rp own w" "quiet e w w2"
    and "alone e rp own w cid (sd_krunc_id st)" "sd_krunc_id st < ks_next_id (w_kernel w)" "sd_id st = cid"
    and "wf_state st" "save_state e (render_path rp) st w2 = (r, w')"
  shows "store_inv e rp own w'"
proof -
  have "ks_next_id (w_kernel w2) = ks_next_id (w_kernel w)" using assms(5) by (simp add: quiet_def)
  then show ?thesis
    using save_state_inv [OF assms(1,2), of st own w2 r w'] quiet_inv [OF assms(5,4)]
      quiet_alone [OF assms(5,6)] assms(3,7-10) by simp
qed

lemma quiet_trans: "quiet e w1 w2 \<Longrightarrow> quiet e w2 w3 \<Longrightarrow> quiet e w1 w3"
  by (rule qt.order_trans)

lemma start_inv:
  assumes "store_root rp" "serde_ok e" "layout_ok (ho_client e) n" "plain cid" "store_inv e rp own w"
    and "do_start e (render_path rp) (cid # args) w = (r, w')"
  shows "store_inv e rp own w'"
proof -
  have run: "seq (load_state e (render_path rp) cid) (\<lambda>st.
     seq (seq (open_or_die e ''open: '') (\<lambda>_.
     seq (device (dev_start (ho_helper e) (ho_client e) (sd_krunc_id st))) (\<lambda>r.
     or_die ''start: '' (ok_result r)))) (\<lambda>_.
     save_state e (render_path rp) (st\<lparr>sd_status := ''running''\<rparr>))) w = (r, w')"
    using assms(6) by (simp add: do_start_def first_arg_def seq_or_die seq_assoc)
  from run show ?thesis
  proof (cases rule: seqE)
    case halt
    then show ?thesis using quiet_inv [OF keepsD [OF qt.keeps_load] assms(5)] by blast
  next
    case (go st w1)
    note l = loaded [OF assms(1,4,5) go(1)]
    have dev: "keeps (quiet e) (seq (open_or_die e ''open: '') (\<lambda>_.
     seq (device (dev_start (ho_helper e) (ho_client e) (sd_krunc_id st))) (\<lambda>r.
     or_die ''start: '' (ok_result r))))"
      by (intro qt.keeps_all qt_device [OF assms(3)])
    from go(2) show ?thesis
    proof (cases rule: seqE)
      case halt
      then show ?thesis using quiet_inv [OF quiet_trans [OF l(1) keepsD [OF dev]] assms(5)] by blast
    next
      case (go u w2)
      then show ?thesis
        using resave_inv [OF assms(1,2,4,5) quiet_trans [OF l(1) keepsD [OF dev go(1)]], of "st\<lparr>sd_status := ''running''\<rparr>"] l wf_running
        by simp
    qed
  qed
qed

lemma observed_ids [simp]: "sd_id (observed s pid x st) = sd_id st"
  "sd_krunc_id (observed s pid x st) = sd_krunc_id st"
  by (simp_all add: observed_def Let_def)

lemma state_inv:
  assumes "store_root rp" "serde_ok e" "layout_ok (ho_client e) n" "plain cid" "store_inv e rp own w"
    and "do_state e (render_path rp) (cid # args) w = (r, w')"
  shows "store_inv e rp own w'"
proof -
  have run: "seq (load_state e (render_path rp) cid) (\<lambda>st.
     seq (seq (open_or_die e ''open: '') (\<lambda>_.
       device (dev_state (ho_helper e) (ho_client e) (sd_krunc_id st)))) (\<lambda>r.
     seq (case r of
            Ok (s, pid, exit_status) \<Rightarrow>
              (let st = observed s pid exit_status st in
               seq (save_state e (render_path rp) st) (\<lambda>_. ret st))
          | Err _ \<Rightarrow> ret st) (\<lambda>st.
     print_out e (ho_to_json e st)))) w = (r, w')"
    using assms(6) by (simp add: do_state_def first_arg_def seq_or_die seq_assoc)
  have print: "store_inv e rp own v \<Longrightarrow> print_out e b v = (x, v') \<Longrightarrow> store_inv e rp own v'" for v b x v'
    by (rule quiet_inv [OF keepsD [OF qt.keeps_simple_calls(4) [OF TrueI]]])
  from run show ?thesis
  proof (cases rule: seqE)
    case halt
    then show ?thesis using quiet_inv [OF keepsD [OF qt.keeps_load] assms(5)] by blast
  next
    case (go st w1)
    note l = loaded [OF assms(1,4,5) go(1)]
    have dev: "keeps (quiet e) (seq (open_or_die e ''open: '') (\<lambda>_.
       device (dev_state (ho_helper e) (ho_client e) (sd_krunc_id st))))"
      by (intro qt.keeps_all qt_device [OF assms(3)])
    from go(2) show ?thesis
    proof (cases rule: seqE)
      case halt
      then show ?thesis using quiet_inv [OF quiet_trans [OF l(1) keepsD [OF dev]] assms(5)] by blast
    next
      case (go a w2)
      note q = quiet_trans [OF l(1) keepsD [OF dev go(1)]]
      show ?thesis
      proof (cases a)
        case (Inl err)
        then show ?thesis using go(2) print quiet_inv [OF q assms(5)] by (auto simp: seq_result)
      next
        case (Inr v)
        obtain s pid x where v: "v = (s, pid, x)" by (cases v)
        have wf: "wf_state (observed s pid x st)"
          using go(1) Inr v l(6) by (intro wf_observed) (auto simp: seq_result intro: dev_state_pid [OF sym])
        from go(2) Inr v have "seq (save_state e (render_path rp) (observed s pid x st))
            (\<lambda>_. print_out e (ho_to_json e (observed s pid x st))) w2 = (r, w')"
          by (simp add: Let_def seq_assoc seq_ret [abs_def])
        then show ?thesis
          using resave_inv [OF assms(1,2,4,5) q, of "observed s pid x st"] l print wf
          by (cases rule: seqE) auto
      qed
    qed
  qed
qed

lemma kill_quiet: "layout_ok (ho_client e) n \<Longrightarrow> keeps (quiet e) (do_kill e root args)"
  unfolding do_kill_def first_arg_def Let_def by (intro qt.keeps_all qt.keeps_parts qt_device)

lemma delete_quiet: "layout_ok (ho_client e) n \<Longrightarrow> keeps (quiet e) (do_delete e root flags args)"
  unfolding do_delete_def first_arg_def
  by (intro qt.keeps_all qt.keeps_parts qt_drop)

lemma list_quiet: "keeps (quiet e) (do_list e root)"
proof -
  have "keeps (quiet e) (list_entries e root names)" for names
    by (induction names) (auto intro!: qt.keeps_all)
  then show ?thesis unfolding do_list_def by (intro qt.keeps_all)
qed

text \<open>What a create of the device does to the module, whatever it answers.\<close>

lemma dev_create_inv:
  assumes "layout_ok cl K_MAX_SPEC" "dev_create h cl spec st = (r, st')" "reg_inv st" "room st"
  shows "reg_inv st'"
proof (cases "encode spec Create")
  case (Inl err)
  then show ?thesis using assms(2,3) by (simp add: dev_create_eq)
next
  case (Inr blob)
  have "length blob \<le> MAX_SPEC" using Inr by (auto simp: encode_Ok_iff simp del: length_wire)
  then have len: "length blob < 2 ^ 32" by (simp add: MAX_SPEC_def)
  show ?thesis
    using assms(2) reg_inv_create [OF assms(3,4), of h blob] assms(3)
    unfolding dev_create_eq Inr sum.case dev_create_raw_eq [OF assms(1) len]
    by (auto simp: Let_def split_def split: if_splits)
qed

lemma save_and_pid_inv:
  assumes "store_root rp" "serde_ok e" "plain (sd_id st)" "store_inv e rp own w"
    and "alone e rp own w (sd_id st) (sd_krunc_id st)" "sd_krunc_id st < ks_next_id (w_kernel w)"
    and "wf_state st" "save_and_pid e (render_path rp) flags pid st w = (r, w')"
  shows "store_inv e rp own w' \<and> (\<forall>s. r = Ok s \<longrightarrow> s = st \<and> alone e rp own w' (sd_id st) (sd_krunc_id st)
    \<and> sd_krunc_id st < ks_next_id (w_kernel w'))"
  using assms(8) [unfolded save_and_pid_def]
proof (cases rule: seqE)
  case halt
  then show ?thesis using save_state_inv [OF assms(1-7)] by blast
next
  case (go u w1)
  let ?rest = "seq (case flags ''--pid-file'' of
            Some pf \<Rightarrow> seq (write_file e pf (ho_text e (dec_str pid))) (\<lambda>_. ret ())
          | None \<Rightarrow> ret ()) (\<lambda>_. ret st)"
  have "keeps (quiet e) ?rest" by (intro qt.keeps_all quiet_number assms(2))
  then have "quiet e w1 w'" using go(2) by (rule keepsD [of "quiet e" ?rest])
  note q = this
  have st: "r = Ok s \<Longrightarrow> s = st" for s using go(2) by (auto elim!: seq_OkE)
  have sv: "store_inv e rp own w1" "w_kernel w1 = w_kernel w" "alone e rp own w1 (sd_id st) (sd_krunc_id st)"
    using save_state_inv [OF assms(1-7) go(1)] by simp_all
  have "ks_next_id (w_kernel w') = ks_next_id (w_kernel w)" using q sv(2) by (simp add: quiet_def)
  then show ?thesis using st quiet_inv [OF q sv(1)] quiet_alone [OF q sv(3)] assms(6) by auto
qed

lemma create_inv:
  assumes "store_root rp" "serde_ok e" "layout_ok (ho_client e) K_MAX_SPEC" "plain cid"
    and "store_inv e rp own w" "ready own w"
    and "create_from_bundle e (render_path rp) flags cid bundle w = (r, w')"
  shows "store_inv e rp own w' \<and> (\<forall>s. r = Ok s \<longrightarrow> sd_id s = cid \<and> alone e rp own w' cid (sd_krunc_id s)
    \<and> sd_krunc_id s < ks_next_id (w_kernel w') \<and> wf_state s)"
  using assms(7,3)
proof (cases rule: create_from_bundleE)
  case unprepared
  then show ?thesis using quiet_inv [OF keepsD [OF qt.keeps_prepare] assms(5)] by simp
next
  case (refused x spec w1 err st')
  note inv1 = quiet_inv [OF keepsD [OF qt.keeps_prepare refused(2)] assms(5)]
  have "room (w_kernel w1)" using assms(6) [unfolded ready_def] sk_prepare [OF refused(2)] by simp
  then have "quiet e w1 w'"
    unfolding refused(4) using dev_create_inv [OF assms(3) refused(3)] dev_create_failed [OF assms(3) refused(3)]
    by (intro quiet_kernel) simp_all
  then show ?thesis using quiet_inv inv1 refused(1) by blast
next
  case (made cfg spec w1 c st')
  let ?kid = "ks_next_id (w_kernel w)" and ?w2 = "w1\<lparr>w_kernel := st'\<rparr>"
  have k1: "w_kernel w1 = w_kernel w" using sk_prepare [OF made(1)] .
  have q1: "quiet e w w1" using keepsD [OF qt.keeps_prepare made(1)] .
  note inv1 = quiet_inv [OF q1 assms(5)]
  have grow: "?kid < ?kid + 1" using next_id_grows [of "w_kernel w"] assms(6) by (simp add: ready_def)
  have "reg_inv st'" using dev_create_inv [OF assms(3) made(2)] inv1 assms(6) k1
    by (simp add: store_inv_def ready_def)
  then have inv2: "store_inv e rp own ?w2"
    using inv1 grow made(4) k1 unfolding store_inv_def by (auto intro: less_trans)
  have new: "alone e rp own ?w2 cid ?kid"
    using inv1 k1 assms(6) unfolding store_inv_def alone_def ready_def by fastforce
  from made(7) [unfolded register_container_def] show ?thesis
  proof (cases rule: seqE)
    case halt
    then show ?thesis using quiet_inv [OF keepsD [OF qt_maps [OF assms(3)]] inv2] by simp
  next
    case (go u w3)
    note q3 = keepsD [OF qt_maps [OF assms(3)] go(1)]
    from go(2) show ?thesis
    proof (cases rule: seqE)
      case halt
      then show ?thesis
        using quiet_inv [OF quiet_trans [OF q3 keepsD [OF qt.keeps_setup_cgroup]] inv2] by simp
    next
      case (go dir w4)
      note q4 = quiet_trans [OF q3 keepsD [OF qt.keeps_setup_cgroup go(1)]]
      from go(2) show ?thesis
      proof (cases rule: seqE)
        case halt
        then show ?thesis
          using quiet_inv [OF quiet_trans [OF q4 keepsD [OF qt_guard [OF assms(3)]]] inv2] by simp
      next
        case (go guard w5)
        note q5 = quiet_trans [OF q4 keepsD [OF qt_guard [OF assms(3)] go(1)]]
        have "ks_next_id (w_kernel w5) = ?kid + 1" using q5 made(4) by (simp add: quiet_def)
        let ?st = "new_state cid (as_i32 (ct_pid c)) bundle ?kid dir guard"
        have st: "sd_id ?st = cid" "sd_krunc_id ?st = ?kid" by (simp_all add: new_state_def)
        have "plain (sd_id ?st)" "alone e rp own w5 (sd_id ?st) (sd_krunc_id ?st)"
            "sd_krunc_id ?st < ks_next_id (w_kernel w5)"
          using quiet_alone [OF q5 new] assms(4) grow \<open>ks_next_id (w_kernel w5) = ?kid + 1\<close>
          unfolding st by simp_all
        from save_and_pid_inv [OF assms(1,2) this(1) quiet_inv [OF q5 inv2] this(2,3) wf_new_state [OF go(1)] go(2)]
        show ?thesis using wf_new_state [OF go(1)] unfolding st by (metis st)
      qed
    qed
  qed
qed

end
