(* ===== verification/Cli_Selftest.thy ===== *)
theory Cli_Selftest
  imports Cli_Run
begin

text \<open>
  The self-test \<open>krunc __decode-check\<close>: every malformed buffer it builds is rejected by the
  kernel's parser, so the test passes on any machine whose device opens.
\<close>

abbreviation check_frames :: "wire_section list" where
  "check_frames \<equiv> [(1, 0, as_bytes ''/bundle/rootfs''), (3, 0, write_strvec [''/bin/sh''])]"

lemma check_spec_ok:
  "encode decode_check_spec Create = Ok (wire 1 check_frames)"
  "\<exists>d. decode_spec (wire 1 check_frames) = Ok d" "length (wire 1 check_frames) = 61"
proof -
  have fit: "fits_spec decode_check_spec" "canonical_caps decode_check_spec"
    by (simp_all add: fits_spec_def wf_spec_def decode_check_spec_def default_spec_def wf_str_ascii
        checked_bounds_def entry_bounds_def canonical_caps_def abi_max_defs)
  have secs: "spec_sections decode_check_spec = check_frames"
    by (simp add: spec_sections_def opt_section_def decode_check_spec_def default_spec_def
        TAG_ROOTFS_def TAG_ARGV_def)
  show len: "length (wire 1 check_frames) = 61" by (simp add: write_strvec_def)
  then show enc: "encode decode_check_spec Create = Ok (wire 1 check_frames)"
    using fit(1) unfolding encode_Ok_iff fits_spec_def by (simp only: secs) (simp add: MAX_SPEC_def)
  have "decode (wire 1 check_frames) = Ok (Create, decode_check_spec)"
    by (rule decode_encoded_fits [OF fit enc]) (simp_all add: decode_check_spec_def)
  then show "\<exists>d. decode_spec (wire 1 check_frames) = Ok d"
    using decode_simulated len by (fastforce simp: K_MAX_SPEC_def)
qed

text \<open>The bytes of the encoded specification.\<close>

lemma put_bytes:
  "put_u16 v = [ucast v, ucast (drop_bit 8 v)]"
  "put_u32 w = [ucast w, ucast (drop_bit 8 w), ucast (drop_bit 16 w), ucast (drop_bit 24 w)]"
  by (simp_all add: numeral_2_eq_2 numeral_eq_Suc(1) eval_nat_numeral drop_bit_drop_bit)

lemma check_bytes:
  "wire 1 check_frames = [75, 82, 78, 67, 1, 0, 0, 0, 1, 0, 0, 0, 2, 0, 0, 0,
     1, 0, 0, 0, 14, 0, 0, 0, 47, 98, 117, 110, 100, 108, 101, 47, 114, 111, 111, 116, 102, 115,
     3, 0, 0, 0, 15, 0, 0, 0, 1, 0, 0, 0, 7, 0, 0, 0, 47, 98, 105, 110, 47, 115, 104]"
  by (simp add: wire_def MAGIC_def ABI_VERSION_def frame_def write_strvec_def as_bytes_def put_bytes)

lemma reject_longer: "ms \<noteq> [] \<Longrightarrow> is_ok (decode_spec buf) \<Longrightarrow> \<not> is_ok (decode_spec (buf @ ms))"
  using decode_spec_longer by (cases "decode_spec buf") auto

lemma reject_not_wire:
  assumes "\<And>opc fs. buf \<noteq> wire opc fs"
  shows "\<not> is_ok (decode_spec buf)"
  using decode_spec_exact assms by (cases "decode_spec buf") (simp, blast)

lemma reject_empty: "\<not> is_ok (decode_spec [])"
  by (rule reject_not_wire) (metis length_wire list.size(3) add_is_0 zero_neq_numeral)

lemma reject_magic: "\<not> is_ok (decode_spec (180 # bs))"
  by (rule reject_not_wire) (simp add: wire_def MAGIC_def as_bytes_def)

lemma mark_keeps: "spec_mark u seen = Ok seen' \<Longrightarrow> \<not> unseen t seen \<Longrightarrow> \<not> unseen t seen'"
  by (auto simp: spec_mark_eq unseen_mark simp del: push_bit_of_1 split: if_splits)

lemma mark_marks: "spec_mark t seen = Ok seen' \<Longrightarrow> t < 64 \<Longrightarrow> \<not> unseen t seen'"
  by (auto simp: spec_mark_eq unseen_mark simp del: push_bit_of_1 split: if_splits)

lemma reject_duplicate:
  assumes "length (wire 1 [f, g, f]) \<le> K_MAX_SPEC" "fst f < 64"
  shows "\<not> is_ok (decode_spec (wire 1 [f, g, f]))"
proof -
  obtain t a p where f: "f = (t, a, p)" by (cases f)
  obtain u b q where g: "g = (u, b, q)" by (cases g)
  let ?r = "adv 16 (reader_new (wire 1 [f, g, f]))"
  have small: "small_payloads [f, g, f]"
    using assms(1) by (intro small_frames) (simp add: K_MAX_SPEC_def)
  have head: "spec_header (wire 1 [f, g, f]) = Ok (3, ?r)"
    using assms(1) by (simp add: spec_header_Ok_iff wire_def K_MAX_SPEC_def)
  have "unread ?r = frames [f, g, f] @ []" by (simp add: wire_def MAGIC_def)
  note run = kern_loop.loop_frames [OF this small, of 0 empty_decoded]
  have "run_sections spec_section spec_mark [f, g, f] 0 empty_decoded \<noteq> Ok s" for s
  proof
    assume "run_sections spec_section spec_mark [f, g, f] 0 empty_decoded = Ok s"
    then obtain s1 s2 s3 where "spec_mark t 0 = Ok s1" "spec_mark u s1 = Ok s2" "spec_mark t s2 = Ok s3"
      by (auto simp: f g elim!: and_then_OkE)
    then have "\<not> unseen t s2" using mark_marks mark_keeps assms(2) by (metis f fst_conv)
    then have "spec_mark t s2 = Err EINVAL" using assms(2) by (simp add: spec_mark_eq f)
    then show False using \<open>spec_mark t s2 = Ok s3\<close> by simp
  qed
  then obtain e where e: "run_sections spec_section spec_mark [f, g, f] 0 empty_decoded = Err e"
    by (cases "run_sections spec_section spec_mark [f, g, f] 0 empty_decoded") auto
  have three: "unat (3 :: u32) = length [f, g, f]" by simp
  show ?thesis
    unfolding decode_spec_def head and_then_Ok prod.case three run e and_then_Err by simp
qed

lemma reject_huge:
  assumes "buf = MAGIC @ put_u32 1 @ put_u32 1 @ put_u32 2 @ put_u16 1 @ put_u16 0 @ put_u32 0xffffffff @ ys"
    "length buf \<le> K_MAX_SPEC"
  shows "\<not> is_ok (decode_spec buf)"
proof
  assume "is_ok (decode_spec buf)"
  then obtain d where "decode_spec buf = Ok d" by (cases "decode_spec buf") auto
  then obtain k r r' where k: "k = (le_word (take 4 (drop 12 buf)) :: u32)"
      and l: "spec_loop (unat k) 0 empty_decoded r = Ok (d, r')" and r: "r = adv 16 (reader_new buf)"
    by (auto simp: decode_spec_Ok_iff spec_header_Ok_iff)
  have "take 4 (drop 12 buf) = put_u32 2" by (simp add: assms(1) MAGIC_def)
  then have two: "unat k = Suc 1" unfolding k le_word_put by simp
  from kern_loop.loop_SucE [OF l [unfolded two]] obtain t pad p where
      u: "unread r = frame (t, pad, p) @ unread (adv (8 + length p) r)"
      and p: "length p < 2 ^ 32" "8 + length p \<le> remaining r" by metis
  have "take 4 (drop 4 (unread r)) = put_u32 (word_of_nat (length p))"
    by (subst u) (simp add: frame_def del: unread_adv)
  moreover have "take 4 (drop 4 (unread r)) = put_u32 0xffffffff"
    using assms(1) r by (simp add: MAGIC_def)
  ultimately have "(word_of_nat (length p) :: u32) = 0xffffffff" by (metis le_word_put(2))
  then have "length p = unat (0xffffffff :: u32)" using p(1) by (metis unat_of_nat_len)
  moreover have "remaining r \<le> K_MAX_SPEC" using assms(2) r
    by (simp add: remaining_def adv_def reader_new_def)
  ultimately show False using p(2) by (simp add: K_MAX_SPEC_def)
qed

lemma all_cases_rejected:
  "list_all (\<lambda>(name, blob). \<not> is_ok (decode_spec blob)) (decode_check_cases (wire 1 check_frames))"
proof -
  let ?b = "wire 1 check_frames"
  let ?f = "(1 :: u16, 0 :: u16, as_bytes ''/bundle/rootfs'')"
  let ?g = "(3 :: u16, 0 :: u16, write_strvec [''/bin/sh''])"
  have ok: "is_ok (decode_spec ?b)" using check_spec_ok(2) by auto
  have magic: "?b[0 := (?b ! 0) XOR 0xff] = 180 # tl ?b" unfolding check_bytes by simp
  have huge: "take 20 ?b @ put_u32 0xffffffff @ drop 24 ?b = MAGIC @ put_u32 1 @ put_u32 1
      @ put_u32 2 @ put_u16 1 @ put_u16 0 @ put_u32 0xffffffff @ drop 24 ?b"
    unfolding check_bytes by (simp add: MAGIC_def as_bytes_def put_bytes)
  have seclen: "unat (le_word (take 4 (drop 20 ?b)) :: u32) = 14" unfolding check_bytes by simp
  have count: "(le_word (take 4 (drop 12 ?b)) :: u32) = 2" unfolding check_bytes by simp
  have dup: "take 12 ?b @ put_u32 (2 + 1) @ drop 16 ?b @ take 22 (drop 16 ?b) = wire 1 [?f, ?g, ?f]"
    unfolding check_bytes
    by (simp add: wire_def MAGIC_def ABI_VERSION_def frame_def write_strvec_def as_bytes_def put_bytes)
  have "\<not> is_ok (decode_spec (wire 1 [?f, ?g, ?f]))"
    by (rule reject_duplicate) (simp_all add: K_MAX_SPEC_def write_strvec_def)
  moreover have "\<not> is_ok (decode_spec (take 20 ?b @ put_u32 0xffffffff @ drop 24 ?b))"
    by (rule reject_huge [OF huge]) (simp add: K_MAX_SPEC_def write_strvec_def)
  moreover have "\<not> is_ok (decode_spec (take 30 ?b))"
    using reject_longer [of "drop 30 ?b" "take 30 ?b"] ok check_spec_ok(3)
    by (auto simp del: length_wire)
  moreover have "\<not> is_ok (decode_spec (?b @ [0]))" using reject_longer ok by simp
  moreover have "decode_check_cases ?b = [(''empty'', []), (''bad-magic'', 180 # tl ?b),
      (''truncated'', take 30 ?b), (''trailing-byte'', ?b @ [0]),
      (''huge-section-len'', take 20 ?b @ put_u32 0xffffffff @ drop 24 ?b),
      (''duplicate-section'', wire 1 [?f, ?g, ?f])]"
    unfolding decode_check_cases_def magic Let_def seclen count dup [symmetric]
    using check_spec_ok(3) by (simp del: length_wire)
  ultimately show ?thesis using reject_empty reject_magic by simp
qed

section \<open>The test passes\<close>

lemma raw_rejected:
  assumes "layout_ok cl K_MAX_SPEC" "length b < 2 ^ 32" "\<not> is_ok (decode_spec b)"
  shows "\<exists>err. dev_create_raw h cl b st = (Err err, st)"
  using assms(3) unfolding dev_create_raw_eq [OF assms(1,2)]
  by (cases "decode_spec b") (simp_all add: create_from_blob_def)

lemma check_blobs_rejected:
  assumes "layout_ok (ho_client e) K_MAX_SPEC"
  shows "list_all (\<lambda>(name, b). length b < 2 ^ 32 \<and> \<not> is_ok (decode_spec b)) cs \<Longrightarrow>
    \<exists>w'. check_blobs e cs n w = (Ok n, w') \<and> w_kernel w' = w_kernel w"
proof (induction cs arbitrary: w)
  case Nil
  then show ?case by (simp add: ret_def)
next
  case (Cons c cs)
  obtain name b where c: "c = (name, b)" by (cases c)
  with Cons.prems obtain err where
      "dev_create_raw (ho_helper e) (ho_client e) b (w_kernel w) = (Err err, w_kernel w)"
    using raw_rejected [OF assms] by fastforce
  moreover obtain w1 where "print_out e (ho_text e (''[decode-check]   '' @ name @ '': rejected (ok)'')) w
      = (Ok (), w1)" "w_kernel w1 = w_kernel w"
    by (simp add: print_out_def proc_simps ret_def)
  ultimately show ?case
    using Cons.IH [of w1] Cons.prems by (auto simp: c proc_simps seq_def [of "print_out e _"])
qed

lemma check_blobs_all:
  assumes "layout_ok (ho_client e) K_MAX_SPEC"
  shows "\<exists>w'. check_blobs e (decode_check_cases (wire 1 check_frames)) n w = (Ok n, w')
    \<and> w_kernel w' = w_kernel w"
proof (rule check_blobs_rejected [OF assms])
  have "list_all (\<lambda>(name, b). length b < 2 ^ 32) (decode_check_cases (wire 1 check_frames))"
    unfolding check_bytes decode_check_cases_def by (simp add: Let_def)
  then show "list_all (\<lambda>(name, b). length b < 2 ^ 32 \<and> \<not> is_ok (decode_spec b))
      (decode_check_cases (wire 1 check_frames))"
    using all_cases_rejected by (auto simp: list_all_iff)
qed

lemma decode_check_same_kernel:
  assumes "layout_ok (ho_client e) K_MAX_SPEC" "do_decode_check e w = (r, w')"
  shows "w_kernel w' = w_kernel w"
  using assms(2) check_blobs_all [OF assms(1), of 0 "w\<lparr>w_log := w_log w @ [Open_device]\<rparr>"]
  by (auto simp: do_decode_check_def open_or_die_def open_device_def seq_assoc proc_simps
      check_spec_ok(1) Let_def seq_def [of "check_blobs e _ _"] print_out_def ret_def
      split: if_splits)

text \<open>
The self-test of the kernel's parser passes. On a machine where the device opens,
\<open>krunc \_\_decode-check\<close> ends without an error and leaves the module's state as it was: the
empty buffer, a wrong magic, a truncated buffer, a trailing byte, a section length of
\<open>u32::MAX\<close> and a repeated section are all rejected by \<open>decode\_spec\<close>, none creates a container.
\<close>

theorem decode_check_passes:
  assumes "layout_ok (ho_client e) K_MAX_SPEC" "\<not> ho_refuses e (w_log w) Open_device"
  shows "\<exists>w'. do_decode_check e w = (Ok (), w') \<and> w_kernel w' = w_kernel w"
proof -
  let ?w = "w\<lparr>w_log := w_log w @ [Open_device]\<rparr>"
  obtain w1 where
      w1: "check_blobs e (decode_check_cases (wire 1 check_frames)) 0 ?w = (Ok 0, w1)"
      "w_kernel w1 = w_kernel w" using check_blobs_all [OF assms(1), of 0 ?w] by auto
  have "do_decode_check e w = print_out e (ho_text e (''[decode-check] all ''
      @ dec_str (int (length (decode_check_cases (wire 1 check_frames))))
      @ '' malformed blobs rejected; kernel decoder is robust'')) w1"
    using assms(2) w1(1)
    by (simp add: do_decode_check_def open_or_die_def open_device_def seq_assoc proc_simps
        check_spec_ok(1) Let_def seq_def [of "check_blobs e _ _"])
  then show ?thesis using w1(2) by (simp add: print_out_def proc_simps ret_def)
qed

end
