(* ===== verification/Cli_Reach.thy ===== *)
theory Cli_Reach
  imports Cli_Store Cli_Selftest
begin

text \<open>
  Machines the tool is used on: \<open>krunc\<close> run with any arguments over one store, next to anything
  else that uses the device or the files, and what holds in every state such a machine reaches.
\<close>

section \<open>run\<close>

lemma block_quiet: "quiet e w (block e ev w)"
  by (simp add: quiet_def block_def file_at_def node_at_def)

lemma wait_reap_quiet: "wait_reap e pid w = Some (r, w') \<Longrightarrow> quiet e w w'"
proof -
  have "\<forall>r w'. y = (r, w') \<longrightarrow> quiet e w w'" if "wait_reap e pid w = Some y" for y
    using that
  proof (rule wait_reap.raw_induct [rotated])
    fix f :: "('a, 'b) host \<Rightarrow> int \<Rightarrow> ('a, 'b) world \<Rightarrow> (i32 option \<times> ('a, 'b) world) option"
      and e :: "('a, 'b) host" and pid w y
    assume ih: "\<And>e pid w y. f e pid w = Some y \<Longrightarrow> \<forall>r w'. y = (r, w') \<longrightarrow> quiet e w w'"
      and body: "(case ho_waitpid e (w_log w) pid of
        Reaped status \<Rightarrow> Some (Some status, block e (Waitpid pid) w)
      | Interrupted \<Rightarrow> f e pid (block e (Waitpid pid) w)
      | Wait_failed \<Rightarrow> Some (None, block e (Waitpid pid) w)) = Some y"
    then show "\<forall>r w'. y = (r, w') \<longrightarrow> quiet e w w'"
      using block_quiet [of e w "Waitpid pid"]
      by (auto split: wait_result.splits dest!: ih intro: quiet_trans)
  qed
  then show "wait_reap e pid w = Some (r, w') \<Longrightarrow> quiet e w w'" by blast
qed

lemma state_poll_quiet:
  assumes "layout_ok (ho_client e) n"
  shows "quiet e w (w\<lparr>w_kernel := snd (dev_state (ho_helper e) (ho_client e) kid (w_kernel w))\<rparr>)"
proof -
  have "device (dev_state (ho_helper e) (ho_client e) kid) w
      = (Ok (fst (dev_state (ho_helper e) (ho_client e) kid (w_kernel w))),
         w\<lparr>w_kernel := snd (dev_state (ho_helper e) (ho_client e) kid (w_kernel w))\<rparr>)" by simp
  from keepsD [OF qt_device(2) [OF assms] this] show ?thesis .
qed

lemma wait_stopped_quiet:
  assumes "layout_ok (ho_client e) n"
  shows "wait_stopped e kid w = Some w' \<Longrightarrow> quiet e w w'"
proof -
  have "layout_ok (ho_client e) n \<longrightarrow> quiet e w w'" if "wait_stopped e kid w = Some w'"
    using that
  proof (rule wait_stopped.raw_induct [rotated])
    fix f :: "('a, 'b) host \<Rightarrow> u64 \<Rightarrow> ('a, 'b) world \<Rightarrow> ('a, 'b) world option"
      and e :: "('a, 'b) host" and kid w w'
    assume ih: "\<And>e kid w w'. f e kid w = Some w' \<Longrightarrow> layout_ok (ho_client e) n \<longrightarrow> quiet e w w'"
      and body: "(let (r, k) = dev_state (ho_helper e) (ho_client e) kid (w_kernel w); w = w\<lparr>w_kernel := k\<rparr>
        in case r of Err _ \<Rightarrow> Some w
          | Ok a \<Rightarrow> if fst a = Stopped then Some w else f e kid (block e Sleep w)) = Some w'"
    show "layout_ok (ho_client e) n \<longrightarrow> quiet e w w'"
    proof
      assume lay: "layout_ok (ho_client e) n"
      let ?w1 = "w\<lparr>w_kernel := snd (dev_state (ho_helper e) (ho_client e) kid (w_kernel w))\<rparr>"
      have "quiet e w ?w1" by (rule state_poll_quiet [OF lay])
      moreover have "quiet e ?w1 w'"
        using body ih lay quiet_trans [OF block_quiet [of e ?w1 Sleep]] qt.order_refl
        by (auto simp: Let_def split_def split: sum.splits if_splits)
      ultimately show "quiet e w w'" by (rule quiet_trans)
    qed
  qed
  then show "wait_stopped e kid w = Some w' \<Longrightarrow> quiet e w w'" using assms by blast
qed

lemma wait_quiet:
  assumes "layout_ok (ho_client e) n" "wait_for_exit e pid kid w = Some (code, w')"
  shows "quiet e w w'"
  using assms(2) wait_reap_quiet [of e pid w] wait_stopped_quiet [OF assms(1), of kid]
  by (auto simp: wait_for_exit_def split: option.splits) (metis quiet_trans)

lemma cleanup_quiet:
  assumes "layout_ok (ho_client e) n"
  shows "keeps (quiet e) (run_cleanup e root st tmp keep)"
  unfolding run_cleanup_def by (intro qt.keeps_all qt.keeps_parts qt_drop [OF assms])

lemma begin_inv:
  assumes "store_root rp" "serde_ok e" "layout_ok (ho_client e) K_MAX_SPEC" "plain cid"
    and "store_inv e rp own w" "ready own w"
    and "run_begin e (render_path rp) flags cid bundle w = (r, w')"
  shows "store_inv e rp own w'"
proof -
  note lay = assms(3)
  have run: "seq (create_from_bundle e (render_path rp) flags cid bundle) (\<lambda>st.
     seq (seq (open_or_die e ''open: '') (\<lambda>_.
     seq (device (dev_start (ho_helper e) (ho_client e) (sd_krunc_id st))) (\<lambda>r.
     or_die ''start: '' (ok_result r)))) (\<lambda>_.
     seq (save_state e (render_path rp) (st\<lparr>sd_status := ''running''\<rparr>)) (\<lambda>_.
     ret (st\<lparr>sd_status := ''running''\<rparr>)))) w = (r, w')"
    using assms(7) by (simp add: run_begin_def seq_assoc Let_def)
  from run show ?thesis
  proof (cases rule: seqE)
    case halt
    then show ?thesis using create_inv [OF assms(1-6)] by blast
  next
    case (go st w1)
    then have st: "store_inv e rp own w1" "sd_id st = cid" "alone e rp own w1 cid (sd_krunc_id st)"
        "sd_krunc_id st < ks_next_id (w_kernel w1)" "wf_state st"
      using create_inv [OF assms(1-6)] by blast+
    have dev: "keeps (quiet e) (seq (open_or_die e ''open: '') (\<lambda>_.
     seq (device (dev_start (ho_helper e) (ho_client e) (sd_krunc_id st))) (\<lambda>r.
     or_die ''start: '' (ok_result r))))"
      by (intro qt.keeps_all qt_device [OF lay])
    from go(2) show ?thesis
    proof (cases rule: seqE)
      case halt
      then show ?thesis using quiet_inv [OF keepsD [OF dev] st(1)] by blast
    next
      case (go u w2)
      from go(2) obtain v where "save_state e (render_path rp) (st\<lparr>sd_status := ''running''\<rparr>) w2 = (v, w')"
        by (auto simp: seq_result)
      then show ?thesis
        using resave_inv [OF assms(1,2,4) st(1) keepsD [OF dev go(1)], of "st\<lparr>sd_status := ''running''\<rparr>"] st wf_running
        by simp
    qed
  qed
qed

lemma lifecycle_inv:
  assumes "store_root rp" "serde_ok e" "layout_ok (ho_client e) K_MAX_SPEC" "plain cid"
    and "store_inv e rp own w" "ready own w"
    and "run_lifecycle e (render_path rp) flags cid bundle tmp keep w = Some (r, w')"
  shows "store_inv e rp own w'"
proof -
  obtain b w1 where b: "run_begin e (render_path rp) flags cid bundle w = (b, w1)" by fastforce
  note inv1 = begin_inv [OF assms(1-6) b]
  show ?thesis
  proof (cases b)
    case (Inl x)
    then show ?thesis using assms(7) b inv1 by (simp add: run_lifecycle_def)
  next
    case (Inr st)
    then obtain code w2 where wt: "wait_for_exit e (sd_pid st) (sd_krunc_id st) w1 = Some (code, w2)"
      and fin: "seq (run_cleanup e (render_path rp) st tmp keep) (\<lambda>_. exit_with code) w2 = (r, w')"
      using assms(7) b by (auto simp: run_lifecycle_def split: option.splits)
    have k: "keeps (quiet e) (seq (run_cleanup e (render_path rp) st tmp keep) (\<lambda>_. exit_with code))"
      by (intro qt.keeps_all cleanup_quiet [OF assms(3)])
    show ?thesis
      using quiet_inv [OF quiet_trans [OF wait_quiet [OF assms(3) wt] keepsD [OF k fin]] inv1] .
  qed
qed

lemma same_kernel_ready: "keeps same_kernel m \<Longrightarrow> m w = (r, w') \<Longrightarrow> ready own w \<Longrightarrow> ready own w'"
  by (metis same_kernelD ready_def)

lemma pty_inv:
  assumes "store_root rp" "serde_ok e" "layout_ok (ho_client e) K_MAX_SPEC" "plain cid"
    and "store_inv e rp own w" "ready own w"
    and "run_lifecycle_pty e (render_path rp) flags cid bundle tmp keep w = Some (r, w')"
  shows "store_inv e rp own w'"
proof -
  have ev: "store_inv e rp own (v\<lparr>w_log := l\<rparr>)" "ready own (v\<lparr>w_log := l\<rparr>)"
    if "store_inv e rp own v" "ready own v" for v l
    using that by (simp_all add: store_inv_def ready_def)
  note step = lifecycle_inv [OF assms(1-4) ev(1) [OF assms(5,6)] ev(2) [OF assms(5,6)]]
  show ?thesis
    using assms(7) ev(1) [OF assms(5,6)]
    by (auto dest: step simp: run_lifecycle_pty_def seq_perform exit_with_def ret_def die_def split: if_splits option.splits)
qed

lemma bundle_inv:
  assumes "store_inv e rp own w" "ready own w"
  shows "bundle_path e flags w = (r, w') \<Longrightarrow> store_inv e rp own w' \<and> ready own w'"
    "synth_bundle e flags args w = (s, w') \<Longrightarrow> store_inv e rp own w' \<and> ready own w'"
proof -
  have tgt: "keeps (quiet e) (run_target e flags args)"
    "keeps same_kernel (run_target e flags args)"
    unfolding run_target_def canon_dir_def image_dir_def first_arg_def
    by (intro qt.keeps_all, intro sk.keeps_all)
  have synth: "keeps (quiet e) (synth_bundle e flags args)"
    unfolding synth_bundle_def Let_def by (intro qt.keeps_all tgt qt.keeps_named) (simp_all add: plain_def)
  have synth_k: "keeps same_kernel (synth_bundle e flags args)"
    unfolding synth_bundle_def Let_def by (intro sk.keeps_all tgt sk_write)
  show "bundle_path e flags w = (r, w') \<Longrightarrow> store_inv e rp own w' \<and> ready own w'"
    using quiet_inv [OF keepsD [OF qt.keeps_bundle_path] assms(1)]
      same_kernel_ready [OF sk.keeps_bundle_path] assms(2) by blast
  show "synth_bundle e flags args w = (s, w') \<Longrightarrow> store_inv e rp own w' \<and> ready own w'"
    using quiet_inv [OF keepsD [OF synth] assms(1)] same_kernel_ready [OF synth_k] assms(2) by blast
qed

section \<open>main\<close>

text \<open>A command line whose ids, given on it or generated, are plain file names.\<close>

definition plain_use :: "(string \<rightharpoonup> string) \<Rightarrow> string list \<Rightarrow> bool" where
  "plain_use flags pos \<longleftrightarrow>
     (case pos of
        [] \<Rightarrow> True
      | cmd # args \<Rightarrow>
          if cmd = ''run'' \<and> flags ''--bundle'' = None
          then (case flags ''--name'' of Some n \<Rightarrow> plain n | None \<Rightarrow> True)
          else args = [] \<or> plain (hd args))"

lemma gen_id_plain: "plain (gen_id e)"
proof -
  have "CHR ''/'' \<noteq> hex_digit d" for d
  proof -
    have "d mod 16 < 16" by simp
    then have "hex_digit d \<in> set ''0123456789abcdef''" unfolding hex_digit_def by (intro nth_mem) simp
    then show ?thesis by auto
  qed
  then show ?thesis by (auto simp: plain_def gen_id_def hex8_def)
qed

lemma selftest_quiet:
  assumes "layout_ok (ho_client e) K_MAX_SPEC"
  shows "keeps (quiet e) (do_decode_check e)"
proof (rule keepsI)
  fix w r w' assume run: "do_decode_check e w = (r, w')"
  have files: "keeps (\<lambda>v v'. w_files v' = w_files v) (check_blobs e cs n)" for cs n
  proof (induction cs arbitrary: n)
    case (Cons c cs)
    show ?case
    proof (rule keepsI)
      fix v x v' assume "check_blobs e (c # cs) n v = (x, v')"
      then show "w_files v' = w_files v"
        by (cases c) (auto simp: seq_result print_out_def drop_container_def
            dest!: keepsD [OF Cons.IH] split: sum.splits)
    qed
  qed (simp add: keeps_def ret_def)
  have "w_files w' = w_files w"
    using run keepsD [OF files]
    by (auto simp: do_decode_check_def open_or_die_def open_device_def print_out_def seq_result
        exit_with_def Let_def split: sum.splits if_splits dest!: or_die_world)
  moreover have "w_kernel w' = w_kernel w"
    using decode_check_same_kernel [OF assms run] .
  ultimately show "quiet e w w'" by (intro quietI) (simp_all add: file_at_def node_at_def)
qed

lemma do_create_inv:
  assumes "store_root rp" "serde_ok e" "layout_ok (ho_client e) K_MAX_SPEC" "args = [] \<or> plain (hd args)"
    and "store_inv e rp own w" "ready own w"
    and "do_create e (render_path rp) flags args w = (r, w')"
  shows "store_inv e rp own w'"
proof (cases args)
  case Nil
  then show ?thesis using assms(5,7) by (simp add: do_create_def first_arg_def seq_or_die)
next
  case (Cons cid rest)
  with assms(7) have run: "seq (bundle_path e flags) (\<lambda>bundle.
     seq (create_from_bundle e (render_path rp) flags cid bundle) (\<lambda>_. ret ())) w = (r, w')"
    by (simp add: do_create_def first_arg_def seq_or_die)
  from run show ?thesis
  proof (cases rule: seqE)
    case halt
    then show ?thesis using bundle_inv(1) [OF assms(5,6)] by blast
  next
    case (go b w1)
    from go(2) obtain v where "create_from_bundle e (render_path rp) flags cid b w1 = (v, w')"
      by (auto simp: seq_result)
    then show ?thesis
      using create_inv [OF assms(1-3)] bundle_inv(1) [OF assms(5,6) go(1)] assms(4) Cons by auto
  qed
qed

lemma do_run_inv:
  assumes "store_root rp" "serde_ok e" "layout_ok (ho_client e) K_MAX_SPEC"
    and "plain_use flags (''run'' # args)" "store_inv e rp own w" "ready own w"
    and "do_run e (render_path rp) flags args w = Some (r, w')"
  shows "store_inv e rp own w'"
proof (cases "flags ''--bundle''")
  case (Some b)
  let ?cid = "case args of a # _ \<Rightarrow> a | [] \<Rightarrow> gen_id e"
  have cid: "plain ?cid" using assms(4) Some gen_id_plain by (cases args) (auto simp: plain_use_def)
  obtain m w1 where m: "bundle_path e flags w = (m, w1)" by fastforce
  note inv1 = bundle_inv(1) [OF assms(5,6) m]
  show ?thesis
  proof (cases m)
    case (Inl x)
    then show ?thesis using assms(7) m Some inv1 by (simp add: do_run_def)
  next
    case (Inr bd)
    then have "run_lifecycle e (render_path rp) flags ?cid bd None (flags ''--keep'' \<noteq> None) w1 = Some (r, w')"
      using assms(7) m Some by (simp add: do_run_def)
    then show ?thesis using lifecycle_inv [OF assms(1-3) cid] inv1 by blast
  qed
next
  case None
  obtain m w1 where m: "synth_bundle e flags args w = (m, w1)" by fastforce
  note inv1 = bundle_inv(2) [OF assms(5,6) m]
  show ?thesis
  proof (cases m)
    case (Inl x)
    then show ?thesis using assms(7) m None inv1 by (simp add: do_run_def Let_def)
  next
    case (Inr ct)
    obtain cid tmp where ct: "ct = (cid, tmp)" by (cases ct)
    have "cid = (case flags ''--name'' of Some n \<Rightarrow> n | None \<Rightarrow> gen_id e)"
      using m Inr ct by (auto simp: synth_bundle_def Let_def elim!: seq_OkE)
    then have "plain cid" using assms(4) None gen_id_plain by (simp add: plain_use_def split: option.splits)
    note invs = lifecycle_inv [OF assms(1-3) this] pty_inv [OF assms(1-3) this]
    let ?keep = "flags ''--keep'' \<noteq> None"
    have "run_lifecycle e (render_path rp) flags cid tmp (Some tmp) ?keep w1 = Some (r, w')
        \<or> run_lifecycle_pty e (render_path rp) flags cid tmp (Some tmp) ?keep w1 = Some (r, w')"
      using assms(7) m None Inr ct by (simp add: do_run_def Let_def split: if_splits)
    then show ?thesis using invs inv1 by blast
  qed
qed

lemma main_inv:
  assumes "store_root rp" "serde_ok e" "layout_ok (ho_client e) K_MAX_SPEC"
    and "parse_args argv = (flags, pos)" "root_flag flags = render_path rp" "plain_use flags pos"
    and "store_inv e rp own w" "ready own w"
    and "krunc_main e argv w = Some (r, w')"
  shows "store_inv e rp own w'"
proof -
  have still: "store_inv e rp own w'" if "keeps (quiet e) (m :: ('a, 'b, unit) proc)" "m w = (r, w')" for m
    using quiet_inv [OF keepsD [OF that] assms(7)] .
  have print: "keeps (quiet e) (print_out e b)" "keeps (quiet e) (print_version e)" for b
    unfolding print_version_def by (intro qt.keeps_all)+
  show ?thesis
  proof (cases "flags ''--version'' \<noteq> None \<or> pos \<noteq> [] \<and> hd pos = ''version''")
    case True
    then show ?thesis using assms(4,9) still [OF print(2)] by (simp add: krunc_main_def)
  next
    case False
    show ?thesis
    proof (cases pos)
      case Nil
      then show ?thesis using assms(4,9) False still [OF qt.keeps_pure(2)] by (simp add: krunc_main_def)
    next
      case (Cons cmd args)
      have cid: "args = [] \<or> plain (hd args)" if "cmd \<noteq> ''run''"
        using assms(6) Cons that by (simp add: plain_use_def)
      have run: "run_command e (render_path rp) flags cmd args w = Some (r, w')"
        using assms(9) False Cons by (simp add: krunc_main_def assms(4,5))
      consider "cmd = ''create''" | "cmd = ''run''" | "cmd = ''start''" | "cmd = ''state''"
        | "cmd \<notin> {''create'', ''run'', ''start'', ''state''}" by blast
      then show ?thesis
      proof cases
        case 1
        then show ?thesis using run do_create_inv [OF assms(1-3) cid assms(7,8)] by (simp add: run_command_def)
      next
        case 2
        then show ?thesis
          using run do_run_inv [OF assms(1-3) _ assms(7,8)] assms(6) Cons by (simp add: run_command_def)
      next
        case 3
        then show ?thesis using run start_inv [OF assms(1-3) _ assms(7)] cid assms(7)
          by (cases args) (auto simp: run_command_def do_start_def first_arg_def seq_or_die)
      next
        case 4
        then show ?thesis using run state_inv [OF assms(1-3) _ assms(7)] cid assms(7)
          by (cases args) (auto simp: run_command_def do_state_def first_arg_def seq_or_die)
      next
        case 5
        then show ?thesis
          using run still [OF kill_quiet [OF assms(3)]] still [OF delete_quiet [OF assms(3)]]
            still [OF list_quiet] still [OF print(1)] still [OF selftest_quiet [OF assms(3)]]
            still [OF qt.keeps_pure(2)]
          by (auto simp: run_command_def split: if_splits)
      qed
    qed
  qed
qed

section \<open>Reachable machines\<close>

text \<open>
  One step: a run of \<open>krunc\<close> over the store, by a process with an environment of its own; a request
  to the device by anybody; or any change to the files that leaves no new state in the store.
\<close>

inductive cli_step :: "('b \<Rightarrow> state_file option) \<Rightarrow> path \<Rightarrow> ('os, 'b) world \<Rightarrow> ('os, 'b) world \<Rightarrow> bool"
  for from_json :: "'b \<Rightarrow> state_file option" and rp :: path where
  krunc: "ho_from_json e = from_json \<Longrightarrow> serde_ok e \<Longrightarrow> layout_ok (ho_client e) K_MAX_SPEC \<Longrightarrow>
    parse_args argv = (flags, pos) \<Longrightarrow> root_flag flags = render_path rp \<Longrightarrow> plain_use flags pos \<Longrightarrow>
    room (w_kernel w) \<Longrightarrow> krunc_main e argv w = Some (r, w') \<Longrightarrow> cli_step from_json rp w w'"
| request: "room (w_kernel w) \<Longrightarrow>
    cli_step from_json rp w (w\<lparr>w_kernel := apply_op h op (w_kernel w)\<rparr>)"
| files: "w_kernel w' = w_kernel w \<Longrightarrow>
    (\<And>q. last q = ''state.json'' \<Longrightarrow> file_at w' q = file_at w q \<or> file_at w' q = None) \<Longrightarrow>
    cli_step from_json rp w w'"

inductive cli_reachable :: "('b \<Rightarrow> state_file option) \<Rightarrow> path \<Rightarrow> ('os, 'b) world \<Rightarrow> bool"
  for from_json :: "'b \<Rightarrow> state_file option" and rp :: path where
  fresh: "reg_inv (w_kernel w) \<Longrightarrow> (\<And>c b. file_at w (state_key rp c) = Some b \<Longrightarrow> from_json b = None) \<Longrightarrow>
    cli_reachable from_json rp w"
| step: "cli_reachable from_json rp w \<Longrightarrow> cli_step from_json rp w w' \<Longrightarrow> cli_reachable from_json rp w'"

lemma recorded_json: "ho_from_json e = from_json \<Longrightarrow>
    recorded e w rp c = Option.bind (file_at w (state_key rp c)) from_json"
  by (simp add: recorded_def)

lemma store_inv_json: "ho_from_json e = ho_from_json e' \<Longrightarrow> store_inv e rp own w = store_inv e' rp own w"
  by (simp add: store_inv_def recorded_def)

lemma step_store_inv:
  assumes "cli_step from_json rp w w'" "store_root rp" "ho_from_json e = from_json"
    and "store_inv e rp own w" "\<And>c. own c (ks_next_id (w_kernel w))"
  shows "store_inv e rp own w'"
  using assms(1)
proof cases
  case (krunc e' argv flags pos r)
  have "store_inv e' rp own w" using assms(3,4) store_inv_json [of e e'] krunc(1) by simp
  moreover have "ready own w" using krunc(7) assms(5) by (simp add: ready_def)
  ultimately show ?thesis
    using main_inv [OF assms(2) krunc(2-6) _ _ krunc(8)] store_inv_json [of e e'] krunc(1) assms(3)
    by simp
next
  case (request h op)
  have inv: "reg_inv (apply_op h op (w_kernel w))"
    by (rule reg_inv_op [OF _ request(2)]) (use assms(4) in \<open>simp add: store_inv_def\<close>)
  have "x < ks_next_id (w_kernel w) \<Longrightarrow> x < ks_next_id (apply_op h op (w_kernel w))" for x
    using next_id_op [OF request(2), of h op] next_id_grows [OF request(2)] by (auto intro: less_trans)
  then show ?thesis using assms(4) inv unfolding request(1) store_inv_def by simp
next
  case files
  then have "quiet e w w'" by (intro quietI) auto
  then show ?thesis using assms(4) by (rule quiet_inv)
qed

text \<open>The invariant with no word on the ids, and with a word on them that holds of every state.\<close>

abbreviation any_id :: "string \<Rightarrow> u64 \<Rightarrow> bool" where
  "any_id \<equiv> (\<lambda>_ _. True)"

lemma store_inv_own:
  assumes "store_inv e rp any_id w"
    and "\<And>c s. plain c \<Longrightarrow> recorded e w rp c = Some s \<Longrightarrow> own c (sd_krunc_id s)"
  shows "store_inv e rp own w"
  using assms unfolding store_inv_def by simp

lemma reachable_store_inv:
  assumes "cli_reachable from_json rp w" "store_root rp" "ho_from_json e = from_json"
  shows "store_inv e rp any_id w"
  using assms(1)
proof induction
  case (fresh w)
  then have "recorded e w rp c = None" for c
    by (cases "file_at w (state_key rp c)") (auto simp: recorded_json [OF assms(3)])
  then show ?case using fresh(1) by (simp add: store_inv_def)
next
  case (step w w')
  show ?case using step_store_inv [OF step.hyps(2) assms(2,3) step.IH] by simp
qed

text \<open>
C16 (a state file names the container it was made with). On any machine reached by runs of
\<open>krunc\<close> over one store with plain ids, with whatever arguments, failing calls and torn writes,
mixed with requests of others to the device, and after any further step: a state file that can
be read carries the id it is stored under; the kernel id in it is the one that was in it before
the step, or the very id that the module was about to hand out, so that a create records the id
of the container it made and nothing changes a recorded one into another; and two state files
never carry one kernel id, so a command on one container is never sent to the other.
\<close>

theorem store_names_its_own:
  fixes w :: "('os, 'b) world"
  assumes "cli_reachable from_json rp w" "store_root rp" "cli_step from_json rp w w'"
    and "plain c" "file_at w' (state_key rp c) = Some b" "from_json b = Some s"
  shows "sd_id s = c \<and> sd_krunc_id s < ks_next_id (w_kernel w')
    \<and> ((\<exists>b0 s0. file_at w (state_key rp c) = Some b0 \<and> from_json b0 = Some s0
          \<and> sd_krunc_id s0 = sd_krunc_id s)
        \<or> sd_krunc_id s = ks_next_id (w_kernel w))
    \<and> (\<forall>c' b' s'. plain c' \<and> c' \<noteq> c \<and> file_at w' (state_key rp c') = Some b'
          \<and> from_json b' = Some s' \<longrightarrow> sd_krunc_id s' \<noteq> sd_krunc_id s)"
proof -
  obtain e :: "('os, 'b) host" where e: "ho_from_json e = from_json"
    by (metis host.select_convs(8))
  define own where "own c k \<longleftrightarrow> (\<exists>s0. recorded e w rp c = Some s0 \<and> sd_krunc_id s0 = k)
      \<or> k = ks_next_id (w_kernel w)" for c k
  have "store_inv e rp own w"
    using reachable_store_inv [OF assms(1,2) e] by (rule store_inv_own) (auto simp: own_def)
  then have inv: "store_inv e rp own w'"
    by (rule step_store_inv [OF assms(3,2) e]) (simp add: own_def)
  have s: "recorded e w' rp c = Some s" using assms(5,6) by (simp add: recorded_json [OF e])
  then have "sd_id s = c \<and> sd_krunc_id s < ks_next_id (w_kernel w') \<and> own c (sd_krunc_id s)"
    using inv assms(4) unfolding store_inv_def by blast
  moreover have "sd_krunc_id s' \<noteq> sd_krunc_id s"
    if "plain c'" "c' \<noteq> c" "file_at w' (state_key rp c') = Some b'" "from_json b' = Some s'"
    for c' b' s'
  proof -
    have "recorded e w' rp c' = Some s'" using that(3,4) by (simp add: recorded_json [OF e])
    then show ?thesis using inv s that(1,2) assms(4) unfolding store_inv_def by metis
  qed
  moreover have "own c k \<Longrightarrow> (\<exists>b0 s0. file_at w (state_key rp c) = Some b0 \<and> from_json b0 = Some s0
      \<and> sd_krunc_id s0 = k) \<or> k = ks_next_id (w_kernel w)" for k
    by (auto simp: own_def recorded_json [OF e] split: Option.bind_splits)
  ultimately show ?thesis by blast
qed

text \<open>
C25 (state files are well typed). On such a machine every state file that can be read is a state of
the type the tool promises: version \<open>1.0.2-dev\<close>, a status of the three, a pid that fits an \<open>i32\<close>,
no annotations but those of an exit status, and a guard only next to a cgroup, so that \<open>delete\<close>
always knows from which cgroup to take the guard.
\<close>

theorem state_files_well_typed:
  fixes w :: "('os, 'b) world"
  assumes "cli_reachable from_json rp w" "store_root rp" "plain c"
    and "file_at w (state_key rp c) = Some b" "from_json b = Some s"
  shows "wf_state s"
proof -
  obtain e :: "('os, 'b) host" where e: "ho_from_json e = from_json"
    by (metis host.select_convs(8))
  have "recorded e w rp c = Some s" using assms(4,5) by (simp add: recorded_json [OF e])
  then show ?thesis
    using reachable_store_inv [OF assms(1,2) e] assms(3) unfolding store_inv_def by blast
qed

end
