(* ===== verification/Cli_Separate.thy ===== *)
theory Cli_Separate
  imports Cli_Reach
begin

text \<open>
  What a command on one container leaves of the others: their entries in the module's registry and
  their state files. The relation \<open>beside\<close> is between machines that differ only in the entry of
  one id and in files other than one; what each command does after it loaded its state keeps it.
\<close>

section \<open>The entries of other containers\<close>

definition others :: "u64 \<Rightarrow> 'os kstate \<Rightarrow> container list" where
  "others i st = filter (\<lambda>c. ct_id c \<noteq> i) (ks_registry st)"

lemma others_set_gate [simp]: "others i (set_gate g v st) = others i st"
  by (simp add: others_def set_gate_def split: option.split)

lemma others_os [simp]: "others i (st\<lparr>ks_os := x\<rparr>) = others i st"
  by (simp add: others_def)

lemma find_id_at: "find_id i xs = Some n \<Longrightarrow> n < length xs \<and> ct_id (xs ! n) = i"
  unfolding find_id_def by (induction xs arbitrary: n) (auto split: if_splits)

lemma filter_change:
  assumes "n < length xs" "\<not> P (xs ! n)"
  shows "\<not> P x \<Longrightarrow> filter P (xs[n := x]) = filter P xs" "filter P (remove_nth n xs) = filter P xs"
proof -
  have xs: "filter P xs = filter P (take n xs) @ filter P (drop (Suc n) xs)"
    using assms by (subst id_take_nth_drop [OF assms(1)]) simp
  show "filter P (remove_nth n xs) = filter P xs" unfolding xs by (simp add: remove_nth_def)
  show "\<not> P x \<Longrightarrow> filter P (xs[n := x]) = filter P xs"
    unfolding xs by (simp add: upd_conv_take_nth_drop [OF assms(1)])
qed

lemma others_requests:
  "others i (snd (start_container i st)) = others i st"
  "others i (snd (container_state h i st)) = others i st"
  "others i (snd (kill_container h i sig st)) = others i st"
  "others i (snd (delete_container h i st)) = others i st"
proof -
  show "others i (snd (kill_container h i sig st)) = others i st"
    by (simp add: kill_container_def Let_def split_def split: option.split)
  show "others i (snd (start_container i st)) = others i st"
    by (auto simp: start_container_def Let_def others_def set_gate_def filter_change(1) dest: find_id_at
        split: option.split)
  show "others i (snd (delete_container h i st)) = others i st"
    by (auto simp: delete_container_def Let_def split_def others_def set_gate_def filter_change(2)
        dest: find_id_at split: option.split)
  show "others i (snd (container_state h i st)) = others i st"
    by (auto simp: container_state_def Let_def split_def others_def filter_change(1) dest: find_id_at
        split: option.split)
qed

section \<open>Machines that agree beside one container\<close>

definition beside :: "u64 \<Rightarrow> path \<Rightarrow> ('os, 'b) world \<Rightarrow> ('os, 'b) world \<Rightarrow> bool" where
  "beside i q w w' \<longleftrightarrow> others i (w_kernel w') = others i (w_kernel w) \<and> file_at w' q = file_at w q"

interpretation bs: file_order "beside i q" "\<lambda>_. True" "\<lambda>p. p \<noteq> q" for i :: u64 and q :: path
proof unfold_locales
  fix w :: "('os, 'b) world" and p :: path and b :: 'b
  show "beside i q w (put_node p Dir w)" if "node_at w p = None"
  proof -
    have "p \<noteq> []" using that by (auto simp: node_at_def)
    then show ?thesis using that by (auto simp: beside_def file_at_def node_at_put_node)
  qed
  show "beside i q w (put_node p (File b) w)" if "p \<noteq> q" "node_at w p \<noteq> Some Dir"
  proof -
    have "p \<noteq> []" using that(2) by (auto simp: node_at_def)
    then show ?thesis using that(1) by (auto simp: beside_def file_at_def node_at_put_node)
  qed
qed (simp_all add: beside_def)

lemma bs_device:
  assumes "layout_ok (ho_client e) n"
  shows "keeps (beside i q) (device (dev_start (ho_helper e) (ho_client e) i))"
    "keeps (beside i q) (device (dev_state (ho_helper e) (ho_client e) i))"
    "keeps (beside i q) (device (dev_kill (ho_helper e) (ho_client e) i sig))"
    "keeps (beside i q) (device (dev_delete (ho_helper e) (ho_client e) i))"
  unfolding dev_start_eq [OF assms, abs_def] dev_state_eq [OF assms, abs_def]
    dev_kill_eq [OF assms, abs_def] dev_delete_eq [OF assms, abs_def]
  by (auto intro!: keepsI simp: beside_def others_requests Let_def split_def)

lemma bs_make_dirs: "keeps (beside i q) (create_dir_all e s)"
  unfolding create_dir_all_def by (rule bs.keeps_make_dirs) simp_all

lemma bs_remove_dir: "keeps (beside i q) (remove_dir e s)"
proof (rule keepsI)
  fix w r w' assume "remove_dir e s w = (r, w')"
  moreover have "file_at (w\<lparr>w_log := l, w_files := filter (\<lambda>(q, _). q \<noteq> p) (w_files w)\<rparr>) q = file_at w q"
    if "is_dir w p" "p \<noteq> []" for p l
    using that by (auto simp: file_at_def node_at_def is_dir_def map_of_filter_key [of "\<lambda>q. q \<noteq> p"]
        split: option.splits node.splits)
  ultimately show "beside i q w w'"
    by (auto simp: remove_dir_def seq_perform beside_def split: option.splits if_splits)
qed

lemma bs_remove_dir_all:
  assumes "\<And>w p. resolve e w s = Some p \<Longrightarrow> \<not> below p q"
  shows "keeps (beside i q) (remove_dir_all e s)"
proof (rule keepsI)
  fix w r w' assume "remove_dir_all e s w = (r, w')"
  moreover have "file_at (w\<lparr>w_log := l, w_files := filter (\<lambda>(q, _). keep q) (w_files w)\<rparr>) q = file_at w q"
    if "keep q" for keep l
    using that by (simp add: file_at_def node_at_def map_of_filter_key)
  ultimately show "beside i q w w'"
    using assms by (auto simp: remove_dir_all_def seq_perform beside_def Let_def split: option.splits if_splits)
qed

lemmas bs_all = bs.keeps_control bs.keeps_perform [OF TrueI] bs.keeps_read [OF TrueI]
  bs.keeps_read_dir [OF TrueI] bs.keeps_simple_calls [OF TrueI] bs_make_dirs bs_remove_dir

lemma bs_load: "keeps (beside i q) (load_state e root cid)"
  unfolding load_state_def by (intro bs_all)

lemma bs_save:
  assumes "store_root rp" "plain (sd_id st)" "state_key rp (sd_id st) \<noteq> q"
  shows "keeps (beside i q) (save_state e (render_path rp) st)"
  unfolding save_state_def
  by (intro bs_all bs.keeps_write) (use resolve_state [OF assms(1,2)] assms(3) in blast)

lemma resolve_state_dir:
  assumes "store_root rp" "plain cid" "resolve e w (state_dir (render_path rp) cid) = Some p"
  shows "p = rp @ [cid]"
proof -
  have "\<not> is_absolute cid" using assms(2) by (cases cid) (auto simp: plain_def is_absolute_def)
  then have d: "state_dir (render_path rp) cid = render_path rp @ CHR ''/'' # cid"
    using render_props [OF assms(1)] by (simp add: state_dir_def path_join_def)
  have "split_slash (state_dir (render_path rp) cid) = [] # rp @ [cid]"
    unfolding d using assms(1,2) split_render [of rp cid]
    by (simp add: store_root_def render_path_def split_slash_plain plain_def)
  moreover have "is_absolute (state_dir (render_path rp) cid)"
    using render_props [OF assms(1)] unfolding d by (simp add: is_absolute_def)
  ultimately have "walk (searchable w) [] ([] # rp @ [cid]) = Some p"
    using assms(3) unfolding resolve_def start_dir_def by (simp split: if_splits)
  moreover have "list_all plain (rp @ [cid])" using assms(1,2) by (simp add: store_root_def)
  ultimately show ?thesis using walk_plain [of "rp @ [cid]" "searchable w" "[]" p] by (simp split: if_splits)
qed

section \<open>The commands on one container\<close>

text \<open>What a command does once it has loaded the state of its container.\<close>

lemma commands_beside:
  assumes "store_root rp" "layout_ok (ho_client e) n" "plain cid" "plain c'" "c' \<noteq> cid"
    and "sd_id st = cid" "q = state_key rp c'"
  shows "keeps (beside (sd_krunc_id st) q) (seq (open_or_die e ''open: '') (\<lambda>_.
       seq (device (dev_start (ho_helper e) (ho_client e) (sd_krunc_id st))) (\<lambda>r.
       seq (or_die ''start: '' (ok_result r)) (\<lambda>_.
       save_state e (render_path rp) (st\<lparr>sd_status := ''running''\<rparr>)))))"
    and "keeps (beside (sd_krunc_id st) q) (seq (open_or_die e ''open: '') (\<lambda>_.
     seq (device (dev_state (ho_helper e) (ho_client e) (sd_krunc_id st))) (\<lambda>r.
     seq (case r of
            Ok (s, pid, exit_status) \<Rightarrow>
              (let st = observed s pid exit_status st in
               seq (save_state e (render_path rp) st) (\<lambda>_. ret st))
          | Err _ \<Rightarrow> ret st) (\<lambda>st.
     print_out e (ho_to_json e st)))))"
    and "keeps (beside (sd_krunc_id st) q) (seq (open_or_die e ''open: '') (\<lambda>_.
     seq (device (dev_kill (ho_helper e) (ho_client e) (sd_krunc_id st) sig)) (\<lambda>r.
     or_die ''kill: '' (ok_result r))))"
    and "keeps (beside (sd_krunc_id st) q) (seq (open_device e) (\<lambda>dev.
       seq (if dev \<noteq> None then drop_container e (sd_krunc_id st) else ret ()) (\<lambda>_.
       seq (case (sd_bpf_lsm st, sd_cgroup st) of
              (Some _, Some cg) \<Rightarrow> bpf_disarm e cg | _ \<Rightarrow> ret ()) (\<lambda>_.
       seq (case sd_cgroup st of Some cg \<Rightarrow> cgroup_remove e cg | None \<Rightarrow> ret ()) (\<lambda>_.
       seq (remove_dir_all e (state_dir (render_path rp) cid)) (\<lambda>_. ret ()))))))"
proof -
  have key: "state_key rp cid \<noteq> q" using assms(5,7) by (simp add: state_key_def)
  have below: "\<not> below p q" if "resolve e w (state_dir (render_path rp) cid) = Some p" for w p
    using resolve_state_dir [OF assms(1,3) that] assms(5,7) by (simp add: below_def state_key_def)
  show "keeps (beside (sd_krunc_id st) q) (seq (open_or_die e ''open: '') (\<lambda>_.
       seq (device (dev_start (ho_helper e) (ho_client e) (sd_krunc_id st))) (\<lambda>r.
       seq (or_die ''start: '' (ok_result r)) (\<lambda>_.
       save_state e (render_path rp) (st\<lparr>sd_status := ''running''\<rparr>)))))"
    using assms(3,6) key by (intro bs_all bs_device [OF assms(2)] bs_save [OF assms(1)]) simp_all
  show "keeps (beside (sd_krunc_id st) q) (seq (open_or_die e ''open: '') (\<lambda>_.
     seq (device (dev_state (ho_helper e) (ho_client e) (sd_krunc_id st))) (\<lambda>r.
     seq (case r of
            Ok (s, pid, exit_status) \<Rightarrow>
              (let st = observed s pid exit_status st in
               seq (save_state e (render_path rp) st) (\<lambda>_. ret st))
          | Err _ \<Rightarrow> ret st) (\<lambda>st.
     print_out e (ho_to_json e st)))))"
    unfolding Let_def using assms(3,6) key
    by (intro bs_all bs_device [OF assms(2)] bs_save [OF assms(1)]) simp_all
  show "keeps (beside (sd_krunc_id st) q) (seq (open_or_die e ''open: '') (\<lambda>_.
     seq (device (dev_kill (ho_helper e) (ho_client e) (sd_krunc_id st) sig)) (\<lambda>r.
     or_die ''kill: '' (ok_result r))))"
    by (intro bs_all bs_device [OF assms(2)])
  show "keeps (beside (sd_krunc_id st) q) (seq (open_device e) (\<lambda>dev.
       seq (if dev \<noteq> None then drop_container e (sd_krunc_id st) else ret ()) (\<lambda>_.
       seq (case (sd_bpf_lsm st, sd_cgroup st) of
              (Some _, Some cg) \<Rightarrow> bpf_disarm e cg | _ \<Rightarrow> ret ()) (\<lambda>_.
       seq (case sd_cgroup st of Some cg \<Rightarrow> cgroup_remove e cg | None \<Rightarrow> ret ()) (\<lambda>_.
       seq (remove_dir_all e (state_dir (render_path rp) cid)) (\<lambda>_. ret ()))))))"
    unfolding drop_container_def bpf_disarm_def bpf_run_def cgroup_remove_def
    by (intro bs_all bs_device [OF assms(2)] bs_remove_dir_all below)
qed

lemma others_pick:
  "i \<noteq> j \<Longrightarrow> filter (\<lambda>c. ct_id c = j) (ks_registry st) = filter (\<lambda>c. ct_id c = j) (others i st)"
  unfolding others_def filter_filter by (rule filter_cong) auto

text \<open>A load, then the rest: the other container is as it was.\<close>

lemma after_load:
  assumes "seq (load_state e root cid) f w = (r, w')"
    and "\<And>st w1. load_state e root cid w = (Ok st, w1) \<Longrightarrow>
      sd_krunc_id st \<noteq> j \<and> keeps (beside (sd_krunc_id st) q) (f st)"
  shows "file_at w' q = file_at w q \<and>
    filter (\<lambda>c. ct_id c = j) (ks_registry (w_kernel w')) = filter (\<lambda>c. ct_id c = j) (ks_registry (w_kernel w))"
proof -
  have "\<exists>i. i \<noteq> j \<and> beside i q w w'"
    using assms(1)
  proof (cases rule: seqE)
    case halt
    moreover have "j + 1 \<noteq> j" by simp
    ultimately show ?thesis using keepsD [OF bs_load] by blast
  next
    case (go st w1)
    then show ?thesis
      using assms(2) [OF go(1)] bs.order_trans [OF keepsD [OF bs_load go(1)]] keepsD by metis
  qed
  then show ?thesis unfolding beside_def using others_pick [of _ j] by metis
qed

text \<open>
C19 (a command leaves other containers alone). On any machine reached as above, \<open>start\<close>,
\<open>state\<close>, \<open>kill\<close> and \<open>delete\<close> of one container, however they end, leave the state file of every
other container and that container's entry in the module's registry as they were.
\<close>

theorem commands_spare_others:
  fixes w :: "('os, 'b) world"
  assumes "cli_reachable (ho_from_json e) rp w" "store_root rp" "layout_ok (ho_client e) n"
    and "parse_args argv = (flags, cmd # cid # args)" "root_flag flags = render_path rp"
    and "flags ''--version'' = None" "cmd \<in> {''start'', ''state'', ''kill'', ''delete''}"
    and "plain cid" "plain c'" "c' \<noteq> cid"
    and "file_at w (state_key rp c') = Some b" "ho_from_json e b = Some s"
    and "krunc_main e argv w = Some (r, w')"
  shows "file_at w' (state_key rp c') = Some b
    \<and> filter (\<lambda>c. ct_id c = sd_krunc_id s) (ks_registry (w_kernel w'))
      = filter (\<lambda>c. ct_id c = sd_krunc_id s) (ks_registry (w_kernel w))"
proof -
  note inv = reachable_store_inv [OF assms(1,2) refl]
  have rec: "recorded e w rp c' = Some s" using assms(11,12) by (simp add: recorded_def)
  have st: "sd_id st = cid" "sd_krunc_id st \<noteq> sd_krunc_id s"
    if "load_state e (render_path rp) cid w = (Ok st, w1)" for st w1
    using loaded [OF assms(2,8) inv that] rec assms(8-10) inv unfolding store_inv_def by blast+
  note own = commands_beside [OF assms(2,3,8-10) _ refl]
  have load: ?thesis if "seq (load_state e (render_path rp) cid) f w = (r, w')"
    "\<And>st. sd_id st = cid \<Longrightarrow> keeps (beside (sd_krunc_id st) (state_key rp c')) (f st)" for f :: "state_file \<Rightarrow> ('os, 'b, unit) proc"
    using after_load [OF that(1), of "sd_krunc_id s" "state_key rp c'"] st that(2) assms(11) by simp
  have run: "run_command e (render_path rp) flags cmd (cid # args) w = Some (r, w')"
    using assms(5,6,7,13) by (auto simp: krunc_main_def assms(4))
  consider "cmd = ''start''" | "cmd = ''state''" | "cmd = ''kill''" | "cmd = ''delete''"
    using assms(7) by blast
  then show ?thesis
  proof cases
    case 1
    then have "do_start e (render_path rp) (cid # args) w = (r, w')" using run by (simp add: run_command_def)
    then show ?thesis by (intro load [OF _ own(1)]) (simp_all add: do_start_def first_arg_def seq_or_die)
  next
    case 2
    then have "do_state e (render_path rp) (cid # args) w = (r, w')" using run by (simp add: run_command_def)
    then show ?thesis by (intro load [OF _ own(2)]) (simp_all add: do_state_def first_arg_def seq_or_die)
  next
    case 3
    then have "do_kill e (render_path rp) (cid # args) w = (r, w')" using run by (simp add: run_command_def)
    then show ?thesis
      by (intro load [OF _ own(3)]) (simp_all add: do_kill_def first_arg_def seq_or_die Let_def)
  next
    case 4
    then have "do_delete e (render_path rp) flags (cid # args) w = (r, w')"
      using run by (simp add: run_command_def)
    note del = this [unfolded do_delete_def first_arg_def list.case seq_or_die option.case seq_ask]
    show ?thesis
    proof (cases "path_exists e (state_path (render_path rp) cid) w")
      case True
      then show ?thesis using del by (intro load [OF _ own(4)]) simp_all
    next
      case False
      then show ?thesis using del assms(11) by (auto simp: ret_def die_def split: if_splits)
    qed
  qed
qed

end
