(* ===== verification/Cli_Outcome.thy ===== *)
theory Cli_Outcome
  imports Cli_Separate
begin

text \<open>
  How a \<open>run\<close> ends: the loops that wait for the container return once it is reaped or seen
  stopped, and the cleanup takes exactly the new container back.
\<close>

section \<open>Waiting\<close>

text \<open>\<open>waitpid\<close> is interrupted \<open>n\<close> times, then answers \<open>x\<close>.\<close>

definition waits_for :: "('os, 'b) host \<Rightarrow> 'b event list \<Rightarrow> int \<Rightarrow> nat \<Rightarrow> wait_result \<Rightarrow> bool" where
  "waits_for e l pid n x \<longleftrightarrow>
     list_all (\<lambda>k. ho_waitpid e (l @ replicate k (Waitpid pid)) pid = Interrupted) [0..<n]
     \<and> ho_waitpid e (l @ replicate n (Waitpid pid)) pid = x"

lemma waits_for_0: "waits_for e l pid 0 x \<longleftrightarrow> ho_waitpid e l pid = x"
  by (simp add: waits_for_def)

lemma waits_for_Suc: "waits_for e l pid (Suc n) x \<longleftrightarrow>
    ho_waitpid e l pid = Interrupted \<and> waits_for e (l @ [Waitpid pid]) pid n x"
  by (simp add: waits_for_def upt_conv_Cons map_Suc_upt [symmetric] list.pred_map comp_def del: upt_Suc)

lemma seq_Ok: "m w = (Ok a, w1) \<Longrightarrow> seq m f w = f a w1"
  by (simp add: seq_def)

lemma block_fields [simp]: "w_log (block e ev w) = w_log w @ [ev]"
  "ks_registry (w_kernel (block e ev w)) = ks_registry (w_kernel w)"
  by (simp_all add: block_def)

lemma wait_reap_returns:
  assumes "waits_for e (w_log w) pid n (Reaped status)"
  shows "\<exists>w'. wait_reap e pid w = Some (Some status, w')
    \<and> ks_registry (w_kernel w') = ks_registry (w_kernel w)"
  using assms
proof (induction n arbitrary: w)
  case 0
  then show ?case by (simp add: waits_for_0 wait_reap.simps)
next
  case (Suc n)
  then show ?case
    using Suc.IH [of "block e (Waitpid pid) w"] by (simp add: waits_for_Suc wait_reap.simps [of e pid w])
qed

section \<open>Cleaning up\<close>

lemma cleanup_files:
  "keeps same_kernel (seq (case sd_cgroup st of Some cg \<Rightarrow> cgroup_remove e cg | None \<Rightarrow> ret ()) (\<lambda>_.
      seq (remove_dir_all e d) (\<lambda>_. ret ())))"
  "no_halt (seq (case sd_cgroup st of Some cg \<Rightarrow> cgroup_remove e cg | None \<Rightarrow> ret ()) (\<lambda>_.
      seq (remove_dir_all e d) (\<lambda>_. ret ())))"
  "keeps same_kernel (seq (case tmp of Some t \<Rightarrow> remove_dir_all e t | None \<Rightarrow> ret None) (\<lambda>_. ret ()))"
  "no_halt (seq (case tmp of Some t \<Rightarrow> remove_dir_all e t | None \<Rightarrow> ret None) (\<lambda>_. ret ()))"
  unfolding cgroup_remove_def
  by (intro sk.keeps_all) (intro no_halt_intros, intro sk.keeps_all, intro no_halt_intros)

lemma total_step:
  assumes "no_halt m" "keeps same_kernel m"
  obtains a w1 where "m w = (Ok a, w1)" "w_kernel w1 = w_kernel w"
proof -
  obtain r w1 where m: "m w = (r, w1)" by fastforce
  then obtain a where "r = Ok a" using no_haltD [OF assms(1)] by (cases r) blast+
  then show thesis using that m same_kernelD [OF assms(2) m] by blast
qed

text \<open>The cleanup goes through; it takes back the container last added, when it is to be removed.\<close>

lemma cleanup_new:
  assumes "layout_ok (ho_client e) n" "reg_inv st0" "ks_registry (w_kernel w) = ks_registry st0 @ [c]"
    and "ct_id c = ks_next_id st0" "sd_krunc_id st = ks_next_id st0"
  obtains w' where "run_cleanup e root st tmp keep w = (Ok (), w')"
    "ks_registry (w_kernel w') = (if keep then ks_registry (w_kernel w) else ks_registry st0)"
proof -
  let ?tail = "seq (case tmp of Some t \<Rightarrow> remove_dir_all e t | None \<Rightarrow> ret None) (\<lambda>_. ret ())"
  show thesis
  proof (cases keep)
    case True
    obtain w' where "?tail w = (Ok (), w')" "w_kernel w' = w_kernel w"
      using total_step [OF cleanup_files(4,3)] by (metis old.unit.exhaust)
    then show thesis using that True by (simp add: run_cleanup_def seq_ret)
  next
    case False
    obtain r w1 where d: "drop_container e (ks_next_id st0) w = (r, w1)" by fastforce
    note drop = drop_new [OF assms(1-4) d]
    obtain w2 where m: "(seq (case sd_cgroup st of Some cg \<Rightarrow> cgroup_remove e cg | None \<Rightarrow> ret ()) (\<lambda>_.
        seq (remove_dir_all e (state_dir root (sd_id st))) (\<lambda>_. ret ()))) w1 = (Ok (), w2)"
        "w_kernel w2 = w_kernel w1"
      using total_step [OF cleanup_files(2,1)] by (metis old.unit.exhaust)
    obtain w' where t: "?tail w2 = (Ok (), w')" "w_kernel w' = w_kernel w2"
      using total_step [OF cleanup_files(4,3)] by (metis old.unit.exhaust)
    have "run_cleanup e root st tmp keep w = (Ok (), w')"
      using False d drop m(1) t(1) by (simp add: run_cleanup_def assms(5) seq_Ok)
    then show thesis using that False drop m(2) t(2) by simp
  qed
qed

section \<open>run\<close>

lemma created_one:
  assumes "create_from_bundle e root flags cid bundle w = (Ok s, w')"
    and "layout_ok (ho_client e) K_MAX_SPEC" "reg_inv (w_kernel w)"
  obtains c where "ks_registry (w_kernel w') = ks_registry (w_kernel w) @ [c]"
    "ct_id c = ks_next_id (w_kernel w)" "sd_krunc_id s = ks_next_id (w_kernel w)" "\<not> ct_started c"
  using assms(1,2)
proof (cases rule: create_from_bundleE)
  case (made cfg spec w1 c st')
  then show ?thesis
    using register_outcome [OF assms(2,3), of "w1\<lparr>w_kernel := st'\<rparr>" c] that [of c] by fastforce
qed simp_all

lemma start_new:
  assumes "layout_ok cl n" "reg_inv st" "ks_registry st' = ks_registry st @ [c]" "ct_id c = ks_next_id st"
  shows "ks_registry (snd (dev_start h cl (ks_next_id st) st')) = ks_registry st @ [c\<lparr>ct_started := True\<rparr>]"
  using find_new_id [OF assms(2,4)] assms(3)
  by (simp add: dev_start_eq [OF assms(1)] start_container_def Let_def set_gate_def split: option.split)

lemma begun_one:
  assumes "run_begin e root flags cid bundle w = (Ok s, w')"
    and "layout_ok (ho_client e) K_MAX_SPEC" "reg_inv (w_kernel w)"
  obtains c where "ks_registry (w_kernel w') = ks_registry (w_kernel w) @ [c]"
    "ct_id c = ks_next_id (w_kernel w)" "sd_krunc_id s = ks_next_id (w_kernel w)" "ct_started c"
proof -
  from assms(1) obtain st w1 w2 r w3 where
      c: "create_from_bundle e root flags cid bundle w = (Ok st, w1)"
    and o: "open_or_die e ''open: '' w1 = (Ok (), w2)"
    and d: "dev_start (ho_helper e) (ho_client e) (sd_krunc_id st) (w_kernel w2) = (r, w_kernel w3)"
    and s: "save_state e root (st\<lparr>sd_status := ''running''\<rparr>) w3 = (Ok (), w')"
    and st: "s = st\<lparr>sd_status := ''running''\<rparr>"
    by (auto simp: run_begin_def Let_def elim!: seq_OkE) (metis prod.collapse world.select_convs(1) world.surjective world.update_convs(1))
  from c assms(2,3) obtain x where x: "ks_registry (w_kernel w1) = ks_registry (w_kernel w) @ [x]"
    "ct_id x = ks_next_id (w_kernel w)" "sd_krunc_id st = ks_next_id (w_kernel w)"
    by (rule created_one)
  have k2: "w_kernel w2 = w_kernel w1" using same_kernelD [OF sk.keeps_simple_calls(2) o] by simp
  have k3: "w_kernel w' = w_kernel w3" using same_kernelD [OF sk_save s] .
  have "ks_registry (w_kernel w') = ks_registry (w_kernel w) @ [x\<lparr>ct_started := True\<rparr>]"
    using start_new [OF assms(2,3), of "w_kernel w2" x "ho_helper e"] x d k2 k3 by simp
  then show thesis using that x st by simp
qed

text \<open>
C22 (a run returns with the code of its container). Once \<open>run\<close> has created and started its
container, and \<open>waitpid\<close> reports the task's status after any number of interruptions, \<open>run\<close>
returns: it exits with the code that stands for the status, whatever fails in the cleanup. The
registry is then what it was before the \<open>run\<close>, or with \<open>--keep\<close> has one started container more.
\<close>

theorem run_returns_exit_code:
  assumes "run_begin e root flags cid bundle w = (Ok st, w1)"
    and "waits_for e (w_log w1) (sd_pid st) n (Reaped status)"
    and "layout_ok (ho_client e) K_MAX_SPEC" "reg_inv (w_kernel w)"
  shows "\<exists>w'. run_lifecycle e root flags cid bundle tmp keep w = Some (Err (Exit (exit_code status)), w')
    \<and> (if keep then \<exists>c. ks_registry (w_kernel w') = ks_registry (w_kernel w) @ [c]
          \<and> ct_id c = sd_krunc_id st \<and> ct_started c
       else ks_registry (w_kernel w') = ks_registry (w_kernel w))"
proof -
  from assms(1,3,4) obtain c where c: "ks_registry (w_kernel w1) = ks_registry (w_kernel w) @ [c]"
    "ct_id c = ks_next_id (w_kernel w)" "sd_krunc_id st = ks_next_id (w_kernel w)" "ct_started c"
    by (rule begun_one)
  obtain w2 where w2: "wait_reap e (sd_pid st) w1 = Some (Some status, w2)"
    "ks_registry (w_kernel w2) = ks_registry (w_kernel w) @ [c]"
    using wait_reap_returns [OF assms(2)] c(1) by auto
  obtain w' where "run_cleanup e root st tmp keep w2 = (Ok (), w')"
    "ks_registry (w_kernel w') = (if keep then ks_registry (w_kernel w2) else ks_registry (w_kernel w))"
    using cleanup_new [OF assms(3,4) w2(2) c(2,3)] .
  then show ?thesis
    using assms(1) w2 c by (auto simp: run_lifecycle_def wait_for_exit_def seq_def exit_with_def)
qed

end
