(* ===== verification/Cli_Confine.thy ===== *)
theory Cli_Confine
  imports Cli_Create
begin

text \<open>
  Where the files of a cgroup are: a path without a component \<open>..\<close> resolves to its components, so
  everything the set-up of a cgroup makes or writes is below \<open>/sys/fs/cgroup\<close>.
\<close>

section \<open>Paths without a parent component\<close>

lemma components_append: "components (s @ CHR ''/'' # t) = components s @ components t"
  by (simp add: components_def split_slash_append)

lemma components_empty [simp]: "components [] = []"
  by (simp add: components_def)

lemma components_join:
  assumes "\<not> is_absolute t"
  shows "components (path_join s t) = components s @ components t"
proof (cases "s = [] \<or> last s \<noteq> CHR ''/''")
  case True
  then show ?thesis using assms by (auto simp: path_join_def components_append)
next
  case False
  then obtain s' where s: "s = s' @ [CHR ''/'']" by (metis append_butlast_last_id)
  have "components (s' @ [CHR ''/'']) = components s'" using components_append [of s' "[]"] by simp
  moreover have "path_join s t = s' @ CHR ''/'' # t" using assms s by (simp add: path_join_def)
  ultimately show ?thesis unfolding s by (simp add: components_append)
qed

lemma absolute_join: "is_absolute s \<Longrightarrow> is_absolute (path_join s t)"
  by (cases s) (auto simp: path_join_def is_absolute_def)

lemma in_split_slash: "c \<in> set (split_slash s) \<Longrightarrow> CHR ''/'' \<notin> set c"
  by (induction s arbitrary: c) (auto split: list.splits if_splits)

lemma components_name:
  assumes "c \<in> set (components s)"
  shows "components c = [c]" "\<not> is_absolute c"
  using assms in_split_slash [of c s]
  by (auto simp: components_def split_slash_plain is_absolute_def dest: list.set_sel(1))

lemma walk_clean:
  "''..'' \<notin> set cs \<Longrightarrow> walk d cur cs = Some p \<Longrightarrow> p = cur @ filter (\<lambda>c. c \<noteq> [] \<and> c \<noteq> ''.'') cs"
  by (induction d cur cs rule: walk.induct) (auto split: if_splits)

lemma parent_components: "''..'' \<in> set (split_slash s) \<longleftrightarrow> ''..'' \<in> set (components s)"
  by (simp add: components_def)

lemma resolve_clean:
  assumes "is_absolute s" "''..'' \<notin> set (components s)" "resolve e w s = Some p"
  shows "p = components s"
proof -
  have "''..'' \<notin> set (split_slash s)" using assms(2) unfolding parent_components .
  moreover have "walk (searchable w) [] (split_slash s) = Some p"
    using assms(1,3) unfolding resolve_def start_dir_def by (simp split: if_splits)
  ultimately have "p = [] @ filter (\<lambda>c. c \<noteq> [] \<and> c \<noteq> ''.'') (split_slash s)" by (rule walk_clean)
  then show ?thesis unfolding components_def by simp
qed

section \<open>Computations that make only calls of a kind\<close>

definition calls_in :: "('b event \<Rightarrow> bool) \<Rightarrow> ('os, 'b) world \<Rightarrow> ('os, 'b) world \<Rightarrow> bool" where
  "calls_in E w w' \<longleftrightarrow> (\<exists>l. w_log w' = w_log w @ l \<and> list_all E l)"

interpretation ci: file_order "calls_in E" E "\<lambda>_. True" for E :: "'b event \<Rightarrow> bool"
proof unfold_locales
  fix w1 w2 w3 :: "('os, 'b) world"
  assume "calls_in E w1 w2" "calls_in E w2 w3"
  then obtain l l' where "w_log w2 = w_log w1 @ l" "list_all E l" "w_log w3 = w_log w2 @ l'" "list_all E l'"
    unfolding calls_in_def by blast
  then show "calls_in E w1 w3" unfolding calls_in_def by (intro exI [of _ "l @ l'"]) simp
next
  fix w :: "('os, 'b) world" and ev assume "E ev"
  then show "calls_in E w (w\<lparr>w_log := w_log w @ [ev]\<rparr>)"
    unfolding calls_in_def by (intro exI [of _ "[ev]"]) simp
qed (simp_all add: calls_in_def)

text \<open>The directories a \<open>create\_dir\_all\<close> makes lead down to the one it is asked for.\<close>

lemma calls_make_dirs:
  assumes "make_dirs e cur cs w = (r, w')" "''..'' \<notin> set cs"
    and "\<And>k. E (Mkdir (cur @ take k (filter (\<lambda>c. c \<noteq> [] \<and> c \<noteq> ''.'') cs)))"
  shows "calls_in E w w'"
  using assms
proof (induction cs arbitrary: cur w)
  case Nil
  then show ?case by (simp add: ci.order_refl)
next
  case (Cons c cs)
  show ?case
  proof (cases "c = [] \<or> c = ''.''")
    case True
    then show ?thesis using Cons.prems by (intro Cons.IH [of cur w]) auto
  next
    case False
    let ?w1 = "w\<lparr>w_log := w_log w @ [Mkdir (cur @ [c])]\<rparr>"
    have deeper: "E (Mkdir ((cur @ [c]) @ take k (filter (\<lambda>c. c \<noteq> [] \<and> c \<noteq> ''.'') cs)))" for k
      using Cons.prems(3) [of "Suc k"] False by simp
    have "E (Mkdir (cur @ [c]))" using deeper [of 0] by simp
    then have one: "calls_in E w ?w1" by (rule ci.order_call)
    have two: "calls_in E w (put_node (cur @ [c]) Dir ?w1)"
      using one by (simp add: calls_in_def)
    have up: "''..'' \<notin> set cs" "c \<noteq> ''..''" using Cons.prems(2) by auto
    show ?thesis
      using False Cons.prems(1) up one two ci.order_trans [OF two] Cons.IH [OF _ up(1) deeper]
      by (auto simp: seq_perform ci.order_refl split: if_splits)
  qed
qed

lemma calls_create_dir_all:
  assumes "is_absolute s" "''..'' \<notin> set (components s)" "\<And>k. E (Mkdir (take k (components s)))"
  shows "keeps (calls_in E) (create_dir_all e s)"
proof (rule keepsI)
  fix w r w' assume "create_dir_all e s w = (r, w')"
  then have "make_dirs e [] (split_slash s) w = (r, w')"
    using assms(1) by (simp add: create_dir_all_def start_dir_def)
  moreover have "''..'' \<notin> set (split_slash s)" using assms(2) unfolding parent_components .
  ultimately show "calls_in E w w'"
    by (rule calls_make_dirs) (use assms(3) in \<open>simp add: components_def\<close>)
qed

section \<open>The calls of a cgroup's set-up\<close>

definition in_cgroups :: "path \<Rightarrow> bool" where
  "in_cgroups p \<longleftrightarrow> below [''sys'', ''fs'', ''cgroup''] p"

definition cg_call :: "'b event \<Rightarrow> bool" where
  "cg_call ev =
     (case ev of
        Mkdir p \<Rightarrow> in_cgroups p \<or> below p [''sys'', ''fs'', ''cgroup'']
      | Open_write p \<Rightarrow> in_cgroups p
      | Write p _ \<Rightarrow> in_cgroups p
      | _ \<Rightarrow> False)"

text \<open>A string that names something below the root of the cgroups.\<close>

definition cg_string :: "string \<Rightarrow> bool" where
  "cg_string s \<longleftrightarrow> is_absolute s \<and> ''..'' \<notin> set (components s) \<and> in_cgroups (components s)"

lemma below_append: "below p (p @ q)"
  by (simp add: below_def)

lemma below_more: "below p q \<Longrightarrow> below p (q @ r)"
  unfolding below_def by (metis append_take_drop_id append.assoc append_eq_conv_conj)

lemma cg_join:
  assumes "cg_string s" "\<not> is_absolute t" "''..'' \<notin> set (components t)"
  shows "cg_string (path_join s t)"
  using assms by (simp add: cg_string_def components_join absolute_join in_cgroups_def below_more)

lemma cg_file: "cg_string s \<Longrightarrow> plain name \<Longrightarrow> cg_string (path_join s name)"
  by (rule cg_join) (auto simp: plain_def is_absolute_def components_def split_slash_plain
      dest: list.set_sel(1))

lemma cg_root: "cg_string CG_ROOT" "components CG_ROOT = [''sys'', ''fs'', ''cgroup'']"
  by (simp_all add: cg_string_def CG_ROOT_def is_absolute_def components_def in_cgroups_def below_def)

lemma cg_write: "cg_string s \<Longrightarrow> keeps (calls_in cg_call) (write_file e s b)"
  using resolve_clean by (intro ci.keeps_write) (auto simp: cg_string_def cg_call_def)

lemma cg_limit: "cg_string d \<Longrightarrow> plain name \<Longrightarrow> keeps (calls_in cg_call) (write_limit e d name v)"
  unfolding write_limit_def by (intro ci.keeps_control cg_write cg_file)

lemma cg_dirs:
  assumes "cg_string s"
  shows "keeps (calls_in cg_call) (create_dir_all e s)"
proof (rule calls_create_dir_all)
  fix k
  obtain rest where c: "components s = [''sys'', ''fs'', ''cgroup''] @ rest"
    using assms unfolding cg_string_def in_cgroups_def below_def by (metis append_take_drop_id)
  show "cg_call (Mkdir (take k (components s)))"
  proof (cases "k < 3")
    case True
    then have "k = 0 \<or> k = 1 \<or> k = 2" by linarith
    then show ?thesis unfolding c by (auto simp: cg_call_def below_def numeral_2_eq_2)
  next
    case False
    then obtain j where "k = 3 + j" using le_Suc_ex [of 3 k] by auto
    then show ?thesis unfolding c by (simp add: cg_call_def in_cgroups_def below_def)
  qed
qed (use assms in \<open>simp_all add: cg_string_def\<close>)

lemma cg_delegate:
  assumes "cg_string cur" "set parts \<subseteq> set (components dir)" "''..'' \<notin> set (components dir)"
  shows "keeps (calls_in cg_call) (delegate e cs dir cur parts)"
  using assms(1,2)
proof (induction parts arbitrary: cur)
  case Nil
  then show ?case by (simp add: ci.keeps_pure)
next
  case (Cons part parts)
  have "components part = [part]" "\<not> is_absolute part" "part \<noteq> ''..''"
    using Cons.prems(2) components_name [of part dir] assms(3) by auto
  then have deeper: "cg_string (path_join cur part)" using Cons.prems(1) by (intro cg_join) auto
  show ?case
    unfolding delegate.simps Let_def
    using Cons.IH [OF deeper] Cons.prems(2)
    by (intro ci.keeps_control cg_write cg_file deeper) (simp_all add: plain_def)
qed

lemma components_trim: "components (trim_start_slash s) = components s"
  unfolding trim_start_slash_def by (induction s) (simp_all add: components_def)

lemma trim_relative: "\<not> is_absolute (trim_start_slash s)"
  unfolding trim_start_slash_def by (induction s) (simp_all add: is_absolute_def)

text \<open>What the configuration, or without it the id, says of the place of the cgroup.\<close>

definition cgroup_place_of :: "string \<Rightarrow> cgroup_config \<Rightarrow> string" where
  "cgroup_place_of cid cfg = (case cg_path cfg of Some p \<Rightarrow> p | None \<Rightarrow> cid)"

lemma cg_dir_for:
  assumes "''..'' \<notin> set (components (cgroup_place_of cid cfg))"
  shows "cg_string (dir_for cid cfg)"
proof -
  let ?rel = "case cg_path cfg of Some p \<Rightarrow> p | None \<Rightarrow> ''krunc/'' @ cid"
  have "''..'' \<notin> set (components ?rel)"
    using assms components_append [of "''krunc''" cid]
    by (auto simp: cgroup_place_of_def split: option.splits) (simp add: components_def)
  then show ?thesis unfolding dir_for_def Let_def
    by (intro cg_join cg_root trim_relative) (simp add: components_trim)
qed

lemma cg_create:
  assumes "''..'' \<notin> set (components (cgroup_place_of cid cfg))"
  shows "keeps (calls_in cg_call) (cgroup_create e cid cfg)"
proof -
  note dir = cg_dir_for [OF assms]
  have "CG_ROOT @ ''/cgroup.subtree_control'' = path_join CG_ROOT ''cgroup.subtree_control''"
    by (simp add: CG_ROOT_def path_join_def is_absolute_def)
  moreover have "cg_string (path_join CG_ROOT ''cgroup.subtree_control'')"
    by (rule cg_file [OF cg_root(1)]) (simp add: plain_def)
  ultimately show ?thesis
    unfolding cgroup_create_def Let_def try_io_def
    using dir by (intro ci.keeps_control cg_write cg_limit cg_dirs cg_delegate cg_root)
      (auto simp: plain_def cg_string_def dest: in_set_dropD)
qed

text \<open>
C31 (a cgroup stays below the root of the cgroups). When neither the configured path nor, without
one, the id has a component \<open>..\<close>, every call that sets the cgroup of a container up makes a
directory or writes a file below \<open>/sys/fs/cgroup\<close>, or makes one of that directory's parents;
the module is not touched, and a directory that is recorded lies below the root as well.
\<close>

theorem cgroup_calls_confined:
  assumes "''..'' \<notin> set (components (cgroup_place_of cid (cgroup_config_of cfg)))"
    and "setup_cgroup e cid cfg pid w = (r, w')"
  shows "\<exists>l dir. w_log w' = w_log w @ l \<and> list_all cg_call l \<and> w_kernel w' = w_kernel w
    \<and> r = Ok dir \<and> pred_option (\<lambda>d. in_cgroups (components d)) dir"
proof -
  have made: "d = dir_for cid c" if "cgroup_create e cid c v = (Ok (Some (Some d)), v')" for c v v' d
    using that by (auto simp: cgroup_create_def try_io_def Let_def elim!: seq_OkE split: if_splits option.splits)
  have ok: "r \<noteq> Err x" for x using no_haltD [OF no_halt_setup_cgroup] assms(2) by blast
  note create = cg_create [OF assms(1)]
  note dir = cg_dir_for [OF assms(1)]
  have "calls_in cg_call w w' \<and> (\<exists>dir. r = Ok dir \<and> pred_option (\<lambda>d. in_cgroups (components d)) dir)"
    using assms(2) [unfolded setup_cgroup_def]
  proof (cases rule: seqE)
    case (halt x)
    then show ?thesis using ok by blast
  next
    case (go c w1)
    show ?thesis
    proof (cases "\<exists>d. c = Some (Some d)")
      case True
      then obtain d where d: "c = Some (Some d)" by blast
      have "keeps (calls_in cg_call) (seq (cgroup_place e d pid) (\<lambda>_. ret (Some d)))"
        unfolding cgroup_place_def using made [OF go(1) [unfolded d]] dir
        by (intro ci.keeps_control cg_write cg_file) (simp_all add: plain_def)
      moreover from go(2) d have run: "seq (cgroup_place e d pid) (\<lambda>_. ret (Some d)) w1 = (r, w')" by simp
      ultimately have "calls_in cg_call w1 w'" by (rule keepsD)
      moreover have "r = Ok (Some d)"
        using run ok by (auto simp: seq_result)
      ultimately show ?thesis
        using ci.order_trans [OF keepsD [OF create go(1)]] made [OF go(1) [unfolded d]] dir
        by (auto simp: cg_string_def)
    next
      case False
      then have "ret None w1 = (r, w')" using go(2) by (auto split: option.splits)
      then show ?thesis using keepsD [OF create go(1)] by simp
    qed
  qed
  moreover have "w_kernel w' = w_kernel w" using same_kernelD [OF sk.keeps_setup_cgroup assms(2)] .
  ultimately show ?thesis unfolding calls_in_def by blast
qed

end
