(* ===== verification/Cli_Demo.thy ===== *)
theory Cli_Demo
  imports Cli_Outcome Cli_Confine
begin

text \<open>
  A small machine the commands can be evaluated on: a bundle \<open>/b\<close> whose configuration runs
  \<open>/init\<close> in \<open>/r\<close>, an empty store \<open>/run/krunc\<close>, nothing that fails, and the quiet kernel helper.
\<close>

datatype demo_file = Text string | Saved state_file | Config oci_config

definition demo_host :: "(unit, demo_file) host" where
  "demo_host = \<lparr>ho_helper = quiet_helper, ho_client = demo_client, ho_refuses = (\<lambda>_ _. False),
     ho_torn = (\<lambda>_ _. Text []), ho_survives = (\<lambda>_ _. False), ho_text = Text, ho_to_json = Saved,
     ho_from_json = (\<lambda>b. case b of Saved s \<Rightarrow> Some s | _ \<Rightarrow> None),
     ho_parse_config = (\<lambda>b. case b of Config c \<Rightarrow> Ok c | _ \<Rightarrow> Err (Json [])),
     ho_json_string = quoted, ho_cwd = [], ho_temp_dir = ''/tmp'', ho_var = (\<lambda>_. None), ho_now = 0,
     ho_waitpid = (\<lambda>_ _. Reaped (exited_word 3)), ho_elapse = (\<lambda>_ os. os)\<rparr>"

definition tiny_config :: oci_config where
  "tiny_config = \<lparr>oc_hostname = None,
     oc_process = Some \<lparr>pr_terminal = False, pr_args = [''/init''], pr_env = [], pr_cwd = None,
       pr_user = None, pr_capabilities = None, pr_no_new_privileges = False, pr_rlimits = [],
       pr_oom_score_adj = None, pr_extra = []\<rparr>,
     oc_root = Some \<lparr>rt_path = ''/r'', rt_readonly = False\<rparr>, oc_linux = None, oc_mounts = [],
     oc_annotations = [], oc_extra = []\<rparr>"

lemma tiny_translated: "config_to_spec bdl (tiny_config\<lparr>oc_annotations := a\<rparr>) = Ok tiny_spec"
proof -
  have t: "translated bdl (tiny_config\<lparr>oc_annotations := a\<rparr>) = tiny_spec"
    by (simp add: translated_def build_spec_def tiny_config_def tiny_spec_def default_spec_def
        linux_result_def no_linux_def caps_result_def resolve_rootfs_def is_absolute_def
        option_flags_def user_uid_def user_gid_def Let_def)
  have "checked_bounds tiny_spec" using tiny_spec_ok(3) by (simp add: encode_Ok_iff)
  moreover have "supported (tiny_config\<lparr>oc_annotations := a\<rparr>)"
    by (simp add: supported_def tiny_config_def linux_supported_def)
  ultimately show ?thesis by (simp add: config_to_spec_Ok t)
qed

definition demo_world :: "oci_config \<Rightarrow> (unit, demo_file) world" where
  "demo_world cfg = \<lparr>w_kernel = kstate_init (),
     w_files = [([''b''], Dir), ([''b'', ''config.json''], File (Config cfg)), ([''r''], Dir),
       ([''r'', ''proc''], Dir), ([''r'', ''sys''], Dir), ([''r'', ''dev''], Dir), ([''r'', ''tmp''], Dir),
       ([''run''], Dir), ([''run'', ''krunc''], Dir)],
     w_log = []\<rparr>"

lemma demo_fields [simp]:
  "ho_helper demo_host = quiet_helper" "ho_client demo_host = demo_client"
  "\<not> ho_refuses demo_host l ev" "w_kernel (demo_world cfg) = kstate_init ()" "w_log (demo_world cfg) = []"
  by (simp_all add: demo_host_def demo_world_def)

text \<open>What evaluates a computation on the machine.\<close>

lemmas run_defs = seq_def ret_def die_def ask_def perform_def device_def or_die_def try_io_def
  open_or_die_def open_device_def print_out_def first_arg_def exit_with_def Let_def

lemmas file_defs = resolve_def start_dir_def is_absolute_def path_join_def state_path_def state_dir_def
  path_exists_def canonicalize_def render_path_def node_at_def is_dir_def searchable_def task_dir_def read_file_def write_file_def
  kernel_dir_def put_node_def create_dir_all_def

lemma demo_prepare_rootfs:
  assumes "w_files w = w_files (demo_world cfg)"
  shows "prepare_rootfs demo_host ''/b'' (tiny_config\<lparr>oc_annotations := a\<rparr>) w
    = (Ok (tiny_config\<lparr>oc_annotations := a\<rparr>), w)"
  using assms
  by (simp add: prepare_rootfs_def tiny_config_def mount_points_def run_defs file_defs demo_host_def
      demo_world_def)

lemma demo_prepare:
  assumes "cfg = tiny_config\<lparr>oc_annotations := a\<rparr>"
  shows "prepare_create demo_host ''/run/krunc'' ''a'' ''/b'' (demo_world cfg)
     = (Ok (cfg, tiny_spec), (demo_world cfg)\<lparr>w_log := [Read [''b'', ''config.json''], Open_device]\<rparr>)"
proof -
  let ?w1 = "(demo_world cfg)\<lparr>w_log := [Read [''b'', ''config.json'']]\<rparr>"
  have 1: "path_exists demo_host (state_path ''/run/krunc'' ''a'') (demo_world cfg) = False"
    by (simp add: file_defs demo_host_def demo_world_def)
  have 2: "read_file demo_host (path_join ''/b'' ''config.json'') (demo_world cfg)
      = (Ok (Some (Config cfg)), ?w1)"
    by (simp add: run_defs file_defs demo_host_def demo_world_def)
  have 3: "prepare_rootfs demo_host ''/b'' cfg ?w1 = (Ok cfg, ?w1)"
    unfolding assms by (rule demo_prepare_rootfs) simp
  have 4: "ho_parse_config demo_host (Config cfg) = Ok cfg" "\<not> ho_refuses demo_host l ev" for l ev
    by (simp_all add: demo_host_def)
  show ?thesis
    using tiny_translated [of "''/b''" a] 1 2 3 4 by (simp add: prepare_create_def read_bundle_def run_defs assms)
qed

lemma demo_dev_create:
  obtains c st' where "dev_create quiet_helper demo_client tiny_spec (kstate_init ()) = (Ok (1, 7), st')"
    "ks_registry st' = [c]" "ct_id c = 1" "\<not> ct_started c"
proof -
  obtain st' where "create_from_blob quiet_helper tiny_blob (kstate_init ()) = (Ok (1, 7), st')"
    using tiny_create by blast
  then have "dev_create quiet_helper demo_client tiny_spec (kstate_init ()) = (Ok (1, 7), st')"
    using tiny_spec_ok(3,4) dev_create_raw_eq [OF demo_layout, of tiny_blob quiet_helper "kstate_init ()"]
    by (simp add: dev_create_eq K_MAX_SPEC_def as_i32_def)
  with demo_layout show thesis
  proof (cases rule: dev_create_cases)
    case (created c)
    then show ?thesis using that [of st' c] \<open>dev_create _ _ _ _ = (Ok (1, 7), st')\<close>
      by (simp add: kstate_init_def)
  qed simp
qed

lemma demo_setup:
  assumes "cfg = tiny_config\<lparr>oc_annotations := []\<rparr>"
  shows "map_or_drop e tiny_spec kid pid w = (Ok (), w)" "setup_cgroup e ''a'' cfg pid w = (Ok None, w)"
    "setup_guard e cfg kid None w = (Ok None, w)"
  by (simp_all add: assms map_or_drop_def tiny_spec_def default_spec_def setup_cgroup_def
      cgroup_create_def cgroup_config_of_def tiny_config_def setup_guard_def bpf_lsm_mode_of_def run_defs)

lemma demo_save:
  assumes "w_files w = w_files (demo_world cfg)" "sd_id st = ''a''"
  shows "\<exists>l. save_state demo_host ''/run/krunc'' st w = (Ok (),
      put_node [''run'', ''krunc'', ''a'', ''state.json''] (File (Saved st))
        (put_node [''run'', ''krunc'', ''a''] Dir (w\<lparr>w_log := l\<rparr>)))"
  using assms
  by (simp add: save_state_def run_defs file_defs demo_host_def demo_world_def) (rule exI, rule refl)

lemma demo_create:
  assumes "flags ''--pid-file'' = None"
  obtains w' c where
    "create_from_bundle demo_host ''/run/krunc'' flags ''a'' ''/b'' (demo_world tiny_config)
       = (Ok (new_state ''a'' 7 ''/b'' 1 None None), w')"
    "ks_registry (w_kernel w') = [c]" "ct_id c = 1" "\<not> ct_started c"
    "w_files w' = w_files (put_node [''run'', ''krunc'', ''a'', ''state.json'']
       (File (Saved (new_state ''a'' 7 ''/b'' 1 None None)))
       (put_node [''run'', ''krunc'', ''a''] Dir (demo_world tiny_config)))"
proof -
  have cfg: "tiny_config = tiny_config\<lparr>oc_annotations := []\<rparr>" by (simp add: tiny_config_def)
  obtain c st' where dev: "dev_create quiet_helper demo_client tiny_spec (kstate_init ()) = (Ok (1, 7), st')"
    and c: "ks_registry st' = [c]" "ct_id c = 1" "\<not> ct_started c" by (rule demo_dev_create)
  let ?st = "new_state ''a'' 7 ''/b'' 1 None None"
  let ?w = "(demo_world tiny_config)\<lparr>w_log := [Read [''b'', ''config.json''], Open_device], w_kernel := st'\<rparr>"
  obtain l where sv: "save_state demo_host ''/run/krunc'' ?st ?w = (Ok (),
      put_node [''run'', ''krunc'', ''a'', ''state.json''] (File (Saved ?st))
        (put_node [''run'', ''krunc'', ''a''] Dir (?w\<lparr>w_log := l\<rparr>)))"
    using demo_save [of ?w tiny_config ?st] by (auto simp: new_state_def)
  let ?w' = "put_node [''run'', ''krunc'', ''a'', ''state.json''] (File (Saved ?st))
        (put_node [''run'', ''krunc'', ''a''] Dir (?w\<lparr>w_log := l\<rparr>))"
  have "create_from_bundle demo_host ''/run/krunc'' flags ''a'' ''/b'' (demo_world tiny_config) = (Ok ?st, ?w')"
    using dev sv demo_prepare [OF cfg] assms
    by (simp add: demo_setup [OF cfg] create_from_bundle_def register_container_def save_and_pid_def run_defs)
  moreover have "w_kernel ?w' = st'" "w_files ?w' = w_files
      (put_node [''run'', ''krunc'', ''a'', ''state.json''] (File (Saved ?st))
       (put_node [''run'', ''krunc'', ''a''] Dir (demo_world tiny_config)))"
    by (simp_all add: put_node_def)
  ultimately show thesis using c that by metis
qed

section \<open>The commands on the machine\<close>

theorem decode_check_passes_witness:
  "\<exists>w'. do_decode_check demo_host (demo_world tiny_config) = (Ok (), w') \<and> w_kernel w' = kstate_init ()"
  using decode_check_passes [of demo_host "demo_world tiny_config"] demo_layout by simp

theorem failed_create_leaves_none_witness:
  "\<exists>c w'. create_from_bundle demo_host ''/run/krunc'' Map.empty ''a'' ''/b'' (demo_world tiny_config)
      = (Ok (new_state ''a'' 7 ''/b'' 1 None None), w')
    \<and> ks_registry (w_kernel w') = [c] \<and> ct_id c = 1 \<and> \<not> ct_started c"
proof -
  obtain w' where c: "create_from_bundle demo_host ''/run/krunc'' Map.empty ''a'' ''/b'' (demo_world tiny_config)
      = (Ok (new_state ''a'' 7 ''/b'' 1 None None), w')"
    using demo_create [of Map.empty] by (metis (no_types))
  have "layout_ok (ho_client demo_host) K_MAX_SPEC" "reg_inv (w_kernel (demo_world tiny_config))"
    using demo_layout reg_inv_init by simp_all
  from failed_create_leaves_none [OF c this] c show ?thesis
    by (auto simp: kstate_init_def new_state_def)
qed

text \<open>An annotation the tool does not know: the create dies, the container stays.\<close>

lemma bad_annotation_leaks:
  assumes "cfg = tiny_config\<lparr>oc_annotations := [(''org.krunc.bpf-lsm'', ''audit'')]\<rparr>"
  shows "\<exists>x w'. create_from_bundle demo_host ''/run/krunc'' Map.empty ''a'' ''/b'' (demo_world cfg) = (Err x, w')
    \<and> ks_registry (w_kernel w') \<noteq> [] \<and> \<not> path_exists demo_host ''/run/krunc/a/state.json'' w'"
proof -
  obtain c st' where dev: "dev_create quiet_helper demo_client tiny_spec (kstate_init ()) = (Ok (1, 7), st')"
    and c: "ks_registry st' = [c]" by (rule demo_dev_create)
  let ?w = "(demo_world cfg)\<lparr>w_log := [Read [''b'', ''config.json''], Open_device], w_kernel := st'\<rparr>"
  have maps: "map_or_drop demo_host tiny_spec 1 7 v = (Ok (), v)" for v
    by (simp add: map_or_drop_def tiny_spec_def default_spec_def run_defs)
  have cg: "setup_cgroup demo_host ''a'' cfg 7 v = (Ok None, v)" for v
    by (simp add: assms setup_cgroup_def cgroup_create_def cgroup_config_of_def tiny_config_def run_defs)
  have "\<exists>err. bpf_lsm_mode_of cfg = Err err" by (simp add: assms bpf_lsm_mode_of_def tiny_config_def)
  then have "\<exists>x. create_from_bundle demo_host ''/run/krunc'' Map.empty ''a'' ''/b'' (demo_world cfg) = (Err x, ?w)"
    using dev demo_prepare [OF assms] by (auto simp: create_from_bundle_def register_container_def
        setup_guard_def maps cg run_defs)
  moreover have "\<not> path_exists demo_host ''/run/krunc/a/state.json'' ?w"
    by (simp add: file_defs demo_host_def demo_world_def)
  ultimately show ?thesis using c by fastforce
qed

text \<open>The machine after \<open>krunc create --bundle /b a\<close>.\<close>

lemma demo_serde: "serde_ok demo_host"
  by (simp add: serde_ok_def demo_host_def)

abbreviation demo_json :: "demo_file \<Rightarrow> state_file option" where
  "demo_json \<equiv> ho_from_json demo_host"

lemma demo_created_step:
  obtains w w' :: "(unit, demo_file) world" where "cli_reachable demo_json [''run'', ''krunc''] w"
    "cli_step demo_json [''run'', ''krunc''] w w'" "w_kernel w = kstate_init ()" "w_files w = w_files (demo_world tiny_config)"
    "file_at w' (state_key [''run'', ''krunc''] ''a'') = Some (Saved (new_state ''a'' 7 ''/b'' 1 None None))"
proof -
  let ?w = "demo_world tiny_config" and ?flags = "[''--bundle'' \<mapsto> ''/b'']"
  have args: "parse_args [''create'', ''--bundle'', ''/b'', ''a''] = (?flags, [''create'', ''a''])"
    by (simp add: parse_args_def valued_flags_def starts_with_def)
  have reach: "cli_reachable demo_json [''run'', ''krunc''] ?w"
    by (rule cli_reachable.fresh)
       (simp_all add: reg_inv_init file_at_def state_key_def node_at_def demo_world_def)
  have "?flags ''--pid-file'' = None" by simp
  then obtain w' where c: "create_from_bundle demo_host ''/run/krunc'' ?flags ''a'' ''/b'' ?w
      = (Ok (new_state ''a'' 7 ''/b'' 1 None None), w')"
    "w_files w' = w_files (put_node [''run'', ''krunc'', ''a'', ''state.json'']
       (File (Saved (new_state ''a'' 7 ''/b'' 1 None None)))
       (put_node [''run'', ''krunc'', ''a''] Dir ?w))"
    by (rule demo_create)
  have "bundle_path demo_host ?flags ?w = (Ok ''/b'', ?w)"
    by (simp add: bundle_path_def run_defs file_defs demo_host_def demo_world_def)
  then have "krunc_main demo_host [''create'', ''--bundle'', ''/b'', ''a''] ?w = Some (Ok (), w')"
    using c(1) by (simp add: krunc_main_def args run_command_def do_create_def first_arg_def seq_or_die
        root_flag_def seq_def [of "bundle_path _ _"] seq_def [of "create_from_bundle _ _ _ _ _"] ret_def)
  then have step: "cli_step demo_json [''run'', ''krunc''] ?w w'"
    using demo_serde demo_layout
    by (intro cli_step.krunc [OF refl _ _ args])
       (simp_all add: root_flag_def render_path_def plain_use_def plain_def room_def kstate_init_def)
  have at: "file_at w' (state_key [''run'', ''krunc''] ''a'') = Some (Saved (new_state ''a'' 7 ''/b'' 1 None None))"
    unfolding file_at_def node_at_def c(2) by (simp add: state_key_def map_of_put_node)
  show thesis by (rule that [OF reach step _ refl at]) (simp add: demo_world_def)
qed

lemma demo_created:
  obtains w :: "(unit, demo_file) world" where "cli_reachable demo_json [''run'', ''krunc''] w"
    "file_at w (state_key [''run'', ''krunc''] ''a'') = Some (Saved (new_state ''a'' 7 ''/b'' 1 None None))"
  by (rule demo_created_step) (blast intro: cli_reachable.step)

theorem store_names_its_own_witness:
  "\<exists>w w' :: (unit, demo_file) world. cli_reachable demo_json [''run'', ''krunc''] w
    \<and> cli_step demo_json [''run'', ''krunc''] w w'
    \<and> file_at w (state_key [''run'', ''krunc''] ''a'') = None
    \<and> file_at w' (state_key [''run'', ''krunc''] ''a'') = Some (Saved (new_state ''a'' 7 ''/b'' 1 None None))
    \<and> ks_next_id (w_kernel w) = 1 \<and> 1 < ks_next_id (w_kernel w')"
proof -
  obtain w w' :: "(unit, demo_file) world" where w: "cli_reachable demo_json [''run'', ''krunc''] w"
    "cli_step demo_json [''run'', ''krunc''] w w'" "w_kernel w = kstate_init ()"
    "w_files w = w_files (demo_world tiny_config)"
    "file_at w' (state_key [''run'', ''krunc''] ''a'') = Some (Saved (new_state ''a'' 7 ''/b'' 1 None None))"
    by (rule demo_created_step)
  have a: "store_root [''run'', ''krunc'']" "plain ''a''" "demo_json (Saved s) = Some s" for s
    by (simp_all add: store_root_def plain_def demo_host_def)
  have none: "file_at w (state_key [''run'', ''krunc''] ''a'') = None"
    unfolding file_at_def node_at_def w(4) by (simp add: state_key_def demo_world_def)
  have "1 = ks_next_id (w_kernel w)" "1 < ks_next_id (w_kernel w')"
    using store_names_its_own [OF w(1) a(1) w(2) a(2) w(5) a(3)] none by (simp_all add: new_state_def)
  then show ?thesis using w(1,2,5) none by metis
qed

theorem state_files_well_typed_witness: "wf_state (new_state ''a'' 7 ''/b'' 1 None None)"
proof -
  obtain w :: "(unit, demo_file) world" where w: "cli_reachable demo_json [''run'', ''krunc''] w"
    "file_at w (state_key [''run'', ''krunc''] ''a'') = Some (Saved (new_state ''a'' 7 ''/b'' 1 None None))"
    by (rule demo_created)
  show ?thesis
    by (rule state_files_well_typed [OF w(1) _ _ w(2)]) (simp_all add: store_root_def plain_def demo_host_def)
qed

theorem commands_spare_others_witness:
  "\<exists>w r w'. file_at w (state_key [''run'', ''krunc''] ''a'') = Some (Saved (new_state ''a'' 7 ''/b'' 1 None None))
    \<and> krunc_main demo_host [''kill'', ''b'', ''TERM''] w = Some (r, w')
    \<and> file_at w' (state_key [''run'', ''krunc''] ''a'') = Some (Saved (new_state ''a'' 7 ''/b'' 1 None None))"
proof -
  obtain w :: "(unit, demo_file) world" where w: "cli_reachable demo_json [''run'', ''krunc''] w"
    "file_at w (state_key [''run'', ''krunc''] ''a'') = Some (Saved (new_state ''a'' 7 ''/b'' 1 None None))"
    by (rule demo_created)
  have args: "parse_args [''kill'', ''b'', ''TERM''] = (Map.empty, ''kill'' # ''b'' # [''TERM''])"
    by (simp add: parse_args_def valued_flags_def starts_with_def)
  obtain r w' where run: "krunc_main demo_host [''kill'', ''b'', ''TERM''] w = Some (r, w')"
    by (simp add: krunc_main_def args run_command_def) (metis surj_pair)
  from commands_spare_others [OF w(1) _ _ args _ _ _ _ _ _ w(2) _ run]
  have "file_at w' (state_key [''run'', ''krunc''] ''a'') = Some (Saved (new_state ''a'' 7 ''/b'' 1 None None))"
    using demo_layout by (simp add: store_root_def plain_def root_flag_def render_path_def demo_host_def)
  then show ?thesis using w run by blast
qed

text \<open>A configuration with a limit and a place for its cgroup.\<close>

definition limited_config :: oci_config where
  "limited_config = tiny_config\<lparr>oc_linux := Some \<lparr>lx_namespaces = [], lx_uid_mappings = [],
     lx_gid_mappings = [], lx_resources = Some \<lparr>rs_pids = Some 5, rs_memory = None, rs_cpu = None, rs_extra = []\<rparr>,
     lx_cgroups_path = Some ''/k/a'', lx_masked_paths = [], lx_readonly_paths = [], lx_sysctl = [],
     lx_extra = []\<rparr>\<rparr>"

theorem cgroup_calls_confined_witness:
  "\<exists>r w' l. setup_cgroup demo_host ''a'' limited_config 7 (demo_world limited_config) = (r, w')
    \<and> w_log w' = l \<and> list_all cg_call l"
proof -
  obtain r w' where run: "setup_cgroup demo_host ''a'' limited_config 7 (demo_world limited_config) = (r, w')"
    by fastforce
  have "''..'' \<notin> set (components (cgroup_place_of ''a'' (cgroup_config_of limited_config)))"
    by (simp add: cgroup_place_of_def cgroup_config_of_def limited_config_def components_def Let_def)
  from cgroup_calls_confined [OF this run] run show ?thesis by auto
qed

section \<open>A run on the machine\<close>

lemma demo_begin:
  obtains w where "run_begin demo_host ''/run/krunc'' Map.empty ''a'' ''/b'' (demo_world tiny_config)
    = (Ok (new_state ''a'' 7 ''/b'' 1 None None\<lparr>sd_status := ''running''\<rparr>), w)"
proof -
  let ?st = "new_state ''a'' 7 ''/b'' 1 None None"
  obtain w1 c where c: "create_from_bundle demo_host ''/run/krunc'' Map.empty ''a'' ''/b'' (demo_world tiny_config)
      = (Ok ?st, w1)" "ks_registry (w_kernel w1) = [c]" "ct_id c = 1"
    and f: "w_files w1 = w_files (put_node [''run'', ''krunc'', ''a'', ''state.json''] (File (Saved ?st))
       (put_node [''run'', ''krunc'', ''a''] Dir (demo_world tiny_config)))"
    using demo_create [of Map.empty] by (metis (no_types))
  let ?w2 = "w1\<lparr>w_log := w_log w1 @ [Open_device],
      w_kernel := snd (dev_start quiet_helper demo_client 1 (w_kernel w1))\<rparr>"
  have start: "fst (dev_start quiet_helper demo_client 1 (w_kernel w1)) = Ok ()"
    using c(2,3) by (simp add: dev_start_eq [OF demo_layout] start_container_def find_id_def Let_def)
  obtain w3 where "save_state demo_host ''/run/krunc'' (?st\<lparr>sd_status := ''running''\<rparr>) ?w2 = (Ok (), w3)"
    using f by (simp add: save_state_def new_state_def run_defs file_defs demo_host_def demo_world_def)
  moreover have "sd_krunc_id ?st = 1" by (simp add: new_state_def)
  ultimately have "run_begin demo_host ''/run/krunc'' Map.empty ''a'' ''/b'' (demo_world tiny_config)
      = (Ok (?st\<lparr>sd_status := ''running''\<rparr>), w3)"
    using c(1) start by (simp add: run_begin_def run_defs split_def)
  then show thesis by (rule that)
qed

theorem run_returns_exit_code_witness:
  "\<exists>w'. run_lifecycle demo_host ''/run/krunc'' Map.empty ''a'' ''/b'' None False (demo_world tiny_config)
      = Some (Err (Exit 3), w') \<and> ks_registry (w_kernel w') = []"
proof -
  obtain w1 where w1: "run_begin demo_host ''/run/krunc'' Map.empty ''a'' ''/b'' (demo_world tiny_config)
    = (Ok (new_state ''a'' 7 ''/b'' 1 None None\<lparr>sd_status := ''running''\<rparr>), w1)" by (rule demo_begin)
  have "waits_for demo_host (w_log w1) 7 0 (Reaped (exited_word 3))"
    by (simp add: waits_for_0 demo_host_def)
  moreover have "exit_code (exited_word 3) = 3" by code_simp
  ultimately show ?thesis
    using run_returns_exit_code [OF w1, of 0 "exited_word 3" None False] demo_layout
      reg_inv_init [of "()"] by (simp add: new_state_def) (simp add: kstate_init_def)
qed

end
