(* ===== verification/Cli_Guard.thy ===== *)
theory Cli_Guard
  imports Cli_Demo
begin

text \<open>
  When \<open>create\<close> arms the guard: after the attempt to place the init task in its cgroup, before the
  command ends, with the container not started.
\<close>

section \<open>Calls are only added to the log\<close>

definition log_grows :: "('os, 'b) world \<Rightarrow> ('os, 'b) world \<Rightarrow> bool" where
  "log_grows w w' \<longleftrightarrow> (\<exists>l. w_log w' = w_log w @ l)"

interpretation lg: command_order log_grows "\<lambda>_. True" "\<lambda>_. True"
  by unfold_locales (auto simp: log_grows_def)

lemma lg_write: "keeps log_grows (write_file e s b)"
  by (rule lg.keeps_write) simp

lemma lg_device: "keeps log_grows (device g)"
  by (rule keepsI) (auto simp: log_grows_def device_def Let_def split_def)

lemma lg_save: "keeps log_grows (save_and_pid e root flags pid st)"
  unfolding save_and_pid_def save_state_def by (intro lg.keeps_all lg_write)

lemma lg_drop: "keeps log_grows (drop_container e kid)"
  unfolding drop_container_def by (intro lg.keeps_all lg_device)

lemma lg_map: "keeps log_grows (map_or_drop e spec kid pid)"
  unfolding map_or_drop_def by (intro lg.keeps_all lg.keeps_id_maps lg_drop)

section \<open>The guard of a create\<close>

lemma arm_succeeds:
  assumes "bpf_arm e dir mode w = (Ok (Some u), w')"
  shows "\<not> ho_refuses e (w_log w) (Tool [bpf_tool e, ''init'', bpf_object e, pin_dir e])
    \<and> \<not> ho_refuses e (w_log w @ [Tool [bpf_tool e, ''init'', bpf_object e, pin_dir e]])
        (Tool [bpf_tool e, ''guard'', pin_dir e, dir, mode])
    \<and> w_log w' = w_log w @ [Tool [bpf_tool e, ''init'', bpf_object e, pin_dir e],
        Tool [bpf_tool e, ''guard'', pin_dir e, dir, mode]]"
  using assms
  by (auto simp: bpf_arm_def bpf_run_def run_tool_def try_io_def seq_def perform_def ret_def split: if_splits)

lemma setup_guard_succeeds:
  assumes "setup_guard e cfg kid d w = (Ok (Some g), w')"
  obtains mode dir u where "bpf_lsm_mode_of cfg = Ok (Some mode)" "g = as_arg mode" "d = Some dir"
    "bpf_arm e dir g w = (Ok (Some u), w')"
  using assms unfolding setup_guard_def
  by (auto simp: seq_result split: sum.splits option.splits)

lemma setup_cgroup_places:
  assumes "setup_cgroup e cid cfg pid w = (Ok (Some dir), w')"
  obtains w1 r where "log_grows w w1" "cgroup_place e dir pid w1 = (r, w')"
proof -
  from assms obtain r0 w1 where create: "cgroup_create e cid (cgroup_config_of cfg) w = (Ok r0, w1)"
    and rest: "(case r0 of
       Some (Some dir) \<Rightarrow> seq (cgroup_place e dir pid) (\<lambda>_. ret (Some dir))
     | Some None \<Rightarrow> ret None
     | None \<Rightarrow> ret None) w1 = (Ok (Some dir), w')"
    unfolding setup_cgroup_def by (rule seq_OkE)
  have "log_grows w w1" using keepsD [OF lg.keeps_cgroup(1) create] .
  moreover obtain r where "cgroup_place e dir pid w1 = (r, w')"
    using rest by (auto simp: seq_result split: option.splits)
  ultimately show thesis by (rule that)
qed

text \<open>A registration that succeeds, step by step.\<close>

lemma register_OkE:
  assumes "register_container e root flags cid bundle cfg spec kid pid w = (Ok s, w')"
  obtains v w1 d w2 g w3 where "map_or_drop e spec kid pid w = (Ok v, w1)"
    "setup_cgroup e cid cfg pid w1 = (Ok d, w2)" "setup_guard e cfg kid d w2 = (Ok g, w3)"
    "s = new_state cid pid bundle kid d g"
    "save_and_pid e root flags pid (new_state cid pid bundle kid d g) w3 = (Ok s, w')"
  using assms save_and_pid_outcome unfolding register_container_def by (elim seq_OkE) blast

lemma register_succeeds:
  assumes "register_container e root flags cid bundle cfg spec kid pid w = (Ok s, w')"
  shows "sd_krunc_id s = kid \<and> w_kernel w' = w_kernel w"
  using assms
proof (rule register_OkE)
  fix v w1 d w2 g w3
  assume run: "map_or_drop e spec kid pid w = (Ok v, w1)" "setup_cgroup e cid cfg pid w1 = (Ok d, w2)"
    "setup_guard e cfg kid d w2 = (Ok g, w3)" "s = new_state cid pid bundle kid d g"
    "save_and_pid e root flags pid (new_state cid pid bundle kid d g) w3 = (Ok s, w')"
  have "w_kernel w1 = w_kernel w"
    using run(1) by (auto simp: map_or_drop_def seq_result split: if_splits option.splits
        dest: same_kernelD [OF sk.keeps_id_maps])
  moreover have "w_kernel w2 = w_kernel w1" using same_kernelD [OF sk.keeps_setup_cgroup run(2)] .
  moreover have "w_kernel w3 = w_kernel w2"
    using run(3) by (auto simp: setup_guard_def seq_result split: sum.splits option.splits
        dest: same_kernelD [OF sk.keeps_bpf(1)])
  ultimately show ?thesis using save_and_pid_outcome [OF run(5)] by (simp add: run(4) new_state_def)
qed

lemma register_guarded:
  assumes "register_container e root flags cid bundle cfg spec kid pid w = (Ok s, w')" "sd_bpf_lsm s = Some g"
  obtains mode dir w1 w2 r w3 u where "bpf_lsm_mode_of cfg = Ok (Some mode)" "g = as_arg mode"
    "sd_cgroup s = Some dir" "sd_pid s = pid" "log_grows w w1" "cgroup_place e dir pid w1 = (r, w2)"
    "bpf_arm e dir g w2 = (Ok (Some u), w3)" "log_grows w3 w'"
  using assms(1)
proof (rule register_OkE)
  fix v wa d wb gd wc
  assume run: "map_or_drop e spec kid pid w = (Ok v, wa)" "setup_cgroup e cid cfg pid wa = (Ok d, wb)"
    "setup_guard e cfg kid d wb = (Ok gd, wc)" "s = new_state cid pid bundle kid d gd"
    "save_and_pid e root flags pid (new_state cid pid bundle kid d gd) wc = (Ok s, w')"
  have "gd = Some g" using run(4) assms(2) by (simp add: new_state_def)
  with run(3) obtain mode dir u where m: "bpf_lsm_mode_of cfg = Ok (Some mode)" "g = as_arg mode" "d = Some dir"
      "bpf_arm e dir g wb = (Ok (Some u), wc)" by (metis setup_guard_succeeds)
  obtain w1 r where p: "log_grows wa w1" "cgroup_place e dir pid w1 = (r, wb)"
    using run(2) unfolding m(3) by (rule setup_cgroup_places)
  have "log_grows w w1" using keepsD [OF lg_map run(1)] p(1) by (rule lg.order_trans)
  then show thesis
    using that [OF m(1,2) _ _ _ p(2) m(4) keepsD [OF lg_save run(5)]] by (simp add: run(4) new_state_def m(3))
qed

text \<open>
  A cgroup is only made for a limit: the path alone, which the message asks for, is not enough.
\<close>

theorem guard_needs_a_limit:
  assumes "bpf_lsm_mode_of cfg = Ok (Some mode)" "cg_pids_limit (cgroup_config_of cfg) = None"
    "cg_memory_limit (cgroup_config_of cfg) = None" "cg_cpu_max (cgroup_config_of cfg) = None"
    "cg_cpu_weight (cgroup_config_of cfg) = None"
  shows "setup_cgroup e cid cfg pid w = (Ok None, w)
    \<and> fst (setup_guard e cfg kid None w) = Err (Die ''org.krunc.bpf-lsm requires a cgroup (set linux.cgroupsPath)'')"
  using assms by (simp add: setup_cgroup_def cgroup_create_def setup_guard_def drop_container_def
      seq_ret seq_assoc seq_device split_def Let_def) (simp add: seq_def ret_def die_def)

section \<open>Property\<close>

text \<open>
C21 (the guard is armed before the start). When \<open>create\<close> ends with a state that says the container is
guarded, the mode is the one of the annotation, and the two runs of \<open>krunc-bpf\<close>, \<open>init\<close> and then
\<open>guard\<close> with the container's cgroup and that mode, both succeeded, right after the attempt to
place the init task in the cgroup and before the command ended; the container is in the
registry and has not started. That the placement itself succeeded is not asked for.
\<close>

theorem create_arms_guard:
  assumes "create_from_bundle e root flags cid bundle w = (Ok s, w')" "layout_ok (ho_client e) K_MAX_SPEC"
    and "sd_bpf_lsm s = Some g"
  shows "\<exists>cfg spec w0 mode dir w1 w2 r post.
    prepare_create e root cid bundle w = (Ok (cfg, spec), w0) \<and> bpf_lsm_mode_of cfg = Ok (Some mode)
    \<and> g = as_arg mode \<and> sd_cgroup s = Some dir
    \<and> log_grows w w1 \<and> cgroup_place e dir (sd_pid s) w1 = (r, w2)
    \<and> (let init = Tool [bpf_tool e, ''init'', bpf_object e, pin_dir e];
           guard = Tool [bpf_tool e, ''guard'', pin_dir e, dir, g] in
       w_log w' = w_log w2 @ [init, guard] @ post
       \<and> \<not> ho_refuses e (w_log w2) init \<and> \<not> ho_refuses e (w_log w2 @ [init]) guard)
    \<and> (\<exists>c\<in>set (ks_registry (w_kernel w')). ct_id c = sd_krunc_id s \<and> \<not> ct_started c)"
  using assms(1,2)
proof (cases rule: create_from_bundleE)
  case (made cfg spec w0 c st')
  from made(7) assms(3) obtain mode dir w1 w2 r w3 u where reg: "bpf_lsm_mode_of cfg = Ok (Some mode)"
      "g = as_arg mode" "sd_cgroup s = Some dir" "sd_pid s = as_i32 (ct_pid c)"
      "log_grows (w0\<lparr>w_kernel := st'\<rparr>) w1" "cgroup_place e dir (as_i32 (ct_pid c)) w1 = (r, w2)"
      "bpf_arm e dir g w2 = (Ok (Some u), w3)" "log_grows w3 w'"
    by (rule register_guarded)
  have "log_grows w w0" using keepsD [OF lg.keeps_prepare made(1)] .
  then have grow: "log_grows w w1" using reg(5) by (auto simp: log_grows_def)
  obtain post where "w_log w' = w_log w3 @ post" using reg(8) by (auto simp: log_grows_def)
  then have runs: "let init = Tool [bpf_tool e, ''init'', bpf_object e, pin_dir e];
           guard = Tool [bpf_tool e, ''guard'', pin_dir e, dir, g] in
       w_log w' = w_log w2 @ [init, guard] @ post
       \<and> \<not> ho_refuses e (w_log w2) init \<and> \<not> ho_refuses e (w_log w2 @ [init]) guard"
    using arm_succeeds [OF reg(7)] by (simp add: Let_def)
  have "sd_krunc_id s = ks_next_id (w_kernel w) \<and> w_kernel w' = st'"
    using register_succeeds [OF made(7)] by simp
  then have "\<exists>c\<in>set (ks_registry (w_kernel w')). ct_id c = sd_krunc_id s \<and> \<not> ct_started c"
    using made(3,5,6) by (intro bexI [of _ c]) simp_all
  then show ?thesis using made(1) reg grow runs by metis
qed simp_all

section \<open>A guarded create on the small machine\<close>

text \<open>A configuration with a limit on its processes and the annotation.\<close>

definition guarded_config :: oci_config where
  "guarded_config = limited_config\<lparr>oc_annotations := [(''org.krunc.bpf-lsm'', ''block'')]\<rparr>"

lemma guarded_translated: "config_to_spec ''/b'' guarded_config = Ok tiny_spec"
proof -
  have t: "translated ''/b'' guarded_config = tiny_spec"
    by (simp add: translated_def build_spec_def guarded_config_def limited_config_def tiny_config_def tiny_spec_def default_spec_def
        linux_result_def no_linux_def caps_result_def resolve_rootfs_def is_absolute_def
        option_flags_def user_uid_def user_gid_def ns_union_def Let_def)
  have "checked_bounds tiny_spec" using tiny_spec_ok(3) by (simp add: encode_Ok_iff)
  moreover have "supported guarded_config"
    by (simp add: supported_def guarded_config_def limited_config_def tiny_config_def linux_supported_def ns_union_def)
  ultimately show ?thesis by (simp add: config_to_spec_Ok t)
qed

lemma guarded_prepare:
   "prepare_create demo_host ''/run/krunc'' ''a'' ''/b'' (demo_world guarded_config)
     = (Ok (guarded_config, tiny_spec), (demo_world guarded_config)\<lparr>w_log := [Read [''b'', ''config.json''], Open_device]\<rparr>)"
proof -
  let ?w1 = "(demo_world guarded_config)\<lparr>w_log := [Read [''b'', ''config.json'']]\<rparr>"
  have 1: "path_exists demo_host (state_path ''/run/krunc'' ''a'') (demo_world guarded_config) = False"
    by (simp add: file_defs demo_host_def demo_world_def)
  have 2: "read_file demo_host (path_join ''/b'' ''config.json'') (demo_world guarded_config)
      = (Ok (Some (Config guarded_config)), ?w1)"
    by (simp add: run_defs file_defs demo_host_def demo_world_def)
  have 3: "prepare_rootfs demo_host ''/b'' guarded_config ?w1 = (Ok guarded_config, ?w1)"
    by (simp add: prepare_rootfs_def guarded_config_def limited_config_def tiny_config_def mount_points_def run_defs file_defs demo_host_def
      demo_world_def)
  have 4: "ho_parse_config demo_host (Config guarded_config) = Ok guarded_config" "\<not> ho_refuses demo_host l ev" for l ev
    by (simp_all add: demo_host_def)
  show ?thesis
    using guarded_translated 1 2 3 4 by (simp add: prepare_create_def read_bundle_def run_defs)
qed

text \<open>The directories of its cgroup, and the writes below them.\<close>

definition leaf_dirs :: "(path \<times> demo_file node) list" where
  "leaf_dirs = [([''sys'', ''fs'', ''cgroup'', ''k'', ''a''], Dir), ([''sys'', ''fs'', ''cgroup'', ''k''], Dir),
     ([''sys'', ''fs'', ''cgroup''], Dir), ([''sys'', ''fs''], Dir), ([''sys''], Dir)]"

lemma leaf_made:
  assumes "w_files w = w_files (demo_world cfg)"
  shows "\<exists>l. create_dir_all demo_host ''/sys/fs/cgroup/k/a'' w =
    (Ok (Some ()), w\<lparr>w_log := l, w_files := leaf_dirs @ w_files (demo_world cfg)\<rparr>)"
  using assms
  by (simp add: run_defs file_defs demo_world_def leaf_dirs_def) (rule exI [of _ "w_log w @ _"], rule refl)

lemma leaf_write:
  assumes "w_files w = leaf_dirs @ w_files (demo_world cfg)"
    and "s \<in> {''/sys/fs/cgroup/cgroup.subtree_control'', ''/sys/fs/cgroup/k/cgroup.subtree_control'',
      ''/sys/fs/cgroup/k/a/pids.max'', ''/sys/fs/cgroup/k/a/cgroup.procs''}"
  shows "write_file demo_host s b w = (Ok (Some ()), w\<lparr>w_log := w_log w @ [Write (the (resolve demo_host w s)) b]\<rparr>)"
  using assms
  by (auto simp: run_defs file_defs demo_world_def leaf_dirs_def)

lemma guarded_cgroup:
  assumes "w_files w = w_files (demo_world cfg)"
  shows "\<exists>w'. setup_cgroup demo_host ''a'' guarded_config 7 w = (Ok (Some ''/sys/fs/cgroup/k/a''), w')
    \<and> w_files w' = leaf_dirs @ w_files (demo_world cfg)"
proof -
  let ?cg = "\<lparr>cg_path = Some ''/k/a'', cg_pids_limit = Some 5, cg_memory_limit = None, cg_cpu_max = None, cg_cpu_weight = None\<rparr>"
  have cfg: "cgroup_config_of guarded_config = ?cg"
    by (simp add: cgroup_config_of_def guarded_config_def limited_config_def tiny_config_def)
  have dir: "dir_for ''a'' ?cg = ''/sys/fs/cgroup/k/a''"
    by (simp add: dir_for_def CG_ROOT_def trim_start_slash_def path_join_def is_absolute_def)
  have comps: "components ''/sys/fs/cgroup/k/a'' = [''sys'', ''fs'', ''cgroup'', ''k'', ''a'']"
     "components ''/sys/fs/cgroup'' = [''sys'', ''fs'', ''cgroup'']"
     "components ''/sys/fs/cgroup/k'' = [''sys'', ''fs'', ''cgroup'', ''k'']"
    by (simp_all add: components_def)
  obtain l where "create_dir_all demo_host ''/sys/fs/cgroup/k/a'' w =
    (Ok (Some ()), w\<lparr>w_log := l, w_files := leaf_dirs @ w_files (demo_world cfg)\<rparr>)"
    using leaf_made [OF assms] by blast
  then show ?thesis
    by (simp add: setup_cgroup_def cfg cgroup_create_def dir CG_ROOT_def comps seq_def try_io_def ret_def leaf_write Let_def path_join_def is_absolute_def
       write_limit_def cgroup_place_def)
qed

lemma guarded_save:
  assumes "w_files w = leaf_dirs @ w_files (demo_world cfg)" "sd_id st = ''a''"
  shows "\<exists>w'. save_state demo_host ''/run/krunc'' st w = (Ok (), w')"
  using assms
  by (simp add: save_state_def run_defs file_defs demo_host_def demo_world_def leaf_dirs_def)

lemma guarded_create:
  "\<exists>w'. create_from_bundle demo_host ''/run/krunc'' Map.empty ''a'' ''/b'' (demo_world guarded_config)
     = (Ok (new_state ''a'' 7 ''/b'' 1 (Some ''/sys/fs/cgroup/k/a'') (Some ''block'')), w')"
proof -
  obtain c st' where dev: "dev_create quiet_helper demo_client tiny_spec (kstate_init ()) = (Ok (1, 7), st')"
    by (rule demo_dev_create)
  let ?st = "new_state ''a'' 7 ''/b'' 1 (Some ''/sys/fs/cgroup/k/a'') (Some ''block'')"
  let ?w = "(demo_world guarded_config)\<lparr>w_log := [Read [''b'', ''config.json''], Open_device], w_kernel := st'\<rparr>"
  have maps: "map_or_drop demo_host tiny_spec 1 7 v = (Ok (), v)" for v
    by (simp add: map_or_drop_def tiny_spec_def default_spec_def run_defs)
  obtain w1 where cg: "setup_cgroup demo_host ''a'' guarded_config 7 ?w = (Ok (Some ''/sys/fs/cgroup/k/a''), w1)"
    "w_files w1 = leaf_dirs @ w_files (demo_world guarded_config)"
    using guarded_cgroup [of ?w guarded_config] by auto
  obtain w2 where g: "setup_guard demo_host guarded_config 1 (Some ''/sys/fs/cgroup/k/a'') w1 = (Ok (Some ''block''), w2)"
      "w_files w2 = w_files w1"
    by (simp add: setup_guard_def guarded_config_def bpf_lsm_mode_of_def as_arg_def bpf_arm_def bpf_run_def run_tool_def run_defs)
  obtain w3 where "save_state demo_host ''/run/krunc'' ?st w2 = (Ok (), w3)"
    using guarded_save [of w2 guarded_config ?st] cg(2) g(2) by (auto simp: new_state_def)
  then have "create_from_bundle demo_host ''/run/krunc'' Map.empty ''a'' ''/b'' (demo_world guarded_config) = (Ok ?st, w3)"
    using dev maps cg(1) g(1) guarded_prepare
    by (simp add: create_from_bundle_def register_container_def save_and_pid_def run_defs)
  then show ?thesis by blast
qed

theorem create_arms_guard_witness:
  "\<exists>w' pre post. create_from_bundle demo_host ''/run/krunc'' Map.empty ''a'' ''/b'' (demo_world guarded_config)
     = (Ok (new_state ''a'' 7 ''/b'' 1 (Some ''/sys/fs/cgroup/k/a'') (Some ''block'')), w')
   \<and> w_log w' = pre @ [Tool [''krunc-bpf'', ''guard'', ''/sys/fs/bpf/krunc'', ''/sys/fs/cgroup/k/a'', ''block'']] @ post"
proof -
  obtain w' where w': "create_from_bundle demo_host ''/run/krunc'' Map.empty ''a'' ''/b'' (demo_world guarded_config)
     = (Ok (new_state ''a'' 7 ''/b'' 1 (Some ''/sys/fs/cgroup/k/a'') (Some ''block'')), w')"
    using guarded_create by blast
  have vars: "bpf_tool demo_host = ''krunc-bpf''" "pin_dir demo_host = ''/sys/fs/bpf/krunc''"
    by (simp_all add: bpf_tool_def pin_dir_def var_or_def demo_host_def)
  have "layout_ok (ho_client demo_host) K_MAX_SPEC" using demo_layout by simp
  from create_arms_guard [OF w' this] obtain w2 :: "(unit, demo_file) world" and x post where
    "w_log w' = w_log w2 @ [x, Tool [''krunc-bpf'', ''guard'', ''/sys/fs/bpf/krunc'', ''/sys/fs/cgroup/k/a'', ''block'']] @ post"
    by (auto simp: new_state_def vars Let_def)
  then have "w_log w' = (w_log w2 @ [x]) @ [Tool [''krunc-bpf'', ''guard'', ''/sys/fs/bpf/krunc'', ''/sys/fs/cgroup/k/a'', ''block'']] @ post"
    by simp
  then show ?thesis using w' by blast
qed

end
