(* ===== verification/Cli_Synth.thy ===== *)
theory Cli_Synth
  imports Cli_Run Oci_Serde Json_Properties Oci_Properties
begin

text \<open>
  \<open>userspace/krunc-cli/src/main.rs\<close>, the configuration \<open>run\<close> synthesizes: what any conforming
  parser reads from the text of \<open>synth_config\<close>, and what it is translated to.
\<close>

section \<open>The parameters\<close>

text \<open>
  \<open>serde_json::to_string\<close> of a string is a JSON text of that string, and parsing the bytes of a
  text conforms.
\<close>

definition json_host :: "('os, 'b) host \<Rightarrow> bool" where
  "json_host e \<longleftrightarrow> (\<forall>s. json_read (ho_json_string e s) = Accepted (JStr s))
     \<and> conforms (\<lambda>s. ho_parse_config e (ho_text e s))"

section \<open>Reading the text\<close>

text \<open>
  The value of the text, where \<open>path\<close> are the members that the path of the cgroup, in which the
  name stands as it is, makes of the \<open>linux\<close> object.
\<close>

definition synth_value :: "string \<Rightarrow> string list \<Rightarrow> string \<Rightarrow> bool \<Rightarrow> (string \<times> json) list \<Rightarrow> json" where
  "synth_value rootfs args name term path = JObj [
     (''ociVersion'', JStr ''1.0.2-dev''),
     (''hostname'', JStr name),
     (''process'', JObj [
       (''terminal'', JBool term),
       (''user'', JObj [(''uid'', JNum 0), (''gid'', JNum 0)]),
       (''args'', JArr (map JStr args)),
       (''env'', JArr [JStr ''PATH=/usr/sbin:/usr/bin:/sbin:/bin'', JStr ''HOME=/root'',
          JStr ''TERM=xterm'', JStr ''container=krunc'']),
       (''cwd'', JStr ''/''),
       (''noNewPrivileges'', JBool True),
       (''capabilities'', JObj [(''bounding'', JArr []), (''effective'', JArr []),
          (''permitted'', JArr []), (''inheritable'', JArr []), (''ambient'', JArr [])])]),
     (''root'', JObj [(''path'', JStr rootfs), (''readonly'', JBool False)]),
     (''linux'', JObj ([
       (''namespaces'', JArr [JObj [(''type'', JStr ''pid'')], JObj [(''type'', JStr ''mount'')],
          JObj [(''type'', JStr ''uts'')], JObj [(''type'', JStr ''ipc'')],
          JObj [(''type'', JStr ''network'')]])] @ path @ [
       (''resources'', JObj [(''pids'', JObj [(''limit'', JNum 256)]),
          (''memory'', JObj [(''limit'', JNum 268435456)])]),
       (''maskedPaths'', JArr [JStr ''/proc/kcore'', JStr ''/proc/sysrq-trigger'']),
       (''readonlyPaths'', JArr [JStr ''/proc/sys''])])),
     (''mounts'', JArr [
       JObj [(''destination'', JStr ''/proc''), (''type'', JStr ''proc''), (''source'', JStr ''proc'')],
       JObj [(''destination'', JStr ''/sys''), (''type'', JStr ''sysfs''), (''source'', JStr ''sysfs''),
          (''options'', JArr [JStr ''nosuid'', JStr ''nodev'', JStr ''noexec'', JStr ''ro''])],
       JObj [(''destination'', JStr ''/tmp''), (''type'', JStr ''tmpfs''), (''source'', JStr ''tmpfs''),
          (''options'', JArr [JStr ''nosuid'', JStr ''nodev'', JStr ''noexec''])]])]"

lemma lex_arguments:
  assumes "json_host e"
  shows "lex_run Between (join_comma (map (ho_json_string e) args)) = Accepted (string_tokens args, Between)"
proof (rule lex_literals)
  have "string_literal (ho_json_string e s) s" for s
    using assms by (intro string_literal_read) (simp add: json_host_def)
  then show "list_all2 string_literal (map (ho_json_string e) args) args"
    by (simp add: list_all2_map1 list_all2_same)
qed simp_all

text \<open>
  Reading the text comes down to reading the name inside the string of the path: the tokens \<open>ts\<close>
  it completes, and the string it leaves open, which the next quotation mark ends.
\<close>

lemma synth_pieces:
  assumes "json_host e"
  shows "lex_run (In_string (rev ''krunc/'')) name = Accepted (ts, In_string acc) \<Longrightarrow>
      (\<And>ms st us. token_run (Want_value, In_object ms ''cgroupsPath'' # st) (ts @ Scalar (JStr (rev acc)) # us)
         = token_run (Have (JStr v), In_object (rev ms' @ ms) k # st) us) \<Longrightarrow>
      json_read (synth_config e rootfs args name term) =
        Accepted (synth_value rootfs args name term (ms' @ [(k, JStr v)]))"
    and "lex_run (In_string (rev ''krunc/'')) name = Rejected \<Longrightarrow>
      json_read (synth_config e rootfs args name term) = Rejected"
proof -
  define nt where "nt = ho_json_string e name"
  define rt where "rt = ho_json_string e rootfs"
  define at where "at = join_comma (map (ho_json_string e) args)"
  define tt where "tt = (if term then ''true'' else ''false'')"
  have lit: "lex_run Between nt = Accepted ([Scalar (JStr name)], Between)"
      "lex_run Between rt = Accepted ([Scalar (JStr rootfs)], Between)"
    using assms string_literal_read by (auto simp: nt_def rt_def json_host_def string_literal_def)
  have at: "lex_run Between at = Accepted (string_tokens args, Between)"
    using lex_arguments [OF assms] by (simp add: at_def)
  have tt: "lex_run Between tt = Accepted ([], In_word (rev tt))"
      "word_token tt = Accepted (Scalar (JBool term))"
    by (simp_all add: tt_def lexer_simps)
  note written = synth_config_def Let_def nt_def [symmetric] rt_def [symmetric] at_def [symmetric]
    tt_def [symmetric]
  show "json_read (synth_config e rootfs args name term) = Rejected"
    if "lex_run (In_string (rev ''krunc/'')) name = Rejected"
    unfolding written piecewise
    using that by (simp add: lit at tt lexer_simps number_token_def digit_value_def)
  show "json_read (synth_config e rootfs args name term) =
      Accepted (synth_value rootfs args name term (ms' @ [(k, JStr v)]))"
    if lex: "lex_run (In_string (rev ''krunc/'')) name = Accepted (ts, In_string acc)"
      and run: "\<And>ms st us. token_run (Want_value, In_object ms ''cgroupsPath'' # st) (ts @ Scalar (JStr (rev acc)) # us)
         = token_run (Have (JStr v), In_object (rev ms' @ ms) k # st) us"
  proof -
    have "\<exists>us. json_lex (synth_config e rootfs args name term) = Accepted us
        \<and> json_parse us = Accepted (synth_value rootfs args name term (ms' @ [(k, JStr v)]))"
      unfolding written piecewise json_parse_Accepted using lex
      by (simp add: lit at tt run lexer_simps string_tokens_array number_token_def digit_value_def
          synth_value_def)
    then show ?thesis by (auto simp: json_read_def)
  qed
qed

lemma synth_read:
  assumes "json_host e" "list_all plain_char name"
  shows "json_read (synth_config e rootfs args name term) =
    Accepted (synth_value rootfs args name term [(''cgroupsPath'', JStr (''krunc/'' @ name))])"
proof -
  have "lex_run (In_string (rev ''krunc/'')) name = Accepted ([], In_string (rev name @ rev ''krunc/''))"
    by (rule lex_plain [OF assms(2)])
  from synth_pieces(1) [OF assms(1) this, where ms' = "[]" and k = "''cgroupsPath''"]
  show ?thesis by simp
qed

text \<open>
  A name with a quotation mark. When no JSON text can go on with the character after it, there is
  nothing to read; when a comma, a name and a value follow, they are a member of their own.
\<close>

definition no_token :: "char \<Rightarrow> bool" where
  "no_token c \<longleftrightarrow> lex_start c = Rejected"

lemma no_token_iff: "no_token c \<longleftrightarrow>
    c \<notin> set ''{}[]:,-0123456789tfn '' \<and> c \<noteq> CHR 0x22 \<and> c \<noteq> CHR 0x0A \<and> c \<noteq> CHR 0x0D \<and> c \<noteq> CHR 0x09"
  by (auto simp: no_token_def lex_start_def json_digit_def)

lemma synth_quote:
  assumes "json_host e" "list_all plain_char pre" "no_token c"
  shows "json_read (synth_config e rootfs args (pre @ CHR 0x22 # c # post) term) = Rejected"
  using assms(3)
  by (intro synth_pieces(2) [OF assms(1)])
     (simp add: lex_run_append lex_plain [OF assms(2)] no_token_def)

definition injecting :: "string \<Rightarrow> string \<Rightarrow> string \<Rightarrow> string" where
  "injecting pre key post = pre @ [CHR 0x22, CHR '','', CHR 0x22] @ key
     @ [CHR 0x22, CHR '':'', CHR 0x22] @ post"

lemma synth_injected:
  assumes "json_host e" "list_all plain_char pre" "list_all plain_char key" "list_all plain_char post"
  shows "json_read (synth_config e rootfs args (injecting pre key post) term) =
    Accepted (synth_value rootfs args (injecting pre key post) term
      [(''cgroupsPath'', JStr (''krunc/'' @ pre)), (key, JStr post)])"
proof -
  have "lex_run (In_string (rev ''krunc/'')) (injecting pre key post) =
      Accepted ([Scalar (JStr (''krunc/'' @ pre)), Comma, Scalar (JStr key), Colon], In_string (rev post))"
    by (simp add: injecting_def lex_run_append lex_plain assms(2-4) lex_start_def)
  from synth_pieces(1) [OF assms(1) this,
    where ms' = "[(''cgroupsPath'', JStr (''krunc/'' @ pre))]" and k = key]
  show ?thesis by simp
qed

section \<open>What it means\<close>

definition synth_oci :: "string \<Rightarrow> string list \<Rightarrow> string \<Rightarrow> bool \<Rightarrow> string \<Rightarrow> string list \<Rightarrow> oci_config" where
  "synth_oci rootfs args name term cg extra =
     \<lparr>oc_hostname = Some name,
      oc_process = Some \<lparr>pr_terminal = term, pr_args = args,
        pr_env = [''PATH=/usr/sbin:/usr/bin:/sbin:/bin'', ''HOME=/root'', ''TERM=xterm'',
          ''container=krunc''],
        pr_cwd = Some ''/'', pr_user = Some \<lparr>ou_uid = 0, ou_gid = 0, ou_additional_gids = []\<rparr>,
        pr_capabilities = Some \<lparr>cp_bounding = [], cp_effective = [], cp_permitted = [],
          cp_inheritable = [], cp_ambient = []\<rparr>,
        pr_no_new_privileges = True, pr_rlimits = [], pr_oom_score_adj = None, pr_extra = []\<rparr>,
      oc_root = Some \<lparr>rt_path = rootfs, rt_readonly = False\<rparr>,
      oc_linux = Some \<lparr>lx_namespaces = map (\<lambda>t. \<lparr>on_ns_type = t, on_path = None\<rparr>)
          [''pid'', ''mount'', ''uts'', ''ipc'', ''network''],
        lx_uid_mappings = [], lx_gid_mappings = [],
        lx_resources = Some \<lparr>rs_pids = Some 256, rs_memory = Some (Some 268435456),
          rs_cpu = None, rs_extra = []\<rparr>,
        lx_cgroups_path = Some cg,
        lx_masked_paths = [''/proc/kcore'', ''/proc/sysrq-trigger''],
        lx_readonly_paths = [''/proc/sys''], lx_sysctl = [], lx_extra = extra\<rparr>,
      oc_mounts = [
        \<lparr>om_destination = ''/proc'', om_mount_type = ''proc'', om_source = ''proc'', om_options = []\<rparr>,
        \<lparr>om_destination = ''/sys'', om_mount_type = ''sysfs'', om_source = ''sysfs'',
         om_options = [''nosuid'', ''nodev'', ''noexec'', ''ro'']\<rparr>,
        \<lparr>om_destination = ''/tmp'', om_mount_type = ''tmpfs'', om_source = ''tmpfs'',
         om_options = [''nosuid'', ''nodev'', ''noexec'']\<rparr>],
      oc_annotations = [], oc_extra = []\<rparr>"

lemmas synth_readers = synth_value_def synth_oci_def j_config_def j_process_def j_user_def j_root_def
  j_linux_def j_namespace_def j_resources_def j_pids_def j_memory_def j_mount_def j_capabilities_def
  j_defs process_fields_def linux_fields_def config_fields_def

lemma synth_value_config:
  "j_config (synth_value rootfs args name term [(''cgroupsPath'', JStr cg)])
     = Accepted (synth_oci rootfs args name term cg [])"
  by (simp add: synth_readers)

lemma injected_value_config:
  assumes "key \<notin> set linux_fields"
  shows "j_config (synth_value rootfs args name term [(''cgroupsPath'', JStr cg), (key, JStr v)])
     = Accepted (synth_oci rootfs args name term cg [key])"
proof -
  have "key \<noteq> n \<and> n \<noteq> key" if "n \<in> set linux_fields" for n using assms that by auto
  note known = this [unfolded linux_fields_def, simplified]
  show ?thesis using known by (simp add: synth_readers)
qed

lemma synth_few: "length extra \<le> 1 \<Longrightarrow> few_entries (synth_oci rootfs args name term cg extra)"
  by (simp add: few_entries_def all_of_def few_linux_def synth_oci_def)

lemma host_parse:
  assumes "json_host e"
  shows "json_config s = Accepted cfg \<Longrightarrow> few_entries cfg \<Longrightarrow> ho_parse_config e (ho_text e s) = Ok cfg"
    and "json_config s = Rejected \<Longrightarrow> \<exists>err. ho_parse_config e (ho_text e s) = Err (Json err)"
proof -
  have c: "conforms (\<lambda>s. ho_parse_config e (ho_text e s))" using assms by (simp add: json_host_def)
  show "json_config s = Accepted cfg \<Longrightarrow> few_entries cfg \<Longrightarrow> ho_parse_config e (ho_text e s) = Ok cfg"
    by (rule conforms_Ok [OF c])
  show "json_config s = Rejected \<Longrightarrow> \<exists>err. ho_parse_config e (ho_text e s) = Err (Json err)"
    by (rule conformsD(2) [OF c])
qed

lemma synth_parse:
  assumes "json_host e" "list_all plain_char name"
  shows "ho_parse_config e (ho_text e (synth_config e rootfs args name term)) =
    Ok (synth_oci rootfs args name term (''krunc/'' @ name) [])"
  by (rule host_parse(1) [OF assms(1)])
     (simp_all add: json_config_def synth_read [OF assms] synth_value_config synth_few)

lemma injected_parse:
  assumes "json_host e" "list_all plain_char pre" "list_all plain_char key" "list_all plain_char post"
    and "key \<notin> set linux_fields"
  shows "ho_parse_config e (ho_text e (synth_config e rootfs args (injecting pre key post) term)) =
    Ok (synth_oci rootfs args (injecting pre key post) term (''krunc/'' @ pre) [key])"
  by (rule host_parse(1) [OF assms(1)])
     (simp_all add: json_config_def synth_injected [OF assms(1-4)] injected_value_config [OF assms(5)]
       synth_few)

lemma synth_namespaces: "ns_union [''pid'', ''mount'', ''uts'', ''ipc'', ''network''] = 0x6C020000"
  by (simp add: ns_union_def ns_bit_def ns_flag_def ns_defs)

lemma synth_supported:
  "supported (synth_oci rootfs args name term cg extra) \<longleftrightarrow>
     args \<noteq> [] \<and> \<not> term \<and> rootfs \<noteq> [] \<and> extra = []"
  by (auto simp: supported_def synth_oci_def linux_supported_def ns_supported_def caps_known_def
      known_mount_options_def Let_def)

lemma synth_translated:
  fixes rootfs args name cg
  defines "cfg \<equiv> synth_oci rootfs args name False cg []"
  shows "(\<exists>s. config_to_spec dir cfg = Ok s) \<longleftrightarrow>
      args \<noteq> [] \<and> rootfs \<noteq> [] \<and> length (resolve_rootfs dir rootfs) \<le> MAX_STR
      \<and> length name \<le> MAX_STR \<and> length args \<le> MAX_ARGV \<and> list_all (\<lambda>a. length a \<le> MAX_STR) args"
    and "config_to_spec dir cfg = Ok s \<Longrightarrow>
      sp_argv s = args \<and> sp_rootfs s = resolve_rootfs dir rootfs \<and> sp_hostname s = name
      \<and> sp_flags s = OPT_NO_NEW_PRIVS \<and> sp_caps_present s \<and> sp_cap_bounding s = 0
      \<and> sp_cap_effective s = 0 \<and> sp_cap_permitted s = 0 \<and> sp_cap_inheritable s = 0
      \<and> sp_cap_ambient s = 0 \<and> sp_uid s = 0 \<and> sp_gid s = 0
      \<and> sp_namespaces s = NS_PID OR NS_MOUNT OR NS_UTS OR NS_IPC OR NS_NET"
proof -
  have b: "checked_bounds (translated dir cfg) \<longleftrightarrow> length (resolve_rootfs dir rootfs) \<le> MAX_STR
      \<and> length name \<le> MAX_STR \<and> length args \<le> MAX_ARGV \<and> list_all (\<lambda>a. length a \<le> MAX_STR) args"
    by (auto simp: cfg_def checked_bounds_def translated_def build_spec_def synth_oci_def
        linux_result_def abi_max_defs Let_def)
  show "(\<exists>s. config_to_spec dir cfg = Ok s) \<longleftrightarrow>
      args \<noteq> [] \<and> rootfs \<noteq> [] \<and> length (resolve_rootfs dir rootfs) \<le> MAX_STR
      \<and> length name \<le> MAX_STR \<and> length args \<le> MAX_ARGV \<and> list_all (\<lambda>a. length a \<le> MAX_STR) args"
    unfolding config_to_spec_Ok b by (auto simp: cfg_def synth_supported)
  show "sp_argv s = args \<and> sp_rootfs s = resolve_rootfs dir rootfs \<and> sp_hostname s = name
      \<and> sp_flags s = OPT_NO_NEW_PRIVS \<and> sp_caps_present s \<and> sp_cap_bounding s = 0
      \<and> sp_cap_effective s = 0 \<and> sp_cap_permitted s = 0 \<and> sp_cap_inheritable s = 0
      \<and> sp_cap_ambient s = 0 \<and> sp_uid s = 0 \<and> sp_gid s = 0
      \<and> sp_namespaces s = NS_PID OR NS_MOUNT OR NS_UTS OR NS_IPC OR NS_NET"
    if "config_to_spec dir cfg = Ok s"
  proof -
    have s: "s = translated dir cfg" using that by (simp add: config_to_spec_Ok)
    show ?thesis
      unfolding s by (simp add: cfg_def translated_def build_spec_def synth_oci_def linux_result_def
          caps_result_def cap_union_def option_flags_def user_uid_def user_gid_def synth_namespaces
          ns_defs Let_def)
  qed
qed

lemma unsupported_refused: "\<not> supported cfg \<Longrightarrow> \<exists>err. config_to_spec dir cfg = Err err"
  using config_to_spec_Ok [of dir cfg] by (cases "config_to_spec dir cfg") auto

section \<open>Property\<close>

text \<open>
C17 (the synthesized configuration). When the name is made of printable characters other than
the quotation mark and the backslash, what \<open>run\<close> writes is parsed to a configuration with
that name, those arguments and that root, limited to 256 processes and 256 MiB in the cgroup
\<open>krunc/\<close>name. It is translated exactly when there is an argument, no terminal is asked for and
the strings and their number are within the bounds of the ABI; the container then has no
capability, cannot gain privileges, and has its own process, mount, host name, IPC and network
namespaces. The name stands in the path of the cgroup unescaped, so a quotation mark in it ends
that path: before a character that begins no JSON token the text is refused, while a name that
goes on with a comma, a field and a value is parsed with that field added to the \<open>linux\<close> object
and the path cut short; the translation refuses it for a field it does not know.
\<close>

theorem synth_config_accepted:
  assumes "json_host e" "list_all plain_char name"
  shows "(\<exists>cfg. ho_parse_config e (ho_text e (synth_config e rootfs args name term)) = Ok cfg
      \<and> oc_hostname cfg = Some name
      \<and> cgroup_config_of cfg = \<lparr>cg_path = Some (''krunc/'' @ name), cg_pids_limit = Some 256,
          cg_memory_limit = Some 268435456, cg_cpu_max = None, cg_cpu_weight = None\<rparr>
      \<and> ((\<exists>s. config_to_spec bundle cfg = Ok s) \<longleftrightarrow>
           args \<noteq> [] \<and> \<not> term \<and> rootfs \<noteq> [] \<and> length (resolve_rootfs bundle rootfs) \<le> MAX_STR
           \<and> length name \<le> MAX_STR \<and> length args \<le> MAX_ARGV \<and> list_all (\<lambda>a. length a \<le> MAX_STR) args)
      \<and> (case config_to_spec bundle cfg of Err _ \<Rightarrow> True | Ok s \<Rightarrow>
           sp_argv s = args \<and> sp_rootfs s = resolve_rootfs bundle rootfs \<and> sp_hostname s = name
           \<and> sp_flags s = OPT_NO_NEW_PRIVS \<and> sp_caps_present s \<and> sp_cap_bounding s = 0
           \<and> sp_cap_effective s = 0 \<and> sp_cap_permitted s = 0 \<and> sp_cap_inheritable s = 0
           \<and> sp_cap_ambient s = 0 \<and> sp_uid s = 0 \<and> sp_gid s = 0
           \<and> sp_namespaces s = NS_PID OR NS_MOUNT OR NS_UTS OR NS_IPC OR NS_NET))
    \<and> (\<forall>c post. no_token c \<longrightarrow> (\<exists>err. ho_parse_config e (ho_text e
          (synth_config e rootfs args (name @ CHR 0x22 # c # post) term)) = Err (Json err)))
    \<and> (\<forall>key post. list_all plain_char key \<and> list_all plain_char post \<and> key \<notin> set linux_fields \<longrightarrow>
        (\<exists>cfg l err. ho_parse_config e (ho_text e
            (synth_config e rootfs args (injecting name key post) term)) = Ok cfg
          \<and> oc_linux cfg = Some l \<and> lx_extra l = [key] \<and> lx_cgroups_path l = Some (''krunc/'' @ name)
          \<and> config_to_spec bundle cfg = Err err))"
proof (intro conjI allI impI)
  let ?cfg = "synth_oci rootfs args name term (''krunc/'' @ name) []"
  have cg: "oc_hostname ?cfg = Some name" "cgroup_config_of ?cfg = \<lparr>cg_path = Some (''krunc/'' @ name),
      cg_pids_limit = Some 256, cg_memory_limit = Some 268435456, cg_cpu_max = None, cg_cpu_weight = None\<rparr>"
    by (simp_all add: cgroup_config_of_def synth_oci_def)
  have iff: "(\<exists>s. config_to_spec bundle ?cfg = Ok s) \<longleftrightarrow> args \<noteq> [] \<and> \<not> term \<and> rootfs \<noteq> []
      \<and> length (resolve_rootfs bundle rootfs) \<le> MAX_STR \<and> length name \<le> MAX_STR
      \<and> length args \<le> MAX_ARGV \<and> list_all (\<lambda>a. length a \<le> MAX_STR) args"
    using synth_translated(1) by (cases "term") (simp_all add: config_to_spec_Ok synth_supported)
  have what: "case config_to_spec bundle ?cfg of Err _ \<Rightarrow> True | Ok s \<Rightarrow>
       sp_argv s = args \<and> sp_rootfs s = resolve_rootfs bundle rootfs \<and> sp_hostname s = name
       \<and> sp_flags s = OPT_NO_NEW_PRIVS \<and> sp_caps_present s \<and> sp_cap_bounding s = 0
       \<and> sp_cap_effective s = 0 \<and> sp_cap_permitted s = 0 \<and> sp_cap_inheritable s = 0
       \<and> sp_cap_ambient s = 0 \<and> sp_uid s = 0 \<and> sp_gid s = 0
       \<and> sp_namespaces s = NS_PID OR NS_MOUNT OR NS_UTS OR NS_IPC OR NS_NET"
  proof (cases "config_to_spec bundle ?cfg")
    case (Inr s)
    then have "\<not> term" by (simp add: config_to_spec_Ok synth_supported)
    then show ?thesis using Inr synth_translated(2) by simp
  qed simp
  show "\<exists>cfg. ho_parse_config e (ho_text e (synth_config e rootfs args name term)) = Ok cfg
      \<and> oc_hostname cfg = Some name
      \<and> cgroup_config_of cfg = \<lparr>cg_path = Some (''krunc/'' @ name), cg_pids_limit = Some 256,
          cg_memory_limit = Some 268435456, cg_cpu_max = None, cg_cpu_weight = None\<rparr>
      \<and> ((\<exists>s. config_to_spec bundle cfg = Ok s) \<longleftrightarrow>
           args \<noteq> [] \<and> \<not> term \<and> rootfs \<noteq> [] \<and> length (resolve_rootfs bundle rootfs) \<le> MAX_STR
           \<and> length name \<le> MAX_STR \<and> length args \<le> MAX_ARGV \<and> list_all (\<lambda>a. length a \<le> MAX_STR) args)
      \<and> (case config_to_spec bundle cfg of Err _ \<Rightarrow> True | Ok s \<Rightarrow>
           sp_argv s = args \<and> sp_rootfs s = resolve_rootfs bundle rootfs \<and> sp_hostname s = name
           \<and> sp_flags s = OPT_NO_NEW_PRIVS \<and> sp_caps_present s \<and> sp_cap_bounding s = 0
           \<and> sp_cap_effective s = 0 \<and> sp_cap_permitted s = 0 \<and> sp_cap_inheritable s = 0
           \<and> sp_cap_ambient s = 0 \<and> sp_uid s = 0 \<and> sp_gid s = 0
           \<and> sp_namespaces s = NS_PID OR NS_MOUNT OR NS_UTS OR NS_IPC OR NS_NET)"
    unfolding synth_parse [OF assms] by (intro exI [of _ ?cfg] conjI refl cg iff what)
next
  fix c post assume "no_token c"
  then show "\<exists>err. ho_parse_config e (ho_text e
      (synth_config e rootfs args (name @ CHR 0x22 # c # post) term)) = Err (Json err)"
    by (intro host_parse(2) [OF assms(1)]) (simp add: json_config_def synth_quote [OF assms])
next
  fix key post
  assume k: "list_all plain_char key \<and> list_all plain_char post \<and> key \<notin> set linux_fields"
  let ?cfg = "synth_oci rootfs args (injecting name key post) term (''krunc/'' @ name) [key]"
  have "ho_parse_config e (ho_text e (synth_config e rootfs args (injecting name key post) term)) = Ok ?cfg"
    using k by (intro injected_parse [OF assms]) simp_all
  moreover obtain l where "oc_linux ?cfg = Some l" "lx_extra l = [key]"
      "lx_cgroups_path l = Some (''krunc/'' @ name)"
    by (simp add: synth_oci_def)
  moreover obtain err where "config_to_spec bundle ?cfg = Err err"
    using unsupported_refused [of ?cfg "bundle"] by (auto simp: synth_supported)
  ultimately show "\<exists>cfg l err. ho_parse_config e (ho_text e
            (synth_config e rootfs args (injecting name key post) term)) = Ok cfg
          \<and> oc_linux cfg = Some l \<and> lx_extra l = [key] \<and> lx_cgroups_path l = Some (''krunc/'' @ name)
          \<and> config_to_spec bundle cfg = Err err"
    by blast
qed

text \<open>A machine whose files are texts, with a writer of JSON strings and the reference parser.\<close>

definition json_escape :: "string \<Rightarrow> string" where
  "json_escape s = quoted (concat (map (\<lambda>c. if plain_char c then [c] else
     [CHR 0x5C] @ ''u00'' @ [hex_digit (of_char c div 16), hex_digit (of_char c)]) s))"

lemma hex_digits:
  assumes "n < 16"
  shows "hex_value (hex_digit n) = Some n"
proof -
  have "n \<in> set [0..<16]" using assms by simp
  then show ?thesis
    by (simp add: upt_rec) (elim disjE; simp add: hex_value_def hex_digit_def upt_rec)
qed

lemma not_plain_small: "\<not> plain_char c \<Longrightarrow> of_char c < (128::nat)"
  by (cases c) (auto simp: plain_char_def is_control_def of_char_def)

lemma lex_escaped: "lex_run (In_string acc) (concat (map (\<lambda>c. if plain_char c then [c] else
     [CHR 0x5C] @ ''u00'' @ [hex_digit (of_char c div 16), hex_digit (of_char c)]) s)) =
   Accepted ([], In_string (rev s @ acc))"
proof (induction s arbitrary: acc)
  case (Cons c s)
  show ?case
  proof (cases "plain_char c")
    case True
    then show ?thesis using Cons by (simp add: plain_char_def)
  next
    case False
    let ?n = "of_char c :: nat"
    have n: "?n < 128" by (rule not_plain_small [OF False])
    have m: "hex_digit ?n = hex_digit (?n mod 16)" by (simp add: hex_digit_def)
    have h: "hex_value (hex_digit ?n) = Some (?n mod 16)"
        "hex_value (hex_digit (?n div 16)) = Some (?n div 16)" "hex_value (CHR ''0'') = Some 0"
      using n hex_digits [of 0] unfolding m by (simp_all add: hex_digits) (simp add: hex_value_def upt_rec)
    have v: "?n div 16 * 16 + ?n mod 16 = ?n" by simp
    show ?thesis using False Cons n by (simp add: h v utf8_of_def ac_simps)
  qed
qed simp

lemma json_escape_read: "json_read (json_escape s) = Accepted (JStr s)"
  by (simp add: json_escape_def quoted_def json_read_def json_lex_def lex_run_append lex_escaped
      lexer_simps json_parse_def)

datatype synth_file = Synth_text string | Synth_state state_file

definition synth_host :: "(unit, synth_file) host" where
  "synth_host = \<lparr>ho_helper = quiet_helper, ho_client = demo_client, ho_refuses = (\<lambda>_ _. False),
     ho_torn = (\<lambda>_ _. Synth_text []), ho_survives = (\<lambda>_ _. False), ho_text = Synth_text,
     ho_to_json = Synth_state, ho_from_json = (\<lambda>b. case b of Synth_state s \<Rightarrow> Some s | _ \<Rightarrow> None),
     ho_parse_config = (\<lambda>b. case b of Synth_text t \<Rightarrow> reference_parse t | _ \<Rightarrow> Err (Json [])),
     ho_json_string = json_escape, ho_cwd = [], ho_temp_dir = ''/tmp'', ho_var = (\<lambda>_. None),
     ho_now = 0, ho_waitpid = (\<lambda>_ _. Reaped 0), ho_elapse = (\<lambda>_ os. os)\<rparr>"

lemma synth_json_host: "json_host synth_host"
  by (simp add: json_host_def synth_host_def json_escape_read reference_conforms [simplified])

theorem synth_config_accepted_witness:
  "(\<exists>cfg s. ho_parse_config synth_host (ho_text synth_host
       (synth_config synth_host ''/images/a'' [''/bin/sh''] ''web'' False)) = Ok cfg
     \<and> config_to_spec ''/tmp'' cfg = Ok s \<and> sp_argv s = [''/bin/sh''])
   \<and> (\<exists>cfg l. ho_parse_config synth_host (ho_text synth_host
       (synth_config synth_host ''/images/a'' [''/bin/sh''] (injecting ''web'' ''foo'' ''y'') False)) = Ok cfg
     \<and> oc_linux cfg = Some l \<and> lx_extra l = [''foo''])"
proof -
  have "list_all plain_char ''web''" by (simp add: plain_char_def is_control_def)
  note a = synth_config_accepted [OF synth_json_host this, of "''/images/a''" "[''/bin/sh'']" False
      "''/tmp''"]
  obtain cfg where c: "ho_parse_config synth_host (ho_text synth_host
       (synth_config synth_host ''/images/a'' [''/bin/sh''] ''web'' False)) = Ok cfg"
      and t: "\<exists>s. config_to_spec ''/tmp'' cfg = Ok s"
      and p: "case config_to_spec ''/tmp'' cfg of Err _ \<Rightarrow> True | Ok s \<Rightarrow> sp_argv s = [''/bin/sh'']"
    using a [THEN conjunct1]
    by (elim exE conjE) (simp add: resolve_rootfs_def is_absolute_def abi_max_defs
        split: sum.splits)
  moreover have "list_all plain_char ''foo'' \<and> list_all plain_char ''y'' \<and> ''foo'' \<notin> set linux_fields"
    by (simp add: plain_char_def is_control_def linux_fields_def)
  ultimately show ?thesis using a [THEN conjunct2, THEN conjunct2, rule_format, of "''foo''" "''y''"] by auto
qed

end
