(* ===== verification/Cli_Tests.thy ===== *)
theory Cli_Tests
  imports Cli_Synth Crate_Tests
begin

text \<open>
  \<open>userspace/krunc-cli/src/main.rs\<close>, the unit tests, each as a Boolean: on the text \<open>run\<close>
  synthesizes, with the JSON library of a host, and on the words of \<open>waitpid\<close>.
\<close>

definition synth_config_parses_under_strict_rules :: "('os, 'b) host \<Rightarrow> bool" where
  "synth_config_parses_under_strict_rules e =
     (let args = [''/bin/sh'', ''-c'', ''echo hi''];
          json = synth_config e ''/img/rootfs'' args ''krunc-test'' False in
      unwraps (ho_parse_config e (ho_text e json)) (\<lambda>cfg.
      unwraps (config_to_spec ''/img'' cfg) (\<lambda>spec.
        sp_rootfs spec = ''/img/rootfs'' \<and> sp_argv spec = args)))"

definition synth_config_with_terminal_is_rejected :: "('os, 'b) host \<Rightarrow> bool" where
  "synth_config_with_terminal_is_rejected e =
     (let args = [''/bin/sh''];
          json = synth_config e ''/img/rootfs'' args ''krunc-test'' True in
      unwraps (ho_parse_config e (ho_text e json)) (\<lambda>cfg. \<not> is_ok (config_to_spec ''/img'' cfg)))"

text \<open>\<open>exit_annotations\<close> always has a map, the list here.\<close>

definition exit_annotations_decode_code_and_signal :: bool where
  "exit_annotations_decode_code_and_signal =
     ((let a = exit_annotations (push_bit 8 42) in
         map_of a ''org.krunc.exitCode'' = Some ''42'' \<and> map_of a ''org.krunc.exitSignal'' = None)
      \<and> (let a = exit_annotations 9 in
         map_of a ''org.krunc.exitSignal'' = Some ''9'' \<and> map_of a ''org.krunc.exitCode'' = None)
      \<and> (let a = exit_annotations 0 in map_of a ''org.krunc.exitCode'' = Some ''0''))"

section \<open>Properties\<close>

text \<open>
The unit tests of the tool. All tests of \<open>main.rs\<close> pass, on every host whose JSON library
renders strings and reads texts as the grammar says.
\<close>

theorem cli_unit_tests_pass:
  assumes "json_host e"
  shows "synth_config_parses_under_strict_rules e \<and> synth_config_with_terminal_is_rejected e
    \<and> exit_annotations_decode_code_and_signal"
proof -
  have name: "list_all plain_char ''krunc-test''" by (simp add: plain_char_def is_control_def)
  note parse = synth_parse [OF assms name]
  define cfg where "cfg = synth_oci ''/img/rootfs'' [''/bin/sh'', ''-c'', ''echo hi''] ''krunc-test'' False ''krunc/krunc-test'' []"
  have "supported cfg" by (simp add: cfg_def synth_supported)
  moreover have "checked_bounds (translated ''/img'' cfg)"
    by (simp add: cfg_def checked_bounds_def translated_def build_spec_def synth_oci_def linux_result_def
        resolve_rootfs_def is_absolute_def abi_max_defs Let_def)
  ultimately have "config_to_spec ''/img'' cfg = Ok (translated ''/img'' cfg)"
    by (simp add: config_to_spec_Ok)
  then have 1: "synth_config_parses_under_strict_rules e"
    by (simp add: synth_config_parses_under_strict_rules_def parse cfg_def)
       (simp add: translated_def build_spec_def synth_oci_def resolve_rootfs_def is_absolute_def Let_def)
  have "\<not> supported (synth_oci ''/img/rootfs'' [''/bin/sh''] ''krunc-test'' True ''krunc/krunc-test'' [])"
    by (simp add: synth_supported)
  then obtain err where "config_to_spec ''/img''
      (synth_oci ''/img/rootfs'' [''/bin/sh''] ''krunc-test'' True ''krunc/krunc-test'' []) = Err err"
    using unsupported_refused by blast
  then have 2: "synth_config_with_terminal_is_rejected e"
    by (simp add: synth_config_with_terminal_is_rejected_def parse)
  have 3: "exit_annotations_decode_code_and_signal"
    by code_simp
  show ?thesis using 1 2 3 by simp
qed

theorem cli_unit_tests_pass_witness: "synth_config_parses_under_strict_rules synth_host"
  using cli_unit_tests_pass [OF synth_json_host] by simp

end
