(* ===== verification/Cli_Pty.thy ===== *)
theory Cli_Pty
  imports Cli_Run
begin

text \<open>
  \<open>userspace/krunc-cli/src/pty.rs\<close>: the terminal of \<open>run -t\<close>. The table of file descriptors and
  the settings of the terminal are explicit; what \<open>poll\<close>, \<open>read\<close> and \<open>write\<close> answer is a
  parameter, the answers of one turn of the relay being one element of a list.
\<close>

section \<open>Terminal settings\<close>

text \<open>The settings of a descriptor, if it is a terminal; a change that fails goes unnoticed.\<close>

definition set_raw :: "('t \<Rightarrow> 't) \<Rightarrow> bool \<Rightarrow> 't option \<Rightarrow> 't option \<times> 't option" where
  "set_raw makeraw applies tty =
     (case tty of None \<Rightarrow> (None, None) | Some t \<Rightarrow> (Some t, Some (if applies then makeraw t else t)))"

definition restore :: "bool \<Rightarrow> 't option \<Rightarrow> 't option \<Rightarrow> 't option" where
  "restore applies saved tty =
     (case saved of None \<Rightarrow> tty | Some t \<Rightarrow> if applies \<and> tty \<noteq> None then Some t else tty)"

section \<open>Descriptors\<close>

type_synonym 'f fd_table = "int \<rightharpoonup> 'f"

text \<open>\<open>dup2\<close> and \<open>close\<close>; a \<open>dup2\<close> of a closed descriptor fails and changes nothing.\<close>

definition dup2 :: "int \<Rightarrow> int \<Rightarrow> 'f fd_table \<Rightarrow> 'f fd_table" where
  "dup2 src dst fds = (case fds src of None \<Rightarrow> fds | Some f \<Rightarrow> fds(dst \<mapsto> f))"

definition close_fd :: "int \<Rightarrow> 'f fd_table \<Rightarrow> 'f fd_table" where
  "close_fd fd fds = fds(fd := None)"

record pty =
  pty_master :: int
  pty_slave :: int

text \<open>The answer of \<open>openpty\<close> and the descriptors it filled in.\<close>

definition pty_open :: "int \<Rightarrow> int \<Rightarrow> int \<Rightarrow> string + pty" where
  "pty_open rc master slave =
     (if rc \<noteq> 0 then Err ''openpty: '' else Ok \<lparr>pty_master = master, pty_slave = slave\<rparr>)"

definition wire_slave :: "pty \<Rightarrow> 'f fd_table \<Rightarrow> 'f fd_table" where
  "wire_slave p fds =
     (let fds = fold (dup2 (pty_slave p)) [0, 1, 2] fds;
          fds = (if pty_master p > 2 then close_fd (pty_master p) fds else fds) in
      if pty_slave p > 2 then close_fd (pty_slave p) fds else fds)"

section \<open>The relay\<close>

definition POLLIN :: "16 word" where "POLLIN = 1"
definition POLLERR :: "16 word" where "POLLERR = 8"
definition POLLHUP :: "16 word" where "POLLHUP = 16"

text \<open>
  One turn of the loop: \<open>poll\<close> fails, by a signal or otherwise; or it reports on the master and on
  the standard input, which are then read as far as the code does. An empty read is an end or
  an error.
\<close>

datatype poll_turn =
    Poll_failed bool
  | Polled "16 word" "u8 list" "16 word" "u8 list"

record relay_state =
  rs_stdout :: "u8 list"
  rs_master :: "u8 list"
  rs_listening :: bool

text \<open>The answers of \<open>write\<close> depend on the descriptor, what was written before and the data.\<close>

type_synonym writer = "int \<Rightarrow> u8 list \<Rightarrow> u8 list \<Rightarrow> int"

function write_all :: "writer \<Rightarrow> int \<Rightarrow> u8 list \<Rightarrow> u8 list \<Rightarrow> u8 list" where
  "write_all wr fd done data =
     (if data = [] then done
      else (let w = wr fd done data in
            if w \<le> 0 then done
            else write_all wr fd (done @ take (nat w) data) (drop (nat w) data)))"
  by pat_completeness auto
termination by (relation "measure (\<lambda>(wr, fd, done, data). length data)") auto

declare write_all.simps [simp del]

text \<open>What a turn does: whether the loop goes on, and the bytes written.\<close>

definition relay_turn :: "writer \<Rightarrow> int \<Rightarrow> poll_turn \<Rightarrow> relay_state \<Rightarrow> bool \<times> relay_state" where
  "relay_turn wr master turn st =
     (case turn of
        Poll_failed interrupted \<Rightarrow> (interrupted, st)
      | Polled rev0 out rev1 inp \<Rightarrow>
          (let ready = rev0 AND (POLLIN OR POLLHUP OR POLLERR) \<noteq> 0 in
           if ready \<and> out = [] then (False, st)
           else
             (let st = (if ready then st\<lparr>rs_stdout := write_all wr 1 (rs_stdout st) out\<rparr> else st) in
              if rs_listening st \<and> rev1 AND POLLIN \<noteq> 0 then
                (if inp \<noteq> [] then (True, st\<lparr>rs_master := write_all wr master (rs_master st) inp\<rparr>)
                 else (True, st\<lparr>rs_listening := False\<rparr>))
              else (True, st))))"

text \<open>The loop over the turns so far: whether it has ended, and the bytes written.\<close>

fun relay :: "writer \<Rightarrow> int \<Rightarrow> poll_turn list \<Rightarrow> relay_state \<Rightarrow> bool \<times> relay_state" where
  "relay wr master [] st = (False, st)"
| "relay wr master (turn # turns) st =
     (let (more, st) = relay_turn wr master turn st in
      if more then relay wr master turns st else (True, st))"

section \<open>Properties\<close>

lemma restore_set_raw:
  "set_raw mk a tty = (saved, tty') \<Longrightarrow> restore True saved tty' = tty"
  by (auto simp: set_raw_def restore_def split: option.splits)

text \<open>
The container's terminal is the slave. Whatever descriptors \<open>openpty\<close> handed out, the
standard ones included, after \<open>wire_slave\<close> the descriptors 0, 1 and 2 are the slave; of those above
them the two of the pair are closed and the others as they were.
\<close>

theorem stdio_is_slave:
  assumes "fds (pty_slave p) = Some slave" "0 \<le> pty_master p" "0 \<le> pty_slave p"
  shows "wire_slave p fds 0 = Some slave \<and> wire_slave p fds 1 = Some slave \<and> wire_slave p fds 2 = Some slave
    \<and> (\<forall>fd. fd > 2 \<longrightarrow> wire_slave p fds fd = (if fd = pty_master p \<or> fd = pty_slave p then None else fds fd))"
proof -
  let ?s = "pty_slave p"
  have three: "fold (dup2 ?s) [0, 1, 2] fds = fds(0 \<mapsto> slave, 1 \<mapsto> slave, 2 \<mapsto> slave)"
    using assms(1) by (auto simp: dup2_def fun_eq_iff split: option.splits)
  show ?thesis
    unfolding wire_slave_def three Let_def using assms(2,3) by (auto simp: close_fd_def)
qed

theorem stdio_is_slave_witness:
  "wire_slave \<lparr>pty_master = 0, pty_slave = 3\<rparr> [0 \<mapsto> ''m'', 2 \<mapsto> ''e'', 3 \<mapsto> ''s''] 0 = Some ''s''"
  using stdio_is_slave [of "[0 \<mapsto> ''m'', 2 \<mapsto> ''e'', 3 \<mapsto> ''s'']" "\<lparr>pty_master = 0, pty_slave = 3\<rparr>" "''s''"]
  by simp

text \<open>A \<open>write\<close> of data writes some of it.\<close>

definition progressing :: "writer \<Rightarrow> bool" where
  "progressing wr \<longleftrightarrow> (\<forall>fd sent data. data \<noteq> [] \<longrightarrow> 0 < wr fd sent data)"

lemma write_all_complete:
  assumes "progressing wr"
  shows "write_all wr fd sent data = sent @ data"
  using assms
proof (induction wr fd sent data rule: write_all.induct)
  case (1 wr fd sent data)
  show ?case
  proof (cases "data = []")
    case False
    then have w: "0 < wr fd sent data" using "1.prems" by (simp add: progressing_def)
    then show ?thesis
      using "1.IH" [OF False refl] "1.prems" False w by (simp add: write_all.simps [of wr fd sent data] Let_def)
  qed (simp add: write_all.simps)
qed

text \<open>What a turn says, apart from the state of the loop.\<close>

definition master_ready :: "16 word \<Rightarrow> bool" where
  "master_ready ev = (ev AND (POLLIN OR POLLHUP OR POLLERR) \<noteq> 0)"

definition goes_on :: "poll_turn \<Rightarrow> bool" where
  "goes_on turn = (case turn of Poll_failed interrupted \<Rightarrow> interrupted
     | Polled rev0 out _ _ \<Rightarrow> \<not> (master_ready rev0 \<and> out = []))"

definition from_container :: "poll_turn \<Rightarrow> u8 list" where
  "from_container turn = (case turn of Poll_failed _ \<Rightarrow> []
     | Polled rev0 out _ _ \<Rightarrow> if master_ready rev0 then out else [])"

definition reads_user :: "poll_turn \<Rightarrow> bool" where
  "reads_user turn = (case turn of Poll_failed _ \<Rightarrow> False | Polled _ _ rev1 _ \<Rightarrow> rev1 AND POLLIN \<noteq> 0)"

definition from_user :: "poll_turn \<Rightarrow> u8 list" where
  "from_user turn = (case turn of Poll_failed _ \<Rightarrow> [] | Polled _ _ _ inp \<Rightarrow> inp)"

text \<open>The bytes of the user up to the end of the standard input.\<close>

definition typed :: "poll_turn list \<Rightarrow> u8 list" where
  "typed turns = concat (takeWhile (\<lambda>b. b \<noteq> []) (map from_user (filter reads_user turns)))"

lemma relay_turn_effect:
  assumes "progressing wr"
  shows "relay_turn wr m turn st = (goes_on turn, if \<not> goes_on turn then st else
    st\<lparr>rs_stdout := rs_stdout st @ from_container turn,
      rs_master := rs_master st @ (if rs_listening st \<and> reads_user turn then from_user turn else []),
      rs_listening := rs_listening st \<and> (reads_user turn \<longrightarrow> from_user turn \<noteq> [])\<rparr>)"
  using write_all_complete [OF assms]
  by (cases turn; cases st) (auto simp: relay_turn_def goes_on_def from_container_def reads_user_def from_user_def
      master_ready_def Let_def)

text \<open>
C33 (the relay forwards in order). When every \<open>write\<close> makes progress, the relay ends exactly when
\<open>poll\<close> fails other than by a signal or the container's side of the terminal is at its end; until
then it has written to the standard output all bytes read from the container, and to the
container all bytes read from the user up to the end of the input, in order, however the writes
split them.
\<close>

theorem relay_forwards:
  assumes "progressing wr"
  shows "relay wr m turns \<lparr>rs_stdout = out, rs_master = inp, rs_listening = True\<rparr> = (ended, st) \<Longrightarrow>
    ended = list_ex (\<lambda>t. \<not> goes_on t) turns
    \<and> rs_stdout st = out @ concat (map from_container (takeWhile goes_on turns))
    \<and> rs_master st = inp @ typed (takeWhile goes_on turns)"
proof -
  have "relay wr m turns st0 = (ended, st) \<Longrightarrow> ended = list_ex (\<lambda>t. \<not> goes_on t) turns
    \<and> rs_stdout st = rs_stdout st0 @ concat (map from_container (takeWhile goes_on turns))
    \<and> rs_master st = rs_master st0 @ (if rs_listening st0 then typed (takeWhile goes_on turns) else [])" for st0
  proof (induction turns arbitrary: st0)
    case Nil
    then show ?case by (auto simp: typed_def)
  next
    case (Cons turn turns)
    show ?case
    proof (cases "goes_on turn")
      case False
      then show ?thesis using Cons.prems by (simp add: relay_turn_effect [OF assms] typed_def)
    next
      case True
      then show ?thesis
        using Cons.IH Cons.prems by (auto simp: relay_turn_effect [OF assms] typed_def split: if_splits)
    qed
  qed
  then show "relay wr m turns \<lparr>rs_stdout = out, rs_master = inp, rs_listening = True\<rparr> = (ended, st) \<Longrightarrow> ?thesis"
    by fastforce
qed

theorem relay_forwards_witness:
  "\<exists>st. relay (\<lambda>_ _ _. 1) 5 [Poll_failed True, Polled POLLIN [1, 2] POLLIN [7, 8], Polled POLLHUP [3] 0 [],
      Polled POLLHUP [] POLLIN [9]] \<lparr>rs_stdout = [], rs_master = [], rs_listening = True\<rparr> = (True, st)
    \<and> rs_stdout st = [1, 2, 3] \<and> rs_master st = [7, 8]"
proof -
  let ?turns = "[Poll_failed True, Polled POLLIN [1, 2] POLLIN [7, 8], Polled POLLHUP [3] 0 [],
      Polled POLLHUP [] POLLIN [9]]"
  obtain ended st where run: "relay (\<lambda>_ _ _. 1) 5 ?turns \<lparr>rs_stdout = [], rs_master = [], rs_listening = True\<rparr>
      = (ended, st)" by fastforce
  have "master_ready POLLIN" "master_ready POLLHUP" "POLLIN AND POLLIN \<noteq> 0"
    by (simp_all add: master_ready_def POLLIN_def POLLHUP_def POLLERR_def)
  then show ?thesis
    using relay_forwards [OF _ run] run
    by (simp add: progressing_def goes_on_def from_container_def typed_def reads_user_def from_user_def)
qed

text \<open>
  A hang-up of the standard input without input, as \<open>poll\<close> reports it for a pipe that was closed,
  is never taken from the set: the turn changes nothing, and the next \<open>poll\<close> returns at once.
\<close>

lemma hangup_of_input_spins: "relay_turn wr m (Polled 0 out POLLHUP inp) st = (True, st)"
  by (simp add: relay_turn_def POLLHUP_def POLLIN_def Let_def)

end
