(* ===== verification/Helper_Files.thy ===== *)
theory Helper_Files
  imports Helper_Creds "HOL-Library.Multiset"
begin

text \<open>
  \<open>module/krunc_helper.c\<close>, the calls of the init task that reach the file system, the exec, and the
  resolution of the kernel's symbols when the module is loaded. What the functions of the kernel
  answer is a parameter; a run of a helper gives its result and the kernel functions it called,
  with their answers, so that the references taken and given back can be counted.
\<close>

section \<open>The functions of the kernel\<close>

datatype lookup_flag = LOOKUP_FOLLOW | LOOKUP_DIRECTORY

text \<open>
  A path, a dentry and an open file are named by numbers; \<open>Inl\<close> is an error pointer. Flags are
  those of the call, a device number is \<open>MKDEV\<close> of its parts.
\<close>

datatype vcall =
    Kern_path "u8 list" "lookup_flag list" int nat
  | Set_fs_root nat
  | Set_fs_pwd nat
  | Path_put nat
  | Path_mount "u8 list option" nat "u8 list option" u64 int
  | Start_creating_path "u8 list" "lookup_flag list" "int + nat" nat
  | End_creating_path nat "int + nat"
  | Vfs_mkdir nat nat u16 "int + nat"
  | Vfs_mknod nat nat u16 u32 int
  | Vfs_symlink nat nat "u8 list" int
  | Filp_open "u8 list" "int + nat"
  | Kernel_write nat "u8 list" int
  | Filp_close nat
  | Kernel_execve "u8 list" "u8 list list" "u8 list list" int

type_synonym vlog = "vcall list"

text \<open>What the functions answer, after the calls this helper has made.\<close>

record vfs =
  vf_kern_path :: "vlog \<Rightarrow> u8 list \<Rightarrow> lookup_flag list \<Rightarrow> int \<times> nat"
  vf_path_mount :: "vlog \<Rightarrow> u8 list option \<Rightarrow> nat \<Rightarrow> u8 list option \<Rightarrow> u64 \<Rightarrow> int"
  vf_start_creating :: "vlog \<Rightarrow> u8 list \<Rightarrow> lookup_flag list \<Rightarrow> (int + nat) \<times> nat"
  vf_mkdir :: "vlog \<Rightarrow> nat \<Rightarrow> nat \<Rightarrow> u16 \<Rightarrow> int + nat"
  vf_mknod :: "vlog \<Rightarrow> nat \<Rightarrow> nat \<Rightarrow> u16 \<Rightarrow> u32 \<Rightarrow> int"
  vf_symlink :: "vlog \<Rightarrow> nat \<Rightarrow> nat \<Rightarrow> u8 list \<Rightarrow> int"
  vf_open :: "vlog \<Rightarrow> u8 list \<Rightarrow> int + nat"
  vf_write :: "vlog \<Rightarrow> nat \<Rightarrow> u8 list \<Rightarrow> int"
  vf_execve :: "vlog \<Rightarrow> u8 list \<Rightarrow> u8 list list \<Rightarrow> u8 list list \<Rightarrow> int"

section \<open>The helpers\<close>

definition krunc_execve :: "vfs \<Rightarrow> u8 list \<Rightarrow> u8 list list \<Rightarrow> u8 list list \<Rightarrow> int \<times> vlog" where
  "krunc_execve v filename argv envp =
     (let rc = vf_execve v [] filename argv envp in (rc, [Kernel_execve filename argv envp rc]))"

definition krunc_chroot :: "vfs \<Rightarrow> u8 list \<Rightarrow> int \<times> vlog" where
  "krunc_chroot v path =
     (let flags = [LOOKUP_FOLLOW, LOOKUP_DIRECTORY];
          (err, root) = vf_kern_path v [] path flags;
          log = [Kern_path path flags err root] in
      if err \<noteq> 0 then (err, log)
      else (0, log @ [Set_fs_root root, Set_fs_pwd root, Path_put root]))"

definition krunc_mount ::
  "vfs \<Rightarrow> u8 list option \<Rightarrow> u8 list \<Rightarrow> u8 list option \<Rightarrow> u64 \<Rightarrow> int \<times> vlog" where
  "krunc_mount v dev dir fstype flags =
     (let (err, target) = vf_kern_path v [] dir [LOOKUP_FOLLOW];
          log = [Kern_path dir [LOOKUP_FOLLOW] err target] in
      if err \<noteq> 0 then (err, log)
      else
        (let err = vf_path_mount v log dev target fstype flags in
         (err, log @ [Path_mount dev target fstype flags err, Path_put target])))"

definition krunc_mkdir :: "vfs \<Rightarrow> u8 list \<Rightarrow> u16 \<Rightarrow> int \<times> vlog" where
  "krunc_mkdir v path mode =
     (let (r, parent) = vf_start_creating v [] path [LOOKUP_DIRECTORY];
          log = [Start_creating_path path [LOOKUP_DIRECTORY] r parent] in
      case r of
        Inl err \<Rightarrow> (err, log)
      | Inr dentry \<Rightarrow>
          (let res = vf_mkdir v log parent dentry mode;
               err = (case res of Inl e \<Rightarrow> e | Inr _ \<Rightarrow> 0) in
           (err, log @ [Vfs_mkdir parent dentry mode res, End_creating_path parent res])))"

definition MKDEV :: "u32 \<Rightarrow> u32 \<Rightarrow> u32" where
  "MKDEV major minor = push_bit 20 major OR minor"

definition krunc_mknod :: "vfs \<Rightarrow> u8 list \<Rightarrow> u16 \<Rightarrow> u32 \<Rightarrow> u32 \<Rightarrow> int \<times> vlog" where
  "krunc_mknod v path mode major minor =
     (let (r, parent) = vf_start_creating v [] path [];
          log = [Start_creating_path path [] r parent] in
      case r of
        Inl err \<Rightarrow> (err, log)
      | Inr dentry \<Rightarrow>
          (let err = vf_mknod v log parent dentry mode (MKDEV major minor) in
           (err, log @ [Vfs_mknod parent dentry mode (MKDEV major minor) err,
              End_creating_path parent (Inr dentry)])))"

definition krunc_symlink :: "vfs \<Rightarrow> u8 list \<Rightarrow> u8 list \<Rightarrow> int \<times> vlog" where
  "krunc_symlink v path target =
     (let (r, parent) = vf_start_creating v [] path [];
          log = [Start_creating_path path [] r parent] in
      case r of
        Inl err \<Rightarrow> (err, log)
      | Inr dentry \<Rightarrow>
          (let err = vf_symlink v log parent dentry target in
           (err, log @ [Vfs_symlink parent dentry target err, End_creating_path parent (Inr dentry)])))"

definition EIO_nr :: int where "EIO_nr = 5"
definition ENOENT_nr :: int where "ENOENT_nr = 2"

definition krunc_write_file :: "vfs \<Rightarrow> u8 list \<Rightarrow> u8 list \<Rightarrow> int \<times> vlog" where
  "krunc_write_file v path data =
     (let r = vf_open v [] path; log = [Filp_open path r] in
      case r of
        Inl err \<Rightarrow> (err, log)
      | Inr f \<Rightarrow>
          (let n = vf_write v log f data; log = log @ [Kernel_write f data n, Filp_close f] in
           if n < 0 then (n, log)
           else if n = int (length data) then (0, log) else (- EIO_nr, log)))"

text \<open>The calls of the init task that these helpers serve.\<close>

fun fs_call :: "vfs \<Rightarrow> hcall \<Rightarrow> (int \<times> vlog) option" where
  "fs_call v (HMount dev dir fstype flags) = Some (krunc_mount v dev dir fstype flags)"
| "fs_call v (HChroot path) = Some (krunc_chroot v path)"
| "fs_call v (HMkdir path mode) = Some (krunc_mkdir v path mode)"
| "fs_call v (HMknod path mode major minor) = Some (krunc_mknod v path mode major minor)"
| "fs_call v (HSymlink path target) = Some (krunc_symlink v path target)"
| "fs_call v (HWriteFile path data) = Some (krunc_write_file v path data)"
| "fs_call v (HExecve filename argv envp) = Some (krunc_execve v filename argv envp)"
| "fs_call v _ = None"

section \<open>Counting references\<close>

datatype kobject = A_path nat | A_dentry nat | A_file nat

type_synonym refs = "kobject multiset"

text \<open>A use of an object needs a reference to it; so does giving one back.\<close>

definition using_ref :: "kobject \<Rightarrow> refs \<Rightarrow> refs option" where
  "using_ref k h = (if k \<in># h then Some h else None)"

definition give_back :: "kobject \<Rightarrow> refs \<Rightarrow> refs option" where
  "give_back k h = (if k \<in># h then Some (h - {#k#}) else None)"

text \<open>
  What each function does with references, as the kernel documents it: a path, a dentry or a
  file comes with one; \<open>vfs_mkdir\<close> takes the one of the dentry it is passed and returns another or
  an error; \<open>end_creating_path\<close> gives back the parent and, unless it gets an error, the dentry.
\<close>

fun count_refs :: "vcall \<Rightarrow> refs \<Rightarrow> refs option" where
  "count_refs (Kern_path _ _ err p) h = Some (if err = 0 then add_mset (A_path p) h else h)"
| "count_refs (Set_fs_root p) h = using_ref (A_path p) h"
| "count_refs (Set_fs_pwd p) h = using_ref (A_path p) h"
| "count_refs (Path_put p) h = give_back (A_path p) h"
| "count_refs (Path_mount _ p _ _ _) h = using_ref (A_path p) h"
| "count_refs (Start_creating_path _ _ r q) h =
     Some (case r of Inl _ \<Rightarrow> h | Inr d \<Rightarrow> add_mset (A_dentry d) (add_mset (A_path q) h))"
| "count_refs (End_creating_path q r) h =
     Option.bind (case r of Inl _ \<Rightarrow> Some h | Inr d \<Rightarrow> give_back (A_dentry d) h) (give_back (A_path q))"
| "count_refs (Vfs_mkdir q d _ r) h =
     Option.bind (using_ref (A_path q) h) (\<lambda>h.
     Option.bind (give_back (A_dentry d) h) (\<lambda>h.
     Some (case r of Inl _ \<Rightarrow> h | Inr d' \<Rightarrow> add_mset (A_dentry d') h)))"
| "count_refs (Vfs_mknod q d _ _ _) h = Option.bind (using_ref (A_path q) h) (using_ref (A_dentry d))"
| "count_refs (Vfs_symlink q d _ _) h = Option.bind (using_ref (A_path q) h) (using_ref (A_dentry d))"
| "count_refs (Filp_open _ r) h = Some (case r of Inl _ \<Rightarrow> h | Inr f \<Rightarrow> add_mset (A_file f) h)"
| "count_refs (Kernel_write f _ _) h = using_ref (A_file f) h"
| "count_refs (Filp_close f) h = give_back (A_file f) h"
| "count_refs (Kernel_execve _ _ _ _) h = Some h"

fun refs_after :: "vlog \<Rightarrow> refs \<Rightarrow> refs option" where
  "refs_after [] h = Some h"
| "refs_after (c # cs) h = Option.bind (count_refs c h) (refs_after cs)"

text \<open>What a call has to say about the result: 0 when it did all it was asked for.\<close>

fun fault_of :: "vcall \<Rightarrow> int" where
  "fault_of (Kern_path _ _ err _) = err"
| "fault_of (Path_mount _ _ _ _ err) = err"
| "fault_of (Start_creating_path _ _ r _) = (case r of Inl e \<Rightarrow> e | Inr _ \<Rightarrow> 0)"
| "fault_of (Vfs_mkdir _ _ _ r) = (case r of Inl e \<Rightarrow> e | Inr _ \<Rightarrow> 0)"
| "fault_of (Vfs_mknod _ _ _ _ err) = err"
| "fault_of (Vfs_symlink _ _ _ err) = err"
| "fault_of (Filp_open _ r) = (case r of Inl e \<Rightarrow> e | Inr _ \<Rightarrow> 0)"
| "fault_of (Kernel_write _ data n) = (if n < 0 then n else if n = int (length data) then 0 else - EIO_nr)"
| "fault_of (Kernel_execve _ _ _ rc) = rc"
| "fault_of _ = 0"

fun first_fault :: "vlog \<Rightarrow> int" where
  "first_fault [] = 0"
| "first_fault (c # cs) = (if fault_of c \<noteq> 0 then fault_of c else first_fault cs)"

lemmas helper_defs = krunc_mount_def krunc_chroot_def krunc_mkdir_def krunc_mknod_def krunc_symlink_def
  krunc_write_file_def krunc_execve_def

lemmas ref_defs = using_ref_def give_back_def

lemma refs_after_append: "refs_after (xs @ ys) h = Option.bind (refs_after xs h) (refs_after ys)"
  by (induction xs arbitrary: h) (auto split: bind_splits)

lemma fs_call_balanced: "fs_call v c = Some (rc, log) \<Longrightarrow> refs_after log {#} = Some {#}"
  by (cases c) (auto simp: helper_defs ref_defs Let_def split: prod.splits sum.splits if_splits)

lemma fs_call_result: "fs_call v c = Some (rc, log) \<Longrightarrow> rc = first_fault log"
  by (cases c) (auto simp: helper_defs Let_def split: prod.splits sum.splits if_splits)

text \<open>All that the calls of a trace do, one after the other.\<close>

fun task_log :: "(trace \<Rightarrow> vfs) \<Rightarrow> trace \<Rightarrow> trace \<Rightarrow> vlog" where
  "task_log v done [] = []"
| "task_log v done (c # cs) =
     (case fs_call (v done) c of None \<Rightarrow> [] | Some (rc, log) \<Rightarrow> log) @ task_log v (done @ [c]) cs"

lemma task_log_balanced: "refs_after (task_log v pre tr) {#} = Some {#}"
proof (induction tr arbitrary: pre)
  case (Cons c tr)
  then show ?case
    using fs_call_balanced [of "v pre" c] by (auto simp: refs_after_append split: option.split)
qed simp

section \<open>A mount and the hooks of the kernel\<close>

text \<open>A mount cannot be answered with 0 where \<open>path_mount\<close> refuses it.\<close>

lemma mount_refused:
  assumes "\<And>log target. vf_path_mount v log dev target fstype flags \<noteq> 0"
  shows "fst (krunc_mount v dev dir fstype flags) \<noteq> 0"
  using assms by (simp add: krunc_mount_def Let_def split_def)

section \<open>Loading the module\<close>

text \<open>
  \<open>krunc_helper_init\<close>: the address of \<open>kallsyms_lookup_name\<close> from a kprobe, then one pointer for each
  symbol. \<open>register_kprobe\<close> gives its result and the address of the symbol; 0 is the null pointer.
\<close>

record module_env =
  me_register :: "string \<Rightarrow> int \<times> u64"
  me_lookup :: "u64 \<Rightarrow> string \<Rightarrow> u64"

definition krunc_resolve_kln :: "module_env \<Rightarrow> int \<times> u64" where
  "krunc_resolve_kln e =
     (let (ret, addr) = me_register e ''kallsyms_lookup_name'' in
      if ret < 0 then (ret, 0) else (if addr \<noteq> 0 then 0 else - ENOENT_nr, addr))"

definition RESOLVED :: "string list" where
  "RESOLVED = [''kernel_clone'', ''kernel_execve'', ''set_fs_root'', ''set_fs_pwd'', ''kern_path'',
     ''path_mount'', ''start_creating_path'', ''end_creating_path'', ''vfs_mkdir'', ''vfs_mknod'',
     ''vfs_symlink'', ''path_put'', ''do_exit'', ''find_get_pid'', ''kill_pid'', ''put_pid'',
     ''prepare_creds'', ''commit_creds'', ''abort_creds'', ''make_kuid'', ''make_kgid'', ''alloc_uid'',
     ''free_uid'', ''set_cred_ucounts'', ''uts_sem'']"

fun resolve_all :: "(string \<Rightarrow> u64) \<Rightarrow> string list \<Rightarrow> (string \<rightharpoonup> u64) \<Rightarrow> int \<times> (string \<rightharpoonup> u64)" where
  "resolve_all lookup [] ptrs = (0, ptrs)"
| "resolve_all lookup (name # names) ptrs =
     (if lookup name = 0 then (- ENOENT_nr, ptrs)
      else resolve_all lookup names (ptrs(name \<mapsto> lookup name)))"

text \<open>The result and the pointers; the kprobe on \<open>do_exit\<close> may fail without consequence.\<close>

definition krunc_helper_init :: "module_env \<Rightarrow> int \<times> (string \<rightharpoonup> u64)" where
  "krunc_helper_init e =
     (let (ret, kln) = krunc_resolve_kln e in
      if ret \<noteq> 0 then (ret, Map.empty) else resolve_all (me_lookup e kln) RESOLVED Map.empty)"

lemma resolve_all_code: "fst (resolve_all lookup names ptrs) = (if 0 \<in> lookup ` set names then - ENOENT_nr else 0)"
  by (induction names arbitrary: ptrs) auto

lemma resolve_all_pointers:
  "0 \<notin> lookup ` set names \<Longrightarrow> name \<in> set names \<or> ptrs name = Some (lookup name) \<Longrightarrow>
   snd (resolve_all lookup names ptrs) name = Some (lookup name)"
  by (induction names arbitrary: ptrs) auto

text \<open>
  The module loads if and only if every symbol was found; then no pointer the helpers call is null.
\<close>

theorem helper_init_resolves:
  "fst (krunc_helper_init e) = 0 \<longleftrightarrow>
     (case me_register e ''kallsyms_lookup_name'' of (ret, kln) \<Rightarrow>
        ret \<ge> 0 \<and> kln \<noteq> 0 \<and> (\<forall>name\<in>set RESOLVED. me_lookup e kln name \<noteq> 0
          \<and> snd (krunc_helper_init e) name = Some (me_lookup e kln name)))"
proof -
  obtain ret kln where r: "me_register e ''kallsyms_lookup_name'' = (ret, kln)" by fastforce
  show ?thesis
    by (auto simp: r krunc_helper_init_def krunc_resolve_kln_def resolve_all_code resolve_all_pointers ENOENT_nr_def image_iff)
qed

section \<open>Property\<close>

text \<open>
C18 (references are given back, exactly once). Whatever the kernel answers, each call of the init
task that reaches the file system uses a path, a dentry or a file only while it holds a
reference to it, and holds none when it returns, on the error paths as well; so does any run of
such calls. The result of a call is the first error any of the kernel's functions gave,
an incomplete write counting as EIO, and 0 only if all of them succeeded.
\<close>

theorem helper_calls_balanced:
  "refs_after (task_log v pre tr) {#} = Some {#}
    \<and> (fs_call k c = Some (rc, log) \<longrightarrow> refs_after log {#} = Some {#} \<and> rc = first_fault log)"
  using task_log_balanced fs_call_balanced fs_call_result by blast

text \<open>A kernel that can do everything but make a directory.\<close>

definition full_vfs :: vfs where
  "full_vfs = \<lparr>vf_kern_path = (\<lambda>_ _ _. (0, 1)), vf_path_mount = (\<lambda>_ _ _ _ _. 0),
     vf_start_creating = (\<lambda>_ _ _. (Inr 2, 1)), vf_mkdir = (\<lambda>_ _ _ _. Inl (- 28)), vf_mknod = (\<lambda>_ _ _ _ _. 0),
     vf_symlink = (\<lambda>_ _ _ _. 0), vf_open = (\<lambda>_ _. Inr 4), vf_write = (\<lambda>_ _ bs. int (length bs)),
     vf_execve = (\<lambda>_ _ _ _. 0)\<rparr>"

theorem helper_calls_balanced_witness:
  "\<exists>log. krunc_mkdir full_vfs [0x2f, 0x64] 0x1ed = (- 28, log) \<and> length log = 3
     \<and> refs_after log {#} = Some {#} \<and> first_fault log = - 28"
proof -
  obtain log where call: "krunc_mkdir full_vfs [0x2f, 0x64] 0x1ed = (- 28, log)" "length log = 3"
    by (simp add: krunc_mkdir_def full_vfs_def Let_def)
  then have "fs_call full_vfs (HMkdir [0x2f, 0x64] 0x1ed) = Some (- 28, log)" by simp
  with helper_calls_balanced have "refs_after log {#} = Some {#} \<and> - 28 = first_fault log" by blast
  then show ?thesis using call by simp
qed

end
