(* ===== verification/Bpf_Tool.thy ===== *)
theory Bpf_Tool
  imports Cli_Cgroup
begin

text \<open>
  \<open>userspace/krunc-bpf/src/main.rs\<close>: the program that loads the BPF-LSM object and keeps the map
  of guarded cgroups. The library \<open>aya\<close>, bpffs and the kernel behind them are a parameter: every
  call may be refused. What lasts is what is pinned: the map, with its entries, and the links
  that keep a hook attached.
\<close>

section \<open>Calls and what lasts\<close>

datatype bpf_call =
    Make_pin_dir string
  | Read_btf
  | Load_object string
  | Take_map string
  | Pin_map string
  | Take_program string
  | Load_program string string
  | Attach_program string
  | Take_link string
  | Pin_link string
  | Open_map string
  | Insert_entry u64 u8
  | Remove_entry u64

record bpf_env =
  be_refuses :: "bpf_call list \<Rightarrow> bpf_call \<Rightarrow> bool"
  be_inode :: "string \<Rightarrow> u64 option"

record bpf_fs =
  bf_maps :: "string \<rightharpoonup> (u64 \<rightharpoonup> u8)"
  bf_links :: "string list"
  bf_log :: "bpf_call list"

datatype bpf_error = Refused bpf_call | No_inode string | Bad_mode string

type_synonym 'a tool_run = "bpf_fs \<Rightarrow> (bpf_error + 'a) \<times> bpf_fs"

definition tool_then :: "'a tool_run \<Rightarrow> ('a \<Rightarrow> 'c tool_run) \<Rightarrow> 'c tool_run" where
  "tool_then m f st = (case m st of (Err x, st) \<Rightarrow> (Err x, st) | (Ok a, st) \<Rightarrow> f a st)"

definition attempt :: "bpf_env \<Rightarrow> bpf_call \<Rightarrow> unit tool_run" where
  "attempt env c st =
     (if be_refuses env (bf_log st) c then Err (Refused c) else Ok (), st\<lparr>bf_log := bf_log st @ [c]\<rparr>)"

section \<open>init\<close>

definition PROGRAMS :: "(string \<times> string) list" where
  "PROGRAMS = [(''krunc_userns_create'', ''userns_create''), (''krunc_sb_mount'', ''sb_mount''),
     (''krunc_move_mount'', ''move_mount''), (''krunc_bpf'', ''bpf''),
     (''krunc_ptrace'', ''ptrace_access_check''), (''krunc_file_open'', ''file_open'')]"

definition MODE_DENY :: u8 where "MODE_DENY = 1"
definition MODE_KILL :: u8 where "MODE_KILL = 2"

definition map_pin :: "string \<Rightarrow> string" where
  "map_pin dir = dir @ ''/guarded''"

definition link_pin :: "string \<Rightarrow> string \<Rightarrow> string" where
  "link_pin dir name = dir @ ''/link_'' @ name"

text \<open>The loop over the programs.\<close>

fun arm_programs :: "bpf_env \<Rightarrow> string \<Rightarrow> (string \<times> string) list \<Rightarrow> unit tool_run" where
  "arm_programs env dir [] st = (Ok (), st)"
| "arm_programs env dir ((name, hook) # progs) st =
     tool_then (attempt env (Take_program name)) (\<lambda>_.
     tool_then (attempt env (Load_program name hook)) (\<lambda>_.
     tool_then (attempt env (Attach_program name)) (\<lambda>_.
     tool_then (attempt env (Take_link name)) (\<lambda>_.
     tool_then (attempt env (Pin_link (link_pin dir name))) (\<lambda>_ st.
     arm_programs env dir progs (st\<lparr>bf_links := bf_links st @ [link_pin dir name]\<rparr>)))))) st"

definition cmd_init :: "bpf_env \<Rightarrow> string \<Rightarrow> string \<Rightarrow> unit tool_run" where
  "cmd_init env obj dir st =
     (if bf_maps st (map_pin dir) \<noteq> None then (Ok (), st)
      else
        tool_then (attempt env (Make_pin_dir dir)) (\<lambda>_.
        tool_then (attempt env Read_btf) (\<lambda>_.
        tool_then (attempt env (Load_object obj)) (\<lambda>_.
        tool_then (attempt env (Take_map ''guarded'')) (\<lambda>_.
        tool_then (attempt env (Pin_map (map_pin dir))) (\<lambda>_ st.
        arm_programs env dir PROGRAMS
          (st\<lparr>bf_maps := (bf_maps st)(map_pin dir \<mapsto> Map.empty)\<rparr>)))))) st)"

section \<open>guard and unguard\<close>

definition cgroup_id :: "bpf_env \<Rightarrow> string \<Rightarrow> u64 tool_run" where
  "cgroup_id env cg st =
     (case be_inode env cg of None \<Rightarrow> (Err (No_inode cg), st) | Some i \<Rightarrow> (Ok i, st))"

definition open_map :: "bpf_env \<Rightarrow> string \<Rightarrow> (u64 \<rightharpoonup> u8) tool_run" where
  "open_map env path = tool_then (attempt env (Open_map path)) (\<lambda>_ st.
     case bf_maps st path of None \<Rightarrow> (Err (Refused (Open_map path)), st) | Some g \<Rightarrow> (Ok g, st))"

definition mode_of_arg :: "string \<Rightarrow> u8 option" where
  "mode_of_arg arg =
     (if arg = ''block'' then Some MODE_DENY else if arg = ''kill'' then Some MODE_KILL else None)"

definition cmd_guard :: "bpf_env \<Rightarrow> string \<Rightarrow> string \<Rightarrow> string \<Rightarrow> unit tool_run" where
  "cmd_guard env dir cg mode_arg st =
     (case mode_of_arg mode_arg of
        None \<Rightarrow> (Err (Bad_mode mode_arg), st)
      | Some mode \<Rightarrow>
          tool_then (cgroup_id env cg) (\<lambda>i.
          tool_then (open_map env (map_pin dir)) (\<lambda>g.
          tool_then (attempt env (Insert_entry i mode)) (\<lambda>_ st.
          (Ok (), st\<lparr>bf_maps := (bf_maps st)(map_pin dir \<mapsto> g(i \<mapsto> mode))\<rparr>)))) st)"

text \<open>The result of the removal is not looked at.\<close>

definition cmd_unguard :: "bpf_env \<Rightarrow> string \<Rightarrow> string \<Rightarrow> unit tool_run" where
  "cmd_unguard env dir cg st =
     (if bf_maps st (map_pin dir) = None then (Ok (), st)
      else
        tool_then (cgroup_id env cg) (\<lambda>i.
        tool_then (open_map env (map_pin dir)) (\<lambda>g st.
        case attempt env (Remove_entry i) st of
          (Err _, st) \<Rightarrow> (Ok (), st)
        | (Ok _, st) \<Rightarrow> (Ok (), st\<lparr>bf_maps := (bf_maps st)(map_pin dir \<mapsto> g(i := None))\<rparr>))) st)"

section \<open>main\<close>

text \<open>The exit code; the arguments start with the name of the program.\<close>

definition krunc_bpf :: "bpf_env \<Rightarrow> string list \<Rightarrow> bpf_fs \<Rightarrow> int \<times> bpf_fs" where
  "krunc_bpf env argv st =
     (let code = (\<lambda>(r, st). (if is_ok r then 0 else 1, st)) in
      case argv of
        [_, cmd, a, b] \<Rightarrow>
          if cmd = ''init'' then code (cmd_init env a b st)
          else if cmd = ''unguard'' then code (cmd_unguard env a b st)
          else (2, st)
      | [_, cmd, a, b, c] \<Rightarrow>
          if cmd = ''guard'' then code (cmd_guard env a b c st) else (2, st)
      | _ \<Rightarrow> (2, st))"

end
