(* ===== verification/Bpf_Properties.thy ===== *)
theory Bpf_Properties
  imports Bpf_Tool
begin

text \<open>
  What a run of \<open>krunc-bpf\<close> leaves behind: after \<open>init\<close> all hooks or, when it failed half-way, a
  pin directory that later runs take for initialized; after \<open>guard\<close> and \<open>unguard\<close> the entry of one
  cgroup.
\<close>

lemma tool_then_result:
  "tool_then m f st = (r, st') \<longleftrightarrow>
     (\<exists>x. m st = (Err x, st') \<and> r = Err x) \<or> (\<exists>a st1. m st = (Ok a, st1) \<and> f a st1 = (r, st'))"
  by (auto simp: tool_then_def split: prod.split sum.split)

lemma attempt_result:
  "attempt env c st = (r, st') \<longleftrightarrow>
     st' = st\<lparr>bf_log := bf_log st @ [c]\<rparr> \<and> r = (if be_refuses env (bf_log st) c then Err (Refused c) else Ok ())"
  by (auto simp: attempt_def)

lemma attempt_then:
  "tool_then (attempt env c) f st =
     (if be_refuses env (bf_log st) c then (Err (Refused c), st\<lparr>bf_log := bf_log st @ [c]\<rparr>)
      else f () (st\<lparr>bf_log := bf_log st @ [c]\<rparr>))"
  by (simp add: tool_then_def attempt_def)

lemma attempt_thenE:
  assumes "tool_then (attempt env c) f st = (r, st')"
  obtains (stop) "\<not> is_ok r" "bf_maps st' = bf_maps st" "bf_links st' = bf_links st"
  | (go) l where "f () (st\<lparr>bf_log := l\<rparr>) = (r, st')"
  using assms unfolding attempt_then by (cases "be_refuses env (bf_log st) c") auto

lemma cgroup_id_result:
  "cgroup_id env cg st = (Ok i, st') \<longleftrightarrow> be_inode env cg = Some i \<and> st' = st"
  by (auto simp: cgroup_id_def split: option.split)

lemma open_map_result:
  "open_map env p st = (Ok g, st') \<longleftrightarrow> bf_maps st p = Some g \<and> \<not> be_refuses env (bf_log st) (Open_map p)
     \<and> st' = st\<lparr>bf_log := bf_log st @ [Open_map p]\<rparr>"
  by (auto simp: open_map_def attempt_then split: option.split)

text \<open>The links pinned so far are those of the first programs; all of them when nothing failed.\<close>

lemma arm_effect:
  assumes "arm_programs env dir ps st = (r, st')"
  obtains k where "bf_maps st' = bf_maps st"
    "bf_links st' = bf_links st @ map (\<lambda>p. link_pin dir (fst p)) (take k ps)"
    "if is_ok r then k = length ps else k < length ps"
  using assms
proof (induction ps arbitrary: st thesis)
  case Nil
  then show ?case using Nil.prems(1) [of 0] by auto
next
  case (Cons p ps)
  obtain name hook where p: "p = (name, hook)" by (cases p)
  have "\<not> is_ok r \<and> bf_maps st' = bf_maps st \<and> bf_links st' = bf_links st
    \<or> (\<exists>l. arm_programs env dir ps
        (st\<lparr>bf_log := l, bf_links := bf_links st @ [link_pin dir name]\<rparr>) = (r, st'))"
    using Cons.prems(2) unfolding p by (auto elim!: attempt_thenE)
  then show ?case
  proof
    assume "\<not> is_ok r \<and> bf_maps st' = bf_maps st \<and> bf_links st' = bf_links st"
    then show ?thesis by (intro Cons.prems(1) [of 0]) simp_all
  next
    assume "\<exists>l. arm_programs env dir ps (st\<lparr>bf_log := l, bf_links := bf_links st @ [link_pin dir name]\<rparr>) = (r, st')"
    then obtain l where l: "arm_programs env dir ps
        (st\<lparr>bf_log := l, bf_links := bf_links st @ [link_pin dir name]\<rparr>) = (r, st')" ..
    show ?thesis
    proof (rule Cons.IH [OF _ l])
      fix k assume "bf_maps st' = bf_maps (st\<lparr>bf_log := l, bf_links := bf_links st @ [link_pin dir name]\<rparr>)"
        "bf_links st' = bf_links (st\<lparr>bf_log := l, bf_links := bf_links st @ [link_pin dir name]\<rparr>)
          @ map (\<lambda>p. link_pin dir (fst p)) (take k ps)"
        "if is_ok r then k = length ps else k < length ps"
      then show ?thesis using p by (intro Cons.prems(1) [of "Suc k"]) (simp_all split: if_splits)
    qed
  qed
qed

lemma init_from_scratch:
  assumes "cmd_init env obj dir st = (r, st')" "bf_maps st (map_pin dir) = None"
  obtains (early) x where "r = Err x" "bf_maps st' = bf_maps st" "bf_links st' = bf_links st"
  | (pinned) k where "bf_maps st' = (bf_maps st)(map_pin dir \<mapsto> Map.empty)"
    "bf_links st' = bf_links st @ map (\<lambda>p. link_pin dir (fst p)) (take k PROGRAMS)"
    "if is_ok r then k = length PROGRAMS else k < length PROGRAMS"
proof -
  have "\<not> is_ok r \<and> bf_maps st' = bf_maps st \<and> bf_links st' = bf_links st
    \<or> (\<exists>l. arm_programs env dir PROGRAMS
        (st\<lparr>bf_log := l, bf_maps := (bf_maps st)(map_pin dir \<mapsto> Map.empty)\<rparr>) = (r, st'))"
    using assms by (auto simp: cmd_init_def elim!: attempt_thenE)
  then show thesis
  proof
    assume "\<not> is_ok r \<and> bf_maps st' = bf_maps st \<and> bf_links st' = bf_links st"
    then show thesis using early by (cases r) auto
  next
    assume "\<exists>l. arm_programs env dir PROGRAMS
        (st\<lparr>bf_log := l, bf_maps := (bf_maps st)(map_pin dir \<mapsto> Map.empty)\<rparr>) = (r, st')"
    then obtain l where "arm_programs env dir PROGRAMS
        (st\<lparr>bf_log := l, bf_maps := (bf_maps st)(map_pin dir \<mapsto> Map.empty)\<rparr>) = (r, st')" ..
    then show thesis by (rule arm_effect) (use pinned in simp)
  qed
qed

text \<open>
C30 (a failed init passes for a finished one). When \<open>krunc-bpf init\<close> on a fresh pin directory ends
without an error, the map is pinned empty and all six hooks are. When it fails after the map was
pinned, at least one hook is not attached, and yet every later \<open>init\<close> on that directory, with
whatever object, reports success at once and changes nothing: containers are then guarded by an
incomplete set of hooks.
\<close>

theorem failed_init_passes:
  assumes "cmd_init env obj dir st = (r, st')" "bf_maps st (map_pin dir) = None"
    and "list_all (\<lambda>(name, hook). link_pin dir name \<notin> set (bf_links st)) PROGRAMS"
  shows "(if is_ok r then bf_maps st' (map_pin dir) = Some Map.empty
        \<and> list_all (\<lambda>(name, hook). link_pin dir name \<in> set (bf_links st')) PROGRAMS
      else bf_maps st' (map_pin dir) = None
        \<or> list_ex (\<lambda>(name, hook). link_pin dir name \<notin> set (bf_links st')) PROGRAMS
          \<and> (\<forall>env' t obj'. krunc_bpf env' [t, ''init'', obj', dir] st' = (0, st')))"
  using assms(1,2)
proof (cases rule: init_from_scratch)
  case (early x)
  then show ?thesis using assms(2) by simp
next
  case (pinned k)
  show ?thesis
  proof (cases "is_ok r")
    case True
    then show ?thesis using pinned by (force simp: list_all_iff)
  next
    case False
    then have k: "k < length PROGRAMS" using pinned(3) by simp
    have "link_pin dir (fst (PROGRAMS ! k)) \<notin> set (bf_links st')"
    proof -
      have "distinct (map (\<lambda>p. link_pin dir (fst p)) PROGRAMS)" by (simp add: PROGRAMS_def link_pin_def)
      then have "map (\<lambda>p. link_pin dir (fst p)) PROGRAMS ! k \<notin> set (take k (map (\<lambda>p. link_pin dir (fst p)) PROGRAMS))"
        using k nth_eq_iff_index_eq [of "map (\<lambda>p. link_pin dir (fst p)) PROGRAMS" _ k]
        by (auto simp: in_set_conv_nth)
      moreover have "link_pin dir (fst (PROGRAMS ! k)) \<notin> set (bf_links st)"
        using assms(3) nth_mem [OF k] by (cases "PROGRAMS ! k") (auto simp: list_all_iff)
      ultimately show ?thesis using k pinned(2) by (auto simp: take_map)
    qed
    then have "list_ex (\<lambda>(name, hook). link_pin dir name \<notin> set (bf_links st')) PROGRAMS"
      using k by (auto simp: list_ex_iff intro!: bexI [of _ "PROGRAMS ! k"])
    moreover have "krunc_bpf env' [t, ''init'', obj', dir] st' = (0, st')" for env' t obj'
      using pinned(1) by (simp add: krunc_bpf_def cmd_init_def)
    ultimately show ?thesis using False by simp
  qed
qed

text \<open>A machine that refuses one call, and an empty bpffs.\<close>

definition bpf_fresh :: bpf_fs where
  "bpf_fresh = \<lparr>bf_maps = Map.empty, bf_links = [], bf_log = []\<rparr>"

definition refusing :: "bpf_call list \<Rightarrow> bpf_env" where
  "refusing cs = \<lparr>be_refuses = (\<lambda>_ c. c \<in> set cs), be_inode = (\<lambda>_. Some 42)\<rparr>"

theorem failed_init_passes_witness:
  "\<exists>x st'. cmd_init (refusing [Attach_program ''krunc_sb_mount'']) ''o'' ''/p'' bpf_fresh = (Err x, st')
    \<and> bf_links st' = [''/p/link_krunc_userns_create'']
    \<and> krunc_bpf (refusing []) [''krunc-bpf'', ''init'', ''o'', ''/p''] st' = (0, st')"
proof -
  obtain r st' where run: "cmd_init (refusing [Attach_program ''krunc_sb_mount'']) ''o'' ''/p'' bpf_fresh = (r, st')"
    by fastforce
  then have st': "\<not> is_ok r" "bf_maps st' (map_pin ''/p'') = Some Map.empty"
    "bf_links st' = [''/p/link_krunc_userns_create'']"
    by (auto simp: cmd_init_def attempt_then PROGRAMS_def refusing_def bpf_fresh_def map_pin_def link_pin_def)
  have "krunc_bpf (refusing []) [''krunc-bpf'', ''init'', ''o'', ''/p''] st' = (0, st')"
    using failed_init_passes [OF run] st'(1,2) by (simp add: bpf_fresh_def list_all_iff)
  then show ?thesis using run st' by (cases r) auto
qed

text \<open>What a run of \<open>guard\<close> or \<open>unguard\<close> that reports success has done.\<close>

lemma mode_of_as_arg: "mode_of_arg (as_arg m) = Some (case m of Block \<Rightarrow> 1 | Kill \<Rightarrow> 2)"
  by (simp add: mode_of_arg_def as_arg_def MODE_DENY_def MODE_KILL_def split: bpf_lsm_mode.split)

lemma guard_code: "krunc_bpf env [t, ''guard'', dir, cg, as_arg m] st = (code, st1) \<Longrightarrow> code = 0 \<or> code = 1"
  by (auto simp: krunc_bpf_def split: prod.splits if_splits)

lemma guard_succeeds_iff:
  assumes "krunc_bpf env [t, ''guard'', dir, cg, as_arg m] st = (code, st1)"
  shows "code = 0 \<longleftrightarrow> (\<exists>i g. be_inode env cg = Some i \<and> bf_maps st (map_pin dir) = Some g
      \<and> \<not> be_refuses env (bf_log st) (Open_map (map_pin dir))
      \<and> \<not> be_refuses env (bf_log st @ [Open_map (map_pin dir)])
            (Insert_entry i (case m of Block \<Rightarrow> 1 | Kill \<Rightarrow> 2)))"
  using assms
  by (auto simp: krunc_bpf_def cmd_guard_def mode_of_as_arg cgroup_id_def open_map_def tool_then_def
      attempt_def split: option.splits if_splits)

lemma guard_mode_understood: "fst (cmd_guard env dir cg (as_arg m) st) \<noteq> Err (Bad_mode arg)"
  by (simp add: cmd_guard_def mode_of_as_arg cgroup_id_def open_map_def tool_then_def attempt_def
      split: option.split)

lemma guard_effect:
  assumes "krunc_bpf env [t, ''guard'', dir, cg, as_arg m] st = (0, st1)"
  obtains i g where "be_inode env cg = Some i" "bf_maps st (map_pin dir) = Some g"
    "bf_maps st1 = (bf_maps st)(map_pin dir \<mapsto> g(i \<mapsto> (case m of Block \<Rightarrow> 1 | Kill \<Rightarrow> 2)))"
    "bf_links st1 = bf_links st"
proof -
  obtain r where g: "cmd_guard env dir cg (as_arg m) st = (r, st1)" "is_ok r"
    using assms by (auto simp: krunc_bpf_def split: prod.splits if_splits)
  then show thesis
    by (cases r) (auto simp: cmd_guard_def mode_of_as_arg tool_then_result cgroup_id_result open_map_result
        attempt_result intro: that split: if_splits)
qed

lemma unguard_effect:
  assumes "krunc_bpf env [t, ''unguard'', dir, cg] st = (0, st2)" "bf_maps st (map_pin dir) = Some g"
  obtains i where "be_inode env cg = Some i" "bf_links st2 = bf_links st"
    "bf_maps st2 = (if be_refuses env (bf_log st @ [Open_map (map_pin dir)]) (Remove_entry i) then bf_maps st
       else (bf_maps st)(map_pin dir \<mapsto> g(i := None)))"
proof -
  obtain r where u: "cmd_unguard env dir cg st = (r, st2)" "is_ok r"
    using assms(1) by (auto simp: krunc_bpf_def split: prod.splits if_splits)
  then obtain i where i: "be_inode env cg = Some i"
    and "st2 = (let st1 = st\<lparr>bf_log := bf_log st @ [Open_map (map_pin dir), Remove_entry i]\<rparr> in
       if be_refuses env (bf_log st @ [Open_map (map_pin dir)]) (Remove_entry i) then st1
       else st1\<lparr>bf_maps := (bf_maps st)(map_pin dir \<mapsto> g(i := None))\<rparr>)"
    using assms(2) by (cases r) (auto simp: cmd_unguard_def tool_then_result cgroup_id_result
        open_map_result attempt_def Let_def split: if_splits)
  then show thesis by (intro that [OF i]) (simp_all add: Let_def)
qed

text \<open>
C32 (a guard is entered and taken back). The arguments the runtime passes for a mode are always
understood: \<open>guard\<close> with the mode of an annotation never fails for its mode, and it succeeds exactly
when the cgroup has an inode, the map is pinned and neither opening it nor entering the mode's
own code is refused. When it succeeds, the map has that code under the id of the cgroup and is
otherwise as before; an \<open>unguard\<close> that succeeds afterwards removes exactly this entry, unless the
kernel refused the removal, which the exit code does not tell.
\<close>

theorem guard_then_unguard:
  assumes "krunc_bpf env [t, ''guard'', dir, cg, as_arg m] st = (code, st1)"
    and "krunc_bpf env' [t', ''unguard'', dir, cg] st1 = (0, st2)" "be_inode env' cg = be_inode env cg"
  shows "(code = 0 \<or> code = 1)
    \<and> (\<forall>arg. fst (cmd_guard env dir cg (as_arg m) st) \<noteq> Err (Bad_mode arg))
    \<and> (code = 0 \<longleftrightarrow> (\<exists>i g. be_inode env cg = Some i \<and> bf_maps st (map_pin dir) = Some g
         \<and> \<not> be_refuses env (bf_log st) (Open_map (map_pin dir))
         \<and> \<not> be_refuses env (bf_log st @ [Open_map (map_pin dir)])
               (Insert_entry i (case m of Block \<Rightarrow> 1 | Kill \<Rightarrow> 2))))
    \<and> (code = 0 \<longrightarrow> (\<exists>i g. be_inode env cg = Some i
    \<and> bf_maps st (map_pin dir) = Some g
    \<and> bf_maps st1 = (bf_maps st)(map_pin dir \<mapsto> g(i \<mapsto> (case m of Block \<Rightarrow> 1 | Kill \<Rightarrow> 2)))
    \<and> (bf_maps st2 = (bf_maps st)(map_pin dir \<mapsto> g(i := None))
       \<or> bf_maps st2 = bf_maps st1 \<and> be_refuses env' (bf_log st1 @ [Open_map (map_pin dir)]) (Remove_entry i))))"
    (is "?codes \<and> ?mode \<and> ?iff \<and> ?effect")
proof (intro conjI)
  show ?codes by (rule guard_code [OF assms(1)])
  show ?mode using guard_mode_understood by blast
  show ?iff by (rule guard_succeeds_iff [OF assms(1)])
  show ?effect
  proof (cases "code = 0")
    case True
    obtain i g where i: "be_inode env cg = Some i" "bf_maps st (map_pin dir) = Some g"
      "bf_maps st1 = (bf_maps st)(map_pin dir \<mapsto> g(i \<mapsto> (case m of Block \<Rightarrow> 1 | Kill \<Rightarrow> 2)))"
      using assms(1) unfolding True by (rule guard_effect)
    have "bf_maps st1 (map_pin dir) = Some (g(i \<mapsto> (case m of Block \<Rightarrow> 1 | Kill \<Rightarrow> 2)))" by (simp add: i(3))
    with assms(2) obtain i' where "be_inode env' cg = Some i'"
      "bf_maps st2 = (if be_refuses env' (bf_log st1 @ [Open_map (map_pin dir)]) (Remove_entry i') then bf_maps st1
         else (bf_maps st1)(map_pin dir \<mapsto> (g(i \<mapsto> (case m of Block \<Rightarrow> 1 | Kill \<Rightarrow> 2)))(i' := None)))"
      by (rule unguard_effect)
    then have "bf_maps st2 = (bf_maps st)(map_pin dir \<mapsto> g(i := None))
        \<or> bf_maps st2 = bf_maps st1 \<and> be_refuses env' (bf_log st1 @ [Open_map (map_pin dir)]) (Remove_entry i)"
      using assms(3) i(1,3) by (auto split: if_splits)
    then show ?thesis using True i by blast
  qed simp
qed

theorem guard_then_unguard_witness:
  "\<exists>st1 st2. krunc_bpf (refusing []) [''krunc-bpf'', ''guard'', ''/p'', ''/c'', ''kill'']
      (bpf_fresh\<lparr>bf_maps := [''/p/guarded'' \<mapsto> Map.empty]\<rparr>) = (0, st1)
    \<and> bf_maps st1 = [''/p/guarded'' \<mapsto> [42 \<mapsto> 2]]
    \<and> krunc_bpf (refusing []) [''krunc-bpf'', ''unguard'', ''/p'', ''/c''] st1 = (0, st2)
    \<and> bf_maps st2 = [''/p/guarded'' \<mapsto> Map.empty]"
proof -
  let ?st = "bpf_fresh\<lparr>bf_maps := [''/p/guarded'' \<mapsto> Map.empty]\<rparr>"
  obtain st1 where st1: "krunc_bpf (refusing []) [''krunc-bpf'', ''guard'', ''/p'', ''/c'', as_arg Kill] ?st = (0, st1)"
    by (simp add: krunc_bpf_def cmd_guard_def as_arg_def mode_of_arg_def cgroup_id_def open_map_def attempt_then
        refusing_def bpf_fresh_def map_pin_def tool_then_def attempt_def)
  moreover obtain st2 where st2: "krunc_bpf (refusing []) [''krunc-bpf'', ''unguard'', ''/p'', ''/c''] st1 = (0, st2)"
    using st1 by (auto simp: krunc_bpf_def cmd_guard_def as_arg_def mode_of_arg_def cgroup_id_def open_map_def
        attempt_then refusing_def bpf_fresh_def map_pin_def tool_then_def attempt_def cmd_unguard_def)
  ultimately show ?thesis
    using guard_then_unguard [OF st1 st2] by (auto simp: refusing_def bpf_fresh_def map_pin_def as_arg_def)
qed

end
