(* ===== verification/Bpf_Lsm.thy ===== *)
theory Bpf_Lsm
  imports Bpf_Properties
begin

text \<open>
  \<open>bpf/krunc_lsm.bpf.c\<close>: the programs \<open>krunc-bpf\<close> attaches to the LSM hooks, over the map of
  guarded cgroups it keeps. The id of the acting cgroup, the name of an opened file and whether
  the kernel can read it are what the kernel hands to a program. A program gives the result of
  the hook and the signals it sends to the acting task.
\<close>

section \<open>The programs\<close>

definition KRUNC_MODE_DENY :: u8 where "KRUNC_MODE_DENY = 1"
definition KRUNC_MODE_KILL :: u8 where "KRUNC_MODE_KILL = 2"

definition KRUNC_TRIPWIRE :: string where "KRUNC_TRIPWIRE = ''krunc-escape''"

type_synonym guards = "u64 \<rightharpoonup> u8"
type_synonym lsm_answer = "int \<times> int list"

definition allow :: lsm_answer where "allow = (0, [])"

definition guard_mode :: "guards \<Rightarrow> u64 \<Rightarrow> u8" where
  "guard_mode guarded cgid = (case guarded cgid of Some m \<Rightarrow> m | None \<Rightarrow> 0)"

definition krunc_enforce :: "u8 \<Rightarrow> lsm_answer" where
  "krunc_enforce mode =
     (if mode = 0 then allow else (- 1, if mode \<ge> KRUNC_MODE_KILL then [9] else []))"

definition krunc_userns_create :: "guards \<Rightarrow> u64 \<Rightarrow> lsm_answer" where
  "krunc_userns_create guarded cgid = krunc_enforce (guard_mode guarded cgid)"

definition krunc_sb_mount :: "guards \<Rightarrow> u64 \<Rightarrow> lsm_answer" where
  "krunc_sb_mount guarded cgid = krunc_enforce (guard_mode guarded cgid)"

definition krunc_move_mount :: "guards \<Rightarrow> u64 \<Rightarrow> lsm_answer" where
  "krunc_move_mount guarded cgid = krunc_enforce (guard_mode guarded cgid)"

definition krunc_bpf_hook :: "guards \<Rightarrow> u64 \<Rightarrow> lsm_answer" where
  "krunc_bpf_hook guarded cgid = krunc_enforce (guard_mode guarded cgid)"

definition krunc_ptrace :: "guards \<Rightarrow> u64 \<Rightarrow> lsm_answer" where
  "krunc_ptrace guarded cgid = krunc_enforce (guard_mode guarded cgid)"

text \<open>
  The name of the dentry of an opened file: a null pointer, memory that cannot be read, or the
  bytes found there.
\<close>

datatype dentry_name = Null_name | Unreadable_name | Name "u8 list"

text \<open>\<open>bpf_probe_read_kernel_str\<close> into a zeroed buffer, and \<open>bpf_strncmp\<close>.\<close>

definition probe_read_kernel_str :: "nat \<Rightarrow> u8 list \<Rightarrow> u8 list" where
  "probe_read_kernel_str sz src =
     (let s = take (sz - 1) (takeWhile (\<lambda>b. b \<noteq> 0) src) in s @ replicate (sz - length s) 0)"

fun bpf_strncmp :: "u8 list \<Rightarrow> nat \<Rightarrow> u8 list \<Rightarrow> int" where
  "bpf_strncmp (a # s1) (Suc n) (b # s2) =
     (if a \<noteq> b then if a < b then - 1 else 1
      else if a = 0 then 0 else bpf_strncmp s1 n s2)"
| "bpf_strncmp s1 n s2 = 0"

definition krunc_file_open :: "dentry_name \<Rightarrow> guards \<Rightarrow> u64 \<Rightarrow> lsm_answer" where
  "krunc_file_open file guarded cgid =
     (let mode = guard_mode guarded cgid in
      if mode = 0 then allow
      else case file of
        Null_name \<Rightarrow> allow
      | Unreadable_name \<Rightarrow> allow
      | Name name \<Rightarrow>
          if bpf_strncmp (probe_read_kernel_str 16 name) (length KRUNC_TRIPWIRE)
               (as_bytes KRUNC_TRIPWIRE @ [0]) \<noteq> 0
          then allow else krunc_enforce mode)"

section \<open>The hooks of the machine\<close>

datatype lsm_action =
    Userns_create
  | Sb_mount
  | Move_mount
  | Bpf_command
  | Ptrace_access_check
  | File_open dentry_name

fun program_of :: "lsm_action \<Rightarrow> string \<times> string" where
  "program_of Userns_create = (''krunc_userns_create'', ''userns_create'')"
| "program_of Sb_mount = (''krunc_sb_mount'', ''sb_mount'')"
| "program_of Move_mount = (''krunc_move_mount'', ''move_mount'')"
| "program_of Bpf_command = (''krunc_bpf'', ''bpf'')"
| "program_of Ptrace_access_check = (''krunc_ptrace'', ''ptrace_access_check'')"
| "program_of (File_open file) = (''krunc_file_open'', ''file_open'')"

fun run_program :: "lsm_action \<Rightarrow> guards \<Rightarrow> u64 \<Rightarrow> lsm_answer" where
  "run_program Userns_create = krunc_userns_create"
| "run_program Sb_mount = krunc_sb_mount"
| "run_program Move_mount = krunc_move_mount"
| "run_program Bpf_command = krunc_bpf_hook"
| "run_program Ptrace_access_check = krunc_ptrace"
| "run_program (File_open file) = krunc_file_open file"

text \<open>
  What the krunc programs say to an action of a task of cgroup \<open>cgid\<close>: a program is attached as
  long as its link is pinned, and looks at the map that \<open>init\<close> pinned with it.
\<close>

definition lsm_verdict :: "bpf_fs \<Rightarrow> string \<Rightarrow> u64 \<Rightarrow> lsm_action \<Rightarrow> lsm_answer" where
  "lsm_verdict st dir cgid act =
     (if link_pin dir (fst (program_of act)) \<notin> set (bf_links st) then allow
      else case bf_maps st (map_pin dir) of
        None \<Rightarrow> allow
      | Some guarded \<Rightarrow> run_program act guarded cgid)"

section \<open>The tripwire\<close>

lemma strncmp_prefix:
  "0 \<notin> set t \<Longrightarrow> bpf_strncmp (s @ [0]) (length t) (t @ [0]) = 0 \<longleftrightarrow> take (length t) s = t"
proof (induction t arbitrary: s)
  case (Cons b t)
  then show ?case by (cases s) auto
qed simp

lemma strncmp_end [simp]: "bpf_strncmp s 0 t = 0" "bpf_strncmp s n [] = 0"
  by (cases s; simp) (cases s; cases n; simp)

lemma strncmp_padding: "bpf_strncmp (s @ 0 # xs) n t = bpf_strncmp (s @ [0]) n t"
proof (induction s arbitrary: n t)
  case Nil
  then show ?case by (cases n; cases t) auto
next
  case (Cons a s)
  then show ?case by (cases n; cases t) auto
qed

definition trips :: "dentry_name \<Rightarrow> bool" where
  "trips file = (case file of
     Name name \<Rightarrow> take (length KRUNC_TRIPWIRE) (takeWhile (\<lambda>b. b \<noteq> 0) name) = as_bytes KRUNC_TRIPWIRE
   | _ \<Rightarrow> False)"

lemma tripwire_bytes: "length (as_bytes KRUNC_TRIPWIRE) = 12" "length KRUNC_TRIPWIRE = 12"
  "0 \<notin> set (as_bytes KRUNC_TRIPWIRE)"
  by (simp_all add: KRUNC_TRIPWIRE_def as_bytes_def)

lemma probe_read_matches:
  "bpf_strncmp (probe_read_kernel_str 16 name) (length KRUNC_TRIPWIRE) (as_bytes KRUNC_TRIPWIRE @ [0]) = 0
    \<longleftrightarrow> trips (Name name)"
proof -
  let ?s = "take 15 (takeWhile (\<lambda>b. b \<noteq> 0) name)" and ?t = "as_bytes KRUNC_TRIPWIRE"
  have "16 - length ?s = Suc (15 - length ?s)" by simp
  then have pad: "probe_read_kernel_str 16 name = ?s @ 0 # replicate (15 - length ?s) 0"
    by (simp only: probe_read_kernel_str_def Let_def) (simp del: length_take)
  have "bpf_strncmp (probe_read_kernel_str 16 name) (length ?t) (?t @ [0]) = 0 \<longleftrightarrow> take (length ?t) ?s = ?t"
    unfolding pad strncmp_padding [of ?s "replicate (15 - length ?s) 0"] by (rule strncmp_prefix [OF tripwire_bytes(3)])
  then show ?thesis by (simp add: trips_def tripwire_bytes(1,2))
qed

section \<open>The contract of a program\<close>

text \<open>Nothing is decided for a cgroup that is not in the map, and only its own entry counts.\<close>

locale cgroup_policy =
  fixes decide :: "guards \<Rightarrow> u64 \<Rightarrow> lsm_answer"
  assumes unguarded: "guarded c = None \<Longrightarrow> decide guarded c = allow"
    and refused: "guarded c = Some m \<Longrightarrow> m \<noteq> 0 \<Longrightarrow> fst (decide guarded c) = - 1"
    and killed: "guarded c = Some m \<Longrightarrow> snd (decide guarded c) = (if m \<ge> KRUNC_MODE_KILL then [9] else [])"
    and own_entry: "guarded c = guarded' c \<Longrightarrow> decide guarded c = decide guarded' c"
begin

lemma entered:
  "m \<noteq> 0 \<Longrightarrow> decide (guarded(i \<mapsto> m)) j =
     (if j = i then (- 1, if m \<ge> KRUNC_MODE_KILL then [9] else []) else decide guarded j)"
  using refused [of "guarded(i \<mapsto> m)" i m] killed [of "guarded(i \<mapsto> m)" i m]
    own_entry [of "guarded(i \<mapsto> m)" j guarded] by (auto simp: prod_eq_iff)

lemma taken_back: "decide (guarded(i := None)) j = (if j = i then allow else decide guarded j)"
  using unguarded [of "guarded(i := None)" i] own_entry [of "guarded(i := None)" j guarded] by simp

end

lemma enforce_policy: "cgroup_policy (\<lambda>guarded c. krunc_enforce (guard_mode guarded c))"
  by unfold_locales (auto simp: krunc_enforce_def guard_mode_def allow_def KRUNC_MODE_KILL_def)

interpretation lsm_userns: cgroup_policy krunc_userns_create
  using enforce_policy unfolding krunc_userns_create_def [abs_def] .

interpretation lsm_sb_mount: cgroup_policy krunc_sb_mount
  using enforce_policy unfolding krunc_sb_mount_def [abs_def] .

interpretation lsm_move_mount: cgroup_policy krunc_move_mount
  using enforce_policy unfolding krunc_move_mount_def [abs_def] .

interpretation lsm_bpf: cgroup_policy krunc_bpf_hook
  using enforce_policy unfolding krunc_bpf_hook_def [abs_def] .

interpretation lsm_ptrace: cgroup_policy krunc_ptrace
  using enforce_policy unfolding krunc_ptrace_def [abs_def] .

lemma file_open_eq:
  "krunc_file_open file = (if trips file then (\<lambda>guarded c. krunc_enforce (guard_mode guarded c)) else (\<lambda>_ _. allow))"
  by (cases "file") (auto simp: fun_eq_iff krunc_file_open_def Let_def probe_read_matches trips_def krunc_enforce_def)

interpretation lsm_tripwire: cgroup_policy "krunc_file_open (Name (as_bytes KRUNC_TRIPWIRE))"
  using enforce_policy by (simp add: file_open_eq trips_def as_bytes_def KRUNC_TRIPWIRE_def)

text \<open>What a guarded cgroup is refused: every action but the opening of most files.\<close>

definition forbidden :: "lsm_action \<Rightarrow> bool" where
  "forbidden act = (case act of File_open file \<Rightarrow> trips file | _ \<Rightarrow> True)"

lemma run_entered:
  "m \<noteq> 0 \<Longrightarrow> run_program act (guarded(i \<mapsto> m)) j =
     (if j \<noteq> i then run_program act guarded j
      else if forbidden act then (- 1, if m \<ge> KRUNC_MODE_KILL then [9] else []) else allow)"
  using lsm_userns.entered lsm_sb_mount.entered lsm_move_mount.entered lsm_bpf.entered
    lsm_ptrace.entered cgroup_policy.entered [OF enforce_policy]
  by (cases act) (auto simp: forbidden_def file_open_eq)

lemma run_taken_back:
  "run_program act (guarded(i := None)) j = (if j = i then allow else run_program act guarded j)"
  using lsm_userns.taken_back lsm_sb_mount.taken_back lsm_move_mount.taken_back lsm_bpf.taken_back
    lsm_ptrace.taken_back cgroup_policy.taken_back [OF enforce_policy]
  by (cases act) (auto simp: file_open_eq)

section \<open>What stays pinned\<close>

definition hooks_pinned :: "string \<Rightarrow> bpf_fs \<Rightarrow> bool" where
  "hooks_pinned dir st \<longleftrightarrow> bf_maps st (map_pin dir) \<noteq> None
     \<and> list_all (\<lambda>(name, hook). link_pin dir name \<in> set (bf_links st)) PROGRAMS"

definition pins_kept :: "bpf_fs \<Rightarrow> bpf_fs \<Rightarrow> bool" where
  "pins_kept st st' \<longleftrightarrow> dom (bf_maps st) \<subseteq> dom (bf_maps st') \<and> set (bf_links st) \<subseteq> set (bf_links st')"

lemma kept_hooks: "pins_kept st st' \<Longrightarrow> hooks_pinned dir st \<Longrightarrow> hooks_pinned dir st'"
  by (auto simp: pins_kept_def hooks_pinned_def list_all_iff)

lemma pins_kept_refl [simp]: "pins_kept st st"
  by (simp add: pins_kept_def)

lemma init_keeps: "pins_kept st (snd (cmd_init env obj dir st))"
proof (cases "bf_maps st (map_pin dir)")
  case None
  obtain r st' where run: "cmd_init env obj dir st = (r, st')" by fastforce
  then show ?thesis using None by (cases rule: init_from_scratch) (auto simp: pins_kept_def run)
qed (simp add: cmd_init_def)

lemma guard_keeps: "pins_kept st (snd (cmd_guard env dir cg arg st))"
  by (auto simp: pins_kept_def cmd_guard_def tool_then_def cgroup_id_def open_map_def attempt_def
      split: option.split)

lemma unguard_keeps: "pins_kept st (snd (cmd_unguard env dir cg st))"
  by (auto simp: pins_kept_def cmd_unguard_def tool_then_def cgroup_id_def open_map_def attempt_def
      split: option.split)

lemma krunc_bpf_keeps: "pins_kept st (snd (krunc_bpf env argv st))"
  using init_keeps guard_keeps unguard_keeps
  by (auto simp: krunc_bpf_def Let_def split_def split: list.split)

text \<open>Any runs of the tool, on any pin directories.\<close>

definition tool_runs :: "(bpf_env \<times> string list) list \<Rightarrow> bpf_fs \<Rightarrow> bpf_fs" where
  "tool_runs runs st = fold (\<lambda>(env, argv) st. snd (krunc_bpf env argv st)) runs st"

lemma runs_keep_hooks: "hooks_pinned dir st \<Longrightarrow> hooks_pinned dir (tool_runs runs st)"
  unfolding tool_runs_def
  by (induction runs arbitrary: st) (auto simp: kept_hooks [OF krunc_bpf_keeps])

lemma init_pins:
  assumes "krunc_bpf env [t, ''init'', obj, dir] st = (0, st')" "bf_maps st (map_pin dir) = None"
  shows "hooks_pinned dir st'"
proof -
  obtain r where run: "cmd_init env obj dir st = (r, st')" "is_ok r"
    using assms(1) by (auto simp: krunc_bpf_def split: prod.splits if_splits)
  from run(1) assms(2) show ?thesis
    by (cases rule: init_from_scratch) (use run(2) in \<open>force simp: hooks_pinned_def list_all_iff\<close>)+
qed

lemma verdict_pinned:
  assumes "hooks_pinned dir st" "bf_maps st (map_pin dir) = Some guarded"
  shows "lsm_verdict st dir c act = run_program act guarded c"
proof -
  have "program_of act \<in> set PROGRAMS" by (cases act) (simp_all add: PROGRAMS_def)
  then have "link_pin dir (fst (program_of act)) \<in> set (bf_links st)"
    using assms(1) by (fastforce simp: hooks_pinned_def list_all_iff)
  then show ?thesis using assms(2) by (simp add: lsm_verdict_def)
qed

text \<open>The verdicts after a guard, on a machine whose hooks were armed before.\<close>

lemma guarded_verdict:
  assumes "krunc_bpf env0 [t0, ''init'', obj, dir] st0 = (0, st1)" "bf_maps st0 (map_pin dir) = None"
    and "krunc_bpf env [t, ''guard'', dir, cg, as_arg m] (tool_runs runs st1) = (0, st2)"
    and "be_inode env cg = Some i"
  shows "lsm_verdict st2 dir c act =
      (if c \<noteq> i then lsm_verdict (tool_runs runs st1) dir c act
       else if forbidden act then (- 1, if m = Kill then [9] else []) else allow)"
proof -
  let ?m = "(case m of Block \<Rightarrow> 1 | Kill \<Rightarrow> 2) :: u8"
  have pinned: "hooks_pinned dir (tool_runs runs st1)"
    by (rule runs_keep_hooks [OF init_pins [OF assms(1,2)]])
  obtain g where g: "bf_maps (tool_runs runs st1) (map_pin dir) = Some g"
    "bf_maps st2 = (bf_maps (tool_runs runs st1))(map_pin dir \<mapsto> g(i \<mapsto> ?m))"
    "bf_links st2 = bf_links (tool_runs runs st1)"
    using guard_effect [OF assms(3)] assms(4) by (metis option.inject)
  have "hooks_pinned dir st2" "bf_maps st2 (map_pin dir) = Some (g(i \<mapsto> ?m))"
    using pinned g by (simp_all add: hooks_pinned_def)
  moreover have "?m \<noteq> 0" "KRUNC_MODE_KILL \<le> ?m \<longleftrightarrow> m = Kill"
    by (cases m; simp add: KRUNC_MODE_KILL_def word_le_nat_alt)+
  ultimately show ?thesis
    by (simp add: verdict_pinned verdict_pinned [OF pinned g(1)] run_entered)
qed

lemma unguarded_verdict:
  assumes "hooks_pinned dir st" "krunc_bpf env [t, ''unguard'', dir, cg] st = (0, st2)"
    and "be_inode env cg = Some i" "\<not> be_refuses env (bf_log st @ [Open_map (map_pin dir)]) (Remove_entry i)"
  shows "lsm_verdict st2 dir c act = (if c \<noteq> i then lsm_verdict st dir c act else allow)"
proof -
  obtain g where g: "bf_maps st (map_pin dir) = Some g" using assms(1) by (auto simp: hooks_pinned_def)
  have "bf_links st2 = bf_links st" "bf_maps st2 (map_pin dir) = Some (g(i := None))"
    using unguard_effect [OF assms(2) g] assms(3,4) by fastforce+
  moreover from this have "hooks_pinned dir st2" using assms(1) by (simp add: hooks_pinned_def)
  ultimately show ?thesis
    by (simp add: verdict_pinned verdict_pinned [OF assms(1) g] run_taken_back)
qed

section \<open>Property\<close>

text \<open>
C12 (the guard is enforced, on its cgroup only). Take an \<open>init\<close> of the hooks that succeeded on a
fresh pin directory, and any runs of the tool after it. When a \<open>guard\<close> of a cgroup then succeeds,
every hook refuses every task of that cgroup with -EPERM, and kills it if and only if the
mode is \<open>kill\<close>; only the opening of files is refused by name, for the names that begin with the
tripwire. The tasks of all other cgroups are treated exactly as before. An \<open>unguard\<close> that is not
refused allows the cgroup everything again, and changes nothing for the others.
\<close>

theorem guard_enforced:
  assumes "krunc_bpf env0 [t0, ''init'', obj, dir] st0 = (0, st1)" "bf_maps st0 (map_pin dir) = None"
    and "st = tool_runs runs st1" "krunc_bpf env [t, ''guard'', dir, cg, as_arg m] st = (0, st2)"
  shows "\<exists>i. be_inode env cg = Some i
    \<and> (\<forall>c act. lsm_verdict st2 dir c act =
         (if c \<noteq> i then lsm_verdict st dir c act
          else if forbidden act then (- 1, if m = Kill then [9] else []) else allow))
    \<and> (\<forall>env' t' st3. krunc_bpf env' [t', ''unguard'', dir, cg] st2 = (0, st3) \<and> be_inode env' cg = Some i
         \<and> \<not> be_refuses env' (bf_log st2 @ [Open_map (map_pin dir)]) (Remove_entry i) \<longrightarrow>
         (\<forall>c act. lsm_verdict st3 dir c act = (if c \<noteq> i then lsm_verdict st dir c act else allow)))"
proof -
  obtain i where i: "be_inode env cg = Some i" using assms(4) by (rule guard_effect)
  have pinned: "hooks_pinned dir st2"
    using kept_hooks [OF krunc_bpf_keeps runs_keep_hooks [OF init_pins [OF assms(1,2)]]] assms(3,4)
    by (metis snd_conv)
  note guarded = guarded_verdict [OF assms(1,2,4) [unfolded assms(3)] i, folded assms(3)]
  have "lsm_verdict st3 dir c act = (if c \<noteq> i then lsm_verdict st dir c act else allow)"
    if un: "krunc_bpf env' [t', ''unguard'', dir, cg] st2 = (0, st3)" "be_inode env' cg = Some i"
      "\<not> be_refuses env' (bf_log st2 @ [Open_map (map_pin dir)]) (Remove_entry i)" for env' t' st3 c act
    using unguarded_verdict [OF pinned un] guarded by simp
  then show ?thesis using i guarded by blast
qed

text \<open>A machine where the hooks were armed, and two guards, the second in the mode \<open>kill\<close>.\<close>

definition armed :: bpf_fs where
  "armed = snd (krunc_bpf (refusing []) [''krunc-bpf'', ''init'', ''o'', ''/p''] bpf_fresh)"

lemma armed_init: "krunc_bpf (refusing []) [''krunc-bpf'', ''init'', ''o'', ''/p''] bpf_fresh = (0, armed)"
  by (simp add: armed_def krunc_bpf_def cmd_init_def attempt_then PROGRAMS_def refusing_def bpf_fresh_def)

lemma armed_map: "bf_maps armed (map_pin ''/p'') = Some Map.empty"
  by (simp add: armed_def krunc_bpf_def cmd_init_def attempt_then PROGRAMS_def refusing_def bpf_fresh_def)

lemma armed_guard:
  "\<exists>st2. krunc_bpf (refusing []) [''krunc-bpf'', ''guard'', ''/p'', ''/c'', as_arg Kill] armed = (0, st2)"
  using armed_map
  by (simp add: krunc_bpf_def cmd_guard_def as_arg_def mode_of_arg_def cgroup_id_def open_map_def attempt_then
      refusing_def tool_then_def attempt_def)

theorem guard_enforced_witness:
  "\<exists>st2. krunc_bpf (refusing []) [''krunc-bpf'', ''guard'', ''/p'', ''/c'', ''kill''] armed = (0, st2)
    \<and> lsm_verdict st2 ''/p'' 42 Sb_mount = (- 1, [9]) \<and> lsm_verdict st2 ''/p'' 41 Sb_mount = (0, [])
    \<and> lsm_verdict st2 ''/p'' 42 (File_open (Name (as_bytes ''krunc-escape.txt''))) = (- 1, [9])
    \<and> lsm_verdict st2 ''/p'' 42 (File_open (Name (as_bytes ''krunc''))) = (0, [])"
proof -
  obtain st2 where st2: "krunc_bpf (refusing []) [''krunc-bpf'', ''guard'', ''/p'', ''/c'', as_arg Kill] armed = (0, st2)"
    using armed_guard by blast
  have "bf_maps bpf_fresh (map_pin ''/p'') = None" by (simp add: bpf_fresh_def)
  from guard_enforced [OF armed_init this _ st2, of "[]"]
  have "lsm_verdict st2 ''/p'' c act = (if c \<noteq> 42 then lsm_verdict armed ''/p'' c act
      else if forbidden act then (- 1, [9]) else allow)" for c act
    by (simp add: tool_runs_def refusing_def)
  moreover have "lsm_verdict armed ''/p'' c act = allow" for c act
    using verdict_pinned [OF init_pins [OF armed_init] armed_map]
    by (cases act) (simp_all add: bpf_fresh_def krunc_userns_create_def krunc_sb_mount_def krunc_move_mount_def
        krunc_bpf_hook_def krunc_ptrace_def krunc_file_open_def krunc_enforce_def guard_mode_def)
  ultimately show ?thesis
    using st2 by (simp add: as_arg_def forbidden_def trips_def as_bytes_def KRUNC_TRIPWIRE_def allow_def)
qed

end
