(* ===== verification/Guarded_Setup.thy ===== *)
theory Guarded_Setup
  imports Creds_Pipeline Helper_Files Bpf_Lsm
begin

text \<open>
  The guard and the set-up of the container it guards. \<open>krunc create\<close> arms the guard while the
  init task waits at its gate, and the init task makes all its mounts after the gate, as a task of
  the guarded cgroup. The comment of \<open>bpf/krunc_lsm.bpf.c\<close> says the opposite, that these
  mounts come before the guard.
\<close>

section \<open>The mounts of a run\<close>

text \<open>
  \<open>path_mount\<close> asks the hook \<open>sb_mount\<close> before it does anything and returns its refusal. The answers
  of the helper to the mounts of the init task are those of \<open>krunc_mount\<close> on that kernel.
\<close>

definition asks_lsm :: "lsm_answer \<Rightarrow> vfs \<Rightarrow> bool" where
  "asks_lsm v k \<longleftrightarrow>
     (fst v \<noteq> 0 \<longrightarrow> (\<forall>log dev target typ flags. vf_path_mount k log dev target typ flags \<noteq> 0))"

definition mounts_answered_by :: "(trace \<Rightarrow> vfs) \<Rightarrow> answers \<Rightarrow> bool" where
  "mounts_answered_by k ans \<longleftrightarrow>
     (\<forall>tr src dst typ flags. ans tr (HMount src dst typ flags) = fst (krunc_mount (k tr) src dst typ flags))"

definition mounts_refused :: "answers \<Rightarrow> bool" where
  "mounts_refused ans \<longleftrightarrow> (\<forall>tr src dst typ flags. ans tr (HMount src dst typ flags) \<noteq> 0)"

lemma lsm_refuses_mounts:
  "mounts_answered_by k ans \<Longrightarrow> (\<And>tr. asks_lsm v (k tr)) \<Longrightarrow> fst v \<noteq> 0 \<Longrightarrow> mounts_refused ans"
  by (simp add: mounts_answered_by_def asks_lsm_def mounts_refused_def mount_refused)

text \<open>The mounts of a trace that were carried out.\<close>

definition mounts_done :: "answers \<Rightarrow> trace \<Rightarrow> trace" where
  "mounts_done ans tr =
     map (nth tr) (filter (\<lambda>i. is_mount (tr ! i) \<and> ans (take i tr) (tr ! i) = 0) [0..<length tr])"

lemma no_mounts_done:
  assumes "mounts_refused ans"
  shows "mounts_done ans tr = []"
proof -
  have "ans pre c \<noteq> 0" if "is_mount c" for pre c
    using assms that by (cases c) (simp_all add: mounts_refused_def)
  then show ?thesis by (auto simp: mounts_done_def)
qed

text \<open>A run under a guard: without a mount there is no read-only rootfs, and so no exec.\<close>

lemma refused_readonly_exits:
  assumes "mounts_refused ans" "cx_readonly_rootfs ctx"
  shows "\<exists>tr. entry_after_gate ans doomed ctx = Err tr \<and> \<not> list_ex is_exec tr"
proof -
  have "\<not> setup_succeeds ans ctx"
    using assms by (simp add: setup_succeeds_def mounts_refused_def bind_rootfs_def)
  then show ?thesis
    by (cases rule: entry_cases [where ans = ans and doomed = doomed and ctx = ctx])
       (auto simp: list_all_iff list_ex_iff)
qed

text \<open>A task whose rootfs may stay writable runs without any of its mounts.\<close>

lemma refused_writable_execs:
  assumes "\<not> cx_readonly_rootfs ctx" "cx_argv ctx \<noteq> []" "\<forall>tr c. \<not> is_mount c \<longrightarrow> ans tr c = 0"
  shows "entry_after_gate ans False ctx = Ok (0, with_seal ans ctx @ [creds_call ctx, exec_call ctx])"
proof -
  have ok: "ans tr HUsernsSetupCreds = 0" "ans tr (chroot_call ctx) = 0" "ans tr (exec_call ctx) = 0" for tr
    using assms(3) by (simp_all add: chroot_call_def exec_call_def Let_def)
  have "setup_succeeds ans ctx" using assms(1,2) by (simp add: setup_succeeds_def ok)
  then show ?thesis
    by (cases rule: entry_cases [where ans = ans and doomed = False and ctx = ctx]) (simp_all add: ok)
qed

lemma private_after_setup: "make_private \<in> set (after_setup ans ctx)"
proof -
  let ?c = "(before_chroot ctx @ [chroot_call ctx]) @ [make_private]"
  have "appends setup_call ?c (after_setup ans ctx)"
    unfolding after_setup_def setup_filesystem_def Let_def
    by (meson appends_trans appends_mounts appends_devices appends_sysctls appends_confinement appends_limits)
  then show ?thesis by (auto simp: appends_def)
qed

section \<open>From the configuration\<close>

lemma spawned_gate:
  assumes "spawn (recording pid) hostname rootfs argv envp flags True caps nnp ro masked readonly
      rlimits oom uid gid mounts sysctls st = (Ok (i, p), st')"
    "ks_os st' = ks_os st @ [(ctx, flags')]"
  shows "cx_readonly_rootfs ctx = ro \<and> cx_argv ctx = argv \<and> cx_masked ctx = masked \<and> cx_ctrl ctx \<noteq> None"
  using assms by (auto simp: spawn_def recording_def new_gate_def Let_def split: if_splits)

lemma translated_readonly:
  assumes "config_to_spec bundle cfg = Ok s" "oc_root cfg = Some rt"
  shows "(sp_flags s AND OPT_ROOTFS_RO \<noteq> 0) = rt_readonly rt"
proof -
  have ok: "supported cfg" "s = translated bundle cfg" using assms(1) by (simp_all add: config_to_spec_Ok)
  then obtain p where "oc_process cfg = Some p"
    using assms(2) by (auto simp: supported_def split: option.splits)
  then show ?thesis
    by (simp add: ok(2) translated_def build_spec_def assms(2) option_flags_def opt_defs Let_def)
qed

lemma config_context:
  assumes "config_to_spec bundle cfg = Ok s" "wf_spec s" "entry_bounds s"
    and "encode s Create = Ok buf" "length buf \<le> K_MAX_SPEC"
    and "create_from_blob (recording pid) buf st = (Ok (i, p), st')"
    and "ks_os st' = ks_os st @ [(ctx, flags)]" "oc_root cfg = Some rt"
  shows "cx_readonly_rootfs ctx = rt_readonly rt" "cx_argv ctx \<noteq> []" "cx_ctrl ctx \<noteq> None"
    "cx_masked ctx = kernel_strvec (sp_masked_paths s)"
proof -
  note ctx = spawned_gate [OF assms(6) [unfolded created_from_config [OF assms(1-5)]] assms(7)]
  show "cx_readonly_rootfs ctx = rt_readonly rt" "cx_ctrl ctx \<noteq> None"
      "cx_masked ctx = kernel_strvec (sp_masked_paths s)"
    using ctx translated_readonly [OF assms(1,8)] by simp_all
  show "cx_argv ctx \<noteq> []"
    using ctx accepted_required(2) [OF assms(1)] by (auto simp: kernel_strvec_def K_MAX_ARGS_def)
qed

section \<open>Property\<close>

text \<open>
C7 (a guarded container is refused its own set-up). Take an accepted configuration, create its
container, and guard the cgroup of its init task before the container starts, as \<open>create\<close> does for
the annotation \<open>org.krunc.bpf-lsm\<close>. Then none of the mounts of the set-up is carried out. With a
read-only rootfs the program never runs. Without one, and when everything but the mounts
succeeds, the program does run, while each of its masked paths was left uncovered: both the
bind of \<open>/dev/null\<close> and the tmpfs were tried and refused. In the mode \<open>kill\<close> the first of these
mounts kills it.
\<close>

theorem guarded_setup_refused:
  assumes "config_to_spec bundle cfg = Ok s" "wf_spec s" "entry_bounds s"
    and "encode s Create = Ok buf" "length buf \<le> K_MAX_SPEC"
    and "create_from_blob (recording pid) buf st = (Ok (i, p), st')"
    and "ks_os st' = ks_os st @ [(ctx, flags)]" "oc_root cfg = Some rt"
    and "krunc_bpf env0 [t0, ''init'', obj, dir] fs0 = (0, fs1)" "bf_maps fs0 (map_pin dir) = None"
    and "krunc_bpf env [t, ''guard'', dir, cg, as_arg m] (tool_runs runs fs1) = (0, fs)"
    and "be_inode env cg = Some cgid" "mounts_answered_by k ans"
    and "\<And>tr. asks_lsm (lsm_verdict fs dir cgid Sb_mount) (k tr)"
    and "container_entry ans load ctx = Some r"
  shows "mounts_done ans (trace_of r) = []
    \<and> snd (lsm_verdict fs dir cgid Sb_mount) = (if m = Kill then [9] else [])
    \<and> (rt_readonly rt \<longrightarrow> \<not> list_ex is_exec (trace_of r))
    \<and> (\<not> rt_readonly rt \<and> gate_poll load 0 = Some False \<and> (\<forall>tr c. \<not> is_mount c \<longrightarrow> ans tr c = 0) \<longrightarrow>
         make_private \<in> set (trace_of r) \<and> is_exec (last (trace_of r))
         \<and> (\<forall>x\<in>set (kernel_strvec (sp_masked_paths s)). 1 < length x \<longrightarrow>
              mask_bind x \<in> set (trace_of r) \<and> mask_tmpfs x \<in> set (trace_of r)))"
proof -
  note cx = config_context [OF assms(1-8)]
  have v: "lsm_verdict fs dir cgid Sb_mount = (- 1, if m = Kill then [9] else [])"
    using guarded_verdict [OF assms(9-12)] by (simp add: forbidden_def)
  then have refused: "mounts_refused ans" by (intro lsm_refuses_mounts [OF assms(13,14)]) simp
  obtain doomed where r: "r = entry_after_gate ans doomed ctx"
      and gate: "gate_poll load 0 = Some doomed"
    using assms(15) cx(3) by (auto elim: entry_of_container)
  have exits: "\<not> list_ex is_exec (trace_of r)" if "rt_readonly rt"
    using refused_readonly_exits [OF refused, of ctx doomed] that cx(1) by (auto simp: r)
  have runs: "make_private \<in> set (trace_of r) \<and> is_exec (last (trace_of r))
      \<and> (\<forall>x\<in>set (cx_masked ctx). 1 < length x \<longrightarrow>
           mask_bind x \<in> set (trace_of r) \<and> mask_tmpfs x \<in> set (trace_of r))"
    if "\<not> rt_readonly rt" "gate_poll load 0 = Some False" "\<forall>tr c. \<not> is_mount c \<longrightarrow> ans tr c = 0"
  proof -
    have tr: "trace_of r = after_setup ans ctx @ [creds_call ctx, exec_call ctx]"
      using refused_writable_execs [of ctx ans] that gate cx(1,2) by (simp add: r with_seal_def)
    have "mask_bind x \<in> set (after_setup ans ctx) \<and> mask_tmpfs x \<in> set (after_setup ans ctx)"
      if x: "x \<in> set (cx_masked ctx)" "1 < length x" for x
    proof -
      have "ans pre (mask_bind x) \<noteq> 0" for pre
        using refused by (simp add: mounts_refused_def mask_bind_def)
      then show ?thesis using after_setup_masks [OF x, of ans] by fastforce
    qed
    then show ?thesis
      using private_after_setup [of ans ctx] by (simp add: tr exec_call_def Let_def)
  qed
  show ?thesis
    using no_mounts_done [OF refused] v exits runs cx(4) by simp
qed

text \<open>
  The demonstration configuration, whose rootfs is read-only, under a guard of the mode \<open>kill\<close>, on
  a kernel that can do everything but mount.
\<close>

definition no_mount_vfs :: vfs where
  "no_mount_vfs = full_vfs\<lparr>vf_path_mount := (\<lambda>_ _ _ _ _. - 1)\<rparr>"

definition refusing_mounts :: answers where
  "refusing_mounts tr c = (if is_mount c then - 1 else 0)"

lemma refusing_answers: "mounts_answered_by (\<lambda>_. no_mount_vfs) refusing_mounts" "asks_lsm v no_mount_vfs"
  by (simp_all add: mounts_answered_by_def refusing_mounts_def asks_lsm_def krunc_mount_def
      no_mount_vfs_def full_vfs_def Let_def)

lemma started: "gate_poll (\<lambda>_. ACT_START) 0 = Some False"
  by (subst gate_poll.simps) (simp add: act_defs)

theorem guarded_setup_refused_witness:
  "\<exists>buf st' ctx flags. create_from_blob (recording 7) buf (kstate_init []) = (Ok (1, 7), st')
     \<and> ks_os st' = [(ctx, flags)]
     \<and> \<not> list_ex is_exec (trace_of (entry_after_gate refusing_mounts False ctx))"
proof -
  obtain buf where buf: "encode (translated ''/b'' demo_config) Create = Ok buf" "length buf \<le> K_MAX_SPEC"
    using demo_fits(3) by blast
  note created = created_from_config [OF demo_accepted demo_fits(1,2) buf]
  obtain st' ctx flags where st': "create_from_blob (recording 7) buf (kstate_init []) = (Ok (1, 7), st')"
      "ks_os st' = [(ctx, flags)]"
    unfolding created by (simp add: spawn_def Let_def new_gate_def recording_def kstate_init_def)
  have os: "ks_os st' = ks_os (kstate_init []) @ [(ctx, flags)]" using st'(2) by (simp add: kstate_init_def)
  obtain rt where rt: "oc_root demo_config = Some rt" "rt_readonly rt" by (simp add: demo_config_def)
  obtain fs where fs: "krunc_bpf (refusing []) [''krunc-bpf'', ''guard'', ''/p'', ''/c'', as_arg Kill]
      (tool_runs [] armed) = (0, fs)"
    using armed_guard by (auto simp: tool_runs_def)
  have fresh: "bf_maps bpf_fresh (map_pin ''/p'') = None" by (simp add: bpf_fresh_def)
  have inode: "be_inode (refusing []) ''/c'' = Some 42" by (simp add: refusing_def)
  have "container_entry refusing_mounts (\<lambda>_. ACT_START) ctx = Some (entry_after_gate refusing_mounts False ctx)"
    by (simp add: container_entry_def started split: option.split)
  from guarded_setup_refused [OF demo_accepted demo_fits(1,2) buf st'(1) os rt(1) armed_init fresh fs inode
      refusing_answers this]
  have "\<not> list_ex is_exec (trace_of (entry_after_gate refusing_mounts False ctx))" using rt(2) by simp
  then show ?thesis using st' by blast
qed

end
