(* ===== verification/Bpf_Loader.thy ===== *)
theory Bpf_Loader
  imports Bpf_Lsm
begin

text \<open>
  \<open>bpf/krunc_lsm_loader.c\<close>: the older loader in C, which attaches the programs of an object and
  guards one cgroup in a single run. \<open>libbpf\<close> and the kernel are a parameter: any call may be
  refused. What lasts is the pinned links and the map of the object they belong to.
\<close>

section \<open>Calls and what lasts\<close>

datatype loader_call =
    Stat_dir string
  | Open_file string
  | Load_file string
  | Attach string
  | Pin string
  | Find_map string
  | Update_elem u64 u8

text \<open>\<open>le_programs\<close> are the names of the programs in an object file.\<close>

record loader_env =
  le_refuses :: "loader_call list \<Rightarrow> loader_call \<Rightarrow> bool"
  le_inode :: "string \<Rightarrow> u64"
  le_programs :: "string \<Rightarrow> string list"

record loader_fs =
  lf_links :: "(string \<times> string) list"
  lf_guards :: guards
  lf_log :: "loader_call list"

text \<open>A link that is pinned: the path and the program it keeps attached.\<close>

definition called :: "loader_env \<Rightarrow> loader_call \<Rightarrow> loader_fs \<Rightarrow> bool \<times> loader_fs" where
  "called e c st = (\<not> le_refuses e (lf_log st) c, st\<lparr>lf_log := lf_log st @ [c]\<rparr>)"

section \<open>main\<close>

text \<open>\<open>snprintf\<close> into 512 bytes.\<close>

definition pin_name :: "string \<Rightarrow> string \<Rightarrow> string" where
  "pin_name pin_path pname = take 511 (pin_path @ ''_'' @ pname)"

text \<open>The loop over the programs: whether it ended, and how many it attached.\<close>

fun attach_all ::
  "loader_env \<Rightarrow> string \<Rightarrow> string list \<Rightarrow> nat \<Rightarrow> loader_fs \<Rightarrow> nat option \<times> loader_fs" where
  "attach_all e pin_path [] n st = (Some n, st)"
| "attach_all e pin_path (pname # ps) n st =
     (let (ok, st) = called e (Attach pname) st in
      if \<not> ok then (None, st)
      else
        (let pin = pin_name pin_path pname; (ok, st) = called e (Pin pin) st in
         if \<not> ok then (None, st)
         else attach_all e pin_path ps (n + 1) (st\<lparr>lf_links := lf_links st @ [(pin, pname)]\<rparr>)))"

definition loader_mode :: "string \<Rightarrow> u8 option" where
  "loader_mode arg = (if arg = ''block'' then Some 1 else if arg = ''kill'' then Some 2 else None)"

text \<open>From the mode on: the object, its programs, and at last the entry of the cgroup.\<close>

definition load_and_guard ::
  "loader_env \<Rightarrow> string \<Rightarrow> string \<Rightarrow> string \<Rightarrow> u8 \<Rightarrow> loader_fs \<Rightarrow> int \<times> loader_fs" where
  "load_and_guard e obj cg pin_path mode st =
     (let (ok, st) = called e (Stat_dir cg) st in
      if \<not> ok then (1, st)
      else let (ok, st) = called e (Open_file obj) st in
      if \<not> ok then (1, st)
      else let (ok, st) = called e (Load_file obj) st in
      if \<not> ok then (1, st)
      else case attach_all e pin_path (le_programs e obj) 0 st of
        (None, st) \<Rightarrow> (1, st)
      | (Some n, st) \<Rightarrow>
          if n = 0 then (1, st)
          else let (ok, st) = called e (Find_map ''guarded'') st in
          if \<not> ok then (1, st)
          else let (ok, st) = called e (Update_elem (le_inode e cg) mode) st in
          if \<not> ok then (1, st)
          else (0, st\<lparr>lf_guards := (lf_guards st)(le_inode e cg \<mapsto> mode)\<rparr>))"

definition loader_main :: "loader_env \<Rightarrow> string list \<Rightarrow> loader_fs \<Rightarrow> int \<times> loader_fs" where
  "loader_main e argv st =
     (case argv of
        [_, obj, cg, pin_path] \<Rightarrow> load_and_guard e obj cg pin_path 1 st
      | [_, obj, cg, pin_path, mode] \<Rightarrow>
          (case loader_mode mode of
             None \<Rightarrow> (2, st)
           | Some m \<Rightarrow> load_and_guard e obj cg pin_path m st)
      | _ \<Rightarrow> (2, st))"

text \<open>What the programs of this object say: those whose link is pinned, over its map.\<close>

definition loader_verdict :: "loader_fs \<Rightarrow> u64 \<Rightarrow> lsm_action \<Rightarrow> lsm_answer" where
  "loader_verdict st cgid act =
     (if fst (program_of act) \<in> snd ` set (lf_links st) then run_program act (lf_guards st) cgid else allow)"

section \<open>Facts\<close>

lemma called_eq: "called e c st = (ok, st') \<longleftrightarrow>
    ok = (\<not> le_refuses e (lf_log st) c) \<and> st' = st\<lparr>lf_log := lf_log st @ [c]\<rparr>"
  by (auto simp: called_def)

lemma attach_all_effect:
  "attach_all e pin_path ps n st = (r, st') \<Longrightarrow>
     lf_guards st' = lf_guards st \<and>
     (\<exists>k. lf_links st' = lf_links st @ map (\<lambda>p. (pin_name pin_path p, p)) (take k ps)
        \<and> (case r of None \<Rightarrow> k < length ps | Some m \<Rightarrow> k = length ps \<and> m = n + length ps))"
proof (induction ps arbitrary: n st)
  case Nil
  then show ?case by auto
next
  case (Cons p ps)
  let ?st = "st\<lparr>lf_log := lf_log st @ [Attach p]\<rparr>"
  let ?pin = "pin_name pin_path p"
  consider (refused) "r = None" "lf_guards st' = lf_guards st" "lf_links st' = lf_links st"
    | (pinned) l where "attach_all e pin_path ps (n + 1)
        (st\<lparr>lf_log := l, lf_links := lf_links st @ [(?pin, p)]\<rparr>) = (r, st')"
    using Cons.prems by (auto simp: called_def Let_def split: if_splits)
  then show ?case
  proof cases
    case refused
    then show ?thesis by (intro conjI exI [of _ 0]) simp_all
  next
    case pinned
    from Cons.IH [OF this] obtain k where k: "lf_guards st' = lf_guards st"
      "lf_links st' = (lf_links st @ [(?pin, p)]) @ map (\<lambda>p. (pin_name pin_path p, p)) (take k ps)"
      "case r of None \<Rightarrow> k < length ps | Some m \<Rightarrow> k = length ps \<and> m = n + 1 + length ps"
      by auto
    then show ?thesis by (intro conjI exI [of _ "Suc k"]) (simp_all split: option.splits)
  qed
qed

lemma load_and_guard_effect:
  assumes "load_and_guard e obj cg pin_path mode st = (code, st')"
  shows "if code = 0
    then lf_guards st' = (lf_guards st)(le_inode e cg \<mapsto> mode) \<and> le_programs e obj \<noteq> []
      \<and> lf_links st' = lf_links st @ map (\<lambda>p. (pin_name pin_path p, p)) (le_programs e obj)
    else code = 1 \<and> lf_guards st' = lf_guards st"
proof -
  obtain r st1 where a: "attach_all e pin_path (le_programs e obj) 0
      (st\<lparr>lf_log := lf_log st @ [Stat_dir cg, Open_file obj, Load_file obj]\<rparr>) = (r, st1)" by fastforce
  from attach_all_effect [OF this] show ?thesis
    using assms a by (cases r) (auto simp: load_and_guard_def called_def Let_def split: if_splits)
qed

section \<open>Property\<close>

text \<open>
The older loader leaves the same policy. On a fresh object that holds the six programs, a
run of the loader that ends with 0 has guarded its cgroup exactly as \<open>krunc-bpf\<close> does, in the mode
of the last argument or else \<open>block\<close>; a run that fails refuses nothing to any task, whatever it
has attached on the way.
\<close>

theorem loader_policy:
  assumes "loader_main e argv st = (code, st')" "lf_guards st = Map.empty"
    and "\<And>obj. le_programs e obj = map fst PROGRAMS"
  shows "if code = 0
    then \<exists>m. loader_mode (if length argv = 4 then ''block'' else argv ! 4) = Some m
      \<and> (\<forall>c act. loader_verdict st' c act =
           (if c = le_inode e (argv ! 2) \<and> forbidden act then (- 1, if m = 2 then [9] else []) else allow))
    else \<forall>c act. loader_verdict st' c act = allow"
proof -
  have none: "run_program act Map.empty c = allow" for act c
    using run_taken_back [of act Map.empty c c] by simp
  have programs: "fst (program_of act) \<in> fst ` set PROGRAMS" for act
    by (cases act) (simp_all add: PROGRAMS_def)
  have guarded: "if code = 0
      then \<forall>c act. loader_verdict st' c act =
           (if c = le_inode e cg \<and> forbidden act then (- 1, if m = 2 then [9] else []) else allow)
      else \<forall>c act. loader_verdict st' c act = allow"
    if run: "load_and_guard e obj cg pin_path m st = (code, st')" and m: "m \<in> {1, 2}" for obj cg pin_path m
  proof -
    note eff = load_and_guard_effect [OF run]
    have kill: "m \<noteq> 0" "KRUNC_MODE_KILL \<le> m \<longleftrightarrow> m = 2"
      using m by (auto simp: KRUNC_MODE_KILL_def word_le_nat_alt)
    show ?thesis
    proof (cases "code = 0")
      case True
      then have st': "lf_guards st' = Map.empty(le_inode e cg \<mapsto> m)"
        "lf_links st' = lf_links st @ map (\<lambda>p. (pin_name pin_path p, p)) (map fst PROGRAMS)"
        using eff assms(2,3) by simp_all
      have "fst (program_of act) \<in> snd ` set (lf_links st')" for act
        using programs [of act] by (simp add: st'(2) image_Un image_image)
      then show ?thesis
        using True kill by (simp add: loader_verdict_def st'(1) run_entered none)
    next
      case False
      then show ?thesis using eff assms(2) by (simp add: loader_verdict_def none)
    qed
  qed
  have bad: "loader_verdict st c act = allow" for c act
    using assms(2) by (simp add: loader_verdict_def none)
  consider (usage) "code = 2" "st' = st"
    | (four) t obj cg pin where "argv = [t, obj, cg, pin]" "load_and_guard e obj cg pin 1 st = (code, st')"
    | (five) t obj cg pin a m where "argv = [t, obj, cg, pin, a]" "loader_mode a = Some m"
        "load_and_guard e obj cg pin m st = (code, st')"
    using assms(1) by (auto simp: loader_main_def split: list.splits option.splits)
  then show ?thesis
  proof cases
    case usage
    then show ?thesis using bad by simp
  next
    case four
    then show ?thesis using guarded [OF four(2)] by (simp add: loader_mode_def split: if_splits)
  next
    case five
    then have "m \<in> {1, 2}" by (auto simp: loader_mode_def split: if_splits)
    then show ?thesis using guarded [OF five(3)] five(1,2) by (simp split: if_splits)
  qed
qed

definition willing_loader :: loader_env where
  "willing_loader = \<lparr>le_refuses = (\<lambda>_ _. False), le_inode = (\<lambda>_. 42), le_programs = (\<lambda>_. map fst PROGRAMS)\<rparr>"

definition no_links :: loader_fs where
  "no_links = \<lparr>lf_links = [], lf_guards = Map.empty, lf_log = []\<rparr>"

theorem loader_policy_witness:
  "\<exists>st'. loader_main willing_loader [''l'', ''o'', ''/c'', ''/p'', ''kill''] no_links = (0, st')
    \<and> loader_verdict st' 42 Sb_mount = (- 1, [9]) \<and> loader_verdict st' 41 Sb_mount = allow"
proof -
  obtain st' where run: "loader_main willing_loader [''l'', ''o'', ''/c'', ''/p'', ''kill''] no_links = (0, st')"
    by (simp add: loader_main_def loader_mode_def load_and_guard_def called_def willing_loader_def no_links_def
        PROGRAMS_def Let_def)
  have "lf_guards no_links = Map.empty" "\<And>obj. le_programs willing_loader obj = map fst PROGRAMS"
    by (simp_all add: no_links_def willing_loader_def)
  from loader_policy [OF run this] show ?thesis
    using run by (simp add: loader_mode_def willing_loader_def forbidden_def)
qed

end
