(* ===== verification/Test_Programs.thy ===== *)
theory Test_Programs
  imports Rust_Std
begin

text \<open>
  The programs the test scripts run inside containers: \<open>userspace/krunc-cpuhog/src/main.rs\<close>,
  \<open>userspace/krunc-memhog/src/main.rs\<close>, \<open>userspace/krunc-forktest/src/main.rs\<close>. What the kernel
  answers (the clock, the outcome of \<open>fork\<close>, the kill that may come at any moment) is a
  parameter; writes to the standard error may fail and are ignored, as the programs ignore them.
\<close>

section \<open>cpuhog\<close>

text \<open>
  \<open>elapsed n\<close> is what \<open>start.elapsed()\<close> gives at the \<open>n\<close>-th test of the loop, in nanoseconds.
\<close>

definition RUN :: nat where "RUN = 3 * 10 ^ 9"

definition sink_step :: "u64 \<Rightarrow> u64" where
  "sink_step sink = sink * 6364136223846793005 + 1442695040888963407"

fun mix :: "nat \<Rightarrow> u64 \<Rightarrow> u64" where
  "mix 0 sink = sink"
| "mix (Suc n) sink = mix n (sink_step sink)"

partial_function (option) cpu_loop :: "(nat \<Rightarrow> nat) \<Rightarrow> u64 \<Rightarrow> u64 \<Rightarrow> nat \<Rightarrow> (u64 \<times> u64) option" where
  "cpu_loop elapsed sink mloops n =
     (if elapsed n < RUN then cpu_loop elapsed (mix 1000000 sink) (mloops + 1) (n + 1)
      else Some (sink, mloops))"

text \<open>The two integers of the report; the seconds before them are a floating-point number.\<close>

definition cpuhog :: "(nat \<Rightarrow> nat) \<Rightarrow> (u64 \<times> u64) option" where
  "cpuhog elapsed = map_option (\<lambda>(sink, mloops). (mloops, sink AND 0xff)) (cpu_loop elapsed 0 0 0)"

section \<open>memhog\<close>

definition CHUNK :: nat where "CHUNK = 8 * 1024 * 1024"
definition PAGE :: nat where "PAGE = 4096"
definition MAX_TOTAL :: nat where "MAX_TOTAL = 4 * 1024 * 1024 * 1024"

lemmas hog_defs = CHUNK_def PAGE_def MAX_TOTAL_def

function touch :: "u8 list \<Rightarrow> nat \<Rightarrow> u8 list" where
  "touch chunk i = (if i < length chunk then touch (chunk[i := 0xa5]) (i + PAGE) else chunk)"
  by pat_completeness auto
termination by (relation "measure (\<lambda>(chunk, i). length chunk - i)") (auto simp: PAGE_def)

declare touch.simps [simp del]

text \<open>
  The chunks it holds, the bytes they have together and the lines it printed. \<open>killed n\<close> says
  that the kernel ends the process while the chunk number \<open>n\<close> is touched.
\<close>

record hog =
  hg_held :: "u8 list list"
  hg_total :: nat
  hg_lines :: "string list"

datatype hog_end = Killed hog | Exited hog

definition hog_chunk :: "hog \<Rightarrow> hog" where
  "hog_chunk h =
     (let chunk = touch (replicate CHUNK 0) 0; total = hg_total h + CHUNK in
      \<lparr>hg_held = hg_held h @ [chunk], hg_total = total,
       hg_lines = hg_lines h @
         [''[memhog] resident '' @ dec_str (int (total div (1024 * 1024))) @ '' MiB'']\<rparr>)"

function hog_loop :: "(nat \<Rightarrow> bool) \<Rightarrow> hog \<Rightarrow> hog_end" where
  "hog_loop killed h =
     (if hg_total h < MAX_TOTAL then
        (if killed (length (hg_held h)) then Killed h else hog_loop killed (hog_chunk h))
      else Exited (h\<lparr>hg_lines := hg_lines h @ [''[memhog] reached ''
        @ dec_str (int (MAX_TOTAL div (1024 * 1024))) @ '' MiB ceiling without an OOM kill'']\<rparr>))"
  by pat_completeness auto
termination
  by (relation "measure (\<lambda>(_, h). MAX_TOTAL - hg_total h)") (auto simp: hog_chunk_def Let_def hog_defs)

declare hog_loop.simps [simp del]

definition memhog :: "(nat \<Rightarrow> bool) \<Rightarrow> hog_end" where
  "memhog killed = hog_loop killed \<lparr>hg_held = [], hg_total = 0, hg_lines = []\<rparr>"

section \<open>forktest\<close>

definition MAX_ATTEMPTS :: nat where "MAX_ATTEMPTS = 1024"

text \<open>What one call of \<open>fork\<close> gives: an error number, the child's side, or the parent's.\<close>

datatype forked = Fork_denied int | Fork_child | Fork_parent

record counts =
  fk_started :: nat
  fk_denied :: nat
  fk_errno :: int

text \<open>Every process of the program ends in \<open>park\<close>: a child at once, the parent with its counts.\<close>

datatype parked = Child_parked | Parent_parked counts string

fun fork_loop :: "nat \<Rightarrow> (nat \<Rightarrow> forked) \<Rightarrow> nat \<Rightarrow> counts \<Rightarrow> counts option" where
  "fork_loop 0 fork i c = Some c"
| "fork_loop (Suc k) fork i c =
     (case fork i of
        Fork_denied e \<Rightarrow>
          (let c = c\<lparr>fk_denied := fk_denied c + 1, fk_errno := e\<rparr> in
           if fk_denied c \<ge> 3 then Some c else fork_loop k fork (i + 1) c)
      | Fork_child \<Rightarrow> None
      | Fork_parent \<Rightarrow> fork_loop k fork (i + 1) (c\<lparr>fk_started := fk_started c + 1\<rparr>))"

definition fork_line :: "counts \<Rightarrow> string" where
  "fork_line c = ''[forktest] started '' @ dec_str (int (fk_started c)) @ '' children, fork denied ''
     @ dec_str (int (fk_denied c)) @ ''x (errno='' @ dec_str (fk_errno c) @ '')''"

definition forktest :: "(nat \<Rightarrow> forked) \<Rightarrow> parked" where
  "forktest fork =
     (case fork_loop MAX_ATTEMPTS fork 0 \<lparr>fk_started = 0, fk_denied = 0, fk_errno = 0\<rparr> of
        None \<Rightarrow> Child_parked
      | Some c \<Rightarrow> Parent_parked c (fork_line c))"

section \<open>The printed byte of cpuhog\<close>

lemma mix_add: "mix (m + n) s = mix n (mix m s)"
  by (induction m arbitrary: s) simp_all

text \<open>Only the last byte of the sink counts for the last byte of the next one.\<close>

definition low :: "u64 \<Rightarrow> u8" where
  "low s = ucast s"

lemma low_byte: "s AND 0xff = ucast (low s)"
proof -
  have "s AND 0xff = s AND mask 8" by (simp add: mask_eq_exp_minus_1)
  also have "\<dots> = ucast (low s)"
    by (rule bit_word_eqI) (auto simp: low_def bit_and_iff bit_mask_iff bit_ucast_iff)
  finally show ?thesis .
qed

lemma low_int: "low (word_of_int i) = word_of_int i"
  by (simp add: low_def ucast_eq uint_word_of_int word_of_int_eq_iff take_bit_eq_mod mod_mod_cancel)

lemma low_step: "low (sink_step s) = 45 * low s + 79"
proof -
  have "sink_step s = word_of_int (uint s * 6364136223846793005 + 1442695040888963407)"
    by (simp add: sink_step_def)
  then have "low (sink_step s) = word_of_int (uint s * 6364136223846793005 + 1442695040888963407)"
    by (simp only: low_int)
  moreover have "low s = word_of_int (uint s)" using low_int [of "uint s"] by simp
  moreover have "(6364136223846793005 :: u8) = 45" "(1442695040888963407 :: u8) = 79" by simp_all
  ultimately have "low (sink_step s) = low s * 45 + 79"
    by (simp only: of_int_add of_int_mult of_int_numeral)
  then show ?thesis by (simp only: mult.commute)
qed

lemma low_double:
  assumes "\<And>s. low (mix n s) = a * low s + c" "a * a = a'" "a * c + c = c'"
  shows "low (mix (n + n) s) = a' * low s + c'"
  by (simp add: mix_add assms(1) algebra_simps flip: assms(2,3))

lemma low_mix_64: "low (mix 64 s) = low s + 64"
proof -
  have 1: "low (mix 1 s) = 45 * low s + 79" for s by (simp add: low_step)
  have 2: "low (mix 2 s) = 233 * low s + 50" for s
    using low_double [OF 1, of 233 50 s] by (simp only: one_add_one) simp
  have 4: "low (mix 4 s) = 17 * low s + 180" for s using low_double [OF 2, of 17 180 s] by simp
  have 8: "low (mix 8 s) = 33 * low s + 168" for s using low_double [OF 4, of 33 168 s] by simp
  have 16: "low (mix 16 s) = 65 * low s + 80" for s using low_double [OF 8, of 65 80 s] by simp
  have 32: "low (mix 32 s) = 129 * low s + 160" for s using low_double [OF 16, of 129 160 s] by simp
  show ?thesis using low_double [OF 32, of 1 64 s] by simp
qed

lemma low_mix_times: "low (mix (k * 64) s) = low s + of_nat k * 64"
proof (induction k arbitrary: s)
  case (Suc k)
  show ?case by (simp add: mix_add Suc low_mix_64 algebra_simps)
qed simp

lemma low_round: "low (mix 1000000 s) = low s + 64"
  using low_mix_times [of 15625 s] by simp

text \<open>As many rounds as the clock allows.\<close>

lemma cpu_loop_rounds:
  assumes "\<And>i. i < k \<Longrightarrow> elapsed (n + i) < RUN" "RUN \<le> elapsed (n + k)"
  shows "cpu_loop elapsed sink m n = Some (mix (k * 1000000) sink, m + of_nat k)"
  using assms
proof (induction k arbitrary: sink m n)
  case 0
  then show ?case by (subst cpu_loop.simps) simp
next
  case (Suc k)
  have e: "elapsed n < RUN" using Suc.prems(1) [of 0] by simp
  have "cpu_loop elapsed (mix 1000000 sink) (m + 1) (n + 1) =
      Some (mix (k * 1000000) (mix 1000000 sink), m + 1 + of_nat k)"
  proof (rule Suc.IH)
    show "elapsed (n + 1 + i) < RUN" if "i < k" for i using Suc.prems(1) [of "Suc i"] that by simp
    show "RUN \<le> elapsed (n + 1 + k)" using Suc.prems(2) by simp
  qed
  moreover have "mix (Suc k * 1000000) sink = mix (k * 1000000) (mix 1000000 sink)"
    by (simp only: mult_Suc mix_add)
  ultimately show ?case using e by (subst cpu_loop.simps) (simp add: add_ac)
qed

lemma low_rounds: "low (mix (k * 1000000) 0) = 64 * of_nat (k mod 4)"
proof (induction k)
  case 0
  show ?case by (simp add: low_def)
next
  case (Suc k)
  have "Suc k * 1000000 = k * 1000000 + 1000000" by simp
  then have "low (mix (Suc k * 1000000) 0) = 64 * of_nat (k mod 4) + 64"
    by (simp only: mix_add low_round Suc)
  moreover have "k mod 4 \<in> {0, 1, 2, 3}" by auto
  moreover have "Suc k mod 4 = (if k mod 4 = 3 then 0 else Suc (k mod 4))" by (simp add: mod_Suc)
  ultimately show ?case by auto
qed

section \<open>The pages of memhog\<close>

lemma length_touch [simp]: "length (touch chunk i) = length chunk"
  by (induction chunk i rule: touch.induct) (subst touch.simps, simp)

lemma nth_touch:
  "j < length chunk \<Longrightarrow> touch chunk i ! j = (if i \<le> j \<and> (j - i) mod PAGE = 0 then 0xa5 else chunk ! j)"
proof (induction chunk i rule: touch.induct)
  case (1 chunk i)
  show ?case
  proof (cases "i < length chunk")
    case False
    then show ?thesis using 1(2) by (subst touch.simps) simp
  next
    case True
    have ih: "touch (chunk[i := 0xa5]) (i + PAGE) ! j =
        (if i + PAGE \<le> j \<and> (j - (i + PAGE)) mod PAGE = 0 then 0xa5 else chunk[i := 0xa5] ! j)"
      using 1 True by simp
    have p: "i + PAGE \<le> j \<and> (j - (i + PAGE)) mod PAGE = 0 \<longleftrightarrow> i < j \<and> (j - i) mod PAGE = 0"
    proof (cases "i + PAGE \<le> j")
      case True
      then have "j - i = (j - (i + PAGE)) + PAGE" by simp
      then have "(j - i) mod PAGE = (j - (i + PAGE)) mod PAGE" by (simp only: mod_add_self2)
      then show ?thesis using True by (auto simp: PAGE_def)
    next
      case False
      then have "i < j \<Longrightarrow> (j - i) mod PAGE = j - i" by simp
      then show ?thesis using False by auto
    qed
    show ?thesis
      using True 1(2) unfolding p [symmetric] by (subst touch.simps) (auto simp: ih p)
  qed
qed

definition hog_after :: "nat \<Rightarrow> hog" where
  "hog_after n = \<lparr>hg_held = replicate n (touch (replicate CHUNK 0) 0), hg_total = n * CHUNK,
     hg_lines = map (\<lambda>k. ''[memhog] resident '' @ dec_str (int (8 * (k + 1))) @ '' MiB'') [0..<n]\<rparr>"

lemma hog_chunk_after: "hog_chunk (hog_after n) = hog_after (Suc n)"
proof -
  have "(n * CHUNK + CHUNK) div (1024 * 1024) = 8 * (n + 1)" by (simp add: CHUNK_def)
  then show ?thesis
    by (simp add: hog_chunk_def hog_after_def Let_def replicate_append_same)
qed

lemma hog_loop_after:
  assumes "\<And>i. m \<le> i \<Longrightarrow> i < n \<Longrightarrow> \<not> killed i" "m \<le> n" "n \<le> 512"
  shows "hog_loop killed (hog_after m) = hog_loop killed (hog_after n)"
  using assms(2,1)
proof (induction rule: inc_induct)
  case (step k)
  have "k < 512" using step assms(3) by simp
  then have "hg_total (hog_after k) < MAX_TOTAL" by (simp add: hog_after_def hog_defs)
  moreover have "\<not> killed (length (hg_held (hog_after k)))"
    using step by (simp add: hog_after_def)
  ultimately have "hog_loop killed (hog_after k) = hog_loop killed (hog_after (Suc k))"
    by (subst hog_loop.simps) (simp add: hog_chunk_after)
  then show ?case using step by simp
qed simp

section \<open>The counts of forktest\<close>

definition successes :: "(nat \<Rightarrow> forked) \<Rightarrow> nat \<Rightarrow> nat \<Rightarrow> nat" where
  "successes fork i n = length (filter (\<lambda>j. fork j = Fork_parent) [i..<i + n])"

lemma successes_simps [simp]:
  "successes fork i 0 = 0"
  "successes fork i (Suc n) = (if fork i = Fork_parent then 1 else 0) + successes fork (Suc i) n"
  by (simp_all add: successes_def upt_conv_Cons del: upt_Suc)

lemma fork_loop_counts:
  assumes "fork_loop k fork i c = Some c'" "fk_denied c < 3"
  shows "\<exists>n \<le> k. (n = k \<or> fk_denied c' = 3) \<and> fk_denied c' \<le> 3
    \<and> fk_started c' + fk_denied c' = fk_started c + fk_denied c + n
    \<and> fk_started c' = fk_started c + successes fork i n"
  using assms
proof (induction k arbitrary: i c)
  case 0
  then show ?case by auto
next
  case (Suc k)
  have more: ?case if "fork_loop k fork (Suc i) d = Some c'" "fk_denied d < 3"
      "fk_started d = fk_started c + (if fork i = Fork_parent then 1 else 0)"
      "fk_started d + fk_denied d = fk_started c + fk_denied c + 1" for d
  proof -
    from Suc.IH [OF that(1,2)] obtain n where "n \<le> k" "n = k \<or> fk_denied c' = 3" "fk_denied c' \<le> 3"
        "fk_started c' + fk_denied c' = fk_started d + fk_denied d + n"
        "fk_started c' = fk_started d + successes fork (Suc i) n"
      by blast
    then show ?thesis using that(3,4) by (intro exI [of _ "Suc n"]) simp
  qed
  show ?case
  proof (cases "fork i")
    case (Fork_denied e)
    let ?c = "c\<lparr>fk_denied := fk_denied c + 1, fk_errno := e\<rparr>"
    show ?thesis
    proof (cases "fk_denied ?c \<ge> 3")
      case True
      then have "c' = ?c" using Suc.prems Fork_denied by simp
      then show ?thesis using True Suc.prems(2) Fork_denied by (intro exI [of _ 1]) auto
    next
      case False
      then show ?thesis using Suc.prems(1) Fork_denied by (intro more [of ?c]) simp_all
    qed
  next
    case Fork_child
    then show ?thesis using Suc.prems by simp
  next
    case Fork_parent
    then show ?thesis
      using Suc.prems by (intro more [of "c\<lparr>fk_started := fk_started c + 1\<rparr>"]) simp_all
  qed
qed

lemma fork_loop_None: "fork_loop k fork i c = None \<Longrightarrow> \<exists>j < k. fork (i + j) = Fork_child"
proof (induction k arbitrary: i c)
  case (Suc k)
  show ?case
  proof (cases "fork i = Fork_child")
    case True
    then show ?thesis by (intro exI [of _ 0]) simp
  next
    case False
    then obtain c' where "fork_loop k fork (i + 1) c' = None"
      using Suc.prems by (auto split: forked.splits if_splits simp: Let_def)
    from Suc.IH [OF this] obtain j where "j < k" "fork (i + 1 + j) = Fork_child" by blast
    then show ?thesis by (intro exI [of _ "Suc j"]) simp
  qed
qed simp

text \<open>
  The \<open>pids\<close> controller: with a limit of \<open>Suc k\<close> tasks, of which the parent is one, the first \<open>k\<close>
  calls succeed and every later one fails with \<open>EAGAIN\<close>; no child ends.
\<close>

definition pids_fork :: "nat \<Rightarrow> nat \<Rightarrow> forked" where
  "pids_fork k i = (if i < k then Fork_parent else Fork_denied 11)"

lemma fork_loop_parents:
  "i + a \<le> k \<Longrightarrow> fork_loop (a + b) (pids_fork k) i c =
     fork_loop b (pids_fork k) (i + a) (c\<lparr>fk_started := fk_started c + a\<rparr>)"
proof (induction a arbitrary: i c)
  case (Suc a)
  have "pids_fork k i = Fork_parent" using Suc.prems by (simp add: pids_fork_def)
  then show ?case using Suc.IH [of "i + 1"] Suc.prems by simp
qed simp

lemma fork_loop_denied:
  assumes "k \<le> i"
  shows "fork_loop b (pids_fork k) i \<lparr>fk_started = s, fk_denied = 0, fk_errno = 0\<rparr> =
    Some \<lparr>fk_started = s, fk_denied = min 3 b, fk_errno = (if b = 0 then 0 else 11)\<rparr>"
proof -
  have d: "pids_fork k (i + j) = Fork_denied 11" for j using assms by (simp add: pids_fork_def)
  consider "b = 0" | "b = Suc 0" | "b = Suc (Suc 0)" | b' where "b = Suc (Suc (Suc b'))"
    by (metis not0_implies_Suc)
  then show ?thesis
    using d [of 0] d [of 1] d [of 2] by cases (simp_all add: Let_def)
qed

section \<open>Properties\<close>

text \<open>
What the fork probe counts. Whatever the kernel answers, the parent ends its loop after 1024
calls or at the third refusal, and its two counts are the calls it made, with the started ones
the successful ones; a process parks without a report only as a child. Under a limit of \<open>k + 1\<close>
tasks it starts \<open>k\<close> children, or 1024 when the limit is higher, is refused three times, or as
often as attempts are left, and reports \<open>EAGAIN\<close>: the container then holds exactly its limit.
\<close>

theorem forktest_counts:
  "(case forktest fork of
      Child_parked \<Rightarrow> \<exists>i. i < MAX_ATTEMPTS \<and> fork i = Fork_child
    | Parent_parked c report \<Rightarrow> report = fork_line c \<and> fk_denied c \<le> 3
        \<and> fk_started c + fk_denied c \<le> MAX_ATTEMPTS
        \<and> (fk_denied c = 3 \<or> fk_started c + fk_denied c = MAX_ATTEMPTS)
        \<and> fk_started c = successes fork 0 (fk_started c + fk_denied c))
   \<and> (\<exists>c. forktest (pids_fork k) = Parent_parked c (fork_line c)
        \<and> fk_started c = min MAX_ATTEMPTS k
        \<and> fk_denied c = min 3 (MAX_ATTEMPTS - k)
        \<and> fk_errno c = (if k < MAX_ATTEMPTS then 11 else 0)
        \<and> Suc (fk_started c) = min (Suc MAX_ATTEMPTS) (Suc k))"
proof
  let ?c = "\<lparr>fk_started = 0, fk_denied = 0, fk_errno = 0\<rparr>"
  show "case forktest fork of
      Child_parked \<Rightarrow> \<exists>i. i < MAX_ATTEMPTS \<and> fork i = Fork_child
    | Parent_parked c report \<Rightarrow> report = fork_line c \<and> fk_denied c \<le> 3
        \<and> fk_started c + fk_denied c \<le> MAX_ATTEMPTS
        \<and> (fk_denied c = 3 \<or> fk_started c + fk_denied c = MAX_ATTEMPTS)
        \<and> fk_started c = successes fork 0 (fk_started c + fk_denied c)"
    using fork_loop_None [of MAX_ATTEMPTS fork 0 ?c] fork_loop_counts [of MAX_ATTEMPTS fork 0 ?c]
    by (cases "fork_loop MAX_ATTEMPTS fork 0 ?c") (auto simp: forktest_def)
  have "fork_loop (min MAX_ATTEMPTS k + (MAX_ATTEMPTS - k)) (pids_fork k) 0 ?c =
      Some \<lparr>fk_started = min MAX_ATTEMPTS k, fk_denied = min 3 (MAX_ATTEMPTS - k),
        fk_errno = (if MAX_ATTEMPTS - k = 0 then 0 else 11)\<rparr>"
    using fork_loop_denied [of k "min MAX_ATTEMPTS k" "MAX_ATTEMPTS - k" "min MAX_ATTEMPTS k"]
    by (subst fork_loop_parents) (auto simp: min_def)
  moreover have "min MAX_ATTEMPTS k + (MAX_ATTEMPTS - k) = MAX_ATTEMPTS" by simp
  ultimately show "\<exists>c. forktest (pids_fork k) = Parent_parked c (fork_line c)
        \<and> fk_started c = min MAX_ATTEMPTS k \<and> fk_denied c = min 3 (MAX_ATTEMPTS - k)
        \<and> fk_errno c = (if k < MAX_ATTEMPTS then 11 else 0)
        \<and> Suc (fk_started c) = min (Suc MAX_ATTEMPTS) (Suc k)"
    by (auto simp: forktest_def)
qed

text \<open>
The memory probe touches every page. If the kernel kills the process at its chunk number \<open>n\<close>
and not before, the process holds \<open>n\<close> chunks of 8 MiB and has printed \<open>n\<close> lines; it exits by itself
exactly when it is not killed within its first 512 chunks, and holds the 4 GiB of its ceiling
then. In every chunk it holds the first byte of every page, and no other, has been written.
\<close>

theorem memhog_touches_pages:
  assumes "killed n" "\<And>i. i < n \<Longrightarrow> \<not> killed i"
  shows "\<exists>h. memhog killed = (if n < 512 then Killed h else Exited h)
      \<and> length (hg_held h) = min 512 n \<and> hg_total h = min 512 n * CHUNK
      \<and> hg_total h \<le> MAX_TOTAL \<and> length (hg_lines h) = (if n < 512 then n else 513)
      \<and> list_all (\<lambda>chunk. length chunk = CHUNK
          \<and> list_all (\<lambda>j. chunk ! j = (if j mod PAGE = 0 then 0xa5 else 0)) [0..<CHUNK]) (hg_held h)"
proof -
  let ?m = "min 512 n"
  have start: "memhog killed = hog_loop killed (hog_after 0)" by (simp add: memhog_def hog_after_def)
  also have "\<dots> = hog_loop killed (hog_after ?m)"
    by (rule hog_loop_after) (use assms(2) in simp_all)
  finally have loop: "memhog killed = hog_loop killed (hog_after ?m)" .
  have page: "list_all (\<lambda>j. touch (replicate CHUNK 0) 0 ! j = (if j mod PAGE = 0 then 0xa5 else 0)) [0..<CHUNK]"
    by (simp add: list_all_iff nth_touch)
  have held: "list_all (\<lambda>chunk. length chunk = CHUNK
      \<and> list_all (\<lambda>j. chunk ! j = (if j mod PAGE = 0 then 0xa5 else 0)) [0..<CHUNK]) (hg_held (hog_after ?m))"
    using page by (auto simp: hog_after_def list_all_iff)
  show ?thesis
  proof (cases "n < 512")
    case True
    then have "memhog killed = Killed (hog_after n)"
      using assms(1) unfolding loop by (subst hog_loop.simps) (simp add: hog_after_def hog_defs)
    then show ?thesis
      using True held by (intro exI [of _ "hog_after n"]) (simp add: hog_after_def hog_defs)
  next
    case False
    let ?h = "(hog_after 512)\<lparr>hg_lines := hg_lines (hog_after 512) @ [''[memhog] reached ''
        @ dec_str (int (MAX_TOTAL div (1024 * 1024))) @ '' MiB ceiling without an OOM kill'']\<rparr>"
    have "\<not> hg_total (hog_after 512) < MAX_TOTAL" by (simp add: hog_after_def hog_defs)
    then have "hog_loop killed (hog_after 512) = Exited ?h" by (subst hog_loop.simps) simp
    then have "memhog killed = Exited ?h" using False loop by simp
    moreover have "hg_held ?h = hg_held (hog_after ?m)" "hg_total ?h = 512 * CHUNK"
        "length (hg_lines ?h) = 513" "length (hg_held ?h) = 512"
      using False by (simp_all add: hog_after_def)
    ultimately show ?thesis
      using False held by (intro exI [of _ ?h]) (simp add: hog_defs)
  qed
qed

theorem memhog_touches_pages_witness:
  "\<exists>h. memhog (\<lambda>i. i = 32) = Killed h \<and> hg_total h = 268435456"
  using memhog_touches_pages [of "\<lambda>i. i = 32" 32] by (auto simp: CHUNK_def)

text \<open>
The report of the processor probe. If the clock reaches three seconds at the test number \<open>k\<close>
and not before, the program ends, after \<open>k\<close> million steps of its generator, with the report of \<open>k\<close>
and of the last byte of the generator's state, which is 64 times the remainder of \<open>k\<close> by 4.
\<close>

theorem cpuhog_report:
  assumes "RUN \<le> elapsed k" "\<And>i. i < k \<Longrightarrow> elapsed i < RUN"
  shows "cpu_loop elapsed 0 0 0 = Some (mix (k * 1000000) 0, of_nat k)
    \<and> cpuhog elapsed = Some (of_nat k, of_nat (64 * (k mod 4)))"
proof -
  have c: "cpu_loop elapsed 0 0 0 = Some (mix (k * 1000000) 0, of_nat k)"
    using cpu_loop_rounds [of k elapsed 0 0 0] assms by simp
  have "k mod 4 \<in> {0, 1, 2, 3}" by auto
  then have "mix (k * 1000000) 0 AND 0xff = of_nat (64 * (k mod 4))"
    unfolding low_byte low_rounds by auto
  then show ?thesis using c by (simp add: cpuhog_def)
qed

theorem cpuhog_report_witness: "cpuhog (\<lambda>i. i * 10 ^ 9) = Some (3, 192)"
  using cpuhog_report [where elapsed = "\<lambda>i. i * 10 ^ 9" and k = 3] by (simp add: RUN_def)

end
