(* ===== verification/Spec2Isabelle.thy ===== *)
theory Spec2Isabelle
  imports Abi_Tests Kernel_Contract Kernel_Create Kernel_Device Creds_Pipeline Helper_System
    Oci_Fuzz Cli_Guard Cli_Tests Cli_Pty Guarded_Setup Bpf_Loader Test_Programs
begin

text \<open>
  A verification of \<open>krunc\<close>, a container runtime whose engine is a Linux kernel module.

  \<^bold>\<open>The program.\<close> Userspace parses the OCI \<open>config.json\<close> of a bundle and translates it to a
  bounded specification (\<open>userspace/krunc-oci/src/lib.rs\<close>), which a second crate encodes as a
  sequence of tagged sections (\<open>userspace/krunc-abi/src/lib.rs\<close>). The command line tool
  (\<open>userspace/krunc-cli\<close>) hands the buffer to \<open>/dev/krunc\<close> with an ioctl. The module
  (\<open>module/krunc.rs\<close>) parses the buffer again, keeps the registry of containers, and clones one
  init task per container. A created container blocks at a shared control block, its gate, until
  \<open>start\<close> releases it or \<open>delete\<close> dooms it; then the task enters its rootfs, mounts, masks,
  limits, seals, drops its privileges and execs. The C functions of \<open>module/krunc_helper.c\<close> are
  the only way the module touches the kernel. Three small programs probe the limits of a
  container from the inside.

  \<^bold>\<open>Machine types.\<close> \<open>u8\<close> to \<open>u64\<close> are words; \<open>usize\<close> is \<open>nat\<close>, always the length of a buffer;
  an \<open>i32\<close> field of the wire is a 32-bit word, a pid or error number of the module an \<open>int\<close>. A
  Rust \<open>String\<close> is the list of its UTF-8 bytes as characters (\<open>wf_str\<close> is the type invariant),
  the module's \<open>KVec<u8>\<close> a list of bytes. \<open>Result\<close> is a sum with the error on the left and
  \<open>and_then\<close> is the question-mark operator.

  \<^bold>\<open>Theories and what they model.\<close>
  \<^item> \<open>Krunc_Prelude\<close>: the types above, little-endian integers, UTF-8, decimal numbers, and the
    rewrite rules \<open>result_simps\<close> for successful and failing results. \<open>Rust_Std\<close>: what the sources
    use of the standard library on slices, strings and paths.
  \<^item> \<open>Abi_Spec\<close>, \<open>Abi_Encode\<close>, \<open>Abi_Decode\<close>: \<open>krunc-abi\<close>: \<open>DomainSpec\<close>, \<open>validate\<close>, \<open>encode\<close>,
    \<open>decode\<close> with their error values and limits.
  \<^item> \<open>Byte_Reader\<close>, \<open>Section_Loop\<close>: the interface \<open>byte_source\<close> that both cursors (\<open>Reader\<close> of
    the crate, \<open>BReader\<close> of the module) provide, counted lists, leaf codecs (\<open>item_codec\<close>) and
    the loop over tagged sections (\<open>section_loop\<close>); what an accepted loop says about the bytes
    is proved there once.
  \<^item> \<open>Abi_Roundtrip\<close>, \<open>Abi_Properties\<close>: the interpretations for the crate; round trip, framing,
    truncation, trailing bytes, unknown tags, bounds. \<open>Crate_Tests\<close>, \<open>Abi_Tests\<close>: the unit tests of
    the crate as Booleans, with the generator of the randomized ones as a state.
  \<^item> \<open>Kernel_Decode\<close>: \<open>BReader\<close> and \<open>decode_spec\<close> of the module, the interfaces interpreted again.
  \<^item> \<open>Kernel_Simulation\<close>, \<open>Kernel_Wire\<close>: the module's parser refines the crate's
    (\<open>parser_refines\<close>, \<open>loop_simulation\<close>), its own bounds and exactness.
  \<^item> \<open>Kernel_Text\<close>: the text commands' tokens and numbers, what the number parser accepts, and the
    \<open>run\<close> line read back.
  \<^item> \<open>Kernel_Registry\<close>: \<open>REGISTRY\<close>, \<open>NEXT_ID\<close> and the control blocks as one record \<open>kstate\<close>, and
    \<open>spawn\<close>, \<open>create_from_blob\<close>, \<open>start_container\<close>, \<open>container_state\<close>, \<open>kill_container\<close>,
    \<open>delete_container\<close>, \<open>handle_text_command\<close>, \<open>write_iter\<close> as functions on it. An
    \<open>Arc<ContainerControl>\<close> is an address in the store of gates, so that the sharing between the
    registry and the task is explicit.
  \<^item> \<open>Kernel_Lifecycle\<close>, \<open>Kernel_Gate\<close>: the invariant of the registry, the step relation of
    requests and environment moves, reachability, the polling loop of the gate.
  \<^item> \<open>Kernel_Contract\<close>: the contract of the five lifecycle requests as a table from ids to
    started flags and pids, a locale for any server that keeps it, and its interpretation on the
    registry.
  \<^item> \<open>Kernel_Ioctl\<close>, \<open>Kernel_Create\<close>: the command block in user memory, the dispatcher, the
    status table; create on an encoded specification. \<open>Kernel_Device\<close>: the device file, its
    initialisation, reading the table in pieces, its rows read back, and the rows a host name can
    forge.
  \<^item> \<open>Kernel_Init\<close>, \<open>Kernel_Init_Properties\<close>: \<open>container_entry\<close> as the list of helper calls it
    makes, where each answer may depend on everything called before.
  \<^item> \<open>Oci_Config\<close>, \<open>Oci_Translate\<close>, \<open>Oci_Properties\<close>: \<open>krunc-oci\<close>: the parsed configuration,
    \<open>config_to_spec\<close> and its helpers, \<open>cgroup_config\<close>; what is accepted and what it becomes.
  \<^item> \<open>Json_Text\<close>, \<open>Json_Properties\<close>: the grammar of JSON as a lexer and a stack machine, with
    verdicts: a text is accepted with its value, rejected, or left open (exponents, surrogate
    escapes, deep nesting). \<open>Oci_Serde\<close>: the serde declarations of \<open>krunc-oci\<close> as readers of JSON
    values, and \<open>conforms\<close>, what a parser does that follows them.
  \<^item> \<open>Oci_Tests\<close>, \<open>Oci_Fuzz\<close>: the unit tests of the crate but one, and its randomized test, for any
    conforming parser.
  \<^item> \<open>Helper_Watch\<close>, \<open>Helper_System\<close>: the exit-watch table of \<open>module/krunc_helper.c\<close>, the contract
    \<open>exit_watch\<close> it keeps (for each pid the entries in use, in order, each open or with the code of an
    end; a pid may be watched more than once), and the registry on top of it.
    \<open>Helper_Creds\<close>: what the init task's calls do to its credentials, limits and names.
    \<open>Helper_Files\<close>: its calls that reach the file system, with a count of the references they
    hold, and the symbols resolved when the helper is loaded.
  \<^item> \<open>Sysctl_Pipeline\<close>: from a configuration to the files the init task writes.
    \<open>Creds_Pipeline\<close>: from a configuration to the credentials of the program.
  \<^item> \<open>Cli_Args\<close>, \<open>Cli_Args_Properties\<close>: the command line, signal names and the status words of
    \<open>waitpid\<close> (\<open>userspace/krunc-cli/src/main.rs\<close>).
  \<^item> \<open>Cli_Device\<close>: \<open>device.rs\<close>, the ioctl client, over the dispatcher of \<open>Kernel_Ioctl\<close>; each
    method is one lifecycle request.
  \<^item> \<open>Cli_Host\<close>: the machine a command runs on: the module's state, a table of files and
    directories, the log of the calls made so far. A computation (\<open>proc\<close>) ends with a value, a
    \<open>die\<close> or an \<open>exit\<close>; any call may be refused, depending on all calls before it.
  \<^item> \<open>Cli_Cgroup\<close>, \<open>Cli_Commands\<close>, \<open>Cli_Run\<close>: \<open>cgroup.rs\<close>, \<open>bpflsm.rs\<close> and the commands of
    \<open>main.rs\<close>, each as a computation composed the way the code composes it, up to \<open>krunc_main\<close>.
  \<^item> \<open>Cli_Frame\<close>: the interfaces \<open>world_order\<close>, \<open>file_order\<close>, \<open>removal_order\<close> and
    \<open>command_order\<close>: relations between machines that whole commands keep because their parts do.
    They are interpreted on the same module state (\<open>Cli_Create\<close>), on a quiet store (\<open>Cli_Store\<close>),
    on machines that agree beside one container (\<open>Cli_Separate\<close>), on the calls made
    (\<open>Cli_Confine\<close>) and on the growth of the log (\<open>Cli_Guard\<close>).
  \<^item> \<open>Cli_Create\<close>: what a \<open>create\<close> that succeeds or dies leaves in the module. \<open>Cli_Store\<close>,
    \<open>Cli_Reach\<close>: the invariant of the state store and the machines reached by any runs of the
    tool next to any other requests. \<open>Cli_Separate\<close>: commands leave other containers alone.
    \<open>Cli_Outcome\<close>: how a \<open>run\<close> ends. \<open>Cli_Confine\<close>: where cgroup files are. \<open>Cli_Selftest\<close>: the
    self-test of the parser. \<open>Cli_Demo\<close>: a small machine on which these are evaluated.
  \<^item> \<open>Cli_Pty\<close>: \<open>pty.rs\<close>, the terminal of \<open>run -t\<close>. \<open>Bpf_Tool\<close>, \<open>Bpf_Properties\<close>:
    \<open>userspace/krunc-bpf/src/main.rs\<close>, the program that arms the BPF-LSM hooks. \<open>Bpf_Lsm\<close>:
    \<open>bpf/krunc_lsm.bpf.c\<close>, the programs at these hooks, with the contract \<open>cgroup_policy\<close> each of
    them keeps. \<open>Bpf_Loader\<close>: \<open>bpf/krunc_lsm_loader.c\<close>, the older loader, and that it leaves the
    same policy. \<open>Cli_Guard\<close>: when \<open>create\<close> arms them. \<open>Guarded_Setup\<close>: the hooks, the helper's
    mounts and the init task of a guarded container together.
  \<^item> \<open>Cli_Synth\<close>, \<open>Cli_Tests\<close>: the configuration \<open>run\<close> synthesizes, read back by any conforming
    parser; the unit tests of the tool.
  \<^item> \<open>Test_Programs\<close>: \<open>userspace/krunc-cpuhog\<close>, \<open>krunc-memhog\<close> and \<open>krunc-forktest\<close>.

  \<^bold>\<open>Parameters.\<close> The C helpers are the record \<open>helper\<close>, functions on an arbitrary operating
  system state; no law is assumed of them, and \<open>c_helper\<close> is the record of the C code itself, over
  \<open>kernel_clone\<close>, \<open>kill_pid\<close> and a table of tasks. The answers to the init task's calls are an arbitrary
  function of the calls so far. User memory is a partial map with a writability predicate. Around
  the tool, the file system's refusals, what a torn write or removal leaves, the environment, the
  clock, \<open>waitpid\<close> and serde are the record \<open>host\<close>; of serde it is used that what is read back from
  a state that was written is that state, and that a number is not a state (\<open>serde_ok\<close>), that a
  configuration is parsed as grammar and attributes say (\<open>conforms\<close>), and that a rendered string
  is a JSON text of it (\<open>json_host\<close>); \<open>reference_parse\<close> and \<open>synth_host\<close> are instances. Of the kernel
  crate's copy to a reader, \<open>reads_buffer\<close> says what is documented. The \<open>aya\<close> calls of \<open>krunc-bpf\<close>
  may each be refused. What the kernel's file-system functions answer to the helper is the record
  \<open>vfs\<close>; that \<open>path_mount\<close> returns the refusal of the hook \<open>sb_mount\<close> is \<open>asks_lsm\<close>, with
  \<open>no_mount_vfs\<close> as an instance. The clock, \<open>fork\<close> and the OOM kill of the probes are arbitrary.

  \<^bold>\<open>Concurrency.\<close> The registry functions hold the registry lock from the lookup to the update,
  so each is one step; runs are arbitrary sequences of steps. \<open>spawn\<close> takes the lock only for
  its final push; as it creates its own gate, id and task before, merging it into one step loses
  only the interleavings that look the new id up before \<open>create\<close> has returned it. The gate is
  read by the task at arbitrary moments of a run: \<open>gate_poll\<close> gets the sequence of values loaded.

  \<^bold>\<open>Bounds and loops.\<close> Every loop is a recursion on the list or count it walks through. The
  loops that may not end, the poll of the gate and the two loops that wait for a container, are
  partial functions whose value is \<open>None\<close> when they do not return; that they return once the gate
  is answered, or the task is reaped, is proved. Statements about whole runs
  assume \<open>room\<close>: fewer than \<open>2 ^ 64 - 1\<close> containers were ever created, so that \<open>NEXT_ID\<close> has not
  wrapped around.

  \<^bold>\<open>Not modelled.\<close> Failing kernel allocations (each an early error return), the log messages, the
  text of I/O errors inside a message and what a command that goes on writes to the standard
  error, the two tests that random bytes do not panic (the model is total, so they would say
  nothing). The file table of the tool has no symbolic links and no permissions beyond the
  refusal of a call, and a file of \<open>/proc\<close> or \<open>/sys\<close> is written but has no content; the directories
  of tasks in \<open>/proc\<close> are not entries of the table, so whether a task is there is part of the answer
  to a call on its files. In
  \<open>run_lifecycle_pty\<close> the relayed bytes are left to \<open>Cli_Pty\<close>. The properties of the store are about
  ids that are plain file names; others are not refused by the code. What a signal of a BPF
  program does to the task after the call is the kernel's. The scripts are outside. The
  floating-point seconds in the report of \<open>cpuhog\<close> are left out.
\<close>

end
